(* ===== verification/Weights.thy ===== *)
theory Weights
  imports Prelude
begin

text \<open>
  Two-dimensional weights and the \<open>WeightInfo\<close> interface of \<open>pallet_content_rights\<close>
  (\<open>src/pallets/content-rights/src/weights.rs\<close>). A weight is a pair of a reference time and a
  proof size, both \<open>u64\<close>; all arithmetic on it saturates in each component. The locale
  \<open>split_weights\<close> states what the pallet relies on when it charges for the maximum number of
  royalty splits and refunds to the actual number; \<open>Content_Weights\<close> provides it.
\<close>

section \<open>Weights\<close>

datatype weight = from_parts (ref_time: u64) (proof_size: u64)

definition weight_saturating_add :: "weight \<Rightarrow> weight \<Rightarrow> weight" where
  "weight_saturating_add v w =
     from_parts (saturating_add (ref_time v) (ref_time w))
       (saturating_add (proof_size v) (proof_size w))"

definition weight_saturating_sub :: "weight \<Rightarrow> weight \<Rightarrow> weight" where
  "weight_saturating_sub v w =
     from_parts (saturating_sub (ref_time v) (ref_time w))
       (saturating_sub (proof_size v) (proof_size w))"

definition weight_saturating_mul :: "weight \<Rightarrow> u64 \<Rightarrow> weight" where
  "weight_saturating_mul w k =
     from_parts (saturating_mul (ref_time w) k) (saturating_mul (proof_size w) k)"

text \<open>The cost of database accesses, \<open>T::DbWeight\<close>: a reference time per read and per write.\<close>

datatype db_weight = RuntimeDbWeight (db_read: u64) (db_write: u64)

definition reads :: "db_weight \<Rightarrow> u64 \<Rightarrow> weight" where
  "reads db n = from_parts (saturating_mul (db_read db) n) 0"

definition writes :: "db_weight \<Rightarrow> u64 \<Rightarrow> weight" where
  "writes db n = from_parts (saturating_mul (db_write db) n) 0"

text \<open>Weights are ordered component-wise (\<open>all_lte\<close>), a partial order with least element zero.\<close>

instantiation weight :: order_bot
begin

definition less_eq_weight :: "weight \<Rightarrow> weight \<Rightarrow> bool" where
  "v \<le> w \<longleftrightarrow> ref_time v \<le> ref_time w \<and> proof_size v \<le> proof_size w"

definition less_weight :: "weight \<Rightarrow> weight \<Rightarrow> bool" where
  "v < w \<longleftrightarrow> v \<le> w \<and> \<not> w \<le> (v :: weight)"

definition bot_weight :: weight where
  "bot_weight = from_parts 0 0"

instance
  by standard
    (auto simp: less_eq_weight_def less_weight_def bot_weight_def weight.expand)

end

lemma weight_add_mono [intro]:
  "v \<le> v' \<Longrightarrow> w \<le> w' \<Longrightarrow> weight_saturating_add v w \<le> weight_saturating_add v' w'"
  by (auto simp: weight_saturating_add_def less_eq_weight_def intro: saturating_add_mono)

lemma weight_add_increasing: "v \<le> weight_saturating_add v w"
  by (simp add: weight_saturating_add_def less_eq_weight_def saturating_add_ge)

lemma weight_mul_mono [intro]:
  "k \<le> l \<Longrightarrow> weight_saturating_mul w k \<le> weight_saturating_mul w l"
  by (auto simp: weight_saturating_mul_def less_eq_weight_def intro: saturating_mul_mono)

lemma weight_sub_mono [intro]:
  "v \<le> v' \<Longrightarrow> weight_saturating_sub v w \<le> weight_saturating_sub v' w"
  by (auto simp: weight_saturating_sub_def less_eq_weight_def intro: saturating_sub_mono)

lemma reads_mono [intro]: "k \<le> l \<Longrightarrow> reads db k \<le> reads db l"
  by (auto simp: reads_def less_eq_weight_def intro: saturating_mul_mono)

lemma writes_mono [intro]: "k \<le> l \<Longrightarrow> writes db k \<le> writes db l"
  by (auto simp: writes_def less_eq_weight_def intro: saturating_mul_mono)

lemma saturating_mul_mono_right [intro]:
  "b \<le> d \<Longrightarrow> saturating_mul a b \<le> saturating_mul (a :: 'a::len word) d"
  by (rule saturating_mul_mono) simp_all

text \<open>A chain of \<open>saturating_add\<close> calls, as the generated weight functions are written.\<close>

definition weight_chain :: "weight \<Rightarrow> weight list \<Rightarrow> weight" where
  "weight_chain w ws = foldl weight_saturating_add w ws"

lemma weight_chain_simps [simp]:
  "weight_chain w [] = w"
  "weight_chain w (v # vs) = weight_chain (weight_saturating_add w v) vs"
  by (simp_all add: weight_chain_def)

lemma u32_into_u64_mono [intro]: "s \<le> t \<Longrightarrow> (ucast (s :: u32) :: u64) \<le> ucast t"
  by (simp add: word_le_nat_alt)

section \<open>The weight interface of the pallet\<close>

record weight_info =
  wi_register_content :: weight
  wi_subscribe :: "u32 \<Rightarrow> weight"
  wi_renew_subscription :: "u32 \<Rightarrow> weight"
  wi_purchase_views :: "u32 \<Rightarrow> weight"
  wi_consume_view :: weight
  wi_purchase_ownership :: "u32 \<Rightarrow> weight"
  wi_check_access :: weight
  wi_xcm_subscribe :: "u32 \<Rightarrow> weight"
  wi_xcm_renew_subscription :: "u32 \<Rightarrow> weight"
  wi_xcm_purchase_views :: "u32 \<Rightarrow> weight"
  wi_xcm_purchase_ownership :: "u32 \<Rightarrow> weight"
  wi_transfer_ownership :: weight
  wi_xcm_transfer_ownership :: weight
  wi_set_royalty_splits :: "u32 \<Rightarrow> weight"
  wi_enable_auto_renew :: weight
  wi_disable_auto_renew :: weight
  wi_query_rights_metadata :: "u32 \<Rightarrow> weight"
  wi_set_meter :: weight
  wi_consume_view_for :: weight
  wi_on_initialize_renewals :: "u32 \<Rightarrow> weight"
  wi_on_initialize_split_payments :: "u32 \<Rightarrow> weight"
  wi_scale_subscribe :: "u32 \<Rightarrow> weight"
  wi_scale_check_access :: "u32 \<Rightarrow> weight"
  wi_scale_consume_view :: "u32 \<Rightarrow> weight"
  wi_scale_transfer_ownership :: "u32 \<Rightarrow> weight"

text \<open>
  \<open>renewals_weight\<close> of the pallet: the weight \<open>on_initialize\<close> returns after \<open>n\<close> renewals that made
  \<open>p\<close> royalty transfers in total.
\<close>

definition renewals_weight :: "weight_info \<Rightarrow> u32 \<Rightarrow> u32 \<Rightarrow> weight" where
  "renewals_weight W n p =
     (let base = wi_on_initialize_renewals W n;
          splits = weight_saturating_sub (wi_on_initialize_split_payments W p)
                     (wi_on_initialize_split_payments W 0)
      in weight_saturating_add base splits)"

text \<open>
  What the pallet relies on: charging for more royalty splits, renewals or transfers never
  costs less.
\<close>

locale split_weights =
  fixes W :: weight_info
  assumes subscribe_mono: "s \<le> t \<Longrightarrow> wi_subscribe W s \<le> wi_subscribe W t"
    and renew_subscription_mono: "s \<le> t \<Longrightarrow> wi_renew_subscription W s \<le> wi_renew_subscription W t"
    and purchase_views_mono: "s \<le> t \<Longrightarrow> wi_purchase_views W s \<le> wi_purchase_views W t"
    and purchase_ownership_mono: "s \<le> t \<Longrightarrow> wi_purchase_ownership W s \<le> wi_purchase_ownership W t"
    and xcm_subscribe_mono: "s \<le> t \<Longrightarrow> wi_xcm_subscribe W s \<le> wi_xcm_subscribe W t"
    and xcm_renew_subscription_mono:
      "s \<le> t \<Longrightarrow> wi_xcm_renew_subscription W s \<le> wi_xcm_renew_subscription W t"
    and xcm_purchase_views_mono:
      "s \<le> t \<Longrightarrow> wi_xcm_purchase_views W s \<le> wi_xcm_purchase_views W t"
    and xcm_purchase_ownership_mono:
      "s \<le> t \<Longrightarrow> wi_xcm_purchase_ownership W s \<le> wi_xcm_purchase_ownership W t"
    and query_rights_metadata_mono:
      "s \<le> t \<Longrightarrow> wi_query_rights_metadata W s \<le> wi_query_rights_metadata W t"
    and on_initialize_renewals_mono:
      "s \<le> t \<Longrightarrow> wi_on_initialize_renewals W s \<le> wi_on_initialize_renewals W t"
    and on_initialize_split_payments_mono:
      "s \<le> t \<Longrightarrow> wi_on_initialize_split_payments W s \<le> wi_on_initialize_split_payments W t"
begin

lemma renewals_weight_mono:
  "n \<le> n' \<Longrightarrow> p \<le> p' \<Longrightarrow> renewals_weight W n p \<le> renewals_weight W n' p'"
  unfolding renewals_weight_def Let_def
  by (intro weight_add_mono weight_sub_mono on_initialize_renewals_mono
      on_initialize_split_payments_mono)

lemma renewals_weight_base: "wi_on_initialize_renewals W n \<le> renewals_weight W n p"
  by (simp add: renewals_weight_def Let_def weight_add_increasing)

end

end
