(* ===== verification/Scale_Codec.thy ===== *)
theory Scale_Codec
  imports Prelude
begin

text \<open>
  The part of the SCALE codec the sources use: fixed-width little-endian integers, booleans,
  byte arrays, and structs and tuples as the concatenation of their fields. The locale
  \<open>scale_codec\<close> is the interface of an encodable type: decoding an encoding followed by any
  rest returns the value and that rest. Its client lemmas (injectivity, unique readability,
  composition) are proved once and interpreted for every encoded type of the development.
\<close>

section \<open>The interface\<close>

locale scale_codec =
  fixes encode :: "'v \<Rightarrow> u8 list"
    and decode :: "u8 list \<Rightarrow> ('v \<times> u8 list) option"
  assumes decode_encode: "decode (encode v @ rest) = Some (v, rest)"
begin

lemma decode_encode_self: "decode (encode v) = Some (v, [])"
  using decode_encode [of v "[]"] by simp

lemma encode_append_eq: "encode v @ r = encode w @ r' \<Longrightarrow> v = w \<and> r = r'"
  by (metis decode_encode option.inject prod.inject)

lemma encode_append_eq_iff: "encode v @ r = encode w @ r' \<longleftrightarrow> v = w \<and> r = r'"
  using encode_append_eq by blast

lemma encode_eq_iff: "encode v = encode w \<longleftrightarrow> v = w"
  using encode_append_eq [of v "[]" w "[]"] by auto

end

text \<open>A canonical codec accepts nothing but encodings.\<close>

locale canonical_codec = scale_codec +
  assumes decode_sound: "decode bs = Some (v, rest) \<Longrightarrow> bs = encode v @ rest"
begin

lemma decode_iff: "decode bs = Some (v, rest) \<longleftrightarrow> bs = encode v @ rest"
  using decode_sound decode_encode by blast

end

section \<open>Little-endian integers\<close>

fun le_encode :: "nat \<Rightarrow> nat \<Rightarrow> u8 list" where
  "le_encode 0 n = []"
| "le_encode (Suc k) n = of_nat (n mod 256) # le_encode k (n div 256)"

fun le_decode :: "nat \<Rightarrow> u8 list \<Rightarrow> (nat \<times> u8 list) option" where
  "le_decode 0 bs = Some (0, bs)"
| "le_decode (Suc k) [] = None"
| "le_decode (Suc k) (b # bs) =
     map_option (\<lambda>(n, rest). (unat b + 256 * n, rest)) (le_decode k bs)"

lemma length_le_encode [simp]: "length (le_encode k n) = k"
  by (induction k arbitrary: n) auto

lemma unat_of_nat_u8: "unat (of_nat (n mod 256) :: u8) = n mod 256"
  by (simp add: unat_of_nat)

lemma le_decode_encode: "n < 256 ^ k \<Longrightarrow> le_decode k (le_encode k n @ rest) = Some (n, rest)"
proof (induction k arbitrary: n)
  case 0
  then show ?case by simp
next
  case (Suc k)
  then have "n div 256 < 256 ^ k" by (simp add: less_mult_imp_div_less mult.commute)
  with Suc.IH show ?case by (simp add: unat_of_nat_u8)
qed

lemma le_decode_bound: "le_decode k bs = Some (n, rest) \<Longrightarrow> n < 256 ^ k"
proof (induction k bs arbitrary: n rest rule: le_decode.induct)
  case (3 k b bs)
  then obtain m where m: "le_decode k bs = Some (m, rest)" "n = unat b + 256 * m" by auto
  with 3 have "m < 256 ^ k" by blast
  moreover have "unat b < 256" using unat_less_pow [of b] by simp
  ultimately show ?case using m(2) by simp
qed auto

lemma le_decode_sound: "le_decode k bs = Some (n, rest) \<Longrightarrow> bs = le_encode k n @ rest"
proof (induction k bs arbitrary: n rest rule: le_decode.induct)
  case (3 k b bs)
  then obtain m where m: "le_decode k bs = Some (m, rest)" "n = unat b + 256 * m" by auto
  have "unat b < 256" using unat_less_pow [of b] by simp
  with m have "n mod 256 = unat b" "n div 256 = m" by simp_all
  with 3 m show ?case by simp
qed auto

definition encode_u32 :: "u32 \<Rightarrow> u8 list" where
  "encode_u32 w = le_encode 4 (unat w)"

definition decode_u32 :: "u8 list \<Rightarrow> (u32 \<times> u8 list) option" where
  "decode_u32 bs = map_option (\<lambda>(n, rest). (of_nat n, rest)) (le_decode 4 bs)"

definition encode_u8 :: "u8 \<Rightarrow> u8 list" where
  "encode_u8 w = [w]"

definition decode_u8 :: "u8 list \<Rightarrow> (u8 \<times> u8 list) option" where
  "decode_u8 bs = (case bs of [] \<Rightarrow> None | b # rest \<Rightarrow> Some (b, rest))"

text \<open>A boolean is one byte, zero or one; any other byte is a decoding error.\<close>

definition encode_bool :: "bool \<Rightarrow> u8 list" where
  "encode_bool b = [if b then 1 else 0]"

definition decode_bool :: "u8 list \<Rightarrow> (bool \<times> u8 list) option" where
  "decode_bool bs =
     (case bs of [] \<Rightarrow> None
      | b # rest \<Rightarrow> if b = 0 then Some (False, rest) else if b = 1 then Some (True, rest) else None)"

lemma encode_u32_roundtrip: "decode_u32 (encode_u32 w @ rest) = Some (w, rest)"
proof -
  have "unat w < 256 ^ 4" using unat_less_pow [of w] by simp
  then show ?thesis by (simp add: decode_u32_def encode_u32_def le_decode_encode)
qed

lemma decode_u32_canonical: "decode_u32 bs = Some (w, rest) \<Longrightarrow> bs = encode_u32 w @ rest"
proof -
  assume "decode_u32 bs = Some (w, rest)"
  then obtain n where n: "le_decode 4 bs = Some (n, rest)" "w = of_nat n"
    by (auto simp: decode_u32_def)
  have "n < 2 ^ 32" using le_decode_bound [OF n(1)] by simp
  then have "unat w = n" by (simp add: n(2) unat_of_nat)
  then show ?thesis using le_decode_sound [OF n(1)] by (simp add: encode_u32_def)
qed

lemma length_encode_u32 [simp]: "length (encode_u32 w) = 4"
  by (simp add: encode_u32_def)

interpretation u32_codec: canonical_codec encode_u32 decode_u32
  by unfold_locales (auto simp: encode_u32_roundtrip decode_u32_canonical)

interpretation u8_codec: canonical_codec encode_u8 decode_u8
  by unfold_locales (auto simp: encode_u8_def decode_u8_def split: list.splits)

interpretation bool_codec: canonical_codec encode_bool decode_bool
  by unfold_locales (auto simp: encode_bool_def decode_bool_def split: list.splits if_splits)

section \<open>Byte arrays of a fixed length\<close>

definition decode_array :: "nat \<Rightarrow> u8 list \<Rightarrow> (u8 list \<times> u8 list) option" where
  "decode_array n bs = (if n \<le> length bs then Some (take n bs, drop n bs) else None)"

lemma decode_array_append: "length xs = n \<Longrightarrow> decode_array n (xs @ rest) = Some (xs, rest)"
  by (auto simp: decode_array_def)

lemma decode_array_Some:
  "decode_array n bs = Some (xs, rest) \<longleftrightarrow> bs = xs @ rest \<and> length xs = n"
  by (auto simp: decode_array_def)

section \<open>ASCII literals\<close>

definition ascii :: "string \<Rightarrow> u8 list" where
  "ascii s = map of_char s"

lemma length_ascii [simp]: "length (ascii s) = length s"
  by (simp add: ascii_def)

end
