(* ===== verification/Rights_Types.thy ===== *)
theory Rights_Types
  imports Weights Scale_Codec
begin

text \<open>
  The data model of \<open>pallet_content_rights\<close>: the types of
  \<open>src/pallets/content-rights/src/types.rs\<close>, and the storage, events, errors and configuration
  of \<open>src/pallets/content-rights/src/lib.rs\<close>.

  The pallet calls two pallets that are not part of the repository, \<open>pallet_balances\<close> (as
  \<open>T::PaymentCurrency\<close>) and \<open>pallet_nfts\<close>. Their state is the type parameter \<open>'x\<close> (field
  \<open>ext\<close> of the state) and their operations are fields of the configuration record: functions
  that return either an error or the new external state. Accounts are the type parameter \<open>'a\<close>.
\<close>

section \<open>Types of types.rs\<close>

datatype rights_type = Subscription | PayPerView | Ownership

record 'a content_metadata =
  creator :: 'a
  metadata_hash :: "u8 list"
  collection_id :: u32
  content_item_id :: u32
  title :: "u8 list"
  subscription_price :: u128
  ppv_price :: u128
  ownership_price :: u128
  period_length :: u32

record subscription_info =
  expiry_block :: u32
  auto_renew :: bool
  sub_child_item_id :: u32

record view_pack_info =
  views_remaining :: u32
  pack_child_item_id :: u32

record ownership_info =
  own_child_item_id :: u32

record rights_metadata =
  md_content_id :: u32
  md_rights_type :: rights_type
  md_metadata_hash :: "u8 list"
  md_title :: "u8 list"
  md_subscription_price :: u128
  md_ppv_price :: u128
  md_ownership_price :: u128
  md_period_length :: u32
  md_royalty_total_basis_points :: u16
  md_num_collaborators :: u8

record royalty_split =
  recipient :: "u8 list"
  basis_points :: u16

text \<open>The SCALE encoding of a field-less enum is its variant index.\<close>

fun encode_rights_type :: "rights_type \<Rightarrow> u8 list" where
  "encode_rights_type Subscription = [0]"
| "encode_rights_type PayPerView = [1]"
| "encode_rights_type Ownership = [2]"

text \<open>
  Rights are ordered by the priority in which \<open>access_rights\<close> reports them,
  \<open>Ownership > Subscription > PayPerView\<close>.
\<close>

fun rights_rank :: "rights_type \<Rightarrow> nat" where
  "rights_rank PayPerView = 0"
| "rights_rank Subscription = 1"
| "rights_rank Ownership = 2"

instantiation rights_type :: linorder
begin

definition less_eq_rights_type :: "rights_type \<Rightarrow> rights_type \<Rightarrow> bool" where
  "r \<le> q \<longleftrightarrow> rights_rank r \<le> rights_rank q"

definition less_rights_type :: "rights_type \<Rightarrow> rights_type \<Rightarrow> bool" where
  "r < q \<longleftrightarrow> rights_rank r < rights_rank q"

instance
proof
  fix r q :: rights_type
  show "r \<le> q \<Longrightarrow> q \<le> r \<Longrightarrow> r = q"
    by (cases r; cases q) (simp_all add: less_eq_rights_type_def)
qed (auto simp: less_eq_rights_type_def less_rights_type_def)

end

section \<open>Constants\<close>

definition MAX_RENEWALS_PER_BLOCK :: nat where
  "MAX_RENEWALS_PER_BLOCK = 10"

definition MAX_RENEWAL_SLOT_SEARCH :: nat where
  "MAX_RENEWAL_SLOT_SEARCH = 100"

definition MAX_ROYALTY_SPLITS :: u32 where
  "MAX_ROYALTY_SPLITS = 10"

section \<open>Events and errors\<close>

datatype auto_renew_fail_reason = InsufficientBalance | ContentNotFound_reason | RenewalQueueFull_reason

datatype 'a event =
    ContentRegistered u32 'a u32 u32
  | SubscriptionCreated u32 'a u32
  | SubscriptionRenewed u32 'a u32
  | ViewPackPurchased u32 'a u32
  | ViewConsumed u32 'a u32
  | OwnershipPurchased u32 'a
  | AccessChecked u32 'a bool
  | ChildNested u32 u32 u32 u32
  | CrossChainSubscriptionCreated u32 'a 'a u32
  | CrossChainSubscriptionRenewed u32 'a 'a u32
  | CrossChainViewPackPurchased u32 'a 'a u32
  | CrossChainOwnershipPurchased u32 'a 'a
  | OwnershipTransferred u32 'a 'a
  | CrossChainOwnershipTransferred u32 'a 'a 'a
  | RoyaltySplitsUpdated u32 'a u32
  | RoyaltyDistributed u32 'a u128
  | AutoRenewEnabled u32 'a
  | AutoRenewDisabled u32 'a
  | RightsMetadataQueried u32 rights_metadata
  | AutoRenewalProcessed u32 'a u32
  | AutoRenewalFailed u32 'a auto_renew_fail_reason
  | MeterSet u32 "'a option"

datatype error =
    ContentNotFound
  | NotContentCreator
  | SubscriptionAlreadyExists
  | SubscriptionNotFound
  | SubscriptionNotExpired
  | ViewPackNotFound
  | NoViewsRemaining
  | AlreadyOwned
  | InsufficientPayment
  | NftOperationFailed
  | ContentIdOverflow
  | ItemIdOverflow
  | OwnershipNotFound
  | InvalidRoyaltySplits
  | AutoRenewAlreadyEnabled
  | AutoRenewNotEnabled
  | Unauthorized
  | RenewalQueueFull
  | ZeroViews
  | AutoRenewPeriodTooShort

text \<open>
  A dispatch error: an error of this pallet, a bad origin, or an error of another pallet, which
  is only passed on.
\<close>

datatype dispatch_error = Pallet error | BadOrigin | External nat

datatype 'a origin = Signed 'a | Root | NoOrigin | Custom nat

definition ensure_signed :: "'a origin \<Rightarrow> dispatch_error + 'a" where
  "ensure_signed og = (case og of Signed who \<Rightarrow> Inr who | _ \<Rightarrow> Inl BadOrigin)"

section \<open>Configuration: the operations of other pallets\<close>

datatype preservation = Expendable | Protect | Preserve

datatype collection_setting = TransferableItems | OtherSetting nat

record collection_config =
  disabled_settings :: "collection_setting list"
  max_supply :: "u32 option"

datatype attribute_namespace = CollectionOwner | OtherNamespace nat

record ('a, 'x) config =
  currency_transfer :: "'a \<Rightarrow> 'a \<Rightarrow> u128 \<Rightarrow> preservation \<Rightarrow> 'x \<Rightarrow> dispatch_error + 'x"
  try_into_balance :: "u128 \<Rightarrow> u128 option"
  decode_account :: "u8 list \<Rightarrow> 'a option"
  nfts_next_collection_id :: "'x \<Rightarrow> u32 option"
  nfts_set_next_collection_id :: "u32 \<Rightarrow> 'x \<Rightarrow> 'x"
  nfts_collection_deposit :: u128
  nfts_do_create_collection ::
    "u32 \<Rightarrow> 'a \<Rightarrow> 'a \<Rightarrow> collection_config \<Rightarrow> u128 \<Rightarrow> u32 \<times> 'a \<times> 'a \<Rightarrow> 'x \<Rightarrow> dispatch_error + 'x"
  nfts_do_mint :: "u32 \<Rightarrow> u32 \<Rightarrow> 'a option \<Rightarrow> 'a \<Rightarrow> 'x \<Rightarrow> dispatch_error + 'x"
  nfts_set_attribute ::
    "'a origin \<Rightarrow> u32 \<Rightarrow> u32 option \<Rightarrow> attribute_namespace \<Rightarrow> u8 list \<Rightarrow> u8 list \<Rightarrow> 'x \<Rightarrow>
       dispatch_error + 'x"
  nfts_do_burn :: "u32 \<Rightarrow> u32 \<Rightarrow> 'x \<Rightarrow> dispatch_error + 'x"
  nfts_key_limit :: nat
  nfts_value_limit :: nat
  min_auto_renew_period :: u32
  weights :: weight_info

section \<open>Storage\<close>

text \<open>
  One field per storage item. A \<open>StorageMap\<close> with \<open>OptionQuery\<close> is a partial map, a double map
  is a partial map on pairs, a map with \<open>ValueQuery\<close> of a default value is a total function;
  \<open>AutoRenewIndex\<close> is queried with \<open>contains_key\<close> and is therefore a partial map. \<open>events\<close> is the
  sequence of \<open>deposit_event\<close> calls and \<open>block_number\<close> the block number of \<open>frame_system\<close>.
\<close>

record ('a, 'x) state =
  next_content_id :: u32
  next_item_id :: "u32 \<Rightarrow> u32"
  contents :: "u32 \<rightharpoonup> 'a content_metadata"
  subscriptions :: "u32 \<times> 'a \<rightharpoonup> subscription_info"
  view_packs :: "u32 \<times> 'a \<rightharpoonup> view_pack_info"
  ownership :: "u32 \<times> 'a \<rightharpoonup> ownership_info"
  auto_renew_index :: "u32 \<times> 'a \<rightharpoonup> bool"
  renewal_queue :: "u32 \<Rightarrow> (u32 \<times> 'a) list"
  royalty_splits :: "u32 \<Rightarrow> royalty_split list"
  parent :: "u32 \<times> u32 \<rightharpoonup> u32 \<times> u32"
  meters :: "u32 \<rightharpoonup> 'a"
  block_number :: nat
  events :: "'a event list"
  ext :: 'x

text \<open>The storage of a chain on which the pallet has not been used.\<close>

definition genesis :: "nat \<Rightarrow> 'x \<Rightarrow> ('a, 'x) state" where
  "genesis n x =
     \<lparr>next_content_id = 0, next_item_id = (\<lambda>_. 0), contents = Map.empty,
      subscriptions = Map.empty, view_packs = Map.empty, ownership = Map.empty,
      auto_renew_index = Map.empty, renewal_queue = (\<lambda>_. []), royalty_splits = (\<lambda>_. []),
      parent = Map.empty, meters = Map.empty, block_number = n, events = [], ext = x\<rparr>"

definition deposit_event :: "'a event \<Rightarrow> ('a, 'x) state \<Rightarrow> ('a, 'x) state" where
  "deposit_event e s = s\<lparr>events := events s @ [e]\<rparr>"

text \<open>The recurring \<open>block_number().try_into().unwrap_or(0u32)\<close>.\<close>

definition current_block :: "('a, 'x) state \<Rightarrow> u32" where
  "current_block s = unwrap_or (try_into_u32 (block_number s)) 0"

lemma current_block_cong [simp]:
  "current_block (s\<lparr>next_content_id := v1\<rparr>) = current_block s"
  "current_block (s\<lparr>next_item_id := v2\<rparr>) = current_block s"
  "current_block (s\<lparr>contents := v3\<rparr>) = current_block s"
  "current_block (s\<lparr>subscriptions := v4\<rparr>) = current_block s"
  "current_block (s\<lparr>view_packs := v5\<rparr>) = current_block s"
  "current_block (s\<lparr>ownership := v6\<rparr>) = current_block s"
  "current_block (s\<lparr>auto_renew_index := v7\<rparr>) = current_block s"
  "current_block (s\<lparr>renewal_queue := v8\<rparr>) = current_block s"
  "current_block (s\<lparr>royalty_splits := v9\<rparr>) = current_block s"
  "current_block (s\<lparr>parent := v10\<rparr>) = current_block s"
  "current_block (s\<lparr>meters := v11\<rparr>) = current_block s"
  "current_block (s\<lparr>events := v12\<rparr>) = current_block s"
  "current_block (s\<lparr>ext := v13\<rparr>) = current_block s"
  by (simp_all add: current_block_def)

lemma deposit_event_simps [simp]:
  "next_content_id (deposit_event e s) = next_content_id s"
  "next_item_id (deposit_event e s) = next_item_id s"
  "contents (deposit_event e s) = contents s"
  "subscriptions (deposit_event e s) = subscriptions s"
  "view_packs (deposit_event e s) = view_packs s"
  "ownership (deposit_event e s) = ownership s"
  "auto_renew_index (deposit_event e s) = auto_renew_index s"
  "renewal_queue (deposit_event e s) = renewal_queue s"
  "royalty_splits (deposit_event e s) = royalty_splits s"
  "parent (deposit_event e s) = parent s"
  "meters (deposit_event e s) = meters s"
  "block_number (deposit_event e s) = block_number s"
  "events (deposit_event e s) = events s @ [e]"
  "ext (deposit_event e s) = ext s"
  "current_block (deposit_event e s) = current_block s"
  by (simp_all add: deposit_event_def)

text \<open>Two states with the same storage: only the external state changed and events were deposited.\<close>

definition only_ext_events :: "('a, 'x) state \<Rightarrow> ('a, 'x) state \<Rightarrow> bool" where
  "only_ext_events s s' \<longleftrightarrow> s' = s\<lparr>ext := ext s', events := events s'\<rparr> \<and> (\<exists>evs. events s' = events s @ evs)"

lemma only_ext_events_refl [simp]: "only_ext_events s s"
  by (simp add: only_ext_events_def)

lemma only_ext_events_trans:
  "only_ext_events s t \<Longrightarrow> only_ext_events t u \<Longrightarrow> only_ext_events s u"
  unfolding only_ext_events_def by (cases s; cases t; cases u) auto

lemma only_ext_events_ext [simp]: "only_ext_events s (s\<lparr>ext := x\<rparr>)"
  by (simp add: only_ext_events_def)

lemma only_ext_events_deposit [simp]: "only_ext_events s (deposit_event e s)"
  by (simp add: only_ext_events_def deposit_event_def)

lemma only_ext_events_cases:
  assumes "only_ext_events s s'"
  obtains x evs where "s' = s\<lparr>ext := x, events := events s @ evs\<rparr>"
  using assms by (metis only_ext_events_def)

lemma ensure_signed_Inr [result_simps]: "ensure_signed og = Inr who \<longleftrightarrow> og = Signed who"
  by (auto simp: ensure_signed_def split: origin.splits)

lemma ensure_signed_simps [simp]: "ensure_signed (Signed who) = Inr who"
  by (simp add: ensure_signed_def)

lemma ensure_signed_not:
  "(\<forall>who. og \<noteq> Signed who) \<Longrightarrow> ensure_signed og = Inl BadOrigin"
  by (auto simp: ensure_signed_def split: origin.splits)

end
