(* ===== verification/Rights_Payment.thy ===== *)
theory Rights_Payment
  imports Rights_Types
begin

text \<open>
  Payments of \<open>pallet_content_rights\<close>: \<open>transfer_amount\<close> and \<open>pay_with_royalties\<close> of
  \<open>src/pallets/content-rights/src/lib.rs\<close>. The abstract specification of a payment is its
  \<open>payment_plan\<close>, the list of payees with their amounts; a successful payment is exactly the
  execution of that plan, the plan adds up to the amount, and on a currency that moves what it
  is told to move every account is credited with its entries of the plan.
\<close>

section \<open>The operations\<close>

definition transfer_amount ::
  "('a, 'x) config \<Rightarrow> 'a \<Rightarrow> 'a \<Rightarrow> u128 \<Rightarrow> ('a, 'x) state \<Rightarrow> dispatch_error + ('a, 'x) state" where
  "transfer_amount cfg payer to amount s =
     and_then (ok_or (try_into_balance cfg amount) (Pallet InsufficientPayment)) (\<lambda>amount_balance.
     and_then (currency_transfer cfg payer to amount_balance Preserve (ext s)) (\<lambda>x.
     Inr (s\<lparr>ext := x\<rparr>)))"

definition royalty_share :: "u128 \<Rightarrow> u16 \<Rightarrow> u128" where
  "royalty_share amount bp = saturating_mul amount (ucast bp) div 10000"

text \<open>The loop over the splits; the accumulator is \<open>distributed\<close>.\<close>

fun pay_splits ::
  "('a, 'x) config \<Rightarrow> 'a \<Rightarrow> u32 \<Rightarrow> u128 \<Rightarrow> royalty_split list \<Rightarrow> u128 \<Rightarrow> ('a, 'x) state \<Rightarrow>
     dispatch_error + u128 \<times> ('a, 'x) state" where
  "pay_splits cfg payer content_id amount [] distributed s = Inr (distributed, s)"
| "pay_splits cfg payer content_id amount (split # splits) distributed s =
     (let share = royalty_share amount (basis_points split) in
      if share > 0 then
        and_then (ok_or (decode_account cfg (recipient split)) (Pallet InvalidRoyaltySplits)) (\<lambda>rcpt.
        and_then (transfer_amount cfg payer rcpt share s) (\<lambda>s.
        pay_splits cfg payer content_id amount splits (saturating_add distributed share)
          (deposit_event (RoyaltyDistributed content_id rcpt share) s)))
      else pay_splits cfg payer content_id amount splits distributed s)"

definition pay_with_royalties ::
  "('a, 'x) config \<Rightarrow> 'a \<Rightarrow> 'a \<Rightarrow> u32 \<Rightarrow> u128 \<Rightarrow> ('a, 'x) state \<Rightarrow>
     dispatch_error + u32 \<times> ('a, 'x) state" where
  "pay_with_royalties cfg payer creator_acc content_id amount s =
     (let splits = royalty_splits s content_id;
          num_splits = of_nat (length splits)
      in if splits = [] then
           and_then (transfer_amount cfg payer creator_acc amount s) (\<lambda>s. Inr (num_splits, s))
         else
           and_then (pay_splits cfg payer content_id amount splits 0 s) (\<lambda>(distributed, s).
           let remainder = saturating_sub amount distributed in
           if remainder > 0 then
             and_then (transfer_amount cfg payer creator_acc remainder s) (\<lambda>s. Inr (num_splits, s))
           else Inr (num_splits, s)))"

section \<open>The payment plan\<close>

definition total_basis_points :: "royalty_split list \<Rightarrow> nat" where
  "total_basis_points splits = (\<Sum>sp\<leftarrow>splits. unat (basis_points sp))"

definition valid_splits :: "royalty_split list \<Rightarrow> bool" where
  "valid_splits splits \<longleftrightarrow>
     length splits \<le> unat MAX_ROYALTY_SPLITS \<and> total_basis_points splits \<le> 10000"

fun split_plan :: "('a, 'x) config \<Rightarrow> u128 \<Rightarrow> royalty_split list \<Rightarrow> ('a \<times> u128) list" where
  "split_plan cfg amount [] = []"
| "split_plan cfg amount (split # splits) =
     (let share = royalty_share amount (basis_points split) in
      (case decode_account cfg (recipient split) of
         Some rcpt \<Rightarrow> if share > 0 then [(rcpt, share)] else []
       | None \<Rightarrow> [])
      @ split_plan cfg amount splits)"

definition plan_total :: "('a \<times> u128) list \<Rightarrow> nat" where
  "plan_total plan = (\<Sum>(who, v)\<leftarrow>plan. unat v)"

definition credited :: "('a \<times> u128) list \<Rightarrow> 'a \<Rightarrow> nat" where
  "credited plan a = (\<Sum>(who, v)\<leftarrow>plan. if who = a then unat v else 0)"

definition payment_plan ::
  "('a, 'x) config \<Rightarrow> 'a \<Rightarrow> u128 \<Rightarrow> royalty_split list \<Rightarrow> ('a \<times> u128) list" where
  "payment_plan cfg creator_acc amount splits =
     (let shares = split_plan cfg amount splits;
          rest = unat amount - plan_total shares
      in if splits = [] then [(creator_acc, amount)]
         else shares @ (if rest > 0 then [(creator_acc, of_nat rest)] else []))"

fun transfer_all ::
  "('a, 'x) config \<Rightarrow> 'a \<Rightarrow> ('a \<times> u128) list \<Rightarrow> 'x \<Rightarrow> dispatch_error + 'x" where
  "transfer_all cfg payer [] x = Inr x"
| "transfer_all cfg payer ((to, v) # plan) x =
     and_then (ok_or (try_into_balance cfg v) (Pallet InsufficientPayment)) (\<lambda>b.
     and_then (currency_transfer cfg payer to b Preserve x) (transfer_all cfg payer plan))"

text \<open>
  What is relied on of the currency: the conversion to its balance type preserves the value,
  and a transfer that keeps the sender alive debits the sender and credits the receiver by the
  amount and touches no other account.
\<close>

definition moves_funds :: "('a, 'x) config \<Rightarrow> ('x \<Rightarrow> 'a \<Rightarrow> nat) \<Rightarrow> bool" where
  "moves_funds cfg bal \<longleftrightarrow>
     (\<forall>v b. try_into_balance cfg v = Some b \<longrightarrow> b = v) \<and>
     (\<forall>payer to v x x'. currency_transfer cfg payer to v Preserve x = Inr x' \<longrightarrow>
        unat v \<le> bal x payer \<and>
        (\<forall>a. bal x' a =
           (if a = payer then bal x a - unat v else bal x a) + (if a = to then unat v else 0)))"

section \<open>Shares\<close>

lemma u128_10000 [simp]: "unat (10000 :: u128) = 10000"
  by simp

lemma unat_royalty_share:
  "unat (royalty_share amount bp) = min (unat amount * unat bp) (2 ^ 128 - 1) div 10000"
  by (simp add: royalty_share_def unat_div machine_arith)

lemma royalty_share_le: "unat (royalty_share amount bp) \<le> unat amount * unat bp div 10000"
  unfolding unat_royalty_share by (intro div_le_mono) simp

text \<open>Without saturation the share is the exact floor of the percentage.\<close>

lemma royalty_share_exact:
  "unat amount * unat bp < 2 ^ 128 \<Longrightarrow>
     unat (royalty_share amount bp) = unat amount * unat bp div 10000"
  by (simp add: unat_royalty_share)

lemma plan_total_simps [simp]:
  "plan_total [] = 0"
  "plan_total ((a, v) # plan) = unat v + plan_total plan"
  "plan_total (p @ q) = plan_total p + plan_total q"
  by (simp_all add: plan_total_def)

lemma credited_simps [simp]:
  "credited [] a = 0"
  "credited ((who, v) # plan) a = (if who = a then unat v else 0) + credited plan a"
  "credited (p @ q) a = credited p a + credited q a"
  by (simp_all add: credited_def)

lemma credited_le: "credited plan a \<le> plan_total plan"
  by (induction plan) (auto simp: plan_total_def credited_def)

lemma split_plan_total_le:
  "10000 * plan_total (split_plan cfg amount splits) \<le> unat amount * total_basis_points splits"
proof (induction splits)
  case (Cons sp sps)
  have "10000 * unat (royalty_share amount (basis_points sp)) \<le> unat amount * unat (basis_points sp)"
    using royalty_share_le [of amount "basis_points sp"] by linarith
  with Cons show ?case
    by (auto simp: total_basis_points_def Let_def algebra_simps split: option.splits)
qed (simp add: total_basis_points_def)

lemma split_plan_total_bound:
  assumes "total_basis_points splits \<le> 10000"
  shows "plan_total (split_plan cfg amount splits) \<le> unat amount"
proof -
  have "unat amount * total_basis_points splits \<le> unat amount * 10000"
    using assms by simp
  then show ?thesis using split_plan_total_le [of cfg amount splits] by linarith
qed

lemma payment_plan_total:
  assumes "total_basis_points splits \<le> 10000"
  shows "plan_total (payment_plan cfg c amount splits) = unat amount"
proof -
  let ?n = "plan_total (split_plan cfg amount splits)"
  have "unat amount - ?n < 2 ^ 128" using unat_less_pow [of amount] by simp
  then have "unat (of_nat (unat amount - ?n) :: u128) = unat amount - ?n"
    by (simp add: unat_of_nat)
  then show ?thesis
    using split_plan_total_bound [OF assms, of cfg amount] by (simp add: payment_plan_def Let_def)
qed

section \<open>A payment executes its plan\<close>

lemma transfer_amount_Inr:
  "transfer_amount cfg payer to v s = Inr s' \<longleftrightarrow>
     (\<exists>x. transfer_all cfg payer [(to, v)] (ext s) = Inr x \<and> s' = s\<lparr>ext := x\<rparr>)"
  by (auto simp: transfer_amount_def result_simps)

lemma transfer_all_append:
  "transfer_all cfg payer (p @ q) x = and_then (transfer_all cfg payer p x) (transfer_all cfg payer q)"
  by (induction p arbitrary: x) (auto simp: and_then_def ok_or_def split: sum.splits option.splits)

lemma transfer_all_Cons:
  "transfer_all cfg payer (p # q) x =
     and_then (transfer_all cfg payer [p] x) (transfer_all cfg payer q)"
  using transfer_all_append [of cfg payer "[p]" q x] by simp

definition royalty_events :: "u32 \<Rightarrow> ('a \<times> u128) list \<Rightarrow> 'a event list" where
  "royalty_events content_id plan = map (\<lambda>(who, v). RoyaltyDistributed content_id who v) plan"

lemma pay_splits_plan:
  assumes "pay_splits cfg payer cid amount splits d s = Inr (d', s')"
    and "unat d + plan_total (split_plan cfg amount splits) < 2 ^ 128"
  shows "unat d' = unat d + plan_total (split_plan cfg amount splits) \<and>
    (\<exists>x. transfer_all cfg payer (split_plan cfg amount splits) (ext s) = Inr x \<and>
         s' = s\<lparr>ext := x, events := events s @ royalty_events cid (split_plan cfg amount splits)\<rparr>)"
  using assms
proof (induction splits arbitrary: d s)
  case Nil
  then show ?case by (simp add: royalty_events_def)
next
  case (Cons sp sps)
  let ?share = "royalty_share amount (basis_points sp)"
  show ?case
  proof (cases "?share > 0")
    case False
    then have "split_plan cfg amount (sp # sps) = split_plan cfg amount sps"
      by (auto simp: Let_def split: option.splits)
    with False Cons show ?thesis by (auto simp: Let_def)
  next
    case True
    with Cons.prems(1) obtain r s1 where
      r: "decode_account cfg (recipient sp) = Some r"
      and t: "transfer_amount cfg payer r ?share s = Inr s1"
      and rec: "pay_splits cfg payer cid amount sps (saturating_add d ?share)
        (deposit_event (RoyaltyDistributed cid r ?share) s1) = Inr (d', s')"
      by (auto simp: Let_def result_simps)
    from r True have plan:
      "split_plan cfg amount (sp # sps) = (r, ?share) # split_plan cfg amount sps" by simp
    from Cons.prems(2) plan have d: "unat (saturating_add d ?share) = unat d + unat ?share"
      by (simp add: machine_arith)
    from t obtain x1 where x1: "transfer_all cfg payer [(r, ?share)] (ext s) = Inr x1"
      and s1: "s1 = s\<lparr>ext := x1\<rparr>" by (auto simp: transfer_amount_Inr)
    from Cons.IH [OF rec] Cons.prems(2) plan d s1 obtain x where
      "unat d' = unat d + unat ?share + plan_total (split_plan cfg amount sps)"
      "transfer_all cfg payer (split_plan cfg amount sps) x1 = Inr x"
      "s' = s\<lparr>ext := x, events := (events s @ [RoyaltyDistributed cid r ?share])
         @ royalty_events cid (split_plan cfg amount sps)\<rparr>"
      by (auto simp: deposit_event_def)
    then show ?thesis
      unfolding plan
      by (subst transfer_all_Cons) (simp add: x1 royalty_events_def del: transfer_all.simps)
  qed
qed

lemma pay_with_royalties_plan:
  assumes "pay_with_royalties cfg payer c cid amount s = Inr (n, s')"
    and "total_basis_points (royalty_splits s cid) \<le> 10000"
  shows "n = of_nat (length (royalty_splits s cid)) \<and>
    (\<exists>x. transfer_all cfg payer (payment_plan cfg c amount (royalty_splits s cid)) (ext s) = Inr x \<and>
         s' = s\<lparr>ext := x,
               events := events s @ royalty_events cid (split_plan cfg amount (royalty_splits s cid))\<rparr>)"
proof (cases "royalty_splits s cid = []")
  case True
  with assms(1) show ?thesis
    by (auto simp: pay_with_royalties_def payment_plan_def royalty_events_def Let_def result_simps
        transfer_amount_Inr simp del: transfer_all.simps)
next
  case False
  let ?plan = "split_plan cfg amount (royalty_splits s cid)"
  have bound: "plan_total ?plan \<le> unat amount"
    using split_plan_total_bound [OF assms(2)] .
  then have small: "unat (0::u128) + plan_total ?plan < 2 ^ 128"
    using unat_less_pow [of amount] by simp
  from assms(1) False obtain d s1 where
    sp: "pay_splits cfg payer cid amount (royalty_splits s cid) 0 s = Inr (d, s1)"
    and rest: "(let remainder = saturating_sub amount d in
       if remainder > 0 then and_then (transfer_amount cfg payer c remainder s1)
         (\<lambda>t. Inr (of_nat (length (royalty_splits s cid)), t))
       else Inr (of_nat (length (royalty_splits s cid)), s1)) = Inr (n, s')"
    by (auto simp: pay_with_royalties_def Let_def result_simps split: if_splits)
  from pay_splits_plan [OF sp small] obtain x where
    d: "unat d = plan_total ?plan" and x: "transfer_all cfg payer ?plan (ext s) = Inr x"
    and s1: "s1 = s\<lparr>ext := x, events := events s @ royalty_events cid ?plan\<rparr>" by auto
  have rem: "saturating_sub amount d = of_nat (unat amount - plan_total ?plan)"
    using unat_less_pow [of amount]
    by (simp add: word_unat_eq_iff unat_of_nat machine_arith d less_imp_diff_less)
  have rem_pos: "0 < saturating_sub amount d \<longleftrightarrow> 0 < unat amount - plan_total ?plan"
    by (metis d unat_saturating_sub unat_gt_0 word_gt_0)
  from rest False x rem rem_pos s1 show ?thesis
    by (auto simp: payment_plan_def Let_def transfer_all_append transfer_amount_Inr result_simps
        simp del: transfer_all.simps(2) split: if_splits)
qed

text \<open>Whatever the splits are, a payment writes nothing but the external state and events.\<close>

lemma transfer_amount_frame: "transfer_amount cfg payer to v s = Inr s' \<Longrightarrow> only_ext_events s s'"
  by (auto simp: transfer_amount_def result_simps)

lemma pay_splits_frame:
  "pay_splits cfg payer cid amount splits d s = Inr (d', s') \<Longrightarrow> only_ext_events s s'"
proof (induction splits arbitrary: d s)
  case (Cons sp sps)
  show ?case
  proof (cases "royalty_share amount (basis_points sp) > 0")
    case True
    with Cons show ?thesis
      by (auto simp: Let_def result_simps
          dest!: transfer_amount_frame intro: only_ext_events_trans only_ext_events_deposit)
         (meson only_ext_events_trans only_ext_events_deposit)
  qed (use Cons in \<open>simp add: Let_def\<close>)
qed simp

lemma pay_with_royalties_frame:
  assumes "pay_with_royalties cfg payer c cid amount s = Inr (n, s')"
  shows "n = of_nat (length (royalty_splits s cid)) \<and> only_ext_events s s'"
  using assms
  by (auto simp: pay_with_royalties_def Let_def result_simps
      dest!: transfer_amount_frame pay_splits_frame split: if_splits
      intro: only_ext_events_trans)

section \<open>Effect on balances\<close>

lemma transfer_all_balances:
  assumes law: "moves_funds cfg bal"
  shows "transfer_all cfg payer plan x = Inr x' \<Longrightarrow>
    bal x' a + (if a = payer then plan_total plan else 0) = bal x a + credited plan a"
proof (induction plan arbitrary: x)
  case Nil
  then show ?case by simp
next
  case (Cons p plan)
  obtain to v where p: "p = (to, v)" by (cases p)
  from Cons.prems p obtain b x1 where b: "try_into_balance cfg v = Some b"
    and x1: "currency_transfer cfg payer to b Preserve x = Inr x1"
    and rest: "transfer_all cfg payer plan x1 = Inr x'" by (auto simp: result_simps)
  from law b have "b = v" by (auto simp: moves_funds_def)
  with law x1 have "unat v \<le> bal x payer"
    and "bal x1 a = (if a = payer then bal x a - unat v else bal x a) + (if a = to then unat v else 0)"
    by (auto simp: moves_funds_def)
  with Cons.IH [OF rest] p show ?case by auto
qed

end
