(* ===== verification/Rights_Renewal.thy ===== *)
theory Rights_Renewal
  imports Rights_Payment
begin

text \<open>
  Auto-renewal of \<open>pallet_content_rights\<close>: \<open>enqueue_renewal\<close>, \<open>stop_auto_renew\<close> and the
  \<open>on_initialize\<close> hook of \<open>src/pallets/content-rights/src/lib.rs\<close>. The renewal queue is used
  through the interface \<open>renewal_slots\<close>: what an enqueue places, keeps and adds, and when it
  fails. The lemmas on the hook are about one iteration of its loop (\<open>renew_one\<close>) and are
  lifted to the whole bucket by induction.
\<close>

section \<open>The operations\<close>

text \<open>The closure passed to \<open>RenewalQueue::try_mutate\<close>: idempotent, else a bounded push.\<close>

definition place_in_bucket :: "'e \<Rightarrow> 'e list \<Rightarrow> 'e list option" where
  "place_in_bucket e bucket =
     (if e \<in> set bucket then Some bucket
      else if length bucket < MAX_RENEWALS_PER_BLOCK then Some (bucket @ [e]) else None)"

fun enqueue_search ::
  "u32 \<Rightarrow> 'a \<Rightarrow> u32 \<Rightarrow> nat list \<Rightarrow> ('a, 'x) state \<Rightarrow> dispatch_error + u32 \<times> ('a, 'x) state" where
  "enqueue_search content_id who at [] s = Inl (Pallet RenewalQueueFull)"
| "enqueue_search content_id who at (offset # offsets) s =
     (let block = saturating_add at (of_nat offset) in
      case place_in_bucket (content_id, who) (renewal_queue s block) of
        Some bucket \<Rightarrow> Inr (of_nat offset, s\<lparr>renewal_queue := (renewal_queue s)(block := bucket)\<rparr>)
      | None \<Rightarrow> enqueue_search content_id who at offsets s)"

definition enqueue_renewal ::
  "u32 \<Rightarrow> 'a \<Rightarrow> u32 \<Rightarrow> ('a, 'x) state \<Rightarrow> dispatch_error + u32 \<times> ('a, 'x) state" where
  "enqueue_renewal content_id who at s =
     enqueue_search content_id who at [0..<MAX_RENEWAL_SLOT_SEARCH] s"

text \<open>\<open>Subscriptions::mutate\<close> with a closure that acts on an existing entry only.\<close>

definition update_subscription ::
  "u32 \<times> 'a \<Rightarrow> (subscription_info \<Rightarrow> subscription_info) \<Rightarrow> ('a, 'x) state \<Rightarrow> ('a, 'x) state" where
  "update_subscription k f s =
     s\<lparr>subscriptions := (subscriptions s)(k := map_option f (subscriptions s k))\<rparr>"

definition stop_auto_renew ::
  "u32 \<Rightarrow> 'a \<Rightarrow> auto_renew_fail_reason \<Rightarrow> ('a, 'x) state \<Rightarrow> ('a, 'x) state" where
  "stop_auto_renew content_id who reason s =
     (let s = update_subscription (content_id, who) (\<lambda>sub. sub\<lparr>auto_renew := False\<rparr>) s;
          s = s\<lparr>auto_renew_index := (auto_renew_index s)((content_id, who) := None)\<rparr>
      in deposit_event (AutoRenewalFailed content_id who reason) s)"

text \<open>The part of an iteration after a successful payment.\<close>

definition finish_renewal ::
  "u32 \<Rightarrow> u32 \<Rightarrow> 'a \<Rightarrow> u32 \<Rightarrow> ('a, 'x) state \<Rightarrow> ('a, 'x) state" where
  "finish_renewal now content_id subscriber period s =
     (let new_expiry = saturating_add now period;
          s = update_subscription (content_id, subscriber) (\<lambda>sub. sub\<lparr>expiry_block := new_expiry\<rparr>) s;
          s = deposit_event (AutoRenewalProcessed content_id subscriber new_expiry) s
      in case enqueue_renewal content_id subscriber new_expiry s of
           Inl _ \<Rightarrow> stop_auto_renew content_id subscriber RenewalQueueFull_reason s
         | Inr (_, s) \<Rightarrow> s)"

definition renew_one ::
  "('a, 'x) config \<Rightarrow> u32 \<Rightarrow> u32 \<times> 'a \<Rightarrow> ('a, 'x) state \<times> u32 \<Rightarrow> ('a, 'x) state \<times> u32" where
  "renew_one cfg now k st =
     (case (k, st) of ((content_id, subscriber), (s, split_payments)) \<Rightarrow>
      if auto_renew_index s (content_id, subscriber) = None then (s, split_payments)
      else (case (case subscriptions s (content_id, subscriber) of
                    Some sub \<Rightarrow> if auto_renew sub then Some sub else None
                  | None \<Rightarrow> None) of
        None \<Rightarrow>
          (s\<lparr>auto_renew_index := (auto_renew_index s)((content_id, subscriber) := None)\<rparr>,
           split_payments)
      | Some sub \<Rightarrow>
          if now < expiry_block sub then
            (case enqueue_renewal content_id subscriber (expiry_block sub) s of
               Inl _ \<Rightarrow> (stop_auto_renew content_id subscriber RenewalQueueFull_reason s, split_payments)
             | Inr (_, s) \<Rightarrow> (s, split_payments))
          else (case contents s content_id of
             None \<Rightarrow> (stop_auto_renew content_id subscriber ContentNotFound_reason s, split_payments)
           | Some content \<Rightarrow>
              (case pay_with_royalties cfg subscriber (creator content) content_id
                      (subscription_price content) s of
                 Inr (splits, s) \<Rightarrow>
                   (finish_renewal now content_id subscriber (period_length content) s,
                    saturating_add split_payments splits)
               | Inl _ \<Rightarrow>
                   (stop_auto_renew content_id subscriber InsufficientBalance s,
                    saturating_add split_payments MAX_ROYALTY_SPLITS)))))"

definition on_initialize :: "('a, 'x) config \<Rightarrow> ('a, 'x) state \<Rightarrow> weight \<times> ('a, 'x) state" where
  "on_initialize cfg s =
     (let now = current_block s;
          due = renewal_queue s now;
          s = s\<lparr>renewal_queue := (renewal_queue s)(now := [])\<rparr>;
          processed = of_nat (length due);
          (s, split_payments) = fold (renew_one cfg now) due (s, 0)
      in (renewals_weight (weights cfg) processed split_payments, s))"

section \<open>The queue interface\<close>

text \<open>An entry is scheduled after block \<open>n\<close> when a later bucket holds it.\<close>

definition scheduled :: "(u32 \<Rightarrow> 'e list) \<Rightarrow> u32 \<Rightarrow> 'e \<Rightarrow> bool" where
  "scheduled q n e \<longleftrightarrow> (\<exists>b>n. e \<in> set (q b))"

definition queue_wf :: "(u32 \<Rightarrow> 'e list) \<Rightarrow> bool" where
  "queue_wf q \<longleftrightarrow> (\<forall>b. distinct (q b) \<and> length (q b) \<le> MAX_RENEWALS_PER_BLOCK)"

locale renewal_slots =
  fixes bucket :: "'q \<Rightarrow> u32 \<Rightarrow> 'e list"
    and enqueue :: "'e \<Rightarrow> u32 \<Rightarrow> 'q \<Rightarrow> 'err + u32 \<times> 'q"
    and window :: nat
  assumes enqueue_places:
      "enqueue e at q = Inr (off, q') \<Longrightarrow> e \<in> set (bucket q' (saturating_add at off))"
    and enqueue_keeps:
      "enqueue e at q = Inr (off, q') \<Longrightarrow> set (bucket q b) \<subseteq> set (bucket q' b)"
    and enqueue_elsewhere:
      "enqueue e at q = Inr (off, q') \<Longrightarrow> b \<noteq> saturating_add at off \<Longrightarrow> bucket q' b = bucket q b"
    and enqueue_adds_only:
      "enqueue e at q = Inr (off, q') \<Longrightarrow> set (bucket q' b) \<subseteq> insert e (set (bucket q b))"
    and enqueue_wf: "enqueue e at q = Inr (off, q') \<Longrightarrow> queue_wf (bucket q) \<Longrightarrow> queue_wf (bucket q')"
    and enqueue_window: "enqueue e at q = Inr (off, q') \<Longrightarrow> unat off < window"
    and enqueue_fails_iff:
      "is_ok (enqueue e at q) \<longleftrightarrow>
         (\<exists>i<window. e \<in> set (bucket q (saturating_add at (of_nat i))) \<or>
            length (bucket q (saturating_add at (of_nat i))) < MAX_RENEWALS_PER_BLOCK)"
begin

lemma enqueue_schedules:
  assumes "enqueue e at q = Inr (off, q')" and "n < at"
  shows "scheduled (bucket q') n e"
proof -
  have "n < saturating_add at off" using assms(2) saturating_add_ge by (rule less_le_trans)
  with enqueue_places [OF assms(1)] show ?thesis by (auto simp: scheduled_def)
qed

lemma enqueue_keeps_scheduled:
  "enqueue e at q = Inr (off, q') \<Longrightarrow> scheduled (bucket q) n e' \<Longrightarrow> scheduled (bucket q') n e'"
  using enqueue_keeps by (fastforce simp: scheduled_def)

lemma enqueue_keeps_earlier:
  assumes "enqueue e at q = Inr (off, q')" and "b < at"
  shows "bucket q' b = bucket q b"
proof -
  have "b \<noteq> saturating_add at off" using assms(2) saturating_add_ge [of at off] by auto
  with enqueue_elsewhere [OF assms(1)] show ?thesis by blast
qed

end

lemma enqueue_search_Inr:
  "enqueue_search c a at offs s = Inr (off, s') \<Longrightarrow>
     \<exists>i\<in>set offs. off = of_nat i \<and>
       (\<exists>bucket. place_in_bucket (c, a) (renewal_queue s (saturating_add at (of_nat i))) = Some bucket \<and>
          s' = s\<lparr>renewal_queue := (renewal_queue s)(saturating_add at (of_nat i) := bucket)\<rparr>)"
  by (induction offs) (auto simp: Let_def split: option.splits)

lemma enqueue_search_ok:
  "is_ok (enqueue_search c a at offs s) \<longleftrightarrow>
     (\<exists>i\<in>set offs. place_in_bucket (c, a) (renewal_queue s (saturating_add at (of_nat i))) \<noteq> None)"
  by (induction offs) (auto simp: Let_def split: option.splits)

lemma enqueue_renewal_cases:
  assumes "enqueue_renewal c a at s = Inr (off, s')"
  obtains i bucket where "i < MAX_RENEWAL_SLOT_SEARCH" and "off = of_nat i"
    and "place_in_bucket (c, a) (renewal_queue s (saturating_add at off)) = Some bucket"
    and "s' = s\<lparr>renewal_queue := (renewal_queue s)(saturating_add at off := bucket)\<rparr>"
  using enqueue_search_Inr [OF assms [unfolded enqueue_renewal_def]] by auto

lemma enqueue_renewal_error: "enqueue_renewal c a at s = Inl e \<Longrightarrow> e = Pallet RenewalQueueFull"
proof -
  have "enqueue_search c a at offs s = Inl e \<Longrightarrow> e = Pallet RenewalQueueFull" for offs
    by (induction offs) (auto simp: Let_def split: option.splits)
  then show "enqueue_renewal c a at s = Inl e \<Longrightarrow> e = Pallet RenewalQueueFull"
    by (simp add: enqueue_renewal_def)
qed

lemma place_in_bucket_Some:
  "place_in_bucket e b = Some b' \<Longrightarrow>
     e \<in> set b' \<and> set b \<subseteq> set b' \<and> set b' \<subseteq> insert e (set b) \<and> (distinct b \<longrightarrow> distinct b') \<and>
     (length b \<le> MAX_RENEWALS_PER_BLOCK \<longrightarrow> length b' \<le> MAX_RENEWALS_PER_BLOCK)"
  by (auto simp: place_in_bucket_def split: if_splits)

lemma place_in_bucket_None:
  "place_in_bucket e b = None \<longleftrightarrow> e \<notin> set b \<and> \<not> length b < MAX_RENEWALS_PER_BLOCK"
  by (auto simp: place_in_bucket_def)

text \<open>The search is first-fit: every bucket before the chosen one refused the entry.\<close>

lemma enqueue_search_first_fit:
  "case enqueue_search c a start offs s of
     Inl e \<Rightarrow> e = Pallet RenewalQueueFull \<and>
       (\<forall>i\<in>set offs. place_in_bucket (c, a) (renewal_queue s (saturating_add start (of_nat i))) = None)
   | Inr (off, s') \<Rightarrow> \<exists>before i after bucket. offs = before @ i # after \<and> off = of_nat i \<and>
       (\<forall>j\<in>set before. place_in_bucket (c, a) (renewal_queue s (saturating_add start (of_nat j))) = None) \<and>
       place_in_bucket (c, a) (renewal_queue s (saturating_add start (of_nat i))) = Some bucket \<and>
       s' = s\<lparr>renewal_queue := (renewal_queue s)(saturating_add start (of_nat i) := bucket)\<rparr>"
proof (induction offs)
  case (Cons i offs)
  show ?case
  proof (cases "place_in_bucket (c, a) (renewal_queue s (saturating_add start (of_nat i)))")
    case None
    show ?thesis
    proof (cases "enqueue_search c a start offs s")
      case (Inl e)
      with Cons None show ?thesis by (simp add: Let_def)
    next
      case (Inr r)
      obtain off s' where r: "r = (off, s')" by (cases r)
      from Cons [unfolded Inr r] obtain before j after bucket where first: "offs = before @ j # after" "off = of_nat j"
        "\<forall>j\<in>set before. place_in_bucket (c, a) (renewal_queue s (saturating_add start (of_nat j))) = None"
        "place_in_bucket (c, a) (renewal_queue s (saturating_add start (of_nat j))) = Some bucket"
        "s' = s\<lparr>renewal_queue := (renewal_queue s)(saturating_add start (of_nat j) := bucket)\<rparr>"
        by auto
      have "enqueue_search c a start (i # offs) s = Inr (off, s')" using None Inr r by (simp add: Let_def)
      with first None show ?thesis
        by (simp only: sum.case prod.case)
           (intro exI [of _ "i # before"] exI [of _ j] exI [of _ after] exI [of _ bucket], simp)
    qed
  next
    case (Some bucket)
    then show ?thesis by (auto simp: Let_def intro!: exI [of _ "[]"])
  qed
qed simp

lemma enqueue_renewal_first_fit:
  assumes "enqueue_renewal c a at s = Inr (off, s')"
  obtains i bucket where "i < MAX_RENEWAL_SLOT_SEARCH" "off = of_nat i"
    "\<And>j. j < i \<Longrightarrow> place_in_bucket (c, a) (renewal_queue s (saturating_add at (of_nat j))) = None"
    "place_in_bucket (c, a) (renewal_queue s (saturating_add at off)) = Some bucket"
    "s' = s\<lparr>renewal_queue := (renewal_queue s)(saturating_add at off := bucket)\<rparr>"
proof -
  from enqueue_search_first_fit [where c = c and a = a and start = "at" and s = s and offs = "[0..<MAX_RENEWAL_SLOT_SEARCH]", folded enqueue_renewal_def, unfolded assms]
  obtain before i after bucket where split: "[0..<MAX_RENEWAL_SLOT_SEARCH] = before @ i # after"
    and first: "off = of_nat i"
      "\<forall>j\<in>set before. place_in_bucket (c, a) (renewal_queue s (saturating_add at (of_nat j))) = None"
      "place_in_bucket (c, a) (renewal_queue s (saturating_add at off)) = Some bucket"
      "s' = s\<lparr>renewal_queue := (renewal_queue s)(saturating_add at off := bucket)\<rparr>"
    by auto
  have "length before < length [0..<MAX_RENEWAL_SLOT_SEARCH]" unfolding split by simp
  then have "before = [0..<length before]" "i = length before" "i < MAX_RENEWAL_SLOT_SEARCH"
    using arg_cong [OF split, of "take (length before)"] arg_cong [OF split, of "\<lambda>xs. xs ! length before"] by simp_all
  then have "before = [0..<i]" "i < MAX_RENEWAL_SLOT_SEARCH" by simp_all
  with first show thesis by (intro that) auto
qed

text \<open>The queue of the pallet provides the interface.\<close>

interpretation rq: renewal_slots renewal_queue
  "\<lambda>(c, a) at s. enqueue_renewal c a at s" MAX_RENEWAL_SLOT_SEARCH
proof (unfold_locales, goal_cases)
  case (1 e at q off q')
  then show ?case
    by (cases e) (auto elim!: enqueue_renewal_cases dest: place_in_bucket_Some)
next
  case (2 e at q off q' b)
  then show ?case
    by (cases e) (fastforce elim!: enqueue_renewal_cases dest: place_in_bucket_Some)
next
  case (3 e at q off q' b)
  then show ?case by (cases e) (auto elim!: enqueue_renewal_cases)
next
  case (4 e at q off q' b)
  then show ?case
    by (cases e) (fastforce elim!: enqueue_renewal_cases dest: place_in_bucket_Some split: if_splits)
next
  case (5 e at q off q')
  then show ?case
    by (cases e) (auto elim!: enqueue_renewal_cases dest: place_in_bucket_Some simp: queue_wf_def)
next
  case (6 e at q off q')
  then show ?case
    by (cases e)
      (auto elim!: enqueue_renewal_cases simp: MAX_RENEWAL_SLOT_SEARCH_def unat_of_nat)
next
  case (7 e at q)
  then show ?case
    by (cases e) (auto simp: enqueue_renewal_def enqueue_search_ok place_in_bucket_None
        simp del: upt_Suc)
qed

lemmas enqueue_renewal_schedules = rq.enqueue_schedules [of "(c, a)" for c a, unfolded prod.case]
lemmas enqueue_renewal_keeps_scheduled =
  rq.enqueue_keeps_scheduled [of "(c, a)" for c a, unfolded prod.case]
lemmas enqueue_renewal_keeps_earlier =
  rq.enqueue_keeps_earlier [of "(c, a)" for c a, unfolded prod.case]
lemmas enqueue_renewal_wf = rq.enqueue_wf [of "(c, a)" for c a, unfolded prod.case]

lemma enqueue_renewal_frame:
  assumes "enqueue_renewal c a at s = Inr (off, s')"
  shows "s' = s\<lparr>renewal_queue := renewal_queue s'\<rparr>"
  using assms by (auto elim!: enqueue_renewal_cases)

section \<open>One iteration of the hook\<close>

lemma stop_auto_renew_simps [simp]:
  "subscriptions (stop_auto_renew c a r s) =
     (subscriptions s)((c, a) := map_option (\<lambda>sub. sub\<lparr>auto_renew := False\<rparr>) (subscriptions s (c, a)))"
  "auto_renew_index (stop_auto_renew c a r s) = (auto_renew_index s)((c, a) := None)"
  "renewal_queue (stop_auto_renew c a r s) = renewal_queue s"
  "contents (stop_auto_renew c a r s) = contents s"
  by (simp_all add: stop_auto_renew_def update_subscription_def Let_def)

lemma update_subscription_simps [simp]:
  "subscriptions (update_subscription k f s) =
     (subscriptions s)(k := map_option f (subscriptions s k))"
  "auto_renew_index (update_subscription k f s) = auto_renew_index s"
  "renewal_queue (update_subscription k f s) = renewal_queue s"
  "contents (update_subscription k f s) = contents s"
  by (simp_all add: update_subscription_def)

lemma renew_one_cases:
  assumes "renew_one cfg now (c, a) (s, sp) = (s', sp')"
  obtains
    (idle) "auto_renew_index s (c, a) = None" "s' = s" "sp' = sp"
  | (clean) "\<And>sub. subscriptions s (c, a) = Some sub \<Longrightarrow> \<not> auto_renew sub"
      "s' = s\<lparr>auto_renew_index := (auto_renew_index s)((c, a) := None)\<rparr>" "sp' = sp"
  | (requeue) sub off where "subscriptions s (c, a) = Some sub" "auto_renew sub"
      "now < expiry_block sub" "enqueue_renewal c a (expiry_block sub) s = Inr (off, s')" "sp' = sp"
  | (stop) sub reason where "subscriptions s (c, a) = Some sub" "auto_renew sub"
      "s' = stop_auto_renew c a reason s" "sp' = sp \<or> sp' = saturating_add sp MAX_ROYALTY_SPLITS"
  | (renew) sub content n s1 where "subscriptions s (c, a) = Some sub" "auto_renew sub"
      "expiry_block sub \<le> now" "contents s c = Some content"
      "pay_with_royalties cfg a (creator content) c (subscription_price content) s = Inr (n, s1)"
      "s' = finish_renewal now c a (period_length content) s1" "sp' = saturating_add sp n"
proof (cases "auto_renew_index s (c, a) = None")
  case True
  from assms True have "s' = s" and "sp' = sp" by (simp_all add: renew_one_def)
  with True show ?thesis by (rule idle)
next
  case indexed: False
  show ?thesis
  proof (cases "\<exists>sub. subscriptions s (c, a) = Some sub \<and> auto_renew sub")
    case False
    with assms indexed
    have "s' = s\<lparr>auto_renew_index := (auto_renew_index s)((c, a) := None)\<rparr>" and "sp' = sp"
      by (auto simp: renew_one_def split: option.splits)
    with False clean show ?thesis by blast
  next
    case True
    then obtain sub where sub: "subscriptions s (c, a) = Some sub" "auto_renew sub" by blast
    consider off where "now < expiry_block sub"
        "enqueue_renewal c a (expiry_block sub) s = Inr (off, s')" "sp' = sp"
      | reason where "s' = stop_auto_renew c a reason s"
        "sp' = sp \<or> sp' = saturating_add sp MAX_ROYALTY_SPLITS"
      | content n s1 where "expiry_block sub \<le> now" "contents s c = Some content"
        "pay_with_royalties cfg a (creator content) c (subscription_price content) s = Inr (n, s1)"
        "s' = finish_renewal now c a (period_length content) s1" "sp' = saturating_add sp n"
    proof (cases "now < expiry_block sub")
      case True
      with assms indexed sub that(1,2) show ?thesis
        by (cases "enqueue_renewal c a (expiry_block sub) s") (auto simp: renew_one_def)
    next
      case False
      show ?thesis
      proof (cases "contents s c")
        case None
        with assms indexed sub False that(2) show ?thesis by (auto simp: renew_one_def)
      next
        case (Some content)
        with assms indexed sub False that(2,3) show ?thesis
          by (cases "pay_with_royalties cfg a (creator content) c (subscription_price content) s")
             (auto simp: renew_one_def)
      qed
    qed
    then show ?thesis by cases (rule requeue stop renew; use sub in blast)+
  qed
qed

lemma finish_renewal_cases:
  fixes s1 :: "('a, 'x) state"
  defines "t \<equiv> \<lambda>now c a p. deposit_event (AutoRenewalProcessed c a (saturating_add now p))
    (update_subscription (c, a) (\<lambda>sub. sub\<lparr>expiry_block := saturating_add now p\<rparr>) s1)"
  obtains
    (queued) off where
      "enqueue_renewal c a (saturating_add now p) (t now c a p) = Inr (off, finish_renewal now c a p s1)"
  | (stopped) "finish_renewal now c a p s1 = stop_auto_renew c a RenewalQueueFull_reason (t now c a p)"
  unfolding t_def
  by (cases "enqueue_renewal c a (saturating_add now p)
      (deposit_event (AutoRenewalProcessed c a (saturating_add now p))
        (update_subscription (c, a) (\<lambda>sub. sub\<lparr>expiry_block := saturating_add now p\<rparr>) s1))")
     (auto simp: finish_renewal_def Let_def split: prod.splits)

text \<open>
  What an iteration may change: the subscription and index entry of its own key, the queue, the
  external state and the events. A subscription keeps its child item, its expiry never moves
  back, and auto-renewal is never switched on.
\<close>

definition renewal_frame :: "('a, 'x) state \<Rightarrow> ('a, 'x) state \<Rightarrow> bool" where
  "renewal_frame s s' \<longleftrightarrow>
     s' = s\<lparr>subscriptions := subscriptions s', auto_renew_index := auto_renew_index s',
            renewal_queue := renewal_queue s', events := events s', ext := ext s'\<rparr>"

definition sub_progress :: "subscription_info \<Rightarrow> subscription_info \<Rightarrow> bool" where
  "sub_progress x y \<longleftrightarrow>
     sub_child_item_id y = sub_child_item_id x \<and> expiry_block x \<le> expiry_block y \<and>
     (auto_renew y \<longrightarrow> auto_renew x)"

definition index_ok :: "('a, 'x) state \<Rightarrow> bool" where
  "index_ok s \<longleftrightarrow>
     (\<forall>k. auto_renew_index s k \<noteq> None \<longleftrightarrow> (\<exists>sub. subscriptions s k = Some sub \<and> auto_renew sub))"

lemma index_ok_iff:
  "index_ok s \<Longrightarrow>
     auto_renew_index s k \<noteq> None \<longleftrightarrow> (\<exists>sub. subscriptions s k = Some sub \<and> auto_renew sub)"
  by (simp only: index_ok_def)

lemma index_never_switched_on:
  assumes "index_ok s" and "index_ok t" and "rel_option sub_progress (subscriptions s k) (subscriptions t k)"
    and "auto_renew_index t k \<noteq> None"
  shows "auto_renew_index s k \<noteq> None"
  using assms(3,4) index_ok_iff [OF assms(1)] index_ok_iff [OF assms(2)]
  by (cases "subscriptions s k") (auto simp: sub_progress_def)

lemma renewal_frame_refl [simp]: "renewal_frame s s"
  by (simp add: renewal_frame_def)

lemma renewal_frame_trans: "renewal_frame s t \<Longrightarrow> renewal_frame t u \<Longrightarrow> renewal_frame s u"
  unfolding renewal_frame_def by (cases s; cases t; cases u) auto

lemma renewal_frame_simps:
  assumes "renewal_frame s s'"
  shows "contents s' = contents s" "view_packs s' = view_packs s" "ownership s' = ownership s"
    "royalty_splits s' = royalty_splits s" "parent s' = parent s" "meters s' = meters s"
    "next_content_id s' = next_content_id s" "next_item_id s' = next_item_id s"
    "block_number s' = block_number s" "current_block s' = current_block s"
  by (subst assms [unfolded renewal_frame_def], simp)+

lemma sub_progress_refl [simp]: "sub_progress x x"
  by (simp add: sub_progress_def)

lemma sub_progress_trans: "sub_progress x y \<Longrightarrow> sub_progress y z \<Longrightarrow> sub_progress x z"
  by (auto simp: sub_progress_def)

lemma enqueue_renewal_simps:
  assumes "enqueue_renewal c a at s = Inr (off, s')"
  shows "subscriptions s' = subscriptions s" "auto_renew_index s' = auto_renew_index s"
    "contents s' = contents s" "renewal_frame s s'"
  by (rule enqueue_renewal_cases [OF assms], simp add: renewal_frame_def)+

lemma stop_auto_renew_frame [simp]: "renewal_frame s (stop_auto_renew c a r s)"
  by (simp add: renewal_frame_def stop_auto_renew_def update_subscription_def deposit_event_def Let_def)

lemma update_subscription_frame [simp]: "renewal_frame s (update_subscription k f s)"
  by (simp add: renewal_frame_def update_subscription_def)

lemma only_ext_events_frame: "only_ext_events s s' \<Longrightarrow> renewal_frame s s'"
  by (auto simp: renewal_frame_def elim!: only_ext_events_cases)

lemma only_ext_events_storage:
  assumes "only_ext_events s s'"
  shows "subscriptions s' = subscriptions s" "auto_renew_index s' = auto_renew_index s"
    "renewal_queue s' = renewal_queue s" "contents s' = contents s"
    "view_packs s' = view_packs s" "ownership s' = ownership s"
    "royalty_splits s' = royalty_splits s" "parent s' = parent s" "meters s' = meters s"
    "next_content_id s' = next_content_id s" "next_item_id s' = next_item_id s"
    "block_number s' = block_number s" "current_block s' = current_block s"
  by (rule only_ext_events_cases [OF assms], simp)+

lemma finish_renewal_frame: "renewal_frame s (finish_renewal now c a p s)"
proof (cases rule: finish_renewal_cases [of c a now p s, case_names queued stopped])
  case (queued off)
  then show ?thesis
    by (meson enqueue_renewal_simps(4) only_ext_events_deposit only_ext_events_frame
        renewal_frame_trans update_subscription_frame)
next
  case stopped
  then show ?thesis
    by (metis only_ext_events_deposit only_ext_events_frame renewal_frame_trans
        stop_auto_renew_frame update_subscription_frame)
qed

lemma renew_one_frame:
  assumes "renew_one cfg now (c, a) (s, sp) = (s', sp')"
  shows "renewal_frame s s'"
  using assms
proof (cases rule: renew_one_cases)
  case (renew sub content n s1)
  have "renewal_frame s s1"
    using pay_with_royalties_frame [OF renew(5)] by (simp add: only_ext_events_frame)
  with renew(6) finish_renewal_frame show ?thesis by (metis renewal_frame_trans)
qed (auto simp: enqueue_renewal_simps renewal_frame_def [of s "s\<lparr>auto_renew_index := _\<rparr>"])

text \<open>The subscription and the index after the part that follows a payment.\<close>

lemma finish_renewal_maps:
  assumes "k' \<noteq> (c, a)"
  shows "subscriptions (finish_renewal now c a p s) k' = subscriptions s k'"
    and "auto_renew_index (finish_renewal now c a p s) k' = auto_renew_index s k'"
  using assms
  by (cases rule: finish_renewal_cases [of c a now p s, case_names queued stopped];
      simp add: enqueue_renewal_simps)+

lemma finish_renewal_self:
  assumes "subscriptions s (c, a) = Some sub"
  obtains
    (queued) "subscriptions (finish_renewal now c a p s) (c, a) =
        Some (sub\<lparr>expiry_block := saturating_add now p\<rparr>)"
      "auto_renew_index (finish_renewal now c a p s) (c, a) = auto_renew_index s (c, a)"
      "now < saturating_add now p \<Longrightarrow> scheduled (renewal_queue (finish_renewal now c a p s)) now (c, a)"
  | (stopped) "subscriptions (finish_renewal now c a p s) (c, a) =
        Some (sub\<lparr>expiry_block := saturating_add now p, auto_renew := False\<rparr>)"
      "auto_renew_index (finish_renewal now c a p s) (c, a) = None"
proof (cases rule: finish_renewal_cases [of c a now p s, case_names q st])
  case (q off)
  show ?thesis
  proof (rule queued)
    show "now < saturating_add now p \<Longrightarrow> scheduled (renewal_queue (finish_renewal now c a p s)) now (c, a)"
      using enqueue_renewal_schedules [OF q] by simp
  qed (use q assms in \<open>simp_all add: enqueue_renewal_simps\<close>)
next
  case st
  with assms show ?thesis by (intro stopped) simp_all
qed

lemma finish_renewal_scheduled:
  assumes "scheduled (renewal_queue s) n k"
  shows "scheduled (renewal_queue (finish_renewal now c a p s)) n k"
proof (cases rule: finish_renewal_cases [of c a now p s, case_names q st])
  case (q off)
  from enqueue_renewal_keeps_scheduled [OF q] assms show ?thesis by simp
qed (simp add: assms)

lemma finish_renewal_queue_wf:
  assumes "queue_wf (renewal_queue s)"
  shows "queue_wf (renewal_queue (finish_renewal now c a p s))"
proof (cases rule: finish_renewal_cases [of c a now p s, case_names q st])
  case (q off)
  from enqueue_renewal_wf [OF q] assms show ?thesis by simp
qed (simp add: assms)

section \<open>Invariants of an iteration\<close>

lemma renew_one_other:
  assumes "renew_one cfg now (c, a) (s, sp) = (s', sp')" and "k \<noteq> (c, a)"
  shows "subscriptions s' k = subscriptions s k \<and> auto_renew_index s' k = auto_renew_index s k"
  using assms(1)
proof (cases rule: renew_one_cases)
  case (renew sub content n s1)
  note paid = only_ext_events_storage [OF pay_with_royalties_frame [OF renew(5), THEN conjunct2]]
  show ?thesis using assms(2) renew(6) by (simp add: finish_renewal_maps paid)
qed (use assms(2) in \<open>auto simp: enqueue_renewal_simps\<close>)

lemma renew_one_scheduled:
  assumes "renew_one cfg now (c, a) (s, sp) = (s', sp')" and "scheduled (renewal_queue s) n k"
  shows "scheduled (renewal_queue s') n k"
  using assms(1)
proof (cases rule: renew_one_cases)
  case (requeue sub off)
  with assms(2) show ?thesis by (simp add: enqueue_renewal_keeps_scheduled)
next
  case (renew sub content n s1)
  note paid = only_ext_events_storage [OF pay_with_royalties_frame [OF renew(5), THEN conjunct2]]
  show ?thesis unfolding renew(6) by (rule finish_renewal_scheduled) (simp add: paid assms(2))
qed (use assms(2) in auto)

lemma renew_one_queue_wf:
  assumes "renew_one cfg now (c, a) (s, sp) = (s', sp')" and "queue_wf (renewal_queue s)"
  shows "queue_wf (renewal_queue s')"
  using assms(1)
proof (cases rule: renew_one_cases)
  case (requeue sub off)
  with assms(2) show ?thesis by (auto intro: enqueue_renewal_wf)
next
  case (renew sub content n s1)
  note paid = only_ext_events_storage [OF pay_with_royalties_frame [OF renew(5), THEN conjunct2]]
  show ?thesis unfolding renew(6) by (rule finish_renewal_queue_wf) (simp add: paid assms(2))
qed (use assms(2) in auto)

lemma renew_one_progress:
  assumes "renew_one cfg now (c, a) (s, sp) = (s', sp')"
  shows "rel_option sub_progress (subscriptions s k) (subscriptions s' k)"
proof (cases "k = (c, a)")
  case False
  with renew_one_other [OF assms] show ?thesis
    by (simp add: option.rel_refl)
next
  case True
  from assms show ?thesis
  proof (cases rule: renew_one_cases)
    case (renew sub content n s1)
    note paid = only_ext_events_storage [OF pay_with_royalties_frame [OF renew(5), THEN conjunct2]]
    have "subscriptions s1 (c, a) = Some sub" using renew(1) by (simp add: paid)
    moreover have "expiry_block sub \<le> saturating_add now (period_length content)"
      using renew(3) saturating_add_ge order_trans by blast
    ultimately show ?thesis
      using renew True by (cases rule: finish_renewal_self [where now = now and p = "period_length content"]) (auto simp: sub_progress_def)
  qed (auto simp: True enqueue_renewal_simps sub_progress_def option.rel_refl)
qed

lemma renew_one_index_ok:
  assumes "renew_one cfg now (c, a) (s, sp) = (s', sp')" and "index_ok s"
  shows "index_ok s'"
  unfolding index_ok_def
proof
  fix k
  have inv: "auto_renew_index s k \<noteq> None \<longleftrightarrow> (\<exists>sub. subscriptions s k = Some sub \<and> auto_renew sub)"
    using assms(2) unfolding index_ok_def by blast
  show "auto_renew_index s' k \<noteq> None \<longleftrightarrow> (\<exists>sub. subscriptions s' k = Some sub \<and> auto_renew sub)"
  proof (cases "k = (c, a)")
    case False
    with renew_one_other [OF assms(1)] inv show ?thesis by simp
  next
    case True
    from assms(1) show ?thesis
    proof (cases rule: renew_one_cases)
      case (renew sub content n s1)
      note paid = only_ext_events_storage [OF pay_with_royalties_frame [OF renew(5), THEN conjunct2]]
      have "subscriptions s1 (c, a) = Some sub" "auto_renew_index s1 = auto_renew_index s"
        using renew(1) by (simp_all add: paid)
      then show ?thesis
        using renew True inv by (cases rule: finish_renewal_self [where now = now and p = "period_length content"]) auto
    qed (use inv True in \<open>auto simp: enqueue_renewal_simps\<close>)
  qed
qed

text \<open>After its iteration an entry that is still indexed is scheduled for a later block.\<close>

lemma renew_one_rescheduled:
  assumes "renew_one cfg now (c, a) (s, sp) = (s', sp')" and "index_ok s" and "now < - 1"
    and "\<And>content. contents s c = Some content \<Longrightarrow> 0 < period_length content"
    and "auto_renew_index s' (c, a) \<noteq> None"
  shows "scheduled (renewal_queue s') now (c, a)"
  using assms(1)
proof (cases rule: renew_one_cases)
  case (requeue sub off)
  then show ?thesis by (auto intro: enqueue_renewal_schedules)
next
  case (renew sub content n s1)
  note paid = only_ext_events_storage [OF pay_with_royalties_frame [OF renew(5), THEN conjunct2]]
  have "subscriptions s1 (c, a) = Some sub" using renew(1) by (simp add: paid)
  moreover have "now < saturating_add now (period_length content)"
    using assms(3,4) renew(4) by (simp add: saturating_add_gt)
  ultimately show ?thesis
    using renew(6) assms(5) by (cases rule: finish_renewal_self [where now = now and p = "period_length content"]) auto
qed (use assms(5) in auto)

lemma renew_one_split_payments:
  assumes "renew_one cfg now (c, a) (s, sp) = (s', sp')" and "valid_splits (royalty_splits s c)"
  shows "unat sp' \<le> unat sp + unat MAX_ROYALTY_SPLITS"
  using assms(1)
proof (cases rule: renew_one_cases)
  case (renew sub content n s1)
  have "n = of_nat (length (royalty_splits s c))"
    using pay_with_royalties_frame [OF renew(5)] by simp
  moreover have "length (royalty_splits s c) \<le> 10"
    using assms(2) by (simp add: valid_splits_def MAX_ROYALTY_SPLITS_def)
  ultimately have "unat n \<le> unat MAX_ROYALTY_SPLITS"
    by (simp add: unat_of_nat MAX_ROYALTY_SPLITS_def)
  then show ?thesis using renew(7) by (simp add: machine_arith)
qed (auto simp: machine_arith)

section \<open>The hook\<close>

lemma renew_fold_induct:
  assumes "fold (renew_one cfg now) due (s, sp) = (s', sp')" and "P s"
    and "\<And>c a t tp t' tp'. (c, a) \<in> set due \<Longrightarrow> renew_one cfg now (c, a) (t, tp) = (t', tp') \<Longrightarrow> P t \<Longrightarrow> P t'"
  shows "P s'"
  using assms
proof (induction due arbitrary: s sp)
  case (Cons k due)
  obtain c a where k: "k = (c, a)" by (cases k)
  obtain t tp where t: "renew_one cfg now k (s, sp) = (t, tp)" by (cases "renew_one cfg now k (s, sp)")
  from Cons.prems(1) t have "fold (renew_one cfg now) due (t, tp) = (s', sp')" by simp
  moreover have "P t" using Cons.prems(2,3) t k by fastforce
  ultimately show ?case using Cons.IH Cons.prems(3) by (metis list.set_intros(2))
qed simp

lemma renew_fold_scheduled:
  assumes "fold (renew_one cfg now) due (s, sp) = (s', sp')" and "index_ok s" and "now < - 1"
    and "\<And>c a. auto_renew_index s (c, a) \<noteq> None \<Longrightarrow>
       \<exists>content. contents s c = Some content \<and> 0 < period_length content"
    and "\<And>k. auto_renew_index s k \<noteq> None \<Longrightarrow> k \<in> set due \<or> scheduled (renewal_queue s) now k"
    and "auto_renew_index s' k \<noteq> None"
  shows "scheduled (renewal_queue s') now k"
  using assms
proof (induction due arbitrary: s sp)
  case (Cons e due)
  obtain c a where e: "e = (c, a)" by (cases e)
  obtain t tp where t: "renew_one cfg now (c, a) (s, sp) = (t, tp)"
    by (cases "renew_one cfg now (c, a) (s, sp)")
  have idx: "auto_renew_index s k \<noteq> None" if "auto_renew_index t k \<noteq> None" for k
    using Cons.prems(2) renew_one_index_ok [OF t Cons.prems(2)] renew_one_progress [OF t] that
    by (rule index_never_switched_on)
  have con: "contents t = contents s" using renewal_frame_simps [OF renew_one_frame [OF t]] by simp
  show ?case
  proof (rule Cons.IH)
    show "fold (renew_one cfg now) due (t, tp) = (s', sp')" using Cons.prems(1) t e by simp
    show "index_ok t" using renew_one_index_ok [OF t Cons.prems(2)] .
    show "\<exists>content. contents t c' = Some content \<and> 0 < period_length content"
      if "auto_renew_index t (c', a') \<noteq> None" for c' a'
      using Cons.prems(4) idx [OF that] by (simp add: con)
    show "k' \<in> set due \<or> scheduled (renewal_queue t) now k'" if k': "auto_renew_index t k' \<noteq> None" for k'
    proof (cases "k' = (c, a)")
      case True
      have "\<exists>content. contents s c = Some content \<and> 0 < period_length content"
        using Cons.prems(4) idx [OF k'] True by blast
      then show ?thesis
        using renew_one_rescheduled [OF t Cons.prems(2,3)] k' True by auto
    next
      case False
      then show ?thesis
        using Cons.prems(5) [OF idx [OF k']] e renew_one_scheduled [OF t, of now k'] by auto
    qed
  qed (use Cons.prems in auto)
qed auto

lemma on_initialize_cases:
  assumes "on_initialize cfg s = (w, s')"
  obtains sp where
    "fold (renew_one cfg (current_block s)) (renewal_queue s (current_block s))
       (s\<lparr>renewal_queue := (renewal_queue s)(current_block s := [])\<rparr>, 0) = (s', sp)"
    and "w = renewals_weight (weights cfg) (of_nat (length (renewal_queue s (current_block s)))) sp"
  using assms by (auto simp: on_initialize_def Let_def split: prod.splits)

lemma on_initialize_frame:
  assumes "on_initialize cfg s = (w, s')"
  shows "renewal_frame s s'"
proof -
  have *: "renewal_frame s (s\<lparr>renewal_queue := (renewal_queue s)(current_block s := [])\<rparr>)"
    by (simp add: renewal_frame_def)
  show ?thesis
    using assms
    by (elim on_initialize_cases renew_fold_induct [where P = "renewal_frame s"])
       (auto intro: * renewal_frame_trans renew_one_frame)
qed

lemma on_initialize_index_ok:
  assumes "on_initialize cfg s = (w, s')" and "index_ok s"
  shows "index_ok s'"
  using assms(1)
  by (elim on_initialize_cases renew_fold_induct [where P = index_ok])
     (use assms(2) in \<open>auto simp: index_ok_def [of "s\<lparr>renewal_queue := _\<rparr>"] index_ok_def [of s]
        intro: renew_one_index_ok\<close>)

lemma on_initialize_queue_wf:
  assumes "on_initialize cfg s = (w, s')" and "queue_wf (renewal_queue s)"
  shows "queue_wf (renewal_queue s')"
  using assms(1)
  by (elim on_initialize_cases renew_fold_induct [where P = "\<lambda>t. queue_wf (renewal_queue t)"])
     (use assms(2) in \<open>auto simp: queue_wf_def [of "fun_upd _ _ _"] queue_wf_def [of "renewal_queue s"]
        intro: renew_one_queue_wf\<close>)

lemma on_initialize_progress:
  assumes "on_initialize cfg s = (w, s')"
  shows "rel_option sub_progress (subscriptions s k) (subscriptions s' k)"
proof -
  have trans: "rel_option sub_progress x y \<Longrightarrow> rel_option sub_progress y z \<Longrightarrow> rel_option sub_progress x z"
    for x y z
    by (cases x; cases y; cases z) (auto intro: sub_progress_trans)
  show ?thesis
    using assms
    by (elim on_initialize_cases
          renew_fold_induct [where P = "\<lambda>t. rel_option sub_progress (subscriptions s k) (subscriptions t k)"])
       (auto simp: option.rel_refl intro: trans renew_one_progress)
qed

lemma on_initialize_scheduled:
  assumes "on_initialize cfg s = (w, s')" and "index_ok s" and "current_block s < - 1"
    and "\<And>c a. auto_renew_index s (c, a) \<noteq> None \<Longrightarrow>
       \<exists>content. contents s c = Some content \<and> 0 < period_length content"
    and "\<And>k. auto_renew_index s k \<noteq> None \<Longrightarrow> \<exists>b\<ge>current_block s. k \<in> set (renewal_queue s b)"
    and "auto_renew_index s' k \<noteq> None"
  shows "scheduled (renewal_queue s') (current_block s) k"
  using assms(1)
proof (cases rule: on_initialize_cases)
  case (1 sp)
  show ?thesis
  proof (rule renew_fold_scheduled [OF 1(1) _ assms(3) _ _ assms(6)])
    fix k
    assume "auto_renew_index (s\<lparr>renewal_queue := (renewal_queue s)(current_block s := [])\<rparr>) k \<noteq> None"
    then obtain b where b: "current_block s \<le> b" "k \<in> set (renewal_queue s b)"
      using assms(5) [of k] by auto
    show "k \<in> set (renewal_queue s (current_block s)) \<or>
       scheduled (renewal_queue (s\<lparr>renewal_queue := (renewal_queue s)(current_block s := [])\<rparr>))
         (current_block s) k"
    proof (cases "b = current_block s")
      case False
      with b have "scheduled ((renewal_queue s)(current_block s := [])) (current_block s) k"
        unfolding scheduled_def by (intro exI [of _ b]) simp
      then show ?thesis by simp
    qed (use b in simp)
  next
    show "index_ok (s\<lparr>renewal_queue := (renewal_queue s)(current_block s := [])\<rparr>)"
      using assms(2) by (simp add: index_ok_def)
  next
    fix c a
    assume "auto_renew_index (s\<lparr>renewal_queue := (renewal_queue s)(current_block s := [])\<rparr>) (c, a) \<noteq> None"
    with assms(4) [of c a]
    show "\<exists>content. contents (s\<lparr>renewal_queue := (renewal_queue s)(current_block s := [])\<rparr>) c = Some content \<and>
       0 < period_length content"
      by simp
  qed
qed

end
