(* ===== verification/Rights_Calls.thy ===== *)
theory Rights_Calls
  imports Rights_Renewal
begin

text \<open>
  The helpers on child items, the access query and the nineteen extrinsics of
  \<open>src/pallets/content-rights/src/lib.rs\<close>, one definition each, and their dispatch. An extrinsic
  either fails with an error, in which case the storage layer of the dispatch discards every
  write, or returns the new state together with the actual weight where the source returns
  \<open>DispatchResultWithPostInfo\<close>.
\<close>

section \<open>Helpers\<close>

definition next_collection_id ::
  "('a, 'x) config \<Rightarrow> ('a, 'x) state \<Rightarrow> dispatch_error + u32 \<times> ('a, 'x) state" where
  "next_collection_id cfg s =
     (let current = unwrap_or (nfts_next_collection_id cfg (ext s)) 0 in
      and_then (ok_or (checked_add current 1) (Pallet ContentIdOverflow)) (\<lambda>next.
      Inr (current, s\<lparr>ext := nfts_set_next_collection_id cfg next (ext s)\<rparr>)))"

definition bounded_vec :: "nat \<Rightarrow> u8 list \<Rightarrow> u8 list option" where
  "bounded_vec limit bytes = (if length bytes \<le> limit then Some bytes else None)"

definition mint_and_nest_child ::
  "('a, 'x) config \<Rightarrow> 'a \<Rightarrow> 'a \<Rightarrow> u32 \<Rightarrow> u32 \<Rightarrow> rights_type \<Rightarrow> ('a, 'x) state \<Rightarrow>
     dispatch_error + u32 \<times> ('a, 'x) state" where
  "mint_and_nest_child cfg creator_acc owner collection parent_item_id rt s =
     (let child_item_id = next_item_id s collection in
      and_then (ok_or (checked_add child_item_id 1) (Pallet ItemIdOverflow)) (\<lambda>next_id.
      and_then (nfts_do_mint cfg collection child_item_id (Some creator_acc) owner (ext s)) (\<lambda>x.
      and_then (ok_or (bounded_vec (nfts_key_limit cfg) (ascii ''rights_type''))
                  (Pallet NftOperationFailed)) (\<lambda>rights_key.
      and_then (ok_or (bounded_vec (nfts_value_limit cfg) (encode_rights_type rt))
                  (Pallet NftOperationFailed)) (\<lambda>rights_value.
      and_then (nfts_set_attribute cfg (Signed creator_acc) collection (Some child_item_id)
                  CollectionOwner rights_key rights_value x) (\<lambda>x.
      let s = s\<lparr>ext := x\<rparr>;
          s = s\<lparr>parent := (parent s)((collection, child_item_id) \<mapsto> (collection, parent_item_id))\<rparr>;
          s = s\<lparr>next_item_id := (next_item_id s)(collection := next_id)\<rparr>;
          s = deposit_event (ChildNested collection parent_item_id collection child_item_id) s
      in Inr (child_item_id, s)))))))"

definition do_purchase_views ::
  "('a, 'x) config \<Rightarrow> 'a \<Rightarrow> 'a \<Rightarrow> u32 \<Rightarrow> u32 \<Rightarrow> ('a, 'x) state \<Rightarrow> dispatch_error + u32 \<times> ('a, 'x) state"
where
  "do_purchase_views cfg payer beneficiary content_id num_views s =
     and_then (ensure (num_views > 0) (Pallet ZeroViews)) (\<lambda>_.
     and_then (ok_or (contents s content_id) (Pallet ContentNotFound)) (\<lambda>content.
     and_then (ok_or (checked_mul (ppv_price content) (ucast num_views)) (Pallet InsufficientPayment))
       (\<lambda>total_price.
     and_then (pay_with_royalties cfg payer (creator content) content_id total_price s) (\<lambda>(splits, s).
     and_then
       (case view_packs s (content_id, beneficiary) of
          Some existing \<Rightarrow>
            let existing = existing\<lparr>views_remaining := saturating_add (views_remaining existing) num_views\<rparr>
            in Inr (s\<lparr>view_packs := (view_packs s)((content_id, beneficiary) \<mapsto> existing)\<rparr>)
        | None \<Rightarrow>
            and_then (mint_and_nest_child cfg (creator content) beneficiary (collection_id content)
                        (content_item_id content) PayPerView s) (\<lambda>(child_item_id, s).
            Inr (s\<lparr>view_packs := (view_packs s)((content_id, beneficiary) \<mapsto>
                     \<lparr>views_remaining = num_views, pack_child_item_id = child_item_id\<rparr>)\<rparr>)))
       (\<lambda>s. Inr (splits, s))))))"

definition do_consume_view ::
  "('a, 'x) config \<Rightarrow> u32 \<Rightarrow> 'a \<Rightarrow> ('a, 'x) state \<Rightarrow> dispatch_error + ('a, 'x) state" where
  "do_consume_view cfg content_id viewer s =
     and_then (ok_or (view_packs s (content_id, viewer)) (Pallet ViewPackNotFound)) (\<lambda>pack.
     and_then (ensure (views_remaining pack > 0) (Pallet NoViewsRemaining)) (\<lambda>_.
     let pack = pack\<lparr>views_remaining := saturating_sub (views_remaining pack) 1\<rparr> in
     and_then
       (if views_remaining pack = 0 then
          and_then (ok_or (contents s content_id) (Pallet ContentNotFound)) (\<lambda>content.
          and_then (nfts_do_burn cfg (collection_id content) (pack_child_item_id pack) (ext s)) (\<lambda>x.
          let s = s\<lparr>ext := x\<rparr>;
              s = s\<lparr>parent := (parent s)((collection_id content, pack_child_item_id pack) := None)\<rparr>
          in Inr (s\<lparr>view_packs := (view_packs s)((content_id, viewer) := None)\<rparr>)))
        else Inr (s\<lparr>view_packs := (view_packs s)((content_id, viewer) \<mapsto> pack)\<rparr>))
       (\<lambda>s. Inr (deposit_event (ViewConsumed content_id viewer (views_remaining pack)) s))))"

definition access_rights :: "u32 \<Rightarrow> 'a \<Rightarrow> ('a, 'x) state \<Rightarrow> rights_type option" where
  "access_rights content_id who s =
     (if ownership s (content_id, who) \<noteq> None then Some Ownership
      else if (case subscriptions s (content_id, who) of
                 Some sub \<Rightarrow> current_block s < expiry_block sub | None \<Rightarrow> False) then Some Subscription
      else if (case view_packs s (content_id, who) of
                 Some pack \<Rightarrow> views_remaining pack > 0 | None \<Rightarrow> False) then Some PayPerView
      else None)"

definition access_rights_of :: "u32 \<Rightarrow> 'a \<Rightarrow> ('a, 'x) state \<Rightarrow> rights_type option" where
  "access_rights_of content_id who s =
     (if contents s content_id = None then None else access_rights content_id who s)"

section \<open>Local extrinsics\<close>

definition register_content ::
  "('a, 'x) config \<Rightarrow> 'a origin \<Rightarrow> u8 list \<Rightarrow> u8 list \<Rightarrow> u128 \<Rightarrow> u128 \<Rightarrow> u128 \<Rightarrow> u32 \<Rightarrow> ('a, 'x) state \<Rightarrow>
     dispatch_error + ('a, 'x) state" where
  "register_content cfg og hash ttl sub_price view_price own_price period s =
     and_then (ensure_signed og) (\<lambda>creator_acc.
     let content_id = next_content_id s in
     and_then (ok_or (checked_add content_id 1) (Pallet ContentIdOverflow)) (\<lambda>next_id.
     and_then (next_collection_id cfg s) (\<lambda>(collection, s).
     let collection_cfg = \<lparr>disabled_settings = [TransferableItems], max_supply = None\<rparr> in
     and_then (nfts_do_create_collection cfg collection creator_acc creator_acc collection_cfg
                 (nfts_collection_deposit cfg) (collection, creator_acc, creator_acc) (ext s)) (\<lambda>x.
     let parent_item_id = 0 in
     and_then (nfts_do_mint cfg collection parent_item_id (Some creator_acc) creator_acc x) (\<lambda>x.
     let metadata = \<lparr>creator = creator_acc, metadata_hash = hash, collection_id = collection,
           content_item_id = parent_item_id, title = ttl, subscription_price = sub_price,
           ppv_price = view_price, ownership_price = own_price, period_length = period\<rparr>;
         s = s\<lparr>ext := x\<rparr>;
         s = s\<lparr>contents := (contents s)(content_id \<mapsto> metadata)\<rparr>;
         s = s\<lparr>next_content_id := next_id\<rparr>;
         s = s\<lparr>next_item_id := (next_item_id s)(collection := 1)\<rparr>
     in Inr (deposit_event (ContentRegistered content_id creator_acc collection parent_item_id) s))))))"

definition subscribe ::
  "('a, 'x) config \<Rightarrow> 'a origin \<Rightarrow> u32 \<Rightarrow> ('a, 'x) state \<Rightarrow> dispatch_error + weight \<times> ('a, 'x) state" where
  "subscribe cfg og content_id s =
     and_then (ensure_signed og) (\<lambda>subscriber.
     and_then (ok_or (contents s content_id) (Pallet ContentNotFound)) (\<lambda>content.
     and_then (ensure (subscriptions s (content_id, subscriber) = None)
                 (Pallet SubscriptionAlreadyExists)) (\<lambda>_.
     and_then (pay_with_royalties cfg subscriber (creator content) content_id
                 (subscription_price content) s) (\<lambda>(splits, s).
     and_then (mint_and_nest_child cfg (creator content) subscriber (collection_id content)
                 (content_item_id content) Subscription s) (\<lambda>(child_item_id, s).
     let expiry = saturating_add (current_block s) (period_length content);
         s = s\<lparr>subscriptions := (subscriptions s)((content_id, subscriber) \<mapsto>
               \<lparr>expiry_block = expiry, auto_renew = False, sub_child_item_id = child_item_id\<rparr>)\<rparr>;
         s = deposit_event (SubscriptionCreated content_id subscriber expiry) s
     in Inr (wi_subscribe (weights cfg) splits, s))))))"

definition renew_subscription ::
  "('a, 'x) config \<Rightarrow> 'a origin \<Rightarrow> u32 \<Rightarrow> ('a, 'x) state \<Rightarrow> dispatch_error + weight \<times> ('a, 'x) state" where
  "renew_subscription cfg og content_id s =
     and_then (ensure_signed og) (\<lambda>subscriber.
     and_then (ok_or (contents s content_id) (Pallet ContentNotFound)) (\<lambda>content.
     and_then (ok_or (subscriptions s (content_id, subscriber)) (Pallet SubscriptionNotFound)) (\<lambda>sub.
     and_then (ensure (expiry_block sub \<le> current_block s) (Pallet SubscriptionNotExpired)) (\<lambda>_.
     and_then (pay_with_royalties cfg subscriber (creator content) content_id
                 (subscription_price content) s) (\<lambda>(splits, s).
     let new_expiry = saturating_add (current_block s) (period_length content);
         s = update_subscription (content_id, subscriber) (\<lambda>sub. sub\<lparr>expiry_block := new_expiry\<rparr>) s;
         s = deposit_event (SubscriptionRenewed content_id subscriber new_expiry) s
     in Inr (wi_renew_subscription (weights cfg) splits, s))))))"

definition purchase_views ::
  "('a, 'x) config \<Rightarrow> 'a origin \<Rightarrow> u32 \<Rightarrow> u32 \<Rightarrow> ('a, 'x) state \<Rightarrow>
     dispatch_error + weight \<times> ('a, 'x) state" where
  "purchase_views cfg og content_id num_views s =
     and_then (ensure_signed og) (\<lambda>buyer.
     and_then (do_purchase_views cfg buyer buyer content_id num_views s) (\<lambda>(splits, s).
     Inr (wi_purchase_views (weights cfg) splits,
          deposit_event (ViewPackPurchased content_id buyer num_views) s)))"

definition consume_view ::
  "('a, 'x) config \<Rightarrow> 'a origin \<Rightarrow> u32 \<Rightarrow> ('a, 'x) state \<Rightarrow> dispatch_error + ('a, 'x) state" where
  "consume_view cfg og content_id s =
     and_then (ensure_signed og) (\<lambda>viewer. do_consume_view cfg content_id viewer s)"

definition purchase_ownership ::
  "('a, 'x) config \<Rightarrow> 'a origin \<Rightarrow> u32 \<Rightarrow> ('a, 'x) state \<Rightarrow> dispatch_error + weight \<times> ('a, 'x) state" where
  "purchase_ownership cfg og content_id s =
     and_then (ensure_signed og) (\<lambda>buyer.
     and_then (ok_or (contents s content_id) (Pallet ContentNotFound)) (\<lambda>content.
     and_then (ensure (ownership s (content_id, buyer) = None) (Pallet AlreadyOwned)) (\<lambda>_.
     and_then (pay_with_royalties cfg buyer (creator content) content_id
                 (ownership_price content) s) (\<lambda>(splits, s).
     and_then (mint_and_nest_child cfg (creator content) buyer (collection_id content)
                 (content_item_id content) Ownership s) (\<lambda>(child_item_id, s).
     let s = s\<lparr>ownership := (ownership s)((content_id, buyer) \<mapsto> \<lparr>own_child_item_id = child_item_id\<rparr>)\<rparr>;
         s = deposit_event (OwnershipPurchased content_id buyer) s
     in Inr (wi_purchase_ownership (weights cfg) splits, s))))))"

definition check_access ::
  "('a, 'x) config \<Rightarrow> 'a origin \<Rightarrow> u32 \<Rightarrow> ('a, 'x) state \<Rightarrow> dispatch_error + ('a, 'x) state" where
  "check_access cfg og content_id s =
     and_then (ensure_signed og) (\<lambda>who.
     and_then (ensure (contents s content_id \<noteq> None) (Pallet ContentNotFound)) (\<lambda>_.
     let has_access = access_rights content_id who s \<noteq> None
     in Inr (deposit_event (AccessChecked content_id who has_access) s)))"

section \<open>Cross-chain extrinsics\<close>

definition xcm_subscribe ::
  "('a, 'x) config \<Rightarrow> 'a origin \<Rightarrow> u32 \<Rightarrow> 'a \<Rightarrow> ('a, 'x) state \<Rightarrow>
     dispatch_error + weight \<times> ('a, 'x) state" where
  "xcm_subscribe cfg og content_id beneficiary s =
     and_then (ensure_signed og) (\<lambda>payer.
     and_then (ok_or (contents s content_id) (Pallet ContentNotFound)) (\<lambda>content.
     and_then (ensure (subscriptions s (content_id, beneficiary) = None)
                 (Pallet SubscriptionAlreadyExists)) (\<lambda>_.
     and_then (pay_with_royalties cfg payer (creator content) content_id
                 (subscription_price content) s) (\<lambda>(splits, s).
     and_then (mint_and_nest_child cfg (creator content) beneficiary (collection_id content)
                 (content_item_id content) Subscription s) (\<lambda>(child_item_id, s).
     let expiry = saturating_add (current_block s) (period_length content);
         s = s\<lparr>subscriptions := (subscriptions s)((content_id, beneficiary) \<mapsto>
               \<lparr>expiry_block = expiry, auto_renew = False, sub_child_item_id = child_item_id\<rparr>)\<rparr>;
         s = deposit_event (CrossChainSubscriptionCreated content_id beneficiary payer expiry) s
     in Inr (wi_xcm_subscribe (weights cfg) splits, s))))))"

definition xcm_renew_subscription ::
  "('a, 'x) config \<Rightarrow> 'a origin \<Rightarrow> u32 \<Rightarrow> 'a \<Rightarrow> ('a, 'x) state \<Rightarrow>
     dispatch_error + weight \<times> ('a, 'x) state" where
  "xcm_renew_subscription cfg og content_id beneficiary s =
     and_then (ensure_signed og) (\<lambda>payer.
     and_then (ok_or (contents s content_id) (Pallet ContentNotFound)) (\<lambda>content.
     and_then (ok_or (subscriptions s (content_id, beneficiary)) (Pallet SubscriptionNotFound)) (\<lambda>sub.
     and_then (ensure (expiry_block sub \<le> current_block s) (Pallet SubscriptionNotExpired)) (\<lambda>_.
     and_then (pay_with_royalties cfg payer (creator content) content_id
                 (subscription_price content) s) (\<lambda>(splits, s).
     let new_expiry = saturating_add (current_block s) (period_length content);
         s = update_subscription (content_id, beneficiary) (\<lambda>sub. sub\<lparr>expiry_block := new_expiry\<rparr>) s;
         s = deposit_event (CrossChainSubscriptionRenewed content_id beneficiary payer new_expiry) s
     in Inr (wi_xcm_renew_subscription (weights cfg) splits, s))))))"

definition xcm_purchase_views ::
  "('a, 'x) config \<Rightarrow> 'a origin \<Rightarrow> u32 \<Rightarrow> 'a \<Rightarrow> u32 \<Rightarrow> ('a, 'x) state \<Rightarrow>
     dispatch_error + weight \<times> ('a, 'x) state" where
  "xcm_purchase_views cfg og content_id beneficiary num_views s =
     and_then (ensure_signed og) (\<lambda>payer.
     and_then (do_purchase_views cfg payer beneficiary content_id num_views s) (\<lambda>(splits, s).
     Inr (wi_xcm_purchase_views (weights cfg) splits,
          deposit_event (CrossChainViewPackPurchased content_id beneficiary payer num_views) s)))"

definition xcm_purchase_ownership ::
  "('a, 'x) config \<Rightarrow> 'a origin \<Rightarrow> u32 \<Rightarrow> 'a \<Rightarrow> ('a, 'x) state \<Rightarrow>
     dispatch_error + weight \<times> ('a, 'x) state" where
  "xcm_purchase_ownership cfg og content_id beneficiary s =
     and_then (ensure_signed og) (\<lambda>payer.
     and_then (ok_or (contents s content_id) (Pallet ContentNotFound)) (\<lambda>content.
     and_then (ensure (ownership s (content_id, beneficiary) = None) (Pallet AlreadyOwned)) (\<lambda>_.
     and_then (pay_with_royalties cfg payer (creator content) content_id
                 (ownership_price content) s) (\<lambda>(splits, s).
     and_then (mint_and_nest_child cfg (creator content) beneficiary (collection_id content)
                 (content_item_id content) Ownership s) (\<lambda>(child_item_id, s).
     let s = s\<lparr>ownership := (ownership s)((content_id, beneficiary) \<mapsto>
               \<lparr>own_child_item_id = child_item_id\<rparr>)\<rparr>;
         s = deposit_event (CrossChainOwnershipPurchased content_id beneficiary payer) s
     in Inr (wi_xcm_purchase_ownership (weights cfg) splits, s))))))"

section \<open>Transfer of ownership\<close>

definition transfer_ownership ::
  "('a, 'x) config \<Rightarrow> 'a origin \<Rightarrow> u32 \<Rightarrow> 'a \<Rightarrow> ('a, 'x) state \<Rightarrow> dispatch_error + ('a, 'x) state" where
  "transfer_ownership cfg og content_id to s =
     and_then (ensure_signed og) (\<lambda>holder.
     and_then (ok_or (contents s content_id) (Pallet ContentNotFound)) (\<lambda>content.
     and_then (ok_or (ownership s (content_id, holder)) (Pallet OwnershipNotFound)) (\<lambda>info.
     and_then (ensure (ownership s (content_id, to) = None) (Pallet AlreadyOwned)) (\<lambda>_.
     and_then (nfts_do_burn cfg (collection_id content) (own_child_item_id info) (ext s)) (\<lambda>x.
     let s = s\<lparr>ext := x\<rparr>;
         s = s\<lparr>parent := (parent s)((collection_id content, own_child_item_id info) := None)\<rparr> in
     and_then (mint_and_nest_child cfg (creator content) to (collection_id content)
                 (content_item_id content) Ownership s) (\<lambda>(new_child_item_id, s).
     let s = s\<lparr>ownership := (ownership s)((content_id, holder) := None)\<rparr>;
         s = s\<lparr>ownership := (ownership s)((content_id, to) \<mapsto>
               \<lparr>own_child_item_id = new_child_item_id\<rparr>)\<rparr>
     in Inr (deposit_event (OwnershipTransferred content_id holder to) s)))))))"

definition xcm_transfer_ownership ::
  "('a, 'x) config \<Rightarrow> 'a origin \<Rightarrow> u32 \<Rightarrow> 'a \<Rightarrow> 'a \<Rightarrow> ('a, 'x) state \<Rightarrow> dispatch_error + ('a, 'x) state" where
  "xcm_transfer_ownership cfg og content_id holder to s =
     and_then (ensure_signed og) (\<lambda>authorizer.
     and_then (ensure (authorizer = holder) (Pallet Unauthorized)) (\<lambda>_.
     and_then (ok_or (contents s content_id) (Pallet ContentNotFound)) (\<lambda>content.
     and_then (ok_or (ownership s (content_id, holder)) (Pallet OwnershipNotFound)) (\<lambda>info.
     and_then (ensure (ownership s (content_id, to) = None) (Pallet AlreadyOwned)) (\<lambda>_.
     and_then (nfts_do_burn cfg (collection_id content) (own_child_item_id info) (ext s)) (\<lambda>x.
     let s = s\<lparr>ext := x\<rparr>;
         s = s\<lparr>parent := (parent s)((collection_id content, own_child_item_id info) := None)\<rparr> in
     and_then (mint_and_nest_child cfg (creator content) to (collection_id content)
                 (content_item_id content) Ownership s) (\<lambda>(new_child_item_id, s).
     let s = s\<lparr>ownership := (ownership s)((content_id, holder) := None)\<rparr>;
         s = s\<lparr>ownership := (ownership s)((content_id, to) \<mapsto>
               \<lparr>own_child_item_id = new_child_item_id\<rparr>)\<rparr>
     in Inr (deposit_event (CrossChainOwnershipTransferred content_id holder to authorizer) s))))))))"

section \<open>Auto-renewal switches\<close>

definition enable_auto_renew ::
  "('a, 'x) config \<Rightarrow> 'a origin \<Rightarrow> u32 \<Rightarrow> ('a, 'x) state \<Rightarrow> dispatch_error + ('a, 'x) state" where
  "enable_auto_renew cfg og content_id s =
     and_then (ensure_signed og) (\<lambda>subscriber.
     and_then (ok_or (contents s content_id) (Pallet ContentNotFound)) (\<lambda>content.
     and_then (ensure (min_auto_renew_period cfg \<le> period_length content)
                 (Pallet AutoRenewPeriodTooShort)) (\<lambda>_.
     and_then (ok_or (subscriptions s (content_id, subscriber)) (Pallet SubscriptionNotFound)) (\<lambda>sub.
     and_then (ensure (\<not> auto_renew sub) (Pallet AutoRenewAlreadyEnabled)) (\<lambda>_.
     let s = s\<lparr>subscriptions := (subscriptions s)((content_id, subscriber) \<mapsto> sub\<lparr>auto_renew := True\<rparr>)\<rparr>;
         s = s\<lparr>auto_renew_index := (auto_renew_index s)((content_id, subscriber) \<mapsto> True)\<rparr>;
         now = current_block s in
     and_then (enqueue_renewal content_id subscriber
                 (max (expiry_block sub) (saturating_add now 1)) s) (\<lambda>(_, s).
     Inr (deposit_event (AutoRenewEnabled content_id subscriber) s)))))))"

definition disable_auto_renew ::
  "('a, 'x) config \<Rightarrow> 'a origin \<Rightarrow> u32 \<Rightarrow> ('a, 'x) state \<Rightarrow> dispatch_error + ('a, 'x) state" where
  "disable_auto_renew cfg og content_id s =
     and_then (ensure_signed og) (\<lambda>subscriber.
     and_then (ok_or (subscriptions s (content_id, subscriber)) (Pallet SubscriptionNotFound)) (\<lambda>sub.
     and_then (ensure (auto_renew sub) (Pallet AutoRenewNotEnabled)) (\<lambda>_.
     let s = s\<lparr>subscriptions := (subscriptions s)((content_id, subscriber) \<mapsto> sub\<lparr>auto_renew := False\<rparr>)\<rparr>;
         s = s\<lparr>auto_renew_index := (auto_renew_index s)((content_id, subscriber) := None)\<rparr>
     in Inr (deposit_event (AutoRenewDisabled content_id subscriber) s))))"

section \<open>Metadata, royalties and metering\<close>

definition query_rights_metadata ::
  "('a, 'x) config \<Rightarrow> 'a origin \<Rightarrow> u32 \<Rightarrow> ('a, 'x) state \<Rightarrow> dispatch_error + weight \<times> ('a, 'x) state" where
  "query_rights_metadata cfg og content_id s =
     and_then (ensure_signed og) (\<lambda>_.
     and_then (ok_or (contents s content_id) (Pallet ContentNotFound)) (\<lambda>content.
     let splits = royalty_splits s content_id;
         total_bp = sum_list (map basis_points splits);
         metadata = \<lparr>md_content_id = content_id,
           md_rights_type =
             (if ownership_price content > 0 then Ownership
              else if ppv_price content > 0 then PayPerView else Subscription),
           md_metadata_hash = metadata_hash content, md_title = title content,
           md_subscription_price = subscription_price content, md_ppv_price = ppv_price content,
           md_ownership_price = ownership_price content, md_period_length = period_length content,
           md_royalty_total_basis_points = total_bp,
           md_num_collaborators = of_nat (length splits)\<rparr>;
         num_splits = ucast (md_num_collaborators metadata)
     in Inr (wi_query_rights_metadata (weights cfg) num_splits,
             deposit_event (RightsMetadataQueried content_id metadata) s)))"

definition set_royalty_splits ::
  "('a, 'x) config \<Rightarrow> 'a origin \<Rightarrow> u32 \<Rightarrow> royalty_split list \<Rightarrow> ('a, 'x) state \<Rightarrow>
     dispatch_error + ('a, 'x) state" where
  "set_royalty_splits cfg og content_id splits s =
     and_then (ensure_signed og) (\<lambda>caller.
     and_then (ok_or (contents s content_id) (Pallet ContentNotFound)) (\<lambda>content.
     and_then (ensure (caller = creator content) (Pallet NotContentCreator)) (\<lambda>_.
     let total_bp = sum_list (map (\<lambda>sp. ucast (basis_points sp) :: u32) splits) in
     and_then (ensure (total_bp \<le> 10000) (Pallet InvalidRoyaltySplits)) (\<lambda>_.
     let num_splits = of_nat (length splits);
         s = s\<lparr>royalty_splits := (royalty_splits s)(content_id := splits)\<rparr>
     in Inr (deposit_event (RoyaltySplitsUpdated content_id caller num_splits) s)))))"

definition set_meter ::
  "('a, 'x) config \<Rightarrow> 'a origin \<Rightarrow> u32 \<Rightarrow> 'a option \<Rightarrow> ('a, 'x) state \<Rightarrow>
     dispatch_error + ('a, 'x) state" where
  "set_meter cfg og content_id meter s =
     and_then (ensure_signed og) (\<lambda>caller.
     and_then (ok_or (contents s content_id) (Pallet ContentNotFound)) (\<lambda>content.
     and_then (ensure (caller = creator content) (Pallet NotContentCreator)) (\<lambda>_.
     let s = (case meter of
                Some m \<Rightarrow> s\<lparr>meters := (meters s)(content_id \<mapsto> m)\<rparr>
              | None \<Rightarrow> s\<lparr>meters := (meters s)(content_id := None)\<rparr>)
     in Inr (deposit_event (MeterSet content_id meter) s))))"

definition consume_view_for ::
  "('a, 'x) config \<Rightarrow> 'a origin \<Rightarrow> u32 \<Rightarrow> 'a \<Rightarrow> ('a, 'x) state \<Rightarrow> dispatch_error + ('a, 'x) state" where
  "consume_view_for cfg og content_id viewer s =
     and_then (ensure_signed og) (\<lambda>caller.
     and_then (ensure (meters s content_id = Some caller) (Pallet Unauthorized)) (\<lambda>_.
     do_consume_view cfg content_id viewer s))"

section \<open>Dispatch\<close>

text \<open>The call enum that \<open>#[pallet::call]\<close> generates, in the order of the call indices.\<close>

datatype 'a call =
    RegisterContent "u8 list" "u8 list" u128 u128 u128 u32
  | Subscribe u32
  | RenewSubscription u32
  | PurchaseViews u32 u32
  | ConsumeView u32
  | PurchaseOwnership u32
  | CheckAccess u32
  | XcmSubscribe u32 'a
  | XcmRenewSubscription u32 'a
  | XcmPurchaseViews u32 'a u32
  | XcmPurchaseOwnership u32 'a
  | TransferOwnership u32 'a
  | XcmTransferOwnership u32 'a 'a
  | SetRoyaltySplits u32 "royalty_split list"
  | EnableAutoRenew u32
  | DisableAutoRenew u32
  | QueryRightsMetadata u32
  | SetMeter u32 "'a option"
  | ConsumeViewFor u32 'a

definition no_post_info :: "dispatch_error + 's \<Rightarrow> dispatch_error + weight option \<times> 's" where
  "no_post_info r = and_then r (\<lambda>s. Inr (None, s))"

definition post_info :: "dispatch_error + weight \<times> 's \<Rightarrow> dispatch_error + weight option \<times> 's" where
  "post_info r = and_then r (\<lambda>(w, s). Inr (Some w, s))"

fun dispatch ::
  "('a, 'x) config \<Rightarrow> 'a origin \<Rightarrow> 'a call \<Rightarrow> ('a, 'x) state \<Rightarrow>
     dispatch_error + weight option \<times> ('a, 'x) state" where
  "dispatch cfg og (RegisterContent h t p q r l) s = no_post_info (register_content cfg og h t p q r l s)"
| "dispatch cfg og (Subscribe c) s = post_info (subscribe cfg og c s)"
| "dispatch cfg og (RenewSubscription c) s = post_info (renew_subscription cfg og c s)"
| "dispatch cfg og (PurchaseViews c n) s = post_info (purchase_views cfg og c n s)"
| "dispatch cfg og (ConsumeView c) s = no_post_info (consume_view cfg og c s)"
| "dispatch cfg og (PurchaseOwnership c) s = post_info (purchase_ownership cfg og c s)"
| "dispatch cfg og (CheckAccess c) s = no_post_info (check_access cfg og c s)"
| "dispatch cfg og (XcmSubscribe c b) s = post_info (xcm_subscribe cfg og c b s)"
| "dispatch cfg og (XcmRenewSubscription c b) s = post_info (xcm_renew_subscription cfg og c b s)"
| "dispatch cfg og (XcmPurchaseViews c b n) s = post_info (xcm_purchase_views cfg og c b n s)"
| "dispatch cfg og (XcmPurchaseOwnership c b) s = post_info (xcm_purchase_ownership cfg og c b s)"
| "dispatch cfg og (TransferOwnership c t) s = no_post_info (transfer_ownership cfg og c t s)"
| "dispatch cfg og (XcmTransferOwnership c f t) s = no_post_info (xcm_transfer_ownership cfg og c f t s)"
| "dispatch cfg og (SetRoyaltySplits c sps) s = no_post_info (set_royalty_splits cfg og c sps s)"
| "dispatch cfg og (EnableAutoRenew c) s = no_post_info (enable_auto_renew cfg og c s)"
| "dispatch cfg og (DisableAutoRenew c) s = no_post_info (disable_auto_renew cfg og c s)"
| "dispatch cfg og (QueryRightsMetadata c) s = post_info (query_rights_metadata cfg og c s)"
| "dispatch cfg og (SetMeter c m) s = no_post_info (set_meter cfg og c m s)"
| "dispatch cfg og (ConsumeViewFor c v) s = no_post_info (consume_view_for cfg og c v s)"

text \<open>The weight charged before dispatch: the \<open>#[pallet::weight(..)]\<close> attributes.\<close>

fun call_weight :: "('a, 'x) config \<Rightarrow> 'a call \<Rightarrow> weight" where
  "call_weight cfg (RegisterContent _ _ _ _ _ _) = wi_register_content (weights cfg)"
| "call_weight cfg (Subscribe _) = wi_subscribe (weights cfg) MAX_ROYALTY_SPLITS"
| "call_weight cfg (RenewSubscription _) = wi_renew_subscription (weights cfg) MAX_ROYALTY_SPLITS"
| "call_weight cfg (PurchaseViews _ _) = wi_purchase_views (weights cfg) MAX_ROYALTY_SPLITS"
| "call_weight cfg (ConsumeView _) = wi_consume_view (weights cfg)"
| "call_weight cfg (PurchaseOwnership _) = wi_purchase_ownership (weights cfg) MAX_ROYALTY_SPLITS"
| "call_weight cfg (CheckAccess _) = wi_check_access (weights cfg)"
| "call_weight cfg (XcmSubscribe _ _) = wi_xcm_subscribe (weights cfg) MAX_ROYALTY_SPLITS"
| "call_weight cfg (XcmRenewSubscription _ _) = wi_xcm_renew_subscription (weights cfg) MAX_ROYALTY_SPLITS"
| "call_weight cfg (XcmPurchaseViews _ _ _) = wi_xcm_purchase_views (weights cfg) MAX_ROYALTY_SPLITS"
| "call_weight cfg (XcmPurchaseOwnership _ _) = wi_xcm_purchase_ownership (weights cfg) MAX_ROYALTY_SPLITS"
| "call_weight cfg (TransferOwnership _ _) = wi_transfer_ownership (weights cfg)"
| "call_weight cfg (XcmTransferOwnership _ _ _) = wi_xcm_transfer_ownership (weights cfg)"
| "call_weight cfg (SetRoyaltySplits _ sps) = wi_set_royalty_splits (weights cfg) (of_nat (length sps))"
| "call_weight cfg (EnableAutoRenew _) = wi_enable_auto_renew (weights cfg)"
| "call_weight cfg (DisableAutoRenew _) = wi_disable_auto_renew (weights cfg)"
| "call_weight cfg (QueryRightsMetadata _) = wi_query_rights_metadata (weights cfg) MAX_ROYALTY_SPLITS"
| "call_weight cfg (SetMeter _ _) = wi_set_meter (weights cfg)"
| "call_weight cfg (ConsumeViewFor _ _) = wi_consume_view_for (weights cfg)"

text \<open>
  Arguments are decoded as bounded vectors and fixed-size arrays, so a call that is dispatched
  carries at most 128 title bytes, a 32-byte hash and at most ten splits with 32-byte recipients.
\<close>

fun decodable :: "'a call \<Rightarrow> bool" where
  "decodable (RegisterContent hash ttl _ _ _ _) \<longleftrightarrow> length hash = 32 \<and> length ttl \<le> 128"
| "decodable (SetRoyaltySplits _ sps) \<longleftrightarrow>
     length sps \<le> unat MAX_ROYALTY_SPLITS \<and> (\<forall>sp\<in>set sps. length (recipient sp) = 32)"
| "decodable _ \<longleftrightarrow> True"

end
