(* ===== verification/Rights_Effects.thy ===== *)
theory Rights_Effects
  imports Rights_Calls
begin

text \<open>
  What a successful extrinsic of \<open>pallet_content_rights\<close> may do. The relation \<open>effect\<close> is the
  specification of the storage changes of the pallet, one rule per kind of change with the
  conditions under which it is allowed; \<open>dispatch_effect\<close> shows that each of the nineteen
  extrinsics, when it succeeds for a signed caller, makes one of these changes. Invariants and
  safety properties are proved over the rules of \<open>effect\<close>.
\<close>

section \<open>Calls into other pallets\<close>

inductive ext_call :: "('a, 'x) config \<Rightarrow> 'x \<Rightarrow> 'x \<Rightarrow> bool" for cfg :: "('a, 'x) config" where
  ext_transfer: "currency_transfer cfg payer to v p x = Inr x' \<Longrightarrow> ext_call cfg x x'"
| ext_create: "nfts_do_create_collection cfg col own adm cc d ev x = Inr x' \<Longrightarrow> ext_call cfg x x'"
| ext_mint: "nfts_do_mint cfg col item by_acc own x = Inr x' \<Longrightarrow> ext_call cfg x x'"
| ext_attribute: "nfts_set_attribute cfg og col item ns k v x = Inr x' \<Longrightarrow> ext_call cfg x x'"
| ext_burn: "nfts_do_burn cfg col item x = Inr x' \<Longrightarrow> ext_call cfg x x'"

abbreviation ext_calls :: "('a, 'x) config \<Rightarrow> 'x \<Rightarrow> 'x \<Rightarrow> bool" where
  "ext_calls cfg \<equiv> (ext_call cfg)\<^sup>*\<^sup>*"

text \<open>Storage as in \<open>s\<close>, after calls into other pallets and with more events.\<close>

definition settles :: "('a, 'x) config \<Rightarrow> ('a, 'x) state \<Rightarrow> ('a, 'x) state \<Rightarrow> bool" where
  "settles cfg s s' \<longleftrightarrow> only_ext_events s s' \<and> ext_calls cfg (ext s) (ext s')"

lemma ext_calls_single: "ext_call cfg x x' \<Longrightarrow> ext_calls cfg x x'"
  by (rule r_into_rtranclp)

lemmas ext_call_steps [intro] =
  ext_transfer [THEN ext_calls_single] ext_create [THEN ext_calls_single]
  ext_mint [THEN ext_calls_single] ext_attribute [THEN ext_calls_single]
  ext_burn [THEN ext_calls_single]

lemma settles_refl [simp]: "settles cfg s s"
  by (simp add: settles_def)

lemma settles_trans: "settles cfg s t \<Longrightarrow> settles cfg t u \<Longrightarrow> settles cfg s u"
  unfolding settles_def by (meson only_ext_events_trans rtranclp_trans)

lemma settles_deposit: "settles cfg s t \<Longrightarrow> settles cfg s (deposit_event e t)"
  using only_ext_events_trans [OF _ only_ext_events_deposit [of t e]] by (simp add: settles_def)

lemma settles_ext: "ext_calls cfg (ext s) x \<Longrightarrow> settles cfg s (s\<lparr>ext := x\<rparr>)"
  by (simp add: settles_def)

lemma settles_deposit_self [simp]: "settles cfg s (deposit_event e s)"
  by (simp add: settles_deposit)

lemma settles_cases:
  assumes "settles cfg s s'"
  obtains x evs where "s' = s\<lparr>ext := x, events := events s @ evs\<rparr>" and "ext_calls cfg (ext s) x"
  using assms by (auto simp: settles_def elim!: only_ext_events_cases)

lemmas settles_storage = only_ext_events_storage [OF settles_def [THEN iffD1, THEN conjunct1]]

lemma transfer_amount_settles: "transfer_amount cfg payer to v s = Inr s' \<Longrightarrow> settles cfg s s'"
  by (auto simp: transfer_amount_def result_simps settles_def)

lemma pay_splits_settles:
  "pay_splits cfg payer cid amount splits d s = Inr (d', s') \<Longrightarrow> settles cfg s s'"
proof (induction splits arbitrary: d s)
  case (Cons sp sps)
  show ?case
  proof (cases "royalty_share amount (basis_points sp) > 0")
    case True
    with Cons.prems obtain r t where
      "transfer_amount cfg payer r (royalty_share amount (basis_points sp)) s = Inr t"
      "pay_splits cfg payer cid amount sps (saturating_add d (royalty_share amount (basis_points sp)))
        (deposit_event (RoyaltyDistributed cid r (royalty_share amount (basis_points sp))) t) = Inr (d', s')"
      by (auto simp: Let_def result_simps)
    then show ?thesis
      by (meson Cons.IH settles_deposit settles_trans transfer_amount_settles)
  qed (use Cons in \<open>simp add: Let_def\<close>)
qed simp

lemma pay_with_royalties_settles:
  "pay_with_royalties cfg payer c cid amount s = Inr (n, s') \<Longrightarrow> settles cfg s s'"
  by (auto simp: pay_with_royalties_def Let_def result_simps split: if_splits
      dest!: transfer_amount_settles pay_splits_settles intro: settles_trans)

section \<open>Child items\<close>

definition nest :: "u32 \<Rightarrow> u32 \<Rightarrow> ('a, 'x) state \<Rightarrow> ('a, 'x) state" where
  "nest col par s =
     s\<lparr>parent := (parent s)((col, next_item_id s col) \<mapsto> (col, par)),
       next_item_id := (next_item_id s)(col := next_item_id s col + 1)\<rparr>"

definition unnest :: "u32 \<Rightarrow> u32 \<Rightarrow> ('a, 'x) state \<Rightarrow> ('a, 'x) state" where
  "unnest col child s = s\<lparr>parent := (parent s)((col, child) := None)\<rparr>"

lemma nest_simps [simp]:
  "parent (nest col par s) = (parent s)((col, next_item_id s col) \<mapsto> (col, par))"
  "next_item_id (nest col par s) = (next_item_id s)(col := next_item_id s col + 1)"
  "contents (nest col par s) = contents s"
  "subscriptions (nest col par s) = subscriptions s"
  "view_packs (nest col par s) = view_packs s"
  "ownership (nest col par s) = ownership s"
  "auto_renew_index (nest col par s) = auto_renew_index s"
  "renewal_queue (nest col par s) = renewal_queue s"
  "royalty_splits (nest col par s) = royalty_splits s"
  "meters (nest col par s) = meters s"
  "next_content_id (nest col par s) = next_content_id s"
  "block_number (nest col par s) = block_number s"
  "current_block (nest col par s) = current_block s"
  "ext (nest col par s) = ext s"
  "events (nest col par s) = events s"
  by (simp_all add: nest_def)

lemma unnest_simps [simp]:
  "parent (unnest col ch s) = (parent s)((col, ch) := None)"
  "next_item_id (unnest col ch s) = next_item_id s"
  "contents (unnest col ch s) = contents s"
  "subscriptions (unnest col ch s) = subscriptions s"
  "view_packs (unnest col ch s) = view_packs s"
  "ownership (unnest col ch s) = ownership s"
  "auto_renew_index (unnest col ch s) = auto_renew_index s"
  "renewal_queue (unnest col ch s) = renewal_queue s"
  "royalty_splits (unnest col ch s) = royalty_splits s"
  "meters (unnest col ch s) = meters s"
  "next_content_id (unnest col ch s) = next_content_id s"
  "block_number (unnest col ch s) = block_number s"
  "current_block (unnest col ch s) = current_block s"
  "ext (unnest col ch s) = ext s"
  "events (unnest col ch s) = events s"
  by (simp_all add: unnest_def)

text \<open>An identifier after which the counter can still be advanced.\<close>

definition has_successor :: "u32 \<Rightarrow> bool" where
  "has_successor n \<longleftrightarrow> unat n + 1 < 2 ^ 32"

lemma mint_and_nest_child_cases:
  assumes "mint_and_nest_child cfg cr own col par rt s = Inr (child, s')"
  obtains nx x1 x2 k v where
    "checked_add (next_item_id s col) 1 = Some nx"
    "nfts_do_mint cfg col (next_item_id s col) (Some cr) own (ext s) = Inr x1"
    "nfts_set_attribute cfg (Signed cr) col (Some (next_item_id s col)) CollectionOwner k v x1 =
      Inr x2"
    "child = next_item_id s col"
    "s' = deposit_event (ChildNested col par col (next_item_id s col))
      (s\<lparr>ext := x2, parent := (parent s)((col, next_item_id s col) \<mapsto> (col, par)),
         next_item_id := (next_item_id s)(col := nx)\<rparr>)"
  using assms unfolding mint_and_nest_child_def Let_def
  by (elim result_elims)
     (rule that, assumption, assumption, assumption, erule sym, erule trans [OF sym], simp (no_asm))

lemma mint_and_nest_child_Inr:
  assumes "mint_and_nest_child cfg cr own col par rt s = Inr (child, s')"
  shows "child = next_item_id s col \<and> has_successor (next_item_id s col) \<and>
    settles cfg (nest col par s) s'"
  using assms
proof (cases rule: mint_and_nest_child_cases)
  case (1 nx x1 x2 k v)
  have calls: "ext_calls cfg (ext s) x2"
    using ext_mint [THEN ext_calls_single, OF 1(2)] ext_attribute [THEN ext_calls_single, OF 1(3)]
    by (rule rtranclp_trans)
  have nx: "has_successor (next_item_id s col)" "nx = next_item_id s col + 1"
    using 1(1) by (simp_all add: machine_arith has_successor_def)
  have "s\<lparr>ext := x2, parent := (parent s)((col, next_item_id s col) \<mapsto> (col, par)),
         next_item_id := (next_item_id s)(col := nx)\<rparr> = nest col par s\<lparr>ext := x2\<rparr>"
    by (simp add: nest_def nx(2))
  moreover have "settles cfg (nest col par s) (nest col par s\<lparr>ext := x2\<rparr>)"
    using calls by (simp add: settles_def)
  ultimately show ?thesis using 1(4,5) nx(1) by (simp add: settles_deposit)
qed

section \<open>The storage effects\<close>

definition collection_counter :: "('a, 'x) config \<Rightarrow> 'x \<Rightarrow> u32" where
  "collection_counter cfg x = unwrap_or (nfts_next_collection_id cfg x) 0"

inductive effect ::
  "('a, 'x) config \<Rightarrow> 'a \<Rightarrow> 'a call \<Rightarrow> ('a, 'x) state \<Rightarrow> ('a, 'x) state \<Rightarrow> bool"
  for cfg :: "('a, 'x) config" and who :: 'a and act :: "'a call" and s :: "('a, 'x) state"
    and s' :: "('a, 'x) state"
where
  registered:
    "has_successor (next_content_id s) \<Longrightarrow> has_successor (collection_counter cfg (ext s)) \<Longrightarrow>
     creator m = who \<Longrightarrow> content_item_id m = 0 \<Longrightarrow> collection_id m = collection_counter cfg (ext s) \<Longrightarrow>
     settles cfg
       (s\<lparr>contents := (contents s)(next_content_id s \<mapsto> m), next_content_id := next_content_id s + 1,
          next_item_id := (next_item_id s)(collection_id m := 1),
          ext := nfts_set_next_collection_id cfg (collection_counter cfg (ext s) + 1) (ext s)\<rparr>) s' \<Longrightarrow>
     act = RegisterContent (metadata_hash m) (title m) (subscription_price m) (ppv_price m)
       (ownership_price m) (period_length m) \<Longrightarrow>
     effect cfg who act s s'"
| subscribed:
    "contents s c = Some m \<Longrightarrow> subscriptions s (c, b) = None \<Longrightarrow>
     has_successor (next_item_id s (collection_id m)) \<Longrightarrow>
     settles cfg
       (nest (collection_id m) (content_item_id m) s
         \<lparr>subscriptions := (subscriptions s)((c, b) \<mapsto>
            \<lparr>expiry_block = saturating_add (current_block s) (period_length m), auto_renew = False,
             sub_child_item_id = next_item_id s (collection_id m)\<rparr>)\<rparr>) s' \<Longrightarrow>
     act = XcmSubscribe c b \<or> act = Subscribe c \<and> b = who \<Longrightarrow>
     effect cfg who act s s'"
| renewed:
    "contents s c = Some m \<Longrightarrow> subscriptions s (c, b) = Some sub \<Longrightarrow>
     expiry_block sub \<le> current_block s \<Longrightarrow>
     settles cfg
       (s\<lparr>subscriptions := (subscriptions s)((c, b) \<mapsto>
            sub\<lparr>expiry_block := saturating_add (current_block s) (period_length m)\<rparr>)\<rparr>) s' \<Longrightarrow>
     act = XcmRenewSubscription c b \<or> act = RenewSubscription c \<and> b = who \<Longrightarrow>
     effect cfg who act s s'"
| pack_bought:
    "contents s c = Some m \<Longrightarrow> view_packs s (c, b) = None \<Longrightarrow> 0 < n \<Longrightarrow>
     has_successor (next_item_id s (collection_id m)) \<Longrightarrow>
     settles cfg
       (nest (collection_id m) (content_item_id m) s
         \<lparr>view_packs := (view_packs s)((c, b) \<mapsto>
            \<lparr>views_remaining = n, pack_child_item_id = next_item_id s (collection_id m)\<rparr>)\<rparr>) s' \<Longrightarrow>
     act = XcmPurchaseViews c b n \<or> act = PurchaseViews c n \<and> b = who \<Longrightarrow>
     effect cfg who act s s'"
| views_added:
    "contents s c = Some m \<Longrightarrow> view_packs s (c, b) = Some pack \<Longrightarrow> 0 < n \<Longrightarrow>
     settles cfg
       (s\<lparr>view_packs := (view_packs s)((c, b) \<mapsto>
            pack\<lparr>views_remaining := saturating_add (views_remaining pack) n\<rparr>)\<rparr>) s' \<Longrightarrow>
     act = XcmPurchaseViews c b n \<or> act = PurchaseViews c n \<and> b = who \<Longrightarrow>
     effect cfg who act s s'"
| view_used:
    "act = ConsumeView c \<and> b = who \<or> act = ConsumeViewFor c b \<and> meters s c = Some who \<Longrightarrow>
     view_packs s (c, b) = Some pack \<Longrightarrow> 1 < views_remaining pack \<Longrightarrow>
     settles cfg
       (s\<lparr>view_packs := (view_packs s)((c, b) \<mapsto> pack\<lparr>views_remaining := views_remaining pack - 1\<rparr>)\<rparr>) s' \<Longrightarrow>
     effect cfg who act s s'"
| last_view_used:
    "act = ConsumeView c \<and> b = who \<or> act = ConsumeViewFor c b \<and> meters s c = Some who \<Longrightarrow>
     contents s c = Some m \<Longrightarrow>
     view_packs s (c, b) = Some pack \<Longrightarrow> views_remaining pack = 1 \<Longrightarrow>
     settles cfg
       (unnest (collection_id m) (pack_child_item_id pack) s
         \<lparr>view_packs := (view_packs s)((c, b) := None)\<rparr>) s' \<Longrightarrow>
     effect cfg who act s s'"
| ownership_bought:
    "contents s c = Some m \<Longrightarrow> ownership s (c, b) = None \<Longrightarrow>
     has_successor (next_item_id s (collection_id m)) \<Longrightarrow>
     settles cfg
       (nest (collection_id m) (content_item_id m) s
         \<lparr>ownership := (ownership s)((c, b) \<mapsto>
            \<lparr>own_child_item_id = next_item_id s (collection_id m)\<rparr>)\<rparr>) s' \<Longrightarrow>
     act = XcmPurchaseOwnership c b \<or> act = PurchaseOwnership c \<and> b = who \<Longrightarrow>
     effect cfg who act s s'"
| ownership_moved:
    "contents s c = Some m \<Longrightarrow> ownership s (c, who) = Some info \<Longrightarrow> ownership s (c, b) = None \<Longrightarrow>
     has_successor (next_item_id s (collection_id m)) \<Longrightarrow>
     settles cfg
       (nest (collection_id m) (content_item_id m)
           (unnest (collection_id m) (own_child_item_id info) s)
         \<lparr>ownership := (ownership s)((c, who) := None, (c, b) \<mapsto>
            \<lparr>own_child_item_id = next_item_id s (collection_id m)\<rparr>)\<rparr>) s' \<Longrightarrow>
     act = XcmTransferOwnership c who b \<or> act = TransferOwnership c b \<Longrightarrow>
     effect cfg who act s s'"
| renewal_enabled:
    "contents s c = Some m \<Longrightarrow> min_auto_renew_period cfg \<le> period_length m \<Longrightarrow>
     subscriptions s (c, who) = Some sub \<Longrightarrow> \<not> auto_renew sub \<Longrightarrow>
     enqueue_renewal c who (max (expiry_block sub) (saturating_add (current_block s) 1))
       (s\<lparr>subscriptions := (subscriptions s)((c, who) \<mapsto> sub\<lparr>auto_renew := True\<rparr>),
          auto_renew_index := (auto_renew_index s)((c, who) \<mapsto> True)\<rparr>) = Inr (off, t) \<Longrightarrow>
     settles cfg t s' \<Longrightarrow>
     act = EnableAutoRenew c \<Longrightarrow>
     effect cfg who act s s'"
| renewal_disabled:
    "subscriptions s (c, who) = Some sub \<Longrightarrow> auto_renew sub \<Longrightarrow>
     settles cfg
       (s\<lparr>subscriptions := (subscriptions s)((c, who) \<mapsto> sub\<lparr>auto_renew := False\<rparr>),
          auto_renew_index := (auto_renew_index s)((c, who) := None)\<rparr>) s' \<Longrightarrow>
     act = DisableAutoRenew c \<Longrightarrow>
     effect cfg who act s s'"
| splits_set:
    "contents s c = Some m \<Longrightarrow> creator m = who \<Longrightarrow> valid_splits splits \<Longrightarrow>
     settles cfg (s\<lparr>royalty_splits := (royalty_splits s)(c := splits)\<rparr>) s' \<Longrightarrow>
     act = SetRoyaltySplits c splits \<Longrightarrow>
     effect cfg who act s s'"
| meter_set:
    "contents s c = Some m \<Longrightarrow> creator m = who \<Longrightarrow>
     settles cfg (s\<lparr>meters := (meters s)(c := meter)\<rparr>) s' \<Longrightarrow>
     act = SetMeter c meter \<Longrightarrow>
     effect cfg who act s s'"
| queried:
    "settles cfg s s' \<Longrightarrow> contents s c \<noteq> None \<Longrightarrow> act = CheckAccess c \<or> act = QueryRightsMetadata c \<Longrightarrow>
     effect cfg who act s s'"

section \<open>Every extrinsic has such an effect\<close>

lemma settles_upd:
  assumes "settles cfg s t"
  shows "settles cfg (s\<lparr>subscriptions := v1\<rparr>) (t\<lparr>subscriptions := v1\<rparr>)"
    "settles cfg (s\<lparr>view_packs := v2\<rparr>) (t\<lparr>view_packs := v2\<rparr>)"
    "settles cfg (s\<lparr>ownership := v3\<rparr>) (t\<lparr>ownership := v3\<rparr>)"
    "settles cfg (nest col par s) (nest col par t)"
    "settles cfg (unnest col ch s) (unnest col ch t)"
  by (rule settles_cases [OF assms], simp add: settles_def only_ext_events_def nest_def unnest_def)+

lemma pay_and_mint:
  assumes pay: "pay_with_royalties cfg payer c cid amount s = Inr (n, t)"
    and mint: "mint_and_nest_child cfg cr own col par rt t = Inr (child, u)"
  shows "child = next_item_id s col" "has_successor (next_item_id s col)"
    "settles cfg (nest col par s) u"
  using mint_and_nest_child_Inr [OF mint] settles_storage [OF pay_with_royalties_settles [OF pay]]
    settles_upd(4) [OF pay_with_royalties_settles [OF pay], THEN settles_trans]
  by auto

lemma grant_subscription_effect:
  assumes "contents s c = Some m" and "subscriptions s (c, b) = None"
    and pay: "pay_with_royalties cfg payer (creator m) c (subscription_price m) s = Inr (n, t)"
    and mint: "mint_and_nest_child cfg (creator m) b (collection_id m) (content_item_id m)
      Subscription t = Inr (child, u)"
    and s': "s' = deposit_event e (u\<lparr>subscriptions := (subscriptions u)((c, b) \<mapsto>
      \<lparr>expiry_block = saturating_add (current_block u) (period_length m), auto_renew = False,
       sub_child_item_id = child\<rparr>)\<rparr>)"
    and act: "act = XcmSubscribe c b \<or> act = Subscribe c \<and> b = who"
  shows "effect cfg who act s s'"
proof (rule subscribed [OF assms(1,2)])
  note pm = pay_and_mint [OF pay mint]
  show "has_successor (next_item_id s (collection_id m))" by (rule pm)
  from act show "act = XcmSubscribe c b \<or> act = Subscribe c \<and> b = who" .
  show "settles cfg
       (nest (collection_id m) (content_item_id m) s
         \<lparr>subscriptions := (subscriptions s)((c, b) \<mapsto>
            \<lparr>expiry_block = saturating_add (current_block s) (period_length m), auto_renew = False,
             sub_child_item_id = next_item_id s (collection_id m)\<rparr>)\<rparr>) s'"
    unfolding s'
    by (rule settles_deposit) (simp add: pm(1) settles_storage [OF pm(3)] settles_upd(1) [OF pm(3)])
qed

lemma grant_ownership_effect:
  assumes "contents s c = Some m" and "ownership s (c, b) = None"
    and pay: "pay_with_royalties cfg payer (creator m) c (ownership_price m) s = Inr (n, t)"
    and mint: "mint_and_nest_child cfg (creator m) b (collection_id m) (content_item_id m)
      Ownership t = Inr (child, u)"
    and s': "s' = deposit_event e (u\<lparr>ownership := (ownership u)((c, b) \<mapsto>
      \<lparr>own_child_item_id = child\<rparr>)\<rparr>)"
    and act: "act = XcmPurchaseOwnership c b \<or> act = PurchaseOwnership c \<and> b = who"
  shows "effect cfg who act s s'"
proof (rule ownership_bought [OF assms(1,2)])
  note pm = pay_and_mint [OF pay mint]
  show "has_successor (next_item_id s (collection_id m))" by (rule pm)
  from act show "act = XcmPurchaseOwnership c b \<or> act = PurchaseOwnership c \<and> b = who" .
  show "settles cfg
       (nest (collection_id m) (content_item_id m) s
         \<lparr>ownership := (ownership s)((c, b) \<mapsto>
            \<lparr>own_child_item_id = next_item_id s (collection_id m)\<rparr>)\<rparr>) s'"
    unfolding s'
    by (rule settles_deposit) (simp add: pm(1) settles_storage [OF pm(3)] settles_upd(3) [OF pm(3)])
qed

lemma renewal_effect:
  assumes "contents s c = Some m" and "subscriptions s (c, b) = Some sub"
    and "expiry_block sub \<le> current_block s"
    and pay: "pay_with_royalties cfg payer (creator m) c (subscription_price m) s = Inr (n, t)"
    and s': "s' = deposit_event e (update_subscription (c, b)
      (\<lambda>sub. sub\<lparr>expiry_block := saturating_add (current_block t) (period_length m)\<rparr>) t)"
    and act: "act = XcmRenewSubscription c b \<or> act = RenewSubscription c \<and> b = who"
  shows "effect cfg who act s s'"
proof (rule renewed [OF assms(1-3) _ act])
  note p = pay_with_royalties_settles [OF pay]
  show "settles cfg
       (s\<lparr>subscriptions := (subscriptions s)((c, b) \<mapsto>
            sub\<lparr>expiry_block := saturating_add (current_block s) (period_length m)\<rparr>)\<rparr>) s'"
    unfolding s'
    by (rule settles_deposit)
       (simp add: update_subscription_def settles_storage [OF p] assms(2) settles_upd(1) [OF p])
qed

lemma subscribe_effect:
  assumes "subscribe cfg (Signed who) c s = Inr (w, s')"
  shows "effect cfg who (Subscribe c) s s'"
  using assms unfolding subscribe_def Let_def ensure_signed_simps and_then_simps
  by (elim result_elims)
     (hypsubst, rule grant_subscription_effect, assumption, assumption, assumption, assumption, rule refl, simp)

lemma xcm_subscribe_effect:
  assumes "xcm_subscribe cfg (Signed who) c b s = Inr (w, s')"
  shows "effect cfg who (XcmSubscribe c b) s s'"
  using assms unfolding xcm_subscribe_def Let_def ensure_signed_simps and_then_simps
  by (elim result_elims)
     (hypsubst, rule grant_subscription_effect, assumption, assumption, assumption, assumption, rule refl, simp)

lemma purchase_ownership_effect:
  assumes "purchase_ownership cfg (Signed who) c s = Inr (w, s')"
  shows "effect cfg who (PurchaseOwnership c) s s'"
  using assms unfolding purchase_ownership_def Let_def ensure_signed_simps and_then_simps
  by (elim result_elims)
     (hypsubst, rule grant_ownership_effect, assumption, assumption, assumption, assumption, rule refl, simp)

lemma xcm_purchase_ownership_effect:
  assumes "xcm_purchase_ownership cfg (Signed who) c b s = Inr (w, s')"
  shows "effect cfg who (XcmPurchaseOwnership c b) s s'"
  using assms unfolding xcm_purchase_ownership_def Let_def ensure_signed_simps and_then_simps
  by (elim result_elims)
     (hypsubst, rule grant_ownership_effect, assumption, assumption, assumption, assumption, rule refl, simp)

lemma renew_subscription_effect:
  assumes "renew_subscription cfg (Signed who) c s = Inr (w, s')"
  shows "effect cfg who (RenewSubscription c) s s'"
  using assms unfolding renew_subscription_def Let_def ensure_signed_simps and_then_simps
  by (elim result_elims)
     (hypsubst, rule renewal_effect, assumption, assumption, assumption, assumption, rule refl, simp)

lemma xcm_renew_subscription_effect:
  assumes "xcm_renew_subscription cfg (Signed who) c b s = Inr (w, s')"
  shows "effect cfg who (XcmRenewSubscription c b) s s'"
  using assms unfolding xcm_renew_subscription_def Let_def ensure_signed_simps and_then_simps
  by (elim result_elims)
     (hypsubst, rule renewal_effect, assumption, assumption, assumption, assumption, rule refl, simp)

lemma do_purchase_views_cases:
  assumes "do_purchase_views cfg payer b c n s = Inr (k, u)"
  obtains (added) m total t pack where "0 < n" "contents s c = Some m"
      "checked_mul (ppv_price m) (ucast n) = Some total"
      "pay_with_royalties cfg payer (creator m) c total s = Inr (k, t)"
      "view_packs s (c, b) = Some pack"
      "u = t\<lparr>view_packs := (view_packs t)((c, b) \<mapsto>
         pack\<lparr>views_remaining := saturating_add (views_remaining pack) n\<rparr>)\<rparr>"
  | (bought) m total t child t' where "0 < n" "contents s c = Some m"
      "checked_mul (ppv_price m) (ucast n) = Some total"
      "pay_with_royalties cfg payer (creator m) c total s = Inr (k, t)"
      "view_packs s (c, b) = None"
      "mint_and_nest_child cfg (creator m) b (collection_id m) (content_item_id m) PayPerView t =
         Inr (child, t')"
      "u = t'\<lparr>view_packs := (view_packs t')((c, b) \<mapsto>
         \<lparr>views_remaining = n, pack_child_item_id = child\<rparr>)\<rparr>"
proof -
  from assms obtain m total t where 1: "0 < n" "contents s c = Some m"
      "checked_mul (ppv_price m) (ucast n) = Some total"
      "pay_with_royalties cfg payer (creator m) c total s = Inr (k, t)"
    and rest: "(case view_packs t (c, b) of
       Some existing \<Rightarrow> Inr (t\<lparr>view_packs := (view_packs t)((c, b) \<mapsto>
         existing\<lparr>views_remaining := saturating_add (views_remaining existing) n\<rparr>)\<rparr>)
     | None \<Rightarrow> and_then (mint_and_nest_child cfg (creator m) b (collection_id m) (content_item_id m)
           PayPerView t) (\<lambda>(child, t). Inr (t\<lparr>view_packs := (view_packs t)((c, b) \<mapsto>
             \<lparr>views_remaining = n, pack_child_item_id = child\<rparr>)\<rparr>))) = Inr u"
    unfolding do_purchase_views_def Let_def
    by (elim result_elims) (hypsubst, rule that, assumption+)
  have packs: "view_packs t = view_packs s"
    using settles_storage [OF pay_with_royalties_settles [OF 1(4)]] by simp
  show ?thesis
  proof (cases "view_packs s (c, b)")
    case None
    with rest packs have "and_then (mint_and_nest_child cfg (creator m) b (collection_id m)
        (content_item_id m) PayPerView t) (\<lambda>(child, t). Inr (t\<lparr>view_packs := (view_packs t)((c, b) \<mapsto>
          \<lparr>views_remaining = n, pack_child_item_id = child\<rparr>)\<rparr>)) = Inr u" by simp
    then show ?thesis
      by (elim result_elims) (hypsubst, rule bought [OF 1 None], assumption, simp)
  next
    case (Some pack)
    with rest packs show ?thesis by (intro added [OF 1 Some]) simp
  qed
qed

lemma do_purchase_views_effect:
  assumes "do_purchase_views cfg payer b c n s = Inr (k, u)"
    and act: "act = XcmPurchaseViews c b n \<or> act = PurchaseViews c n \<and> b = who"
  shows "effect cfg who act s (deposit_event e u)"
  using assms
proof (cases rule: do_purchase_views_cases)
  case (added m total t pack)
  note p = pay_with_royalties_settles [OF added(4)]
  show ?thesis
    by (rule views_added [OF added(2,5,1) _ act], rule settles_deposit)
       (simp add: added(6) settles_storage [OF p] settles_upd(2) [OF p])
next
  case (bought m total t child t')
  note pm = pay_and_mint [OF bought(4,6)]
  show ?thesis
    by (rule pack_bought [OF bought(2,5,1) pm(2) _ act], rule settles_deposit)
       (simp add: bought(7) pm(1) settles_storage [OF pm(3)] settles_upd(2) [OF pm(3)])
qed

lemma purchase_views_effect:
  assumes "purchase_views cfg (Signed who) c n s = Inr (w, s')"
  shows "effect cfg who (PurchaseViews c n) s s'"
  using assms unfolding purchase_views_def ensure_signed_simps and_then_simps
  by (elim result_elims) (hypsubst, rule do_purchase_views_effect, assumption, simp)

lemma xcm_purchase_views_effect:
  assumes "xcm_purchase_views cfg (Signed who) c b n s = Inr (w, s')"
  shows "effect cfg who (XcmPurchaseViews c b n) s s'"
  using assms unfolding xcm_purchase_views_def ensure_signed_simps and_then_simps
  by (elim result_elims) (hypsubst, rule do_purchase_views_effect, assumption, simp)

lemma saturating_sub_one: "0 < (v :: 'a::len word) \<Longrightarrow> saturating_sub v 1 = v - 1"
  by (auto simp: saturating_sub_def word_le_nat_alt word_less_nat_alt)

lemma do_consume_view_cases:
  assumes "do_consume_view cfg c b s = Inr s'"
  obtains (used) pack where "view_packs s (c, b) = Some pack" "1 < views_remaining pack"
      "s' = deposit_event (ViewConsumed c b (views_remaining pack - 1))
         (s\<lparr>view_packs := (view_packs s)((c, b) \<mapsto> pack\<lparr>views_remaining := views_remaining pack - 1\<rparr>)\<rparr>)"
  | (last) pack m x where "view_packs s (c, b) = Some pack" "views_remaining pack = 1"
      "contents s c = Some m"
      "nfts_do_burn cfg (collection_id m) (pack_child_item_id pack) (ext s) = Inr x"
      "s' = deposit_event (ViewConsumed c b 0)
         (unnest (collection_id m) (pack_child_item_id pack) (s\<lparr>ext := x\<rparr>)
           \<lparr>view_packs := (view_packs s)((c, b) := None)\<rparr>)"
proof -
  from assms obtain pack where pack: "view_packs s (c, b) = Some pack" "0 < views_remaining pack"
    by (auto simp: do_consume_view_def result_simps)
  note sub1 = saturating_sub_one [OF pack(2)]
  show ?thesis
  proof (cases "views_remaining pack = 1")
    case True
    with assms pack sub1 have "and_then (ok_or (contents s c) (Pallet ContentNotFound)) (\<lambda>m.
        and_then (nfts_do_burn cfg (collection_id m) (pack_child_item_id pack) (ext s)) (\<lambda>x.
          Inr (deposit_event (ViewConsumed c b 0)
            (s\<lparr>ext := x, parent := (parent s)((collection_id m, pack_child_item_id pack) := None),
               view_packs := (view_packs s)((c, b) := None)\<rparr>)))) = Inr s'"
      by (simp add: do_consume_view_def and_then_assoc Let_def)
    then show ?thesis
      by (elim result_elims) (rule last [OF pack(1) True], assumption+, simp add: unnest_def)
  next
    case False
    with pack(2) have "1 < views_remaining pack" "views_remaining pack - 1 \<noteq> 0"
      by (auto simp: word_less_nat_alt) (metis Suc_lessI One_nat_def unat_1 word_unat_eq_iff)
    with assms pack sub1 show ?thesis by (intro used [OF pack(1)]) (simp_all add: do_consume_view_def)
  qed
qed

lemma do_consume_view_effect:
  assumes "do_consume_view cfg c b s = Inr s'" and "act = ConsumeView c \<and> b = who \<or> act = ConsumeViewFor c b \<and> meters s c = Some who"
  shows "effect cfg who act s s'"
  using assms(1)
proof (cases rule: do_consume_view_cases)
  case (used pack)
  show ?thesis
    by (rule view_used [OF assms(2) used(1,2)]) (simp add: used(3) settles_deposit)
next
  case (last pack m x)
  have "settles cfg s (s\<lparr>ext := x\<rparr>)" using last(4) by (auto simp: settles_def)
  from settles_upd(2) [OF settles_upd(5) [OF this]] show ?thesis
    by (intro last_view_used [OF assms(2) last(3,1,2)]) (simp add: last(5) settles_deposit)
qed

lemma consume_view_effect:
  "consume_view cfg (Signed who) c s = Inr s' \<Longrightarrow> effect cfg who (ConsumeView c) s s'"
  unfolding consume_view_def ensure_signed_simps and_then_simps
  by (rule do_consume_view_effect, assumption) simp

lemma consume_view_for_effect:
  assumes "consume_view_for cfg (Signed who) c b s = Inr s'"
  shows "effect cfg who (ConsumeViewFor c b) s s'"
  using assms unfolding consume_view_for_def ensure_signed_simps and_then_simps
  by (elim result_elims) (rule do_consume_view_effect, assumption, simp)

lemma move_ownership_effect:
  assumes "contents s c = Some m" and "ownership s (c, who) = Some info" and "ownership s (c, b) = None"
    and burn: "nfts_do_burn cfg (collection_id m) (own_child_item_id info) (ext s) = Inr x"
    and mint: "mint_and_nest_child cfg (creator m) b (collection_id m) (content_item_id m) Ownership
      (s\<lparr>ext := x, parent := p\<rparr>) = Inr (child, u)"
    and p: "p = (parent s)((collection_id m, own_child_item_id info) := None)"
    and s': "s' = deposit_event e v"
    and v: "v = u\<lparr>ownership :=
      (ownership u)((c, who) := None, (c, b) \<mapsto> \<lparr>own_child_item_id = child\<rparr>)\<rparr>"
    and act: "act = XcmTransferOwnership c who b \<or> act = TransferOwnership c b"
  shows "effect cfg who act s s'"
proof -
  let ?t = "unnest (collection_id m) (own_child_item_id info) s"
  have t: "s\<lparr>ext := x, parent := p\<rparr> = ?t\<lparr>ext := x\<rparr>" by (simp add: unnest_def p)
  note mint' = mint_and_nest_child_Inr [OF mint [unfolded t]]
  have "settles cfg ?t (?t\<lparr>ext := x\<rparr>)" using burn by (auto simp: settles_def)
  then have st: "settles cfg (nest (collection_id m) (content_item_id m) ?t) u"
    using mint' by (blast intro: settles_trans settles_upd)
  show ?thesis
  proof (rule ownership_moved [OF assms(1-3) _ _ act])
    show "has_successor (next_item_id s (collection_id m))" using mint' by simp
    show "settles cfg
       (nest (collection_id m) (content_item_id m) ?t
         \<lparr>ownership := (ownership s)((c, who) := None, (c, b) \<mapsto>
            \<lparr>own_child_item_id = next_item_id s (collection_id m)\<rparr>)\<rparr>) s'"
      unfolding s'
      by (rule settles_deposit) (use mint' in \<open>simp add: v settles_storage [OF st] settles_upd(3) [OF st]\<close>)
  qed
qed

lemma transfer_ownership_effect:
  assumes "transfer_ownership cfg (Signed who) c b s = Inr s'"
  shows "effect cfg who (TransferOwnership c b) s s'"
  using assms unfolding transfer_ownership_def Let_def ensure_signed_simps and_then_simps
  by (elim result_elims)
     (hypsubst, rule move_ownership_effect, assumption, assumption, assumption, assumption, assumption,
      simp (no_asm), rule refl, simp (no_asm), simp)

lemma xcm_transfer_ownership_effect:
  assumes "xcm_transfer_ownership cfg (Signed who) c holder b s = Inr s'"
  shows "effect cfg who (XcmTransferOwnership c holder b) s s'"
  using assms unfolding xcm_transfer_ownership_def Let_def ensure_signed_simps and_then_simps
  by (elim result_elims)
     (hypsubst, rule move_ownership_effect, assumption, assumption, assumption, assumption, assumption,
      simp (no_asm), rule refl, simp (no_asm), simp)

lemma enable_auto_renew_effect:
  assumes "enable_auto_renew cfg (Signed who) c s = Inr s'"
  shows "effect cfg who (EnableAutoRenew c) s s'"
  using assms unfolding enable_auto_renew_def Let_def ensure_signed_simps and_then_simps
  by (elim result_elims)
     (hypsubst, rule renewal_enabled, assumption, assumption, assumption, assumption, simp, simp, simp)

lemma disable_auto_renew_effect:
  assumes "disable_auto_renew cfg (Signed who) c s = Inr s'"
  shows "effect cfg who (DisableAutoRenew c) s s'"
  using assms unfolding disable_auto_renew_def Let_def ensure_signed_simps and_then_simps
  by (elim result_elims) (rule renewal_disabled, assumption, assumption, auto)

lemma set_meter_effect:
  assumes "set_meter cfg (Signed who) c meter s = Inr s'"
  shows "effect cfg who (SetMeter c meter) s s'"
  using assms unfolding set_meter_def Let_def ensure_signed_simps and_then_simps
  by (elim result_elims)
     (rule meter_set [where meter = meter], assumption, simp, cases meter, auto)

lemma check_access_effect:
  "check_access cfg (Signed who) c s = Inr s' \<Longrightarrow> effect cfg who (CheckAccess c) s s'"
  by (rule queried [of _ _ _ c]) (auto simp: check_access_def Let_def result_simps settles_deposit)

lemma query_rights_metadata_effect:
  "query_rights_metadata cfg (Signed who) c s = Inr (w, s') \<Longrightarrow> effect cfg who (QueryRightsMetadata c) s s'"
  by (rule queried [of _ _ _ c]) (auto simp: query_rights_metadata_def Let_def result_simps settles_deposit)

text \<open>The sum of at most ten 16-bit shares does not wrap in 32 bits.\<close>

lemma unat_sum_basis_points:
  assumes "length splits \<le> unat MAX_ROYALTY_SPLITS"
  shows "unat (sum_list (map (\<lambda>sp. ucast (basis_points sp) :: u32) splits)) = total_basis_points splits"
proof -
  have *: "total_basis_points xs \<le> length xs * 65535 \<and>
    (length xs \<le> 10 \<longrightarrow>
       unat (sum_list (map (\<lambda>sp. ucast (basis_points sp) :: u32) xs)) = total_basis_points xs)"
    for xs :: "royalty_split list"
  proof (induction xs)
    case (Cons sp xs)
    have "unat (basis_points sp) \<le> 65535" using unat_le_max [of "basis_points sp"] by simp
    with Cons show ?case by (auto simp: total_basis_points_def unat_add_no_overflow)
  qed (simp add: total_basis_points_def)
  from * [of splits] assms show ?thesis by (simp add: MAX_ROYALTY_SPLITS_def)
qed

lemma set_royalty_splits_effect:
  assumes "set_royalty_splits cfg (Signed who) c splits s = Inr s'"
    and "length splits \<le> unat MAX_ROYALTY_SPLITS"
  shows "effect cfg who (SetRoyaltySplits c splits) s s'"
proof -
  from assms(1) obtain m where m: "contents s c = Some m" "creator m = who"
    and bp: "sum_list (map (\<lambda>sp. ucast (basis_points sp) :: u32) splits) \<le> 10000"
    and s': "s' = deposit_event (RoyaltySplitsUpdated c who (of_nat (length splits)))
      (s\<lparr>royalty_splits := (royalty_splits s)(c := splits)\<rparr>)"
    unfolding set_royalty_splits_def Let_def ensure_signed_simps and_then_simps
    by (elim result_elims) (rule that, assumption, simp, assumption, simp)
  have "valid_splits splits"
    using bp unat_sum_basis_points [OF assms(2)] assms(2) by (simp add: valid_splits_def word_le_nat_alt)
  then show ?thesis unfolding s' by (rule splits_set [OF m]) (rule settles_deposit_self refl)+
qed

lemma next_collection_id_Inr:
  "next_collection_id cfg s = Inr (col, t) \<longleftrightarrow>
     col = collection_counter cfg (ext s) \<and> has_successor col \<and>
     t = s\<lparr>ext := nfts_set_next_collection_id cfg (col + 1) (ext s)\<rparr>"
  by (auto simp: next_collection_id_def collection_counter_def [symmetric] Let_def result_simps
      machine_arith has_successor_def)

lemma register_content_cases:
  assumes "register_content cfg (Signed who) h ttl p q r l s = Inr s'"
  obtains x1 x2 cc d ev n col t where
    "checked_add (next_content_id s) 1 = Some n" "next_collection_id cfg s = Inr (col, t)"
    "nfts_do_create_collection cfg col who who cc d ev (ext t) = Inr x1"
    "nfts_do_mint cfg col 0 (Some who) who x1 = Inr x2"
    "s' = deposit_event (ContentRegistered (next_content_id s) who col 0)
      (t\<lparr>ext := x2, contents := (contents t)(next_content_id s \<mapsto>
           \<lparr>creator = who, metadata_hash = h, collection_id = col, content_item_id = 0, title = ttl,
            subscription_price = p, ppv_price = q, ownership_price = r, period_length = l\<rparr>),
         next_content_id := n, next_item_id := (next_item_id t)(col := 1)\<rparr>)"
  using assms unfolding register_content_def Let_def ensure_signed_simps and_then_simps
  by (elim result_elims)
     (hypsubst, rule that, assumption, assumption, assumption, assumption, erule trans, simp (no_asm))

lemma register_content_effect:
  assumes "register_content cfg (Signed who) h ttl p q r l s = Inr s'"
  shows "effect cfg who (RegisterContent h ttl p q r l) s s'"
  using assms
proof (cases rule: register_content_cases)
  case (1 x1 x2 cc d ev n col t)
  let ?m = "\<lparr>creator = who, metadata_hash = h, collection_id = col, content_item_id = 0, title = ttl,
    subscription_price = p, ppv_price = q, ownership_price = r, period_length = l\<rparr>"
  let ?x = "nfts_set_next_collection_id cfg (col + 1) (ext s)"
  let ?t = "s\<lparr>contents := (contents s)(next_content_id s \<mapsto> ?m),
         next_content_id := next_content_id s + 1,
         next_item_id := (next_item_id s)(col := 1), ext := ?x\<rparr>"
  have t: "t = s\<lparr>ext := ?x\<rparr>" and col: "col = collection_counter cfg (ext s)" "has_successor col"
    using 1(2) by (auto simp: next_collection_id_Inr)
  have n: "has_successor (next_content_id s)" "n = next_content_id s + 1"
    using 1(1) by (simp_all add: machine_arith has_successor_def)
  have create: "nfts_do_create_collection cfg col who who cc d ev ?x = Inr x1"
    using 1(3) by (simp add: t)
  have "ext_calls cfg (ext ?t) x2"
    using ext_create [THEN ext_calls_single, OF create] ext_mint [THEN ext_calls_single, OF 1(4)]
    by simp
  then have "settles cfg ?t (?t\<lparr>ext := x2\<rparr>)" by (rule settles_ext)
  moreover have "t\<lparr>ext := x2, contents := (contents t)(next_content_id s \<mapsto> ?m),
      next_content_id := n, next_item_id := (next_item_id t)(col := 1)\<rparr> = ?t\<lparr>ext := x2\<rparr>"
    unfolding t n(2) by simp
  ultimately have "settles cfg ?t s'" unfolding 1(5) by (simp only: settles_deposit)
  then show ?thesis
    by (intro registered [of s cfg ?m]) (use n col in simp_all)
qed

section \<open>Dispatch\<close>

lemma no_post_info_Inr: "no_post_info r = Inr (w, s) \<longleftrightarrow> w = None \<and> r = Inr s"
  by (cases r) (auto simp: no_post_info_def)

lemma post_info_Inr: "post_info r = Inr (w, s) \<longleftrightarrow> (\<exists>v. w = Some v \<and> r = Inr (v, s))"
  by (cases r) (auto simp: post_info_def)

lemmas call_effects =
  register_content_effect subscribe_effect renew_subscription_effect purchase_views_effect
  consume_view_effect purchase_ownership_effect check_access_effect xcm_subscribe_effect
  xcm_renew_subscription_effect xcm_purchase_views_effect xcm_purchase_ownership_effect
  transfer_ownership_effect xcm_transfer_ownership_effect set_royalty_splits_effect
  enable_auto_renew_effect disable_auto_renew_effect query_rights_metadata_effect
  set_meter_effect consume_view_for_effect

lemma dispatch_effect:
  assumes "dispatch cfg (Signed who) act s = Inr (w, s')" and "decodable act"
  shows "effect cfg who act s s'"
  using assms by (cases act) (auto simp: no_post_info_Inr post_info_Inr intro: call_effects)

lemmas call_defs =
  register_content_def subscribe_def renew_subscription_def purchase_views_def consume_view_def
  purchase_ownership_def check_access_def xcm_subscribe_def xcm_renew_subscription_def
  xcm_purchase_views_def xcm_purchase_ownership_def transfer_ownership_def
  xcm_transfer_ownership_def set_royalty_splits_def enable_auto_renew_def disable_auto_renew_def
  query_rights_metadata_def set_meter_def consume_view_for_def

lemma dispatch_unsigned:
  assumes "\<forall>who. og \<noteq> Signed who"
  shows "dispatch cfg og call s = Inl BadOrigin"
  using ensure_signed_not [OF assms]
  by (cases call) (simp_all add: call_defs no_post_info_def post_info_def)

lemma dispatch_signed:
  assumes "dispatch cfg og call s = Inr r"
  obtains who where "og = Signed who"
  using assms dispatch_unsigned [of og cfg call s] by fastforce

end
