(* ===== verification/Rights_Invariant.thy ===== *)
theory Rights_Invariant
  imports Rights_Effects
begin

text \<open>
  The storage invariant of \<open>pallet_content_rights\<close> and its preservation by every extrinsic, by
  the \<open>on_initialize\<close> hook and by the activity of other pallets. Its main part is about
  receipts: the child items recorded in \<open>Subscriptions\<close>, \<open>ViewPacks\<close> and \<open>Ownership\<close> are
  exactly the entries of the nesting index \<open>Parent\<close>, and no two rights share one.
\<close>

section \<open>Receipts\<close>

text \<open>A right that is held, with its content, holder, kind and child item.\<close>

type_synonym 'a receipt = "u32 \<times> 'a \<times> rights_type \<times> u32"

definition receipts_of ::
  "(u32 \<times> 'a \<rightharpoonup> subscription_info) \<Rightarrow> (u32 \<times> 'a \<rightharpoonup> view_pack_info) \<Rightarrow>
   (u32 \<times> 'a \<rightharpoonup> ownership_info) \<Rightarrow> 'a receipt set" where
  "receipts_of S V W =
     {(c, a, rt, ch).
        (case rt of
           Subscription \<Rightarrow> map_option sub_child_item_id (S (c, a))
         | PayPerView \<Rightarrow> map_option pack_child_item_id (V (c, a))
         | Ownership \<Rightarrow> map_option own_child_item_id (W (c, a))) = Some ch}"

abbreviation receipts :: "('a, 'x) state \<Rightarrow> 'a receipt set" where
  "receipts s \<equiv> receipts_of (subscriptions s) (view_packs s) (ownership s)"

definition receipts_ok ::
  "(u32 \<rightharpoonup> 'a content_metadata) \<Rightarrow> 'a receipt set \<Rightarrow> (u32 \<times> u32 \<rightharpoonup> u32 \<times> u32) \<Rightarrow> (u32 \<Rightarrow> u32) \<Rightarrow> bool" where
  "receipts_ok M R P N \<longleftrightarrow>
     (\<forall>c a rt ch. (c, a, rt, ch) \<in> R \<longrightarrow>
        (\<exists>m. M c = Some m \<and> 0 < ch \<and> ch < N (collection_id m) \<and>
           P (collection_id m, ch) = Some (collection_id m, content_item_id m))) \<and>
     (\<forall>c a a' rt rt' ch. (c, a, rt, ch) \<in> R \<longrightarrow> (c, a', rt', ch) \<in> R \<longrightarrow> a = a' \<and> rt = rt') \<and>
     (\<forall>col ch p. P (col, ch) = Some p \<longrightarrow>
        (\<exists>c a rt m. (c, a, rt, ch) \<in> R \<and> M c = Some m \<and> collection_id m = col)) \<and>
     (\<forall>c c' m m'. M c = Some m \<longrightarrow> M c' = Some m' \<longrightarrow> collection_id m = collection_id m' \<longrightarrow> c = c') \<and>
     (\<forall>c m. M c = Some m \<longrightarrow> 0 < N (collection_id m))"

lemma receipts_okD:
  assumes "receipts_ok M R P N"
  shows "(c, a, rt, ch) \<in> R \<Longrightarrow>
      \<exists>m. M c = Some m \<and> 0 < ch \<and> ch < N (collection_id m) \<and>
         P (collection_id m, ch) = Some (collection_id m, content_item_id m)"
    and "(c, a, rt, ch) \<in> R \<Longrightarrow> (c, a', rt', ch) \<in> R \<Longrightarrow> a = a' \<and> rt = rt'"
    and "P (col, ch) = Some p \<Longrightarrow> \<exists>c a rt m. (c, a, rt, ch) \<in> R \<and> M c = Some m \<and> collection_id m = col"
    and "M c = Some m \<Longrightarrow> M c' = Some m' \<Longrightarrow> collection_id m = collection_id m' \<Longrightarrow> c = c'"
    and "M c = Some m \<Longrightarrow> 0 < N (collection_id m)"
  using assms unfolding receipts_ok_def by blast+

lemma word_less_succ:
  assumes "has_successor n"
  shows "n < n + 1" and "x < n + 1 \<longleftrightarrow> x \<le> n"
proof -
  have "unat (n + 1) = unat n + 1"
    using assms unat_add_no_overflow [of n 1] by (simp add: has_successor_def)
  then show "n < n + 1" and "x < n + 1 \<longleftrightarrow> x \<le> n"
    by (auto simp: word_less_nat_alt word_le_nat_alt)
qed

lemma receipts_ok_grant:
  assumes ok: "receipts_ok M R P N" and m: "M c = Some m" and hs: "has_successor (N (collection_id m))"
  shows "receipts_ok M (insert (c, a, rt, N (collection_id m)) R)
    (P((collection_id m, N (collection_id m)) \<mapsto> (collection_id m, content_item_id m)))
    (N(collection_id m := N (collection_id m) + 1))"
proof -
  let ?col = "collection_id m" and ?ch = "N (collection_id m)"
  have fresh: "ch \<noteq> ?ch" if "(c', a', rt', ch) \<in> R" "M c' = Some m'" "collection_id m' = ?col" for c' a' rt' ch m'
    using receipts_okD(1) [OF ok that(1)] that(2,3) by auto
  have old: "\<exists>m'. M c' = Some m' \<and> 0 < ch \<and> ch < (N(?col := ?ch + 1)) (collection_id m') \<and>
      (P((?col, ?ch) \<mapsto> (?col, content_item_id m))) (collection_id m', ch) =
        Some (collection_id m', content_item_id m')" if R: "(c', a', rt', ch) \<in> R" for c' a' rt' ch
  proof -
    obtain m' where m': "M c' = Some m'" "0 < ch" "ch < N (collection_id m')"
        "P (collection_id m', ch) = Some (collection_id m', content_item_id m')"
      using receipts_okD(1) [OF ok R] by blast
    have "ch < (N(?col := ?ch + 1)) (collection_id m')"
      using m'(3) word_less_succ(1) [OF hs] by (auto intro: less_trans)
    moreover have "(collection_id m', ch) \<noteq> (?col, ?ch)" using fresh [OF R m'(1)] by auto
    ultimately show ?thesis using m' by auto
  qed
  have same_col: "c' = c" if "M c' = Some m'" "collection_id m' = ?col" for c' m'
    using receipts_okD(4) [OF ok that(1) m that(2)] .
  show ?thesis
    unfolding receipts_ok_def
  proof (intro conjI allI impI, goal_cases)
    case (1 c' a' rt' ch)
    then consider "(c', a', rt', ch) = (c, a, rt, ?ch)" | "(c', a', rt', ch) \<in> R" by blast
    then show ?case
    proof cases
      case 1
      with m receipts_okD(5) [OF ok m] word_less_succ [OF hs] show ?thesis by auto
    qed (rule old)
  next
    case (2 c' a1 a2 r1 r2 ch)
    have "\<not> (c, x, y, ?ch) \<in> R" for x y using fresh m by blast
    with 2 receipts_okD(2) [OF ok] show ?case by blast
  next
    case (3 c' a1 a2 r1 r2 ch)
    have "\<not> (c, x, y, ?ch) \<in> R" for x y using fresh m by blast
    with 3 receipts_okD(2) [OF ok] show ?case by blast
  next
    case (4 col ch p)
    show ?case
    proof (cases "(col, ch) = (?col, ?ch)")
      case True
      with m show ?thesis by blast
    next
      case False
      with 4 have "P (col, ch) = Some p" by auto
      from receipts_okD(3) [OF ok this] show ?thesis by blast
    qed
  next
    case (5 c c' m m')
    then show ?case using receipts_okD(4) [OF ok] by blast
  next
    case (6 c' m')
    then show ?case using receipts_okD(5) [OF ok 6] word_less_succ [OF hs]
      by (auto intro: le_less_trans)
  qed
qed

lemma receipts_ok_drop:
  assumes ok: "receipts_ok M R P N" and m: "M c = Some m" and R: "(c, a, rt, ch) \<in> R"
  shows "receipts_ok M (R - {(c, a, rt, ch)}) (P((collection_id m, ch) := None)) N"
proof -
  have other: "(collection_id m', ch') \<noteq> (collection_id m, ch)"
    if "(c', a', rt', ch') \<in> R - {(c, a, rt, ch)}" "M c' = Some m'" for c' a' rt' ch' m'
    using that receipts_okD(2) [OF ok R, of a' rt'] receipts_okD(4) [OF ok that(2) m] by auto
  show ?thesis
    unfolding receipts_ok_def
  proof (intro conjI allI impI, goal_cases)
    case (1 c' a' rt' ch')
    with receipts_okD(1) [OF ok, of c' a' rt' ch'] obtain m' where m': "M c' = Some m'" "0 < ch'"
        "ch' < N (collection_id m')"
        "P (collection_id m', ch') = Some (collection_id m', content_item_id m')" by auto
    with other [OF 1 m'(1)] show ?case by (intro exI [of _ m']) auto
  next
    case (2 c' a1 a2 r1 r2 ch')
    then show ?case using receipts_okD(2) [OF ok] by blast
  next
    case (3 c' a1 a2 r1 r2 ch')
    then show ?case using receipts_okD(2) [OF ok] by blast
  next
    case (4 col ch' p)
    then have P: "P (col, ch') = Some p" and ne: "(col, ch') \<noteq> (collection_id m, ch)"
      by (auto split: if_splits)
    from receipts_okD(3) [OF ok P] obtain c' a' rt' m' where
      "(c', a', rt', ch') \<in> R" "M c' = Some m'" "collection_id m' = col" by blast
    moreover from this ne m have "(c', a', rt', ch') \<noteq> (c, a, rt, ch)" by auto
    ultimately show ?case by blast
  next
    case (5 c c' m m')
    then show ?case using receipts_okD(4) [OF ok] by blast
  next
    case (6 c' m')
    then show ?case using receipts_okD(5) [OF ok] by blast
  qed
qed

lemma receipts_ok_register:
  assumes ok: "receipts_ok M R P N" and new: "M c = None"
    and col: "\<And>c' m'. M c' = Some m' \<Longrightarrow> collection_id m' \<noteq> collection_id m"
  shows "receipts_ok (M(c \<mapsto> m)) R P (N(collection_id m := 1))"
  unfolding receipts_ok_def
proof (intro conjI allI impI, goal_cases)
  case (1 c' a' rt' ch)
  with receipts_okD(1) [OF ok 1] new col show ?case by auto
next
  case (2 c' a1 a2 r1 r2 ch)
  then show ?case using receipts_okD(2) [OF ok] by blast
next
  case (3 c' a1 a2 r1 r2 ch)
  then show ?case using receipts_okD(2) [OF ok] by blast
next
  case (4 col' ch p)
  from receipts_okD(3) [OF ok 4] obtain c' a' rt' m' where
    "(c', a', rt', ch) \<in> R" "M c' = Some m'" "collection_id m' = col'" by blast
  moreover from this new have "c' \<noteq> c" by auto
  ultimately show ?case by (metis fun_upd_other)
next
  case (5 c1 c2 m1 m2)
  then show ?case using receipts_okD(4) [OF ok, of c1 m1 c2 m2] col by (auto split: if_splits)
next
  case (6 c' m')
  then show ?case using receipts_okD(5) [OF ok, of c' m'] by (auto split: if_splits)
qed

text \<open>How the set of receipts follows the maps.\<close>

lemma receipts_of_sub_new:
  "S (c, a) = None \<Longrightarrow>
     receipts_of (S((c, a) \<mapsto> x)) V W = insert (c, a, Subscription, sub_child_item_id x) (receipts_of S V W)"
  by (auto simp: receipts_of_def split: if_splits rights_type.splits)

lemma receipts_of_pack_new:
  "V (c, a) = None \<Longrightarrow>
     receipts_of S (V((c, a) \<mapsto> x)) W = insert (c, a, PayPerView, pack_child_item_id x) (receipts_of S V W)"
  by (auto simp: receipts_of_def split: if_splits rights_type.splits)

lemma receipts_of_own_new:
  "W (c, a) = None \<Longrightarrow>
     receipts_of S V (W((c, a) \<mapsto> x)) = insert (c, a, Ownership, own_child_item_id x) (receipts_of S V W)"
  by (auto simp: receipts_of_def split: if_splits rights_type.splits)

lemma receipts_of_pack_drop:
  "V (c, a) = Some x \<Longrightarrow>
     receipts_of S (V((c, a) := None)) W = receipts_of S V W - {(c, a, PayPerView, pack_child_item_id x)}"
  by (auto simp: receipts_of_def split: if_splits rights_type.splits)

lemma receipts_of_own_drop:
  "W (c, a) = Some x \<Longrightarrow>
     receipts_of S V (W((c, a) := None)) = receipts_of S V W - {(c, a, Ownership, own_child_item_id x)}"
  by (auto simp: receipts_of_def split: if_splits rights_type.splits)

lemma receipts_of_sub_same:
  assumes "\<And>k. map_option sub_child_item_id (S' k) = map_option sub_child_item_id (S k)"
  shows "receipts_of S' V W = receipts_of S V W"
  by (simp only: receipts_of_def assms)

lemma receipts_of_sub_upd:
  "S (c, a) = Some x \<Longrightarrow> sub_child_item_id y = sub_child_item_id x \<Longrightarrow>
     receipts_of (S((c, a) \<mapsto> y)) V W = receipts_of S V W"
  by (rule receipts_of_sub_same) auto

lemma receipts_of_pack_same:
  "V (c, a) = Some x \<Longrightarrow> pack_child_item_id y = pack_child_item_id x \<Longrightarrow>
     receipts_of S (V((c, a) \<mapsto> y)) W = receipts_of S V W"
  by (auto simp: receipts_of_def split: if_splits rights_type.splits)

section \<open>The invariant\<close>

definition receipts_inv :: "('a, 'x) state \<Rightarrow> bool" where
  "receipts_inv s \<longleftrightarrow> receipts_ok (contents s) (receipts s) (parent s) (next_item_id s)"

text \<open>Content ids are handed out consecutively, and collection ids below the counter.\<close>

definition ids_inv :: "('a, 'x) config \<Rightarrow> ('a, 'x) state \<Rightarrow> bool" where
  "ids_inv cfg s \<longleftrightarrow>
     (\<forall>c. contents s c \<noteq> None \<longleftrightarrow> c < next_content_id s) \<and>
     (\<forall>c m. contents s c = Some m \<longrightarrow> collection_id m < collection_counter cfg (ext s))"

definition splits_inv :: "('a, 'x) state \<Rightarrow> bool" where
  "splits_inv s \<longleftrightarrow> (\<forall>c. valid_splits (royalty_splits s c))"

definition packs_inv :: "('a, 'x) state \<Rightarrow> bool" where
  "packs_inv s \<longleftrightarrow> (\<forall>k pack. view_packs s k = Some pack \<longrightarrow> 0 < views_remaining pack)"

text \<open>
  Auto-renewal: the index is exactly the set of subscriptions with the switch on, buckets have no
  duplicates and at most ten entries, only content with a long enough period is renewed, and
  every indexed subscription waits in the bucket of a later block.
\<close>

definition renewal_inv :: "('a, 'x) config \<Rightarrow> ('a, 'x) state \<Rightarrow> bool" where
  "renewal_inv cfg s \<longleftrightarrow>
     index_ok s \<and> queue_wf (renewal_queue s) \<and>
     (\<forall>c a. auto_renew_index s (c, a) \<noteq> None \<longrightarrow>
        (\<exists>m. contents s c = Some m \<and> min_auto_renew_period cfg \<le> period_length m)) \<and>
     (block_number s < 2 ^ 32 - 1 \<longrightarrow>
        (\<forall>k. auto_renew_index s k \<noteq> None \<longrightarrow> scheduled (renewal_queue s) (current_block s) k))"

definition rights_inv :: "('a, 'x) config \<Rightarrow> ('a, 'x) state \<Rightarrow> bool" where
  "rights_inv cfg s \<longleftrightarrow>
     receipts_inv s \<and> ids_inv cfg s \<and> splits_inv s \<and> packs_inv s \<and> renewal_inv cfg s"

text \<open>
  What is relied on outside the pallet: the configured minimum period is not zero,
  \<open>NextCollectionId\<close> of \<open>pallet_nfts\<close> is a storage cell, and it is not written by the other
  calls the pallet makes.
\<close>

definition lawful :: "('a, 'x) config \<Rightarrow> bool" where
  "lawful cfg \<longleftrightarrow>
     0 < min_auto_renew_period cfg \<and>
     (\<forall>n x. collection_counter cfg (nfts_set_next_collection_id cfg n x) = n) \<and>
     (\<forall>x x'. ext_call cfg x x' \<longrightarrow> collection_counter cfg x' = collection_counter cfg x)"

lemma ext_calls_counter:
  assumes "ext_calls cfg x x'" and "lawful cfg"
  shows "collection_counter cfg x' = collection_counter cfg x"
  using assms(1) by induction (use assms(2) in \<open>auto simp: lawful_def\<close>)

lemma receipts_inv_settles: "settles cfg t s' \<Longrightarrow> receipts_inv t \<Longrightarrow> receipts_inv s'"
  by (simp add: receipts_inv_def settles_storage)

lemma splits_inv_settles: "settles cfg t s' \<Longrightarrow> splits_inv t \<Longrightarrow> splits_inv s'"
  by (simp add: splits_inv_def settles_storage)

lemma packs_inv_settles: "settles cfg t s' \<Longrightarrow> packs_inv t \<Longrightarrow> packs_inv s'"
  by (simp add: packs_inv_def settles_storage)

lemma index_ok_cong:
  "subscriptions t = subscriptions s \<Longrightarrow> auto_renew_index t = auto_renew_index s \<Longrightarrow> index_ok t \<longleftrightarrow> index_ok s"
  by (simp add: index_ok_def)

lemma renewal_inv_settles: "settles cfg' t s' \<Longrightarrow> renewal_inv cfg t \<Longrightarrow> renewal_inv cfg s'"
  unfolding renewal_inv_def by (simp add: index_ok_cong [of s' t] settles_storage)

lemma ids_inv_settles:
  assumes "settles cfg t s'" and "lawful cfg" and "ids_inv cfg t"
  shows "ids_inv cfg s'"
proof -
  have "collection_counter cfg (ext s') = collection_counter cfg (ext t)"
    using assms(1,2) by (intro ext_calls_counter) (simp_all add: settles_def)
  with assms(3) show ?thesis by (simp add: ids_inv_def settles_storage [OF assms(1)])
qed

section \<open>Preservation by the extrinsics\<close>

lemma ids_inv_fresh:
  assumes "ids_inv cfg s"
  shows "contents s (next_content_id s) = None"
    and "contents s c = Some m \<Longrightarrow> collection_id m \<noteq> collection_counter cfg (ext s)"
  using assms unfolding ids_inv_def by (metis less_irrefl)+

lemma effect_receipts_inv:
  assumes "effect cfg who act s s'" and inv: "receipts_inv s" and ids: "ids_inv cfg s"
  shows "receipts_inv s'"
  using assms(1)
proof cases
  case (registered m)
  have "receipts_ok ((contents s)(next_content_id s \<mapsto> m)) (receipts s) (parent s)
      ((next_item_id s)(collection_id m := 1))"
    using inv ids_inv_fresh [OF ids] registered(5)
    by (intro receipts_ok_register) (auto simp: receipts_inv_def)
  then show ?thesis
    using receipts_inv_settles [OF registered(6)] by (simp add: receipts_inv_def)
next
  case (subscribed c m b)
  from subscribed(4) show ?thesis
    by (rule receipts_inv_settles)
       (use inv subscribed(1-3) in \<open>simp add: receipts_inv_def receipts_of_sub_new receipts_ok_grant\<close>)
next
  case (renewed c m b sub)
  from renewed(4) show ?thesis
    by (rule receipts_inv_settles)
       (use inv renewed(2) in \<open>simp add: receipts_inv_def receipts_of_sub_upd\<close>)
next
  case (pack_bought c m b n)
  from pack_bought(5) show ?thesis
    by (rule receipts_inv_settles)
       (use inv pack_bought(1-4) in \<open>simp add: receipts_inv_def receipts_of_pack_new receipts_ok_grant\<close>)
next
  case (views_added c m b pack n)
  from views_added(4) show ?thesis
    by (rule receipts_inv_settles)
       (use inv views_added(2) in \<open>simp add: receipts_inv_def receipts_of_pack_same\<close>)
next
  case (view_used c b pack)
  from view_used(4) show ?thesis
    by (rule receipts_inv_settles)
       (use inv view_used(2) in \<open>simp add: receipts_inv_def receipts_of_pack_same\<close>)
next
  case (last_view_used c b m pack)
  have "(c, b, PayPerView, pack_child_item_id pack) \<in> receipts s"
    using last_view_used(3) by (simp add: receipts_of_def)
  with inv last_view_used(2,3) have "receipts_inv (unnest (collection_id m) (pack_child_item_id pack) s
      \<lparr>view_packs := (view_packs s)((c, b) := None)\<rparr>)"
    by (simp add: receipts_inv_def receipts_of_pack_drop receipts_ok_drop)
  with last_view_used(5) show ?thesis by (rule receipts_inv_settles)
next
  case (ownership_bought c m b)
  from ownership_bought(4) show ?thesis
    by (rule receipts_inv_settles)
       (use inv ownership_bought(1-3) in \<open>simp add: receipts_inv_def receipts_of_own_new receipts_ok_grant\<close>)
next
  case (ownership_moved c m info b)
  have R: "(c, who, Ownership, own_child_item_id info) \<in> receipts s"
    using ownership_moved(2) by (simp add: receipts_of_def)
  have b: "((ownership s)((c, who) := None)) (c, b) = None" using ownership_moved(3) by simp
  note ok = receipts_ok_drop [OF inv [unfolded receipts_inv_def] ownership_moved(1) R]
  from receipts_ok_grant [OF ok ownership_moved(1,4), of b Ownership]
  have "receipts_inv (nest (collection_id m) (content_item_id m)
           (unnest (collection_id m) (own_child_item_id info) s)
         \<lparr>ownership := (ownership s)((c, who) := None, (c, b) \<mapsto>
            \<lparr>own_child_item_id = next_item_id s (collection_id m)\<rparr>)\<rparr>)"
    using receipts_of_own_new [of "(ownership s)((c, who) := None)", OF b] receipts_of_own_drop [of "ownership s", OF ownership_moved(2)]
    by (simp add: receipts_inv_def)
  with ownership_moved(5) show ?thesis by (rule receipts_inv_settles)
next
  case (renewal_enabled c m sub off t)
  have "receipts_inv t"
    using inv renewal_enabled(3) renewal_frame_simps [OF enqueue_renewal_simps(4) [OF renewal_enabled(5)]]
      enqueue_renewal_simps [OF renewal_enabled(5)]
    by (simp add: receipts_inv_def receipts_of_sub_upd)
  with renewal_enabled(6) show ?thesis by (rule receipts_inv_settles)
next
  case (renewal_disabled c sub)
  from renewal_disabled(3) show ?thesis
    by (rule receipts_inv_settles)
       (use inv renewal_disabled(1) in \<open>simp add: receipts_inv_def receipts_of_sub_upd\<close>)
next
  case (splits_set c m splits)
  from splits_set(4) show ?thesis
    by (rule receipts_inv_settles) (use inv in \<open>simp add: receipts_inv_def\<close>)
next
  case (meter_set c m meter)
  from meter_set(3) show ?thesis
    by (rule receipts_inv_settles) (use inv in \<open>simp add: receipts_inv_def\<close>)
next
  case (queried c)
  from queried(1) inv show ?thesis by (rule receipts_inv_settles)
qed

lemma effect_ids_inv:
  assumes "effect cfg who act s s'" and inv: "ids_inv cfg s" and law: "lawful cfg"
  shows "ids_inv cfg s'"
proof -
  note settled = ids_inv_settles [OF _ law]
  from assms(1) show ?thesis
  proof cases
    case (registered m)
    have lt: "x < next_content_id s + 1 \<longleftrightarrow> x = next_content_id s \<or> x < next_content_id s" for x
      using word_less_succ(2) [OF registered(1), of x] by (auto simp: le_less)
    have "x < collection_counter cfg (ext s) + 1" if "x < collection_counter cfg (ext s)" for x
      using word_less_succ [OF registered(2)] that by (auto intro: less_trans)
    with inv law registered(5) lt word_less_succ(1) [OF registered(2)]
    have "ids_inv cfg (s\<lparr>contents := (contents s)(next_content_id s \<mapsto> m),
        next_content_id := next_content_id s + 1,
        next_item_id := (next_item_id s)(collection_id m := 1),
        ext := nfts_set_next_collection_id cfg (collection_counter cfg (ext s) + 1) (ext s)\<rparr>)"
      by (auto simp: ids_inv_def lawful_def)
    with registered(6) show ?thesis by (rule settled)
  next
    case (renewal_enabled c m sub off t)
    have "ids_inv cfg t"
      by (rule enqueue_renewal_cases [OF renewal_enabled(5)]) (use inv in \<open>simp add: ids_inv_def\<close>)
    with renewal_enabled(6) show ?thesis by (rule settled)
  qed (erule settled, use inv in \<open>simp add: ids_inv_def\<close>)+
qed

lemma effect_splits_inv:
  assumes "effect cfg who act s s'" and inv: "splits_inv s"
  shows "splits_inv s'"
  using assms(1)
proof cases
  case (renewal_enabled c m sub off t)
  have "splits_inv t"
    by (rule enqueue_renewal_cases [OF renewal_enabled(5)]) (use inv in \<open>simp add: splits_inv_def\<close>)
  with renewal_enabled(6) show ?thesis by (rule splits_inv_settles)
qed (erule splits_inv_settles, use inv in \<open>simp add: splits_inv_def\<close>)+

lemma word_pred_pos: "1 < (v :: u32) \<Longrightarrow> 0 < v - 1"
  by (simp add: word_less_nat_alt unat_sub word_le_nat_alt)

lemma effect_packs_inv:
  assumes "effect cfg who act s s'" and inv: "packs_inv s"
  shows "packs_inv s'"
  using assms(1)
proof cases
  case (renewal_enabled c m sub off t)
  have "packs_inv t"
    by (rule enqueue_renewal_cases [OF renewal_enabled(5)]) (use inv in \<open>simp add: packs_inv_def\<close>)
  with renewal_enabled(6) show ?thesis by (rule packs_inv_settles)
next
  case (views_added c m b pack n)
  have "0 < saturating_add (views_remaining pack) n"
    using inv views_added(2) saturating_add_ge [of "views_remaining pack" n]
    by (auto simp: packs_inv_def intro: less_le_trans)
  with inv have "packs_inv (s\<lparr>view_packs := (view_packs s)((c, b) \<mapsto>
            pack\<lparr>views_remaining := saturating_add (views_remaining pack) n\<rparr>)\<rparr>)"
    by (auto simp: packs_inv_def)
  with views_added(4) show ?thesis by (rule packs_inv_settles)
next
  case (view_used c b pack)
  have "packs_inv (s\<lparr>view_packs := (view_packs s)((c, b) \<mapsto>
            pack\<lparr>views_remaining := views_remaining pack - 1\<rparr>)\<rparr>)"
    using inv word_pred_pos [OF view_used(3)] by (auto simp: packs_inv_def)
  with view_used(4) show ?thesis by (rule packs_inv_settles)
qed (erule packs_inv_settles, use inv in \<open>simp add: packs_inv_def\<close>)+

lemma renewal_inv_same:
  assumes "renewal_inv cfg s" and "auto_renew_index t = auto_renew_index s"
    and "renewal_queue t = renewal_queue s" and "block_number t = block_number s"
    and "\<And>k. map_option auto_renew (subscriptions t k) = map_option auto_renew (subscriptions s k)"
    and "\<And>c m. contents s c = Some m \<Longrightarrow> contents t c = Some m"
  shows "renewal_inv cfg t"
proof -
  have "(\<exists>sub. subscriptions t k = Some sub \<and> auto_renew sub) \<longleftrightarrow>
      (\<exists>sub. subscriptions s k = Some sub \<and> auto_renew sub)" for k
    using assms(5) [of k] by (cases "subscriptions t k"; cases "subscriptions s k") auto
  then have "index_ok t \<longleftrightarrow> index_ok s" unfolding index_ok_def assms(2) by simp
  with assms(1,6) show ?thesis
    unfolding renewal_inv_def assms(2,3,4) current_block_def by (metis (no_types))
qed

lemma renewal_inv_scheduled:
  assumes "renewal_inv cfg s" and "block_number s < 2 ^ 32 - 1" and "auto_renew_index s k \<noteq> None"
  shows "scheduled (renewal_queue s) (current_block s) k"
  using assms unfolding renewal_inv_def by blast

lemma current_block_less:
  assumes "block_number s < 2 ^ 32 - 1"
  shows "current_block s < - 1" and "unat (current_block s) = block_number s"
  using assms
  by (simp_all add: current_block_def try_into_u32_def word_less_nat_alt unat_of_nat unat_minus_one_word)

lemma effect_renewal_inv:
  assumes "effect cfg who act s s'" and inv: "renewal_inv cfg s" and ids: "ids_inv cfg s"
  shows "renewal_inv cfg s'"
  using assms(1)
proof cases
  case (registered m)
  have "renewal_inv cfg (s\<lparr>contents := (contents s)(next_content_id s \<mapsto> m),
      next_content_id := next_content_id s + 1,
      next_item_id := (next_item_id s)(collection_id m := 1),
      ext := nfts_set_next_collection_id cfg (collection_counter cfg (ext s) + 1) (ext s)\<rparr>)"
    by (rule renewal_inv_same [OF inv]) (use ids_inv_fresh(1) [OF ids] in auto)
  with registered(6) show ?thesis by (rule renewal_inv_settles)
next
  case (subscribed c m b)
  let ?sub = "\<lparr>expiry_block = saturating_add (current_block s) (period_length m), auto_renew = False,
             sub_child_item_id = next_item_id s (collection_id m)\<rparr>"
  have "index_ok (s\<lparr>subscriptions := (subscriptions s)((c, b) \<mapsto> ?sub)\<rparr>)"
    using inv subscribed(2) unfolding renewal_inv_def index_ok_def by auto
  with inv have "renewal_inv cfg (s\<lparr>subscriptions := (subscriptions s)((c, b) \<mapsto> ?sub)\<rparr>)"
    by (simp add: renewal_inv_def)
  then have "renewal_inv cfg (nest (collection_id m) (content_item_id m) s
      \<lparr>subscriptions := (subscriptions s)((c, b) \<mapsto> ?sub)\<rparr>)"
    by (rule renewal_inv_same) simp_all
  with subscribed(4) show ?thesis by (rule renewal_inv_settles)
next
  case (renewal_enabled c m sub off t)
  let ?s = "s\<lparr>subscriptions := (subscriptions s)((c, who) \<mapsto> sub\<lparr>auto_renew := True\<rparr>),
          auto_renew_index := (auto_renew_index s)((c, who) \<mapsto> True)\<rparr>"
  note enq = enqueue_renewal_simps [OF renewal_enabled(5)]
    renewal_frame_simps [OF enqueue_renewal_simps(4) [OF renewal_enabled(5)]]
  have idx: "index_ok t" using inv unfolding renewal_inv_def index_ok_def by (auto simp: enq)
  have wf: "queue_wf (renewal_queue t)"
    using enqueue_renewal_wf [OF renewal_enabled(5)] inv by (simp add: renewal_inv_def)
  have sched: "scheduled (renewal_queue t) (current_block t) k"
    if small: "block_number t < 2 ^ 32 - 1" and k: "auto_renew_index t k \<noteq> None" for k
  proof (cases "k = (c, who)")
    case True
    have "current_block s < saturating_add (current_block s) 1"
      using current_block_less(1) [of s] small by (intro saturating_add_gt) (simp_all add: enq)
    then have "current_block s < max (expiry_block sub) (saturating_add (current_block s) 1)"
      by (simp add: less_max_iff_disj)
    from enqueue_renewal_schedules [OF renewal_enabled(5) this] True show ?thesis by (simp add: enq)
  next
    case False
    with k have "auto_renew_index s k \<noteq> None" by (simp add: enq)
    with small inv have "scheduled (renewal_queue ?s) (current_block ?s) k"
      by (simp add: renewal_inv_scheduled enq)
    from enqueue_renewal_keeps_scheduled [OF renewal_enabled(5) this] show ?thesis by (simp add: enq)
  qed
  have period: "\<exists>m. contents t c' = Some m \<and> min_auto_renew_period cfg \<le> period_length m"
    if "auto_renew_index t (c', a') \<noteq> None" for c' a'
  proof (cases "c' = c")
    case True
    with renewal_enabled(1,2) show ?thesis by (simp add: enq)
  next
    case False
    with that have "auto_renew_index s (c', a') \<noteq> None" by (simp add: enq)
    with inv show ?thesis unfolding renewal_inv_def by (simp add: enq) blast
  qed
  have "renewal_inv cfg t"
    unfolding renewal_inv_def using idx wf sched period by blast
  with renewal_enabled(6) show ?thesis by (rule renewal_inv_settles)
next
  case (renewal_disabled c sub)
  let ?s = "s\<lparr>subscriptions := (subscriptions s)((c, who) \<mapsto> sub\<lparr>auto_renew := False\<rparr>),
          auto_renew_index := (auto_renew_index s)((c, who) := None)\<rparr>"
  have "index_ok ?s" using inv unfolding renewal_inv_def index_ok_def by auto
  with inv have "renewal_inv cfg ?s" by (simp add: renewal_inv_def) blast
  with renewal_disabled(3) show ?thesis by (rule renewal_inv_settles)
qed (erule renewal_inv_settles, rule renewal_inv_same [OF inv], auto)+

lemma effect_rights_inv:
  "effect cfg who act s s' \<Longrightarrow> lawful cfg \<Longrightarrow> rights_inv cfg s \<Longrightarrow> rights_inv cfg s'"
  unfolding rights_inv_def
  by (blast intro: effect_receipts_inv effect_ids_inv effect_splits_inv effect_packs_inv effect_renewal_inv)

section \<open>Preservation by the hook\<close>

lemma renew_one_ext:
  assumes "renew_one cfg now (c, a) (s, sp) = (s', sp')"
  shows "ext_calls cfg (ext s) (ext s')"
  using assms
proof (cases rule: renew_one_cases)
  case (requeue sub off)
  then show ?thesis by (auto elim!: enqueue_renewal_cases)
next
  case (renew sub content n s1)
  have "ext (finish_renewal now c a (period_length content) s1) = ext s1"
    by (cases rule: finish_renewal_cases [of c a now "period_length content" s1, case_names q st])
       (auto elim!: enqueue_renewal_cases simp: stop_auto_renew_def update_subscription_def Let_def)
  with pay_with_royalties_settles [OF renew(5)] renew(6) show ?thesis by (simp add: settles_def)
qed (simp_all add: stop_auto_renew_def update_subscription_def Let_def)

lemma on_initialize_ext:
  assumes "on_initialize cfg s = (w, s')"
  shows "ext_calls cfg (ext s) (ext s')"
  using assms
  by (elim on_initialize_cases renew_fold_induct [where P = "\<lambda>t. ext_calls cfg (ext s) (ext t)"])
     (auto intro: renew_one_ext rtranclp_trans)

lemma on_initialize_rights_inv:
  assumes run: "on_initialize cfg s = (w, s')" and law: "lawful cfg"
    and inv: "receipts_inv s" "ids_inv cfg s" "splits_inv s" "packs_inv s"
    and idx: "index_ok s" and wf: "queue_wf (renewal_queue s)"
    and period: "\<And>c a. auto_renew_index s (c, a) \<noteq> None \<Longrightarrow>
       \<exists>m. contents s c = Some m \<and> min_auto_renew_period cfg \<le> period_length m"
    and due: "\<And>k. block_number s < 2 ^ 32 - 1 \<Longrightarrow> auto_renew_index s k \<noteq> None \<Longrightarrow>
       \<exists>b\<ge>current_block s. k \<in> set (renewal_queue s b)"
  shows "rights_inv cfg s'"
proof -
  note frame = renewal_frame_simps [OF on_initialize_frame [OF run]]
  note progress = on_initialize_progress [OF run]
  have child: "map_option sub_child_item_id (subscriptions s' k) =
      map_option sub_child_item_id (subscriptions s k)" for k
    using progress [of k] by (cases "subscriptions s k"; cases "subscriptions s' k")
      (auto simp: sub_progress_def)
  have idx': "index_ok s'" using on_initialize_index_ok [OF run idx] .
  have still: "auto_renew_index s k \<noteq> None" if "auto_renew_index s' k \<noteq> None" for k
    using idx idx' progress that by (rule index_never_switched_on)
  have pos: "\<exists>m. contents s c = Some m \<and> 0 < period_length m"
    if "auto_renew_index s (c, a) \<noteq> None" for c a
    using period [OF that] law by (auto simp: lawful_def intro: less_le_trans)
  have sched: "scheduled (renewal_queue s') (current_block s') k"
    if "block_number s' < 2 ^ 32 - 1" "auto_renew_index s' k \<noteq> None" for k
    using on_initialize_scheduled [OF run idx _ pos due that(2)] current_block_less(1) [of s] that(1)
    by (simp add: frame)
  have "renewal_inv cfg s'"
    unfolding renewal_inv_def
    using idx' on_initialize_queue_wf [OF run wf] sched period still by (simp add: frame) blast
  moreover have "receipts_inv s'"
    using inv(1) receipts_of_sub_same [of "subscriptions s'" "subscriptions s", OF child]
    by (simp add: receipts_inv_def frame)
  moreover have "ids_inv cfg s'"
    using inv(2) ext_calls_counter [OF on_initialize_ext [OF run] law] by (simp add: ids_inv_def frame)
  ultimately show ?thesis
    using inv(3,4) by (simp add: rights_inv_def splits_inv_def packs_inv_def frame)
qed

section \<open>The chain\<close>

text \<open>
  A call is applied in a storage layer: when it fails, nothing is written. A new block advances
  the block number and runs the hook. The activity of other pallets and of their users is the
  relation \<open>env\<close> on the external state.
\<close>

definition apply_call ::
  "('a, 'x) config \<Rightarrow> 'a origin \<Rightarrow> 'a call \<Rightarrow> ('a, 'x) state \<Rightarrow> ('a, 'x) state" where
  "apply_call cfg og call s = (case dispatch cfg og call s of Inl _ \<Rightarrow> s | Inr (_, s') \<Rightarrow> s')"

definition new_block :: "('a, 'x) config \<Rightarrow> ('a, 'x) state \<Rightarrow> ('a, 'x) state" where
  "new_block cfg s = snd (on_initialize cfg (s\<lparr>block_number := Suc (block_number s)\<rparr>))"

inductive chain_step ::
  "('a, 'x) config \<Rightarrow> ('x \<Rightarrow> 'x \<Rightarrow> bool) \<Rightarrow> ('a, 'x) state \<Rightarrow> ('a, 'x) state \<Rightarrow> bool"
  for cfg :: "('a, 'x) config" and env :: "'x \<Rightarrow> 'x \<Rightarrow> bool" where
  call: "decodable c \<Longrightarrow> chain_step cfg env s (apply_call cfg og c s)"
| block: "chain_step cfg env s (new_block cfg s)"
| other: "env (ext s) x \<Longrightarrow> chain_step cfg env s (s\<lparr>ext := x\<rparr>)"

inductive_cases chain_stepE: "chain_step cfg env s s'"

text \<open>Other pallets may take collection ids, but never give one back.\<close>

definition lawful_env :: "('a, 'x) config \<Rightarrow> ('x \<Rightarrow> 'x \<Rightarrow> bool) \<Rightarrow> bool" where
  "lawful_env cfg env \<longleftrightarrow>
     lawful cfg \<and> (\<forall>x x'. env x x' \<longrightarrow> collection_counter cfg x \<le> collection_counter cfg x')"

lemma apply_call_cases:
  assumes "decodable c"
  obtains (failed) e where "dispatch cfg og c s = Inl e" "apply_call cfg og c s = s"
  | (succeeded) who w where "og = Signed who" "dispatch cfg og c s = Inr (w, apply_call cfg og c s)"
      "effect cfg who c s (apply_call cfg og c s)"
proof (cases "dispatch cfg og c s")
  case (Inl e)
  then show ?thesis by (intro failed) (simp_all add: apply_call_def)
next
  case (Inr r)
  then obtain who where who: "og = Signed who" by (rule dispatch_signed)
  have "dispatch cfg og c s = Inr (fst r, apply_call cfg og c s)"
    using Inr by (simp add: apply_call_def split: prod.splits)
  with who dispatch_effect assms show ?thesis by (metis succeeded)
qed

lemma apply_call_rights_inv:
  assumes "decodable c" and "lawful cfg" and "rights_inv cfg s"
  shows "rights_inv cfg (apply_call cfg og c s)"
  using assms(1)
  by (cases rule: apply_call_cases [where cfg = cfg and og = og and s = s])
     (use assms in \<open>auto intro: effect_rights_inv\<close>)

lemma current_block_Suc:
  assumes "block_number s < 2 ^ 32 - 1"
  shows "current_block (s\<lparr>block_number := Suc (block_number s)\<rparr>) = current_block s + 1"
  using assms by (simp add: current_block_def try_into_u32_def)

lemma new_block_rights_inv:
  assumes law: "lawful cfg" and inv: "rights_inv cfg s"
  shows "rights_inv cfg (new_block cfg s)"
proof -
  let ?s = "s\<lparr>block_number := Suc (block_number s)\<rparr>"
  obtain w s' where run: "on_initialize cfg ?s = (w, s')" by (cases "on_initialize cfg ?s")
  have ri: "renewal_inv cfg s" using inv by (simp add: rights_inv_def)
  have "rights_inv cfg s'"
  proof (rule on_initialize_rights_inv [OF run law])
    show "\<exists>b\<ge>current_block ?s. k \<in> set (renewal_queue ?s b)"
      if "block_number ?s < 2 ^ 32 - 1" "auto_renew_index ?s k \<noteq> None" for k
    proof -
      have small: "block_number s < 2 ^ 32 - 1" using that(1) by simp
      have "scheduled (renewal_queue s) (current_block s) k"
        using renewal_inv_scheduled [OF ri small] that(2) by simp
      then obtain b where b: "current_block s < b" "k \<in> set (renewal_queue s b)"
        by (auto simp: scheduled_def)
      from b(1) have "current_block s + 1 \<le> b" by (rule inc_le)
      with b(2) show ?thesis unfolding current_block_Suc [OF small] by auto
    qed
  next
    show "\<exists>m. contents ?s c = Some m \<and> min_auto_renew_period cfg \<le> period_length m"
      if "auto_renew_index ?s (c, a) \<noteq> None" for c a
      using ri that unfolding renewal_inv_def by simp blast
    show "index_ok ?s" using ri by (simp add: renewal_inv_def index_ok_cong [of ?s s])
  qed (use inv ri in \<open>simp_all add: rights_inv_def receipts_inv_def ids_inv_def splits_inv_def
        packs_inv_def renewal_inv_def\<close>)
  then show ?thesis by (simp add: new_block_def run)
qed

lemma chain_step_rights_inv:
  assumes "chain_step cfg env s s'" and law: "lawful_env cfg env" and inv: "rights_inv cfg s"
  shows "rights_inv cfg s'"
  using assms(1)
proof (cases rule: chain_step.cases)
  case (call c og)
  with law inv show ?thesis by (simp add: lawful_env_def apply_call_rights_inv)
next
  case block
  with law inv show ?thesis by (simp add: lawful_env_def new_block_rights_inv)
next
  case (other x)
  have "collection_counter cfg (ext s) \<le> collection_counter cfg x"
    using other(2) law by (simp add: lawful_env_def)
  with inv have "ids_inv cfg (s\<lparr>ext := x\<rparr>)"
    by (auto simp: rights_inv_def ids_inv_def intro: less_le_trans)
  moreover have "renewal_inv cfg (s\<lparr>ext := x\<rparr>)"
    using inv by (auto simp: rights_inv_def intro: renewal_inv_same)
  ultimately show ?thesis
    using inv other(1) by (simp add: rights_inv_def receipts_inv_def splits_inv_def packs_inv_def)
qed

definition initial_state :: "('a, 'x) state \<Rightarrow> bool" where
  "initial_state s \<longleftrightarrow> (\<exists>n x. s = genesis n x)"

lemma genesis_rights_inv: "initial_state s \<Longrightarrow> rights_inv cfg s"
  by (auto simp: initial_state_def rights_inv_def genesis_def receipts_inv_def receipts_ok_def
      receipts_of_def ids_inv_def splits_inv_def valid_splits_def total_basis_points_def packs_inv_def
      renewal_inv_def index_ok_def queue_wf_def split: rights_type.splits)

text \<open>The chain is a transition system with the invariant, for every lawful configuration.\<close>

interpretation chain: invariant_system initial_state "chain_step cfg env"
  "\<lambda>s. lawful_env cfg env \<longrightarrow> rights_inv cfg s"
  for cfg :: "('a, 'x) config" and env :: "'x \<Rightarrow> 'x \<Rightarrow> bool"
  by unfold_locales (auto intro: genesis_rights_inv chain_step_rights_inv)

lemma reachable_rights_inv:
  assumes "reachable initial_state (chain_step cfg env) s" and "lawful_env cfg env"
  shows "rights_inv cfg s"
  using chain.inv_reachable [OF assms(1)] assms(2) by blast

end
