(* ===== verification/Rights_Ledger.thy ===== *)
theory Rights_Ledger
  imports Rights_Invariant
begin

text \<open>
  The abstract specification of \<open>pallet_content_rights\<close>: a ledger of works, owners, paid-up
  subscriptions, remaining views and standing renewals, without NFTs, payments, queues or
  machine integers for counts. \<open>ledger_allows\<close> says when a call may succeed and \<open>ledger_call\<close>
  what it does; the pallet refines both (\<open>dispatch_refines\<close>), and its access query is the
  access query of the ledger.
\<close>

section \<open>The ledger\<close>

record 'a work =
  author :: 'a
  work_hash :: "u8 list"
  work_title :: "u8 list"
  price_per_period :: u128
  price_per_view :: u128
  price_to_own :: u128
  period :: u32

record 'a ledger =
  works :: "'a work list"
  owners :: "(u32 \<times> 'a) set"
  paid_until :: "u32 \<times> 'a \<rightharpoonup> u32"
  views :: "u32 \<times> 'a \<Rightarrow> nat"
  renewing :: "(u32 \<times> 'a) set"
  shares :: "u32 \<Rightarrow> royalty_split list"
  metered_by :: "u32 \<rightharpoonup> 'a"

definition listed :: "u32 \<Rightarrow> 'a ledger \<Rightarrow> bool" where
  "listed c L \<longleftrightarrow> unat c < length (works L)"

definition work :: "u32 \<Rightarrow> 'a ledger \<Rightarrow> 'a work" where
  "work c L = works L ! unat c"

definition extend :: "u32 \<Rightarrow> u32 \<Rightarrow> 'a \<Rightarrow> 'a ledger \<Rightarrow> 'a ledger" where
  "extend now c b L = L\<lparr>paid_until := (paid_until L)((c, b) \<mapsto> saturating_add now (period (work c L)))\<rparr>"

definition add_views :: "u32 \<Rightarrow> 'a \<Rightarrow> u32 \<Rightarrow> 'a ledger \<Rightarrow> 'a ledger" where
  "add_views c b n L = L\<lparr>views := (views L)((c, b) := min (views L (c, b) + unat n) (2 ^ 32 - 1))\<rparr>"

definition use_view :: "u32 \<Rightarrow> 'a \<Rightarrow> 'a ledger \<Rightarrow> 'a ledger" where
  "use_view c b L = L\<lparr>views := (views L)((c, b) := views L (c, b) - 1)\<rparr>"

definition move_ownership :: "u32 \<Rightarrow> 'a \<Rightarrow> 'a \<Rightarrow> 'a ledger \<Rightarrow> 'a ledger" where
  "move_ownership c a b L = L\<lparr>owners := insert (c, b) (owners L - {(c, a)})\<rparr>"

fun ledger_call :: "'a \<Rightarrow> u32 \<Rightarrow> 'a call \<Rightarrow> 'a ledger \<Rightarrow> 'a ledger" where
  "ledger_call who now (RegisterContent h t p q r l) L =
     L\<lparr>works := works L @ [\<lparr>author = who, work_hash = h, work_title = t, price_per_period = p,
         price_per_view = q, price_to_own = r, period = l\<rparr>]\<rparr>"
| "ledger_call who now (Subscribe c) L = extend now c who L"
| "ledger_call who now (RenewSubscription c) L = extend now c who L"
| "ledger_call who now (PurchaseViews c n) L = add_views c who n L"
| "ledger_call who now (ConsumeView c) L = use_view c who L"
| "ledger_call who now (PurchaseOwnership c) L = L\<lparr>owners := insert (c, who) (owners L)\<rparr>"
| "ledger_call who now (CheckAccess c) L = L"
| "ledger_call who now (XcmSubscribe c b) L = extend now c b L"
| "ledger_call who now (XcmRenewSubscription c b) L = extend now c b L"
| "ledger_call who now (XcmPurchaseViews c b n) L = add_views c b n L"
| "ledger_call who now (XcmPurchaseOwnership c b) L = L\<lparr>owners := insert (c, b) (owners L)\<rparr>"
| "ledger_call who now (TransferOwnership c t) L = move_ownership c who t L"
| "ledger_call who now (XcmTransferOwnership c f t) L = move_ownership c f t L"
| "ledger_call who now (SetRoyaltySplits c sps) L = L\<lparr>shares := (shares L)(c := sps)\<rparr>"
| "ledger_call who now (EnableAutoRenew c) L = L\<lparr>renewing := insert (c, who) (renewing L)\<rparr>"
| "ledger_call who now (DisableAutoRenew c) L = L\<lparr>renewing := renewing L - {(c, who)}\<rparr>"
| "ledger_call who now (QueryRightsMetadata c) L = L"
| "ledger_call who now (SetMeter c m) L = L\<lparr>metered_by := (metered_by L)(c := m)\<rparr>"
| "ledger_call who now (ConsumeViewFor c v) L = use_view c v L"

definition lapsed :: "u32 \<Rightarrow> u32 \<times> 'a \<Rightarrow> 'a ledger \<Rightarrow> bool" where
  "lapsed now k L \<longleftrightarrow> (case paid_until L k of Some e \<Rightarrow> e \<le> now | None \<Rightarrow> False)"

fun ledger_allows :: "'a \<Rightarrow> u32 \<Rightarrow> 'a call \<Rightarrow> 'a ledger \<Rightarrow> bool" where
  "ledger_allows who now (RegisterContent h t p q r l) L \<longleftrightarrow> length (works L) + 1 < 2 ^ 32"
| "ledger_allows who now (Subscribe c) L \<longleftrightarrow> listed c L \<and> paid_until L (c, who) = None"
| "ledger_allows who now (RenewSubscription c) L \<longleftrightarrow> listed c L \<and> lapsed now (c, who) L"
| "ledger_allows who now (PurchaseViews c n) L \<longleftrightarrow> listed c L \<and> 0 < n"
| "ledger_allows who now (ConsumeView c) L \<longleftrightarrow> 0 < views L (c, who)"
| "ledger_allows who now (PurchaseOwnership c) L \<longleftrightarrow> listed c L \<and> (c, who) \<notin> owners L"
| "ledger_allows who now (CheckAccess c) L \<longleftrightarrow> listed c L"
| "ledger_allows who now (XcmSubscribe c b) L \<longleftrightarrow> listed c L \<and> paid_until L (c, b) = None"
| "ledger_allows who now (XcmRenewSubscription c b) L \<longleftrightarrow> listed c L \<and> lapsed now (c, b) L"
| "ledger_allows who now (XcmPurchaseViews c b n) L \<longleftrightarrow> listed c L \<and> 0 < n"
| "ledger_allows who now (XcmPurchaseOwnership c b) L \<longleftrightarrow> listed c L \<and> (c, b) \<notin> owners L"
| "ledger_allows who now (TransferOwnership c t) L \<longleftrightarrow>
     listed c L \<and> (c, who) \<in> owners L \<and> (c, t) \<notin> owners L"
| "ledger_allows who now (XcmTransferOwnership c f t) L \<longleftrightarrow>
     listed c L \<and> who = f \<and> (c, f) \<in> owners L \<and> (c, t) \<notin> owners L"
| "ledger_allows who now (SetRoyaltySplits c sps) L \<longleftrightarrow>
     listed c L \<and> author (work c L) = who \<and> valid_splits sps"
| "ledger_allows who now (EnableAutoRenew c) L \<longleftrightarrow>
     listed c L \<and> paid_until L (c, who) \<noteq> None \<and> (c, who) \<notin> renewing L"
| "ledger_allows who now (DisableAutoRenew c) L \<longleftrightarrow> (c, who) \<in> renewing L"
| "ledger_allows who now (QueryRightsMetadata c) L \<longleftrightarrow> listed c L"
| "ledger_allows who now (SetMeter c m) L \<longleftrightarrow> listed c L \<and> author (work c L) = who"
| "ledger_allows who now (ConsumeViewFor c v) L \<longleftrightarrow> metered_by L c = Some who \<and> 0 < views L (c, v)"

text \<open>The rights an account holds, and the access the ledger grants: the best of them.\<close>

definition rights_held :: "u32 \<Rightarrow> u32 \<Rightarrow> 'a \<Rightarrow> 'a ledger \<Rightarrow> rights_type set" where
  "rights_held now c a L =
     {rt. case rt of
            Ownership \<Rightarrow> (c, a) \<in> owners L
          | Subscription \<Rightarrow> (case paid_until L (c, a) of Some e \<Rightarrow> now < e | None \<Rightarrow> False)
          | PayPerView \<Rightarrow> 0 < views L (c, a)}"

definition ledger_access :: "u32 \<Rightarrow> u32 \<Rightarrow> 'a \<Rightarrow> 'a ledger \<Rightarrow> rights_type option" where
  "ledger_access now c a L =
     (if rights_held now c a L = {} then None else Some (Max (rights_held now c a L)))"

section \<open>The abstraction\<close>

definition work_of :: "'a content_metadata \<Rightarrow> 'a work" where
  "work_of m =
     \<lparr>author = creator m, work_hash = metadata_hash m, work_title = title m,
      price_per_period = subscription_price m, price_per_view = ppv_price m,
      price_to_own = ownership_price m, period = period_length m\<rparr>"

definition ledger_of :: "('a, 'x) state \<Rightarrow> 'a ledger" where
  "ledger_of s =
     \<lparr>works = map (\<lambda>i. work_of (the (contents s (of_nat i)))) [0..<unat (next_content_id s)],
      owners = dom (ownership s),
      paid_until = (\<lambda>k. map_option expiry_block (subscriptions s k)),
      views = (\<lambda>k. case view_packs s k of None \<Rightarrow> 0 | Some pack \<Rightarrow> unat (views_remaining pack)),
      renewing = {k. \<exists>sub. subscriptions s k = Some sub \<and> auto_renew sub},
      shares = royalty_splits s, metered_by = meters s\<rparr>"

lemma ledger_of_settles: "settles cfg t s' \<Longrightarrow> ledger_of s' = ledger_of t"
  by (simp add: ledger_of_def settles_storage)

lemma ledger_of_nest [simp]:
  "ledger_of (nest col par s) = ledger_of s"
  "ledger_of (unnest col ch s) = ledger_of s"
  "ledger_of (nest col par s\<lparr>subscriptions := v1\<rparr>) = ledger_of (s\<lparr>subscriptions := v1\<rparr>)"
  "ledger_of (nest col par s\<lparr>view_packs := v2\<rparr>) = ledger_of (s\<lparr>view_packs := v2\<rparr>)"
  "ledger_of (unnest col ch s\<lparr>view_packs := v2\<rparr>) = ledger_of (s\<lparr>view_packs := v2\<rparr>)"
  by (simp_all add: ledger_of_def)

lemma length_works [simp]: "length (works (ledger_of s)) = unat (next_content_id s)"
  by (simp add: ledger_of_def)

lemma listed_work:
  assumes "ids_inv cfg s" and "contents s c = Some m"
  shows "listed c (ledger_of s)" and "work c (ledger_of s) = work_of m"
proof -
  have "c < next_content_id s" using assms unfolding ids_inv_def by (metis option.distinct(1))
  then have c: "unat c < unat (next_content_id s)" by (simp add: word_less_nat_alt)
  then show "listed c (ledger_of s)" by (simp add: listed_def)
  from c assms(2) show "work c (ledger_of s) = work_of m" by (simp add: work_def ledger_of_def)
qed

lemma ledger_of_simps [simp]:
  "owners (ledger_of s) = dom (ownership s)"
  "paid_until (ledger_of s) k = map_option expiry_block (subscriptions s k)"
  "k \<in> renewing (ledger_of s) \<longleftrightarrow> (\<exists>sub. subscriptions s k = Some sub \<and> auto_renew sub)"
  "shares (ledger_of s) = royalty_splits s"
  "metered_by (ledger_of s) = meters s"
  by (simp_all add: ledger_of_def)

lemma views_ledger_of:
  "view_packs s k = Some pack \<Longrightarrow> views (ledger_of s) k = unat (views_remaining pack)"
  "view_packs s k = None \<Longrightarrow> views (ledger_of s) k = 0"
  by (simp_all add: ledger_of_def)

section \<open>Refinement\<close>

lemma ledger_of_register:
  assumes "has_successor (next_content_id s)"
  shows "ledger_of (s\<lparr>contents := (contents s)(next_content_id s \<mapsto> m),
       next_content_id := next_content_id s + 1, next_item_id := n, ext := x\<rparr>) =
     ledger_of s\<lparr>works := works (ledger_of s) @ [work_of m]\<rparr>"
proof -
  have n: "unat (next_content_id s + 1) = Suc (unat (next_content_id s))"
    using assms unat_add_no_overflow [of "next_content_id s" 1] by (simp add: has_successor_def)
  have "of_nat i \<noteq> next_content_id s" if "i < unat (next_content_id s)" for i
  proof -
    have "unat (of_nat i :: u32) = i"
      using that unat_less_pow [of "next_content_id s"] by (simp add: unat_of_nat)
    with that show ?thesis by auto
  qed
  then show ?thesis by (simp add: ledger_of_def n)
qed

lemma ledger_of_subscribed:
  "subscriptions s k = None \<Longrightarrow> \<not> auto_renew x \<Longrightarrow>
     ledger_of (s\<lparr>subscriptions := (subscriptions s)(k \<mapsto> x)\<rparr>) =
       ledger_of s\<lparr>paid_until := (paid_until (ledger_of s))(k \<mapsto> expiry_block x)\<rparr>"
  by (auto simp: ledger_of_def)

lemma ledger_of_extended:
  "subscriptions s k = Some sub \<Longrightarrow>
     ledger_of (s\<lparr>subscriptions := (subscriptions s)(k \<mapsto> sub\<lparr>expiry_block := e\<rparr>)\<rparr>) =
       ledger_of s\<lparr>paid_until := (paid_until (ledger_of s))(k \<mapsto> e)\<rparr>"
  by (auto simp: ledger_of_def)

lemma ledger_of_switch:
  assumes "subscriptions s k = Some sub"
  shows "ledger_of (s\<lparr>subscriptions := (subscriptions s)(k \<mapsto> sub\<lparr>auto_renew := v\<rparr>), auto_renew_index := i\<rparr>) =
     ledger_of s\<lparr>renewing := (if v then insert k (renewing (ledger_of s)) else renewing (ledger_of s) - {k})\<rparr>"
  using assms by (auto simp: ledger_of_def)

lemma ledger_of_packs:
  "ledger_of (s\<lparr>view_packs := (view_packs s)(k \<mapsto> pack)\<rparr>) =
     ledger_of s\<lparr>views := (views (ledger_of s))(k := unat (views_remaining pack))\<rparr>"
  "ledger_of (s\<lparr>view_packs := (view_packs s)(k := None)\<rparr>) =
     ledger_of s\<lparr>views := (views (ledger_of s))(k := 0)\<rparr>"
  by (auto simp: ledger_of_def)

lemma ledger_of_ownership:
  "ledger_of (s\<lparr>ownership := w\<rparr>) = ledger_of s\<lparr>owners := dom w\<rparr>"
  by (simp add: ledger_of_def)

lemma ledger_of_enqueue:
  "enqueue_renewal c a at s = Inr (off, t) \<Longrightarrow> ledger_of t = ledger_of s"
  by (auto elim!: enqueue_renewal_cases simp: ledger_of_def)

lemma effect_refines:
  assumes "effect cfg who act s s'" and inv: "rights_inv cfg s"
  shows "ledger_allows who (current_block s) act (ledger_of s) \<and>
    ledger_of s' = ledger_call who (current_block s) act (ledger_of s)"
proof -
  have ids: "ids_inv cfg s" using inv by (simp add: rights_inv_def)
  note lw = listed_work [OF ids]
  from assms(1) show ?thesis
  proof cases
    case (registered m)
    then show ?thesis
      using registered(1,3) ledger_of_settles [OF registered(6)]
      by (simp add: ledger_of_register has_successor_def work_of_def)
  next
    case (subscribed c m b)
    have "ledger_of s' = extend (current_block s) c b (ledger_of s)"
      using ledger_of_settles [OF subscribed(4)] subscribed(2) lw [OF subscribed(1)]
      by (simp add: ledger_of_subscribed extend_def work_of_def)
    then show ?thesis using subscribed(2,5) lw [OF subscribed(1)] by auto
  next
    case (renewed c m b sub)
    have "ledger_of s' = extend (current_block s) c b (ledger_of s)"
      using ledger_of_settles [OF renewed(4)] renewed(2) lw [OF renewed(1)]
      by (simp add: ledger_of_extended extend_def work_of_def)
    moreover have "lapsed (current_block s) (c, b) (ledger_of s)"
      using renewed(2,3) by (simp add: lapsed_def)
    ultimately show ?thesis using renewed(5) lw [OF renewed(1)] by auto
  next
    case (pack_bought c m b n)
    have "unat n \<le> 2 ^ 32 - 1" using unat_le_max [of n] by simp
    then have "ledger_of s' = add_views c b n (ledger_of s)"
      using ledger_of_settles [OF pack_bought(5)] views_ledger_of(2) [OF pack_bought(2)]
      by (simp add: ledger_of_packs add_views_def)
    then show ?thesis using pack_bought(3,6) lw [OF pack_bought(1)] by auto
  next
    case (views_added c m b pack n)
    have "ledger_of s' = add_views c b n (ledger_of s)"
      using ledger_of_settles [OF views_added(4)] views_ledger_of(1) [OF views_added(2)]
      by (simp add: ledger_of_packs add_views_def machine_arith)
    then show ?thesis using views_added(3,5) lw [OF views_added(1)] by auto
  next
    case (view_used c b pack)
    have "1 \<le> views_remaining pack" using view_used(3) by simp
    then have "ledger_of s' = use_view c b (ledger_of s)"
      using ledger_of_settles [OF view_used(4)] views_ledger_of(1) [OF view_used(2)]
      by (simp add: ledger_of_packs use_view_def unat_sub)
    then show ?thesis using view_used(1,3) views_ledger_of(1) [OF view_used(2)]
      by (auto simp: word_less_nat_alt)
  next
    case (last_view_used c b m pack)
    have "ledger_of s' = use_view c b (ledger_of s)"
      using ledger_of_settles [OF last_view_used(5)] views_ledger_of(1) [OF last_view_used(3)]
        last_view_used(4)
      by (simp add: ledger_of_packs use_view_def)
    then show ?thesis using last_view_used(1,4) views_ledger_of(1) [OF last_view_used(3)] by auto
  next
    case (ownership_bought c m b)
    then show ?thesis
      using ledger_of_settles [OF ownership_bought(4)] lw [OF ownership_bought(1)]
      by (auto simp: ledger_of_ownership)
  next
    case (ownership_moved c m info b)
    have "ledger_of s' = move_ownership c who b (ledger_of s)"
      using ledger_of_settles [OF ownership_moved(5)]
      by (simp add: ledger_of_ownership move_ownership_def)
    then show ?thesis using ownership_moved(2,3,6) lw [OF ownership_moved(1)] by auto
  next
    case (renewal_enabled c m sub off t)
    then show ?thesis
      using ledger_of_settles [OF renewal_enabled(6)] ledger_of_enqueue [OF renewal_enabled(5)]
        lw [OF renewal_enabled(1)]
      by (simp add: ledger_of_switch [OF renewal_enabled(3)])
  next
    case (renewal_disabled c sub)
    then show ?thesis
      using ledger_of_settles [OF renewal_disabled(3)]
      by (simp add: ledger_of_switch [OF renewal_disabled(1)])
  next
    case (splits_set c m splits)
    then show ?thesis
      using ledger_of_settles [OF splits_set(4)] lw [OF splits_set(1)]
      by (simp add: ledger_of_def work_of_def)
  next
    case (meter_set c m meter)
    then show ?thesis
      using ledger_of_settles [OF meter_set(3)] lw [OF meter_set(1)]
      by (simp add: ledger_of_def work_of_def)
  next
    case (queried c)
    then show ?thesis using ledger_of_settles [OF queried(1)] lw(1) [of c] by auto
  qed
qed

lemma access_rights_ledger:
  "access_rights c a s = ledger_access (current_block s) c a (ledger_of s)"
proof -
  let ?R = "rights_held (current_block s) c a (ledger_of s)"
  have own: "Ownership \<in> ?R \<longleftrightarrow> ownership s (c, a) \<noteq> None" by (auto simp: rights_held_def)
  have sub: "Subscription \<in> ?R \<longleftrightarrow>
      (case subscriptions s (c, a) of Some sub \<Rightarrow> current_block s < expiry_block sub | None \<Rightarrow> False)"
    by (auto simp: rights_held_def split: option.splits)
  have ppv: "PayPerView \<in> ?R \<longleftrightarrow>
      (case view_packs s (c, a) of Some pack \<Rightarrow> 0 < views_remaining pack | None \<Rightarrow> False)"
    by (auto simp: rights_held_def ledger_of_def word_less_nat_alt split: option.splits)
  have fin: "finite ?R"
    by (rule finite_subset [of _ "{Subscription, PayPerView, Ownership}"]) (use rights_type.exhaust in auto)
  have max: "ledger_access (current_block s) c a (ledger_of s) = Some rt"
    if "rt \<in> ?R" "\<And>q. q \<in> ?R \<Longrightarrow> q \<le> rt" for rt
    using Max_eqI [OF fin that(2,1)] that(1) by (auto simp: ledger_access_def)
  have le: "q \<le> Ownership" "q \<le> Subscription \<longleftrightarrow> q \<noteq> Ownership" "q \<le> PayPerView \<longleftrightarrow> q = PayPerView"
    for q by (cases q; simp add: less_eq_rights_type_def)+
  consider "Ownership \<in> ?R" | "Ownership \<notin> ?R" "Subscription \<in> ?R"
    | "Ownership \<notin> ?R" "Subscription \<notin> ?R" "PayPerView \<in> ?R" | "?R = {}"
    by (metis all_not_in_conv rights_type.exhaust)
  then show ?thesis
  proof cases
    case 1
    with max [of Ownership] le own show ?thesis by (simp add: access_rights_def)
  next
    case 2
    then have "\<And>q. q \<in> ?R \<Longrightarrow> q \<le> Subscription" using le(2) by blast
    with 2 max [of Subscription] own sub show ?thesis by (simp add: access_rights_def)
  next
    case 3
    then have "\<And>q. q \<in> ?R \<Longrightarrow> q \<le> PayPerView" by (metis le(3) rights_type.exhaust)
    with 3 max [of PayPerView] own sub ppv show ?thesis by (simp add: access_rights_def)
  next
    case 4
    with own sub ppv show ?thesis by (simp add: access_rights_def ledger_access_def)
  qed
qed

lemma receipts_of_none:
  assumes "\<And>rt ch. (c, a, rt, ch) \<notin> receipts_of S V W"
  shows "S (c, a) = None" and "V (c, a) = None" and "W (c, a) = None"
  using assms [of Subscription "sub_child_item_id (the (S (c, a)))"]
    assms [of PayPerView "pack_child_item_id (the (V (c, a)))"]
    assms [of Ownership "own_child_item_id (the (W (c, a)))"]
  by (auto simp: receipts_of_def)

lemma access_rights_of_ledger:
  assumes "rights_inv cfg s"
  shows "access_rights_of c a s = ledger_access (current_block s) c a (ledger_of s)"
proof (cases "contents s c = None")
  case True
  have ok: "receipts_ok (contents s) (receipts s) (parent s) (next_item_id s)"
    using assms by (simp add: rights_inv_def receipts_inv_def)
  have "(c, a, rt, ch) \<notin> receipts s" for rt ch using receipts_okD(1) [OF ok] True by fastforce
  from receipts_of_none [OF this] have "access_rights c a s = None" by (simp add: access_rights_def)
  with True show ?thesis by (simp add: access_rights_of_def access_rights_ledger)
next
  case False
  then show ?thesis by (auto simp: access_rights_of_def access_rights_ledger)
qed

text \<open>What the ledger knows of an account, in terms of the storage entries.\<close>

lemma views_exist:
  assumes "rights_inv cfg s"
  shows "view_packs s k \<noteq> None \<longleftrightarrow> 0 < views (ledger_of s) k"
proof (cases "view_packs s k")
  case (Some pack)
  have "packs_inv s" using assms by (simp add: rights_inv_def)
  then have "0 < views_remaining pack" using Some unfolding packs_inv_def by blast
  with Some show ?thesis by (simp add: ledger_of_def word_less_nat_alt)
qed (simp add: ledger_of_def)

lemma listed_iff:
  assumes "rights_inv cfg s"
  shows "listed c (ledger_of s) \<longleftrightarrow> contents s c \<noteq> None"
  using assms by (simp add: listed_def ledger_of_def rights_inv_def ids_inv_def word_less_nat_alt)

end
