(* ===== verification/Rights_Safety.thy ===== *)
theory Rights_Safety
  imports Rights_Ledger
begin

text \<open>
  Who can change what: safety of the holders' rights and of the creators' settings, over the
  rules of \<open>effect\<close> and then over every step of the chain.
\<close>

section \<open>Single effects\<close>

lemma effect_keeps_ownership:
  assumes "effect cfg who act s s'" and "ownership s (c, a) = Some info" and "who \<noteq> a"
  shows "ownership s' (c, a) = Some info"
  using assms(1)
proof cases
  case (renewal_enabled c' m sub off t)
  have "ownership t = ownership s"
    using renewal_frame_simps [OF enqueue_renewal_simps(4) [OF renewal_enabled(5)]] by simp
  with settles_storage [OF renewal_enabled(6)] assms(2) show ?thesis by simp
qed (use assms(2,3) in \<open>auto dest!: settles_storage(6)\<close>)

text \<open>A viewer's pack shrinks only when the viewer or the meter of the content consumes from it.\<close>

lemma effect_keeps_views:
  assumes "effect cfg who act s s'" and "view_packs s (c, a) = Some pack"
    and "who \<noteq> a" and "meters s c \<noteq> Some who"
  shows "\<exists>pack'. view_packs s' (c, a) = Some pack' \<and> views_remaining pack \<le> views_remaining pack'"
  using assms(1)
proof cases
  case (renewal_enabled c' m sub off t)
  have "view_packs t = view_packs s"
    using renewal_frame_simps [OF enqueue_renewal_simps(4) [OF renewal_enabled(5)]] by simp
  with settles_storage [OF renewal_enabled(6)] assms(2) show ?thesis by simp
qed (use assms(2-4) in \<open>auto simp: saturating_add_ge dest!: settles_storage(5)\<close>)

text \<open>
  A subscription is never removed, keeps its child item, and never gets an earlier expiry; only
  the subscriber switches its renewal on or off.
\<close>

definition sub_kept :: "bool \<Rightarrow> subscription_info \<Rightarrow> subscription_info \<Rightarrow> bool" where
  "sub_kept own x y \<longleftrightarrow>
     sub_child_item_id y = sub_child_item_id x \<and> expiry_block x \<le> expiry_block y \<and>
     (auto_renew y = auto_renew x \<or> own)"

lemma sub_kept_refl [simp]: "sub_kept own x x"
  by (simp add: sub_kept_def)

lemma effect_keeps_subscription:
  assumes "effect cfg who act s s'" and "subscriptions s (c, a) = Some sub"
  shows "\<exists>sub'. subscriptions s' (c, a) = Some sub' \<and> sub_kept (who = a) sub sub'"
  using assms(1)
proof cases
  case (renewed c' m b sub')
  have "expiry_block sub' \<le> saturating_add (current_block s) (period_length m)"
    using renewed(3) saturating_add_ge order_trans by blast
  with assms(2) renewed(2) settles_storage(1) [OF renewed(4)] show ?thesis
    by (auto simp: sub_kept_def)
next
  case (renewal_enabled c' m sub' off t)
  with assms(2) settles_storage(1) [OF renewal_enabled(6)] enqueue_renewal_simps(1) [OF renewal_enabled(5)]
  show ?thesis by (auto simp: sub_kept_def)
next
  case (renewal_disabled c' sub')
  with assms(2) settles_storage(1) [OF renewal_disabled(3)] show ?thesis by (auto simp: sub_kept_def)
next
  case (subscribed c' m b)
  with assms(2) settles_storage(1) [OF subscribed(4)] show ?thesis by auto
qed (use assms(2) in \<open>auto dest!: settles_storage(1)\<close>)

lemma effect_keeps_contents:
  assumes "effect cfg who act s s'" and "ids_inv cfg s" and "contents s c = Some m"
  shows "contents s' c = Some m"
  using assms(1)
proof cases
  case (registered m')
  with settles_storage(4) [OF registered(6)] assms(3) ids_inv_fresh(1) [OF assms(2)] show ?thesis by auto
next
  case (renewal_enabled c' m' sub off t)
  with settles_storage(4) [OF renewal_enabled(6)] enqueue_renewal_simps(3) [OF renewal_enabled(5)] assms(3)
  show ?thesis by simp
qed (use assms(3) in \<open>auto dest!: settles_storage(4)\<close>)

lemma settles_settings:
  "settles cfg t s' \<Longrightarrow> royalty_splits s' = royalty_splits t \<and> meters s' = meters t"
  by (simp add: settles_storage)

lemma effect_settings:
  assumes "effect cfg who act s s'"
    and "royalty_splits s' c \<noteq> royalty_splits s c \<or> meters s' c \<noteq> meters s c"
  shows "\<exists>m. contents s c = Some m \<and> creator m = who"
  using assms(1)
proof cases
  case (renewal_enabled c' m' sub off t)
  have "royalty_splits t = royalty_splits s" "meters t = meters s"
    using renewal_frame_simps [OF enqueue_renewal_simps(4) [OF renewal_enabled(5)]] by simp_all
  with settles_settings [OF renewal_enabled(6)] assms(2) show ?thesis by simp
qed (use assms(2) in \<open>auto dest!: settles_settings split: if_splits\<close>)

text \<open>The calls behind a lost ownership and behind a spent view.\<close>

lemma effect_ownership_lost:
  assumes "effect cfg who act s s'" and "ownership s (c, a) = Some info"
    and "ownership s' (c, a) \<noteq> Some info"
  shows "who = a \<and> (\<exists>b. act = TransferOwnership c b \<or> act = XcmTransferOwnership c a b)"
proof -
  have who: "who = a" using effect_keeps_ownership [OF assms(1,2)] assms(3) by blast
  from assms(1) show ?thesis
  proof cases
    case (renewal_enabled c' m sub off t)
    have "ownership t = ownership s"
      using renewal_frame_simps [OF enqueue_renewal_simps(4) [OF renewal_enabled(5)]] by simp
    with settles_storage(6) [OF renewal_enabled(6)] assms(2,3) show ?thesis by simp
  next
    case (ownership_moved c' m info' b)
    with assms(2,3) settles_storage(6) [OF ownership_moved(5)] who show ?thesis
      by (auto split: if_splits)
  qed (use assms(2,3) in \<open>auto dest!: settles_storage(6) split: if_splits\<close>)
qed

lemma effect_view_spent:
  assumes "effect cfg who act s s'" and "views (ledger_of s') (c, a) < views (ledger_of s) (c, a)"
  shows "views (ledger_of s) (c, a) = Suc (views (ledger_of s') (c, a)) \<and>
    (who = a \<and> act = ConsumeView c \<or> meters s c = Some who \<and> act = ConsumeViewFor c a)"
  using assms(1)
proof cases
  case (renewal_enabled c' m sub off t)
  with assms(2) ledger_of_settles [OF renewal_enabled(6)] ledger_of_enqueue [OF renewal_enabled(5)]
  show ?thesis by (simp add: ledger_of_switch)
next
  case (view_used c' b pack)
  have "1 \<le> views_remaining pack" using view_used(3) by simp
  with view_used assms(2) ledger_of_settles [OF view_used(4)] views_ledger_of(1) [OF view_used(2)]
  show ?thesis by (auto simp: ledger_of_packs unat_sub word_less_nat_alt split: if_splits)
next
  case (last_view_used c' b m pack)
  with assms(2) ledger_of_settles [OF last_view_used(5)] views_ledger_of(1) [OF last_view_used(3)]
  show ?thesis by (auto simp: ledger_of_packs split: if_splits)
next
  case (views_added c' m b pack n)
  have "views_remaining pack \<le> saturating_add (views_remaining pack) n" by (rule saturating_add_ge)
  with views_added assms(2) ledger_of_settles [OF views_added(4)] views_ledger_of(1) [OF views_added(2)]
  show ?thesis by (auto simp: ledger_of_packs word_le_nat_alt split: if_splits)
next
  case (pack_bought c' m b n)
  with assms(2) ledger_of_settles [OF pack_bought(5)] views_ledger_of(2) [OF pack_bought(2)]
  show ?thesis by (auto simp: ledger_of_packs split: if_splits)
qed (use assms(2) in \<open>auto simp: ledger_of_def dest!: settles_storage(5)\<close>)

section \<open>Steps of the chain\<close>

lemma new_block_frame:
  obtains w where "on_initialize cfg (s\<lparr>block_number := Suc (block_number s)\<rparr>) = (w, new_block cfg s)"
  by (cases "on_initialize cfg (s\<lparr>block_number := Suc (block_number s)\<rparr>)") (simp add: new_block_def)

lemma new_block_keeps:
  shows "ownership (new_block cfg s) = ownership s" "view_packs (new_block cfg s) = view_packs s"
    "contents (new_block cfg s) = contents s" "royalty_splits (new_block cfg s) = royalty_splits s"
    "meters (new_block cfg s) = meters s" "parent (new_block cfg s) = parent s"
    "block_number (new_block cfg s) = Suc (block_number s)"
proof -
  obtain w where "on_initialize cfg (s\<lparr>block_number := Suc (block_number s)\<rparr>) = (w, new_block cfg s)"
    by (rule new_block_frame)
  from renewal_frame_simps [OF on_initialize_frame [OF this]]
  show "ownership (new_block cfg s) = ownership s" "view_packs (new_block cfg s) = view_packs s"
    "contents (new_block cfg s) = contents s" "royalty_splits (new_block cfg s) = royalty_splits s"
    "meters (new_block cfg s) = meters s" "parent (new_block cfg s) = parent s"
    "block_number (new_block cfg s) = Suc (block_number s)"
    by simp_all
qed

lemma new_block_progress:
  "rel_option sub_progress (subscriptions s k) (subscriptions (new_block cfg s) k)"
proof -
  obtain w where "on_initialize cfg (s\<lparr>block_number := Suc (block_number s)\<rparr>) = (w, new_block cfg s)"
    by (rule new_block_frame)
  from on_initialize_progress [OF this, of k] show ?thesis by simp
qed

text \<open>Every step that changes something but is neither a block nor external is a signed call.\<close>

lemma chain_step_effect:
  assumes "chain_step cfg env s s'"
  obtains (unchanged) "s' = s"
  | (acted) who act where "decodable act" "s' = apply_call cfg (Signed who) act s"
      "effect cfg who act s s'"
  | (block) "s' = new_block cfg s"
  | (other) x where "s' = s\<lparr>ext := x\<rparr>"
  using assms
proof (cases rule: chain_step.cases)
  case (call c og)
  from call(2) show ?thesis
  proof (cases rule: apply_call_cases [where cfg = cfg and og = og and s = s])
    case (failed e)
    with call(1) show ?thesis by (intro unchanged) simp
  next
    case (succeeded who w)
    with call show ?thesis by (intro acted [of c who]) simp_all
  qed
next
  case block
  then show ?thesis by (rule \<open>s' = new_block cfg s \<Longrightarrow> thesis\<close>)
next
  case (other x)
  show ?thesis by (rule \<open>\<And>x. s' = s\<lparr>ext := x\<rparr> \<Longrightarrow> thesis\<close>) (rule other(1))
qed

lemma chain_step_ownership_lost:
  assumes "chain_step cfg env s s'" and "ownership s (c, a) = Some info"
    and "ownership s' (c, a) \<noteq> Some info"
  shows "\<exists>act b. s' = apply_call cfg (Signed a) act s \<and>
    (act = TransferOwnership c b \<or> act = XcmTransferOwnership c a b)"
  using assms(1)
proof (cases rule: chain_step_effect)
  case (acted who act)
  from effect_ownership_lost [OF acted(3) assms(2,3)] acted(2) show ?thesis by blast
qed (use assms(2,3) in \<open>simp_all add: new_block_keeps\<close>)

end
