(* ===== verification/Content_Weights.thy ===== *)
theory Content_Weights
  imports Weights
begin

text \<open>
  The two implementations of \<open>WeightInfo\<close> in
  \<open>src/pallets/content-rights/src/weights.rs\<close>: \<open>SubstrateWeight<T>\<close>, generic in the database
  weight, and the one for the unit type, which fixes the database weight to the
  \<open>RocksDbWeight\<close> of \<open>frame_support\<close>. One definition per generated function, the
  \<open>saturating_add\<close> chain of its body as a \<open>weight_chain\<close>. \<open>SubstrateWeight\<close> interprets the
  interface \<open>split_weights\<close> for every database weight.
\<close>

section \<open>SubstrateWeight\<close>

definition SubstrateWeight_register_content :: "db_weight \<Rightarrow> weight" where
  "SubstrateWeight_register_content db =
     weight_chain (from_parts 70000000 4326)
       [reads db 5,
        writes db 11]"

definition SubstrateWeight_subscribe :: "db_weight \<Rightarrow> u32 \<Rightarrow> weight" where
  "SubstrateWeight_subscribe db s =
     weight_chain (from_parts 149138553 4326)
       [weight_saturating_mul (from_parts 34123328 0) (ucast s),
        reads db 11,
        reads db (saturating_mul 1 (ucast s)),
        writes db 9,
        writes db (saturating_mul 1 (ucast s)),
        weight_saturating_mul (from_parts 0 2603) (ucast s)]"

definition SubstrateWeight_renew_subscription :: "db_weight \<Rightarrow> u32 \<Rightarrow> weight" where
  "SubstrateWeight_renew_subscription db s =
     weight_chain (from_parts 57524531 3826)
       [weight_saturating_mul (from_parts 35980855 0) (ucast s),
        reads db 4,
        reads db (saturating_mul 1 (ucast s)),
        writes db 2,
        writes db (saturating_mul 1 (ucast s)),
        weight_saturating_mul (from_parts 0 2569) (ucast s)]"

definition SubstrateWeight_purchase_views :: "db_weight \<Rightarrow> u32 \<Rightarrow> weight" where
  "SubstrateWeight_purchase_views db s =
     weight_chain (from_parts 135930562 4326)
       [weight_saturating_mul (from_parts 35452972 0) (ucast s),
        reads db 11,
        reads db (saturating_mul 1 (ucast s)),
        writes db 9,
        writes db (saturating_mul 1 (ucast s)),
        weight_saturating_mul (from_parts 0 2603) (ucast s)]"

definition SubstrateWeight_consume_view :: "db_weight \<Rightarrow> weight" where
  "SubstrateWeight_consume_view db =
     weight_chain (from_parts 71000000 4326)
       [reads db 8,
        writes db 10]"

definition SubstrateWeight_purchase_ownership :: "db_weight \<Rightarrow> u32 \<Rightarrow> weight" where
  "SubstrateWeight_purchase_ownership db s =
     weight_chain (from_parts 135114826 4326)
       [weight_saturating_mul (from_parts 36319286 0) (ucast s),
        reads db 11,
        reads db (saturating_mul 1 (ucast s)),
        writes db 9,
        writes db (saturating_mul 1 (ucast s)),
        weight_saturating_mul (from_parts 0 2603) (ucast s)]"

definition SubstrateWeight_check_access :: "db_weight \<Rightarrow> weight" where
  "SubstrateWeight_check_access db =
     weight_chain (from_parts 20000000 3739)
       [reads db 4]"

definition SubstrateWeight_xcm_subscribe :: "db_weight \<Rightarrow> u32 \<Rightarrow> weight" where
  "SubstrateWeight_xcm_subscribe db s =
     weight_chain (from_parts 134689528 4326)
       [weight_saturating_mul (from_parts 35943467 0) (ucast s),
        reads db 11,
        reads db (saturating_mul 1 (ucast s)),
        writes db 9,
        writes db (saturating_mul 1 (ucast s)),
        weight_saturating_mul (from_parts 0 2603) (ucast s)]"

definition SubstrateWeight_xcm_renew_subscription :: "db_weight \<Rightarrow> u32 \<Rightarrow> weight" where
  "SubstrateWeight_xcm_renew_subscription db s =
     weight_chain (from_parts 55843599 3826)
       [weight_saturating_mul (from_parts 36117345 0) (ucast s),
        reads db 4,
        reads db (saturating_mul 1 (ucast s)),
        writes db 2,
        writes db (saturating_mul 1 (ucast s)),
        weight_saturating_mul (from_parts 0 2569) (ucast s)]"

definition SubstrateWeight_xcm_purchase_views :: "db_weight \<Rightarrow> u32 \<Rightarrow> weight" where
  "SubstrateWeight_xcm_purchase_views db s =
     weight_chain (from_parts 137227447 4326)
       [weight_saturating_mul (from_parts 35333308 0) (ucast s),
        reads db 11,
        reads db (saturating_mul 1 (ucast s)),
        writes db 9,
        writes db (saturating_mul 1 (ucast s)),
        weight_saturating_mul (from_parts 0 2603) (ucast s)]"

definition SubstrateWeight_xcm_purchase_ownership :: "db_weight \<Rightarrow> u32 \<Rightarrow> weight" where
  "SubstrateWeight_xcm_purchase_ownership db s =
     weight_chain (from_parts 135054516 4326)
       [weight_saturating_mul (from_parts 36348115 0) (ucast s),
        reads db 11,
        reads db (saturating_mul 1 (ucast s)),
        writes db 9,
        writes db (saturating_mul 1 (ucast s)),
        weight_saturating_mul (from_parts 0 2603) (ucast s)]"

definition SubstrateWeight_transfer_ownership :: "db_weight \<Rightarrow> weight" where
  "SubstrateWeight_transfer_ownership db =
     weight_chain (from_parts 150000000 7662)
       [reads db 15,
        writes db 17]"

definition SubstrateWeight_xcm_transfer_ownership :: "db_weight \<Rightarrow> weight" where
  "SubstrateWeight_xcm_transfer_ownership db =
     weight_chain (from_parts 151000000 7662)
       [reads db 15,
        writes db 17]"

definition SubstrateWeight_set_royalty_splits :: "db_weight \<Rightarrow> u32 \<Rightarrow> weight" where
  "SubstrateWeight_set_royalty_splits db s =
     weight_chain (from_parts 11785315 3739)
       [weight_saturating_mul (from_parts 151 0) (ucast s),
        reads db 1,
        writes db 1]"

definition SubstrateWeight_enable_auto_renew :: "db_weight \<Rightarrow> weight" where
  "SubstrateWeight_enable_auto_renew db =
     weight_chain (from_parts 343000000 285790)
       [reads db 102,
        writes db 3]"

definition SubstrateWeight_disable_auto_renew :: "db_weight \<Rightarrow> weight" where
  "SubstrateWeight_disable_auto_renew db =
     weight_chain (from_parts 14000000 3542)
       [reads db 1,
        writes db 2]"

definition SubstrateWeight_query_rights_metadata :: "db_weight \<Rightarrow> u32 \<Rightarrow> weight" where
  "SubstrateWeight_query_rights_metadata db s =
     weight_chain (from_parts 13117364 3826)
       [weight_saturating_mul (from_parts 3238 0) (ucast s),
        reads db 2]"

definition SubstrateWeight_set_meter :: "db_weight \<Rightarrow> weight" where
  "SubstrateWeight_set_meter db =
     weight_chain (from_parts 12000000 3739)
       [reads db 1,
        writes db 1]"

definition SubstrateWeight_consume_view_for :: "db_weight \<Rightarrow> weight" where
  "SubstrateWeight_consume_view_for db =
     weight_chain (from_parts 75000000 4326)
       [reads db 9,
        writes db 10]"

definition SubstrateWeight_on_initialize_renewals :: "db_weight \<Rightarrow> u32 \<Rightarrow> weight" where
  "SubstrateWeight_on_initialize_renewals db n =
     weight_chain (from_parts 125702887 191296)
       [weight_saturating_mul (from_parts 215078564 0) (ucast n),
        reads db 67,
        reads db (saturating_mul 10 (ucast n)),
        writes db 2,
        writes db (saturating_mul 3 (ucast n)),
        weight_saturating_mul (from_parts 0 15235) (ucast n)]"

definition SubstrateWeight_on_initialize_split_payments :: "db_weight \<Rightarrow> u32 \<Rightarrow> weight" where
  "SubstrateWeight_on_initialize_split_payments db p =
     weight_chain (from_parts 2238674613 288638)
       [weight_saturating_mul (from_parts 33980924 0) (ucast p),
        reads db 152,
        reads db (saturating_mul 1 (ucast p)),
        writes db 32,
        writes db (saturating_mul 1 (ucast p)),
        weight_saturating_mul (from_parts 0 2600) (ucast p)]"

definition SubstrateWeight_scale_subscribe :: "db_weight \<Rightarrow> u32 \<Rightarrow> weight" where
  "SubstrateWeight_scale_subscribe db h =
     weight_chain (from_parts 155814144 4326)
       [weight_saturating_mul (from_parts 24295 0) (ucast h),
        reads db 11,
        writes db 9]"

definition SubstrateWeight_scale_check_access :: "db_weight \<Rightarrow> u32 \<Rightarrow> weight" where
  "SubstrateWeight_scale_check_access db h =
     weight_chain (from_parts 29221877 3739)
       [weight_saturating_mul (from_parts 6383 0) (ucast h),
        reads db 4]"

definition SubstrateWeight_scale_consume_view :: "db_weight \<Rightarrow> u32 \<Rightarrow> weight" where
  "SubstrateWeight_scale_consume_view db h =
     weight_chain (from_parts 100270927 4326)
       [weight_saturating_mul (from_parts 17121 0) (ucast h),
        reads db 8,
        writes db 10]"

definition SubstrateWeight_scale_transfer_ownership :: "db_weight \<Rightarrow> u32 \<Rightarrow> weight" where
  "SubstrateWeight_scale_transfer_ownership db h =
     weight_chain (from_parts 190096750 7662)
       [weight_saturating_mul (from_parts 29525 0) (ucast h),
        reads db 15,
        writes db 17]"

definition SubstrateWeight :: "db_weight \<Rightarrow> weight_info" where
  "SubstrateWeight db =
     \<lparr>wi_register_content = SubstrateWeight_register_content db,
       wi_subscribe = SubstrateWeight_subscribe db,
       wi_renew_subscription = SubstrateWeight_renew_subscription db,
       wi_purchase_views = SubstrateWeight_purchase_views db,
       wi_consume_view = SubstrateWeight_consume_view db,
       wi_purchase_ownership = SubstrateWeight_purchase_ownership db,
       wi_check_access = SubstrateWeight_check_access db,
       wi_xcm_subscribe = SubstrateWeight_xcm_subscribe db,
       wi_xcm_renew_subscription = SubstrateWeight_xcm_renew_subscription db,
       wi_xcm_purchase_views = SubstrateWeight_xcm_purchase_views db,
       wi_xcm_purchase_ownership = SubstrateWeight_xcm_purchase_ownership db,
       wi_transfer_ownership = SubstrateWeight_transfer_ownership db,
       wi_xcm_transfer_ownership = SubstrateWeight_xcm_transfer_ownership db,
       wi_set_royalty_splits = SubstrateWeight_set_royalty_splits db,
       wi_enable_auto_renew = SubstrateWeight_enable_auto_renew db,
       wi_disable_auto_renew = SubstrateWeight_disable_auto_renew db,
       wi_query_rights_metadata = SubstrateWeight_query_rights_metadata db,
       wi_set_meter = SubstrateWeight_set_meter db,
       wi_consume_view_for = SubstrateWeight_consume_view_for db,
       wi_on_initialize_renewals = SubstrateWeight_on_initialize_renewals db,
       wi_on_initialize_split_payments = SubstrateWeight_on_initialize_split_payments db,
       wi_scale_subscribe = SubstrateWeight_scale_subscribe db,
       wi_scale_check_access = SubstrateWeight_scale_check_access db,
       wi_scale_consume_view = SubstrateWeight_scale_consume_view db,
       wi_scale_transfer_ownership = SubstrateWeight_scale_transfer_ownership db\<rparr>"

section \<open>The implementation for the unit type\<close>

text \<open>
  \<open>RocksDbWeight\<close> of \<open>frame_support::weights::constants\<close>: 25 microseconds per read and 100
  per write, at 1000 units of reference time per nanosecond.
\<close>

definition frame_rocks_db_weight :: db_weight where
  "frame_rocks_db_weight = RuntimeDbWeight (25000 * 1000) (100000 * 1000)"

definition UnitWeight_register_content :: "weight" where
  "UnitWeight_register_content =
     weight_chain (from_parts 70000000 4326)
       [reads frame_rocks_db_weight 5,
        writes frame_rocks_db_weight 11]"

definition UnitWeight_subscribe :: "u32 \<Rightarrow> weight" where
  "UnitWeight_subscribe s =
     weight_chain (from_parts 149138553 4326)
       [weight_saturating_mul (from_parts 34123328 0) (ucast s),
        reads frame_rocks_db_weight 11,
        reads frame_rocks_db_weight (saturating_mul 1 (ucast s)),
        writes frame_rocks_db_weight 9,
        writes frame_rocks_db_weight (saturating_mul 1 (ucast s)),
        weight_saturating_mul (from_parts 0 2603) (ucast s)]"

definition UnitWeight_renew_subscription :: "u32 \<Rightarrow> weight" where
  "UnitWeight_renew_subscription s =
     weight_chain (from_parts 57524531 3826)
       [weight_saturating_mul (from_parts 35980855 0) (ucast s),
        reads frame_rocks_db_weight 4,
        reads frame_rocks_db_weight (saturating_mul 1 (ucast s)),
        writes frame_rocks_db_weight 2,
        writes frame_rocks_db_weight (saturating_mul 1 (ucast s)),
        weight_saturating_mul (from_parts 0 2569) (ucast s)]"

definition UnitWeight_purchase_views :: "u32 \<Rightarrow> weight" where
  "UnitWeight_purchase_views s =
     weight_chain (from_parts 135930562 4326)
       [weight_saturating_mul (from_parts 35452972 0) (ucast s),
        reads frame_rocks_db_weight 11,
        reads frame_rocks_db_weight (saturating_mul 1 (ucast s)),
        writes frame_rocks_db_weight 9,
        writes frame_rocks_db_weight (saturating_mul 1 (ucast s)),
        weight_saturating_mul (from_parts 0 2603) (ucast s)]"

definition UnitWeight_consume_view :: "weight" where
  "UnitWeight_consume_view =
     weight_chain (from_parts 71000000 4326)
       [reads frame_rocks_db_weight 8,
        writes frame_rocks_db_weight 10]"

definition UnitWeight_purchase_ownership :: "u32 \<Rightarrow> weight" where
  "UnitWeight_purchase_ownership s =
     weight_chain (from_parts 135114826 4326)
       [weight_saturating_mul (from_parts 36319286 0) (ucast s),
        reads frame_rocks_db_weight 11,
        reads frame_rocks_db_weight (saturating_mul 1 (ucast s)),
        writes frame_rocks_db_weight 9,
        writes frame_rocks_db_weight (saturating_mul 1 (ucast s)),
        weight_saturating_mul (from_parts 0 2603) (ucast s)]"

definition UnitWeight_check_access :: "weight" where
  "UnitWeight_check_access =
     weight_chain (from_parts 20000000 3739)
       [reads frame_rocks_db_weight 4]"

definition UnitWeight_xcm_subscribe :: "u32 \<Rightarrow> weight" where
  "UnitWeight_xcm_subscribe s =
     weight_chain (from_parts 134689528 4326)
       [weight_saturating_mul (from_parts 35943467 0) (ucast s),
        reads frame_rocks_db_weight 11,
        reads frame_rocks_db_weight (saturating_mul 1 (ucast s)),
        writes frame_rocks_db_weight 9,
        writes frame_rocks_db_weight (saturating_mul 1 (ucast s)),
        weight_saturating_mul (from_parts 0 2603) (ucast s)]"

definition UnitWeight_xcm_renew_subscription :: "u32 \<Rightarrow> weight" where
  "UnitWeight_xcm_renew_subscription s =
     weight_chain (from_parts 55843599 3826)
       [weight_saturating_mul (from_parts 36117345 0) (ucast s),
        reads frame_rocks_db_weight 4,
        reads frame_rocks_db_weight (saturating_mul 1 (ucast s)),
        writes frame_rocks_db_weight 2,
        writes frame_rocks_db_weight (saturating_mul 1 (ucast s)),
        weight_saturating_mul (from_parts 0 2569) (ucast s)]"

definition UnitWeight_xcm_purchase_views :: "u32 \<Rightarrow> weight" where
  "UnitWeight_xcm_purchase_views s =
     weight_chain (from_parts 137227447 4326)
       [weight_saturating_mul (from_parts 35333308 0) (ucast s),
        reads frame_rocks_db_weight 11,
        reads frame_rocks_db_weight (saturating_mul 1 (ucast s)),
        writes frame_rocks_db_weight 9,
        writes frame_rocks_db_weight (saturating_mul 1 (ucast s)),
        weight_saturating_mul (from_parts 0 2603) (ucast s)]"

definition UnitWeight_xcm_purchase_ownership :: "u32 \<Rightarrow> weight" where
  "UnitWeight_xcm_purchase_ownership s =
     weight_chain (from_parts 135054516 4326)
       [weight_saturating_mul (from_parts 36348115 0) (ucast s),
        reads frame_rocks_db_weight 11,
        reads frame_rocks_db_weight (saturating_mul 1 (ucast s)),
        writes frame_rocks_db_weight 9,
        writes frame_rocks_db_weight (saturating_mul 1 (ucast s)),
        weight_saturating_mul (from_parts 0 2603) (ucast s)]"

definition UnitWeight_transfer_ownership :: "weight" where
  "UnitWeight_transfer_ownership =
     weight_chain (from_parts 150000000 7662)
       [reads frame_rocks_db_weight 15,
        writes frame_rocks_db_weight 17]"

definition UnitWeight_xcm_transfer_ownership :: "weight" where
  "UnitWeight_xcm_transfer_ownership =
     weight_chain (from_parts 151000000 7662)
       [reads frame_rocks_db_weight 15,
        writes frame_rocks_db_weight 17]"

definition UnitWeight_set_royalty_splits :: "u32 \<Rightarrow> weight" where
  "UnitWeight_set_royalty_splits s =
     weight_chain (from_parts 11785315 3739)
       [weight_saturating_mul (from_parts 151 0) (ucast s),
        reads frame_rocks_db_weight 1,
        writes frame_rocks_db_weight 1]"

definition UnitWeight_enable_auto_renew :: "weight" where
  "UnitWeight_enable_auto_renew =
     weight_chain (from_parts 343000000 285790)
       [reads frame_rocks_db_weight 102,
        writes frame_rocks_db_weight 3]"

definition UnitWeight_disable_auto_renew :: "weight" where
  "UnitWeight_disable_auto_renew =
     weight_chain (from_parts 14000000 3542)
       [reads frame_rocks_db_weight 1,
        writes frame_rocks_db_weight 2]"

definition UnitWeight_query_rights_metadata :: "u32 \<Rightarrow> weight" where
  "UnitWeight_query_rights_metadata s =
     weight_chain (from_parts 13117364 3826)
       [weight_saturating_mul (from_parts 3238 0) (ucast s),
        reads frame_rocks_db_weight 2]"

definition UnitWeight_set_meter :: "weight" where
  "UnitWeight_set_meter =
     weight_chain (from_parts 12000000 3739)
       [reads frame_rocks_db_weight 1,
        writes frame_rocks_db_weight 1]"

definition UnitWeight_consume_view_for :: "weight" where
  "UnitWeight_consume_view_for =
     weight_chain (from_parts 75000000 4326)
       [reads frame_rocks_db_weight 9,
        writes frame_rocks_db_weight 10]"

definition UnitWeight_on_initialize_renewals :: "u32 \<Rightarrow> weight" where
  "UnitWeight_on_initialize_renewals n =
     weight_chain (from_parts 125702887 191296)
       [weight_saturating_mul (from_parts 215078564 0) (ucast n),
        reads frame_rocks_db_weight 67,
        reads frame_rocks_db_weight (saturating_mul 10 (ucast n)),
        writes frame_rocks_db_weight 2,
        writes frame_rocks_db_weight (saturating_mul 3 (ucast n)),
        weight_saturating_mul (from_parts 0 15235) (ucast n)]"

definition UnitWeight_on_initialize_split_payments :: "u32 \<Rightarrow> weight" where
  "UnitWeight_on_initialize_split_payments p =
     weight_chain (from_parts 2238674613 288638)
       [weight_saturating_mul (from_parts 33980924 0) (ucast p),
        reads frame_rocks_db_weight 152,
        reads frame_rocks_db_weight (saturating_mul 1 (ucast p)),
        writes frame_rocks_db_weight 32,
        writes frame_rocks_db_weight (saturating_mul 1 (ucast p)),
        weight_saturating_mul (from_parts 0 2600) (ucast p)]"

definition UnitWeight_scale_subscribe :: "u32 \<Rightarrow> weight" where
  "UnitWeight_scale_subscribe h =
     weight_chain (from_parts 155814144 4326)
       [weight_saturating_mul (from_parts 24295 0) (ucast h),
        reads frame_rocks_db_weight 11,
        writes frame_rocks_db_weight 9]"

definition UnitWeight_scale_check_access :: "u32 \<Rightarrow> weight" where
  "UnitWeight_scale_check_access h =
     weight_chain (from_parts 29221877 3739)
       [weight_saturating_mul (from_parts 6383 0) (ucast h),
        reads frame_rocks_db_weight 4]"

definition UnitWeight_scale_consume_view :: "u32 \<Rightarrow> weight" where
  "UnitWeight_scale_consume_view h =
     weight_chain (from_parts 100270927 4326)
       [weight_saturating_mul (from_parts 17121 0) (ucast h),
        reads frame_rocks_db_weight 8,
        writes frame_rocks_db_weight 10]"

definition UnitWeight_scale_transfer_ownership :: "u32 \<Rightarrow> weight" where
  "UnitWeight_scale_transfer_ownership h =
     weight_chain (from_parts 190096750 7662)
       [weight_saturating_mul (from_parts 29525 0) (ucast h),
        reads frame_rocks_db_weight 15,
        writes frame_rocks_db_weight 17]"

definition UnitWeight :: weight_info where
  "UnitWeight =
     \<lparr>wi_register_content = UnitWeight_register_content,
       wi_subscribe = UnitWeight_subscribe,
       wi_renew_subscription = UnitWeight_renew_subscription,
       wi_purchase_views = UnitWeight_purchase_views,
       wi_consume_view = UnitWeight_consume_view,
       wi_purchase_ownership = UnitWeight_purchase_ownership,
       wi_check_access = UnitWeight_check_access,
       wi_xcm_subscribe = UnitWeight_xcm_subscribe,
       wi_xcm_renew_subscription = UnitWeight_xcm_renew_subscription,
       wi_xcm_purchase_views = UnitWeight_xcm_purchase_views,
       wi_xcm_purchase_ownership = UnitWeight_xcm_purchase_ownership,
       wi_transfer_ownership = UnitWeight_transfer_ownership,
       wi_xcm_transfer_ownership = UnitWeight_xcm_transfer_ownership,
       wi_set_royalty_splits = UnitWeight_set_royalty_splits,
       wi_enable_auto_renew = UnitWeight_enable_auto_renew,
       wi_disable_auto_renew = UnitWeight_disable_auto_renew,
       wi_query_rights_metadata = UnitWeight_query_rights_metadata,
       wi_set_meter = UnitWeight_set_meter,
       wi_consume_view_for = UnitWeight_consume_view_for,
       wi_on_initialize_renewals = UnitWeight_on_initialize_renewals,
       wi_on_initialize_split_payments = UnitWeight_on_initialize_split_payments,
       wi_scale_subscribe = UnitWeight_scale_subscribe,
       wi_scale_check_access = UnitWeight_scale_check_access,
       wi_scale_consume_view = UnitWeight_scale_consume_view,
       wi_scale_transfer_ownership = UnitWeight_scale_transfer_ownership\<rparr>"

section \<open>The interface is provided\<close>

lemmas weight_chain_intros =
  weight_add_mono weight_mul_mono reads_mono writes_mono saturating_mul_mono_right
  u32_into_u64_mono order_refl

interpretation substrate: split_weights "SubstrateWeight db"
proof unfold_locales
  fix s t :: u32
  assume "s \<le> t"
  then show "wi_subscribe (SubstrateWeight db) s \<le> wi_subscribe (SubstrateWeight db) t"
    by (simp add: SubstrateWeight_def SubstrateWeight_subscribe_def) (intro weight_chain_intros)
next
  fix s t :: u32
  assume "s \<le> t"
  then show "wi_renew_subscription (SubstrateWeight db) s \<le> wi_renew_subscription (SubstrateWeight db) t"
    by (simp add: SubstrateWeight_def SubstrateWeight_renew_subscription_def) (intro weight_chain_intros)
next
  fix s t :: u32
  assume "s \<le> t"
  then show "wi_purchase_views (SubstrateWeight db) s \<le> wi_purchase_views (SubstrateWeight db) t"
    by (simp add: SubstrateWeight_def SubstrateWeight_purchase_views_def) (intro weight_chain_intros)
next
  fix s t :: u32
  assume "s \<le> t"
  then show "wi_purchase_ownership (SubstrateWeight db) s \<le> wi_purchase_ownership (SubstrateWeight db) t"
    by (simp add: SubstrateWeight_def SubstrateWeight_purchase_ownership_def) (intro weight_chain_intros)
next
  fix s t :: u32
  assume "s \<le> t"
  then show "wi_xcm_subscribe (SubstrateWeight db) s \<le> wi_xcm_subscribe (SubstrateWeight db) t"
    by (simp add: SubstrateWeight_def SubstrateWeight_xcm_subscribe_def) (intro weight_chain_intros)
next
  fix s t :: u32
  assume "s \<le> t"
  then show "wi_xcm_renew_subscription (SubstrateWeight db) s \<le> wi_xcm_renew_subscription (SubstrateWeight db) t"
    by (simp add: SubstrateWeight_def SubstrateWeight_xcm_renew_subscription_def) (intro weight_chain_intros)
next
  fix s t :: u32
  assume "s \<le> t"
  then show "wi_xcm_purchase_views (SubstrateWeight db) s \<le> wi_xcm_purchase_views (SubstrateWeight db) t"
    by (simp add: SubstrateWeight_def SubstrateWeight_xcm_purchase_views_def) (intro weight_chain_intros)
next
  fix s t :: u32
  assume "s \<le> t"
  then show "wi_xcm_purchase_ownership (SubstrateWeight db) s \<le> wi_xcm_purchase_ownership (SubstrateWeight db) t"
    by (simp add: SubstrateWeight_def SubstrateWeight_xcm_purchase_ownership_def) (intro weight_chain_intros)
next
  fix s t :: u32
  assume "s \<le> t"
  then show "wi_query_rights_metadata (SubstrateWeight db) s \<le> wi_query_rights_metadata (SubstrateWeight db) t"
    by (simp add: SubstrateWeight_def SubstrateWeight_query_rights_metadata_def) (intro weight_chain_intros)
next
  fix s t :: u32
  assume "s \<le> t"
  then show "wi_on_initialize_renewals (SubstrateWeight db) s \<le> wi_on_initialize_renewals (SubstrateWeight db) t"
    by (simp add: SubstrateWeight_def SubstrateWeight_on_initialize_renewals_def) (intro weight_chain_intros)
next
  fix s t :: u32
  assume "s \<le> t"
  then show "wi_on_initialize_split_payments (SubstrateWeight db) s \<le> wi_on_initialize_split_payments (SubstrateWeight db) t"
    by (simp add: SubstrateWeight_def SubstrateWeight_on_initialize_split_payments_def) (intro weight_chain_intros)
qed

end
