(* ===== verification/Rights_Charges.thy ===== *)
theory Rights_Charges
  imports Rights_Safety Content_Weights
begin

text \<open>
  What calls and blocks may charge. The money part bounds what a block can take from an account
  by the prices of its renewals that are due; the weight part shows that the weight reported
  after a call never exceeds the weight charged before it and that the hook stays within the
  weight of ten renewals with ten royalty splits each.
\<close>

section \<open>Money taken by the hook\<close>

definition renewal_due :: "('a, 'x) state \<Rightarrow> u32 \<Rightarrow> u32 \<times> 'a \<Rightarrow> bool" where
  "renewal_due s now k \<longleftrightarrow>
     auto_renew_index s k \<noteq> None \<and>
     (case subscriptions s k of Some sub \<Rightarrow> auto_renew sub \<and> expiry_block sub \<le> now | None \<Rightarrow> False)"

definition renewal_price :: "('a, 'x) state \<Rightarrow> u32 \<times> 'a \<Rightarrow> nat" where
  "renewal_price s k = (case contents s (fst k) of Some m \<Rightarrow> unat (subscription_price m) | None \<Rightarrow> 0)"

definition renewal_debit :: "('a, 'x) state \<Rightarrow> u32 \<Rightarrow> 'a \<Rightarrow> u32 \<times> 'a \<Rightarrow> nat" where
  "renewal_debit s now a k = (if snd k = a \<and> renewal_due s now k then renewal_price s k else 0)"

lemma pay_with_royalties_debit:
  assumes law: "moves_funds cfg bal" and "total_basis_points (royalty_splits s c) \<le> 10000"
    and "pay_with_royalties cfg payer cr c amount s = Inr (n, s')"
  shows "bal (ext s) a \<le> bal (ext s') a + (if a = payer then unat amount else 0)"
proof -
  obtain x where "transfer_all cfg payer (payment_plan cfg cr amount (royalty_splits s c)) (ext s) = Inr x"
    and "ext s' = x"
    using pay_with_royalties_plan [OF assms(3,2)] by auto
  from transfer_all_balances [OF law this(1), of a] this(2) payment_plan_total [OF assms(2), of cfg cr amount]
  show ?thesis by (auto split: if_splits)
qed

lemma finish_renewal_ext: "ext (finish_renewal now c a p s) = ext s"
  by (cases rule: finish_renewal_cases [of c a now p s, case_names q st])
     (auto elim!: enqueue_renewal_cases simp: stop_auto_renew_def update_subscription_def Let_def)

lemma renew_one_not_indexed:
  assumes "renew_one cfg now k (s, sp) = (s', sp')" and "auto_renew_index s k = None"
  shows "s' = s" and "sp' = sp"
  using assms by (cases k; simp add: renew_one_def)+

lemma renew_one_debit:
  assumes law: "moves_funds cfg bal" and splits: "splits_inv s"
    and run: "renew_one cfg now k (s, sp) = (s', sp')"
  shows "bal (ext s) a \<le> bal (ext s') a + renewal_debit s now a k"
proof (cases "auto_renew_index s k = None")
  case True
  with renew_one_not_indexed [OF run] show ?thesis by simp
next
  case indexed: False
  obtain c b where k: "k = (c, b)" by (cases k)
  from run [unfolded k] show ?thesis
  proof (cases rule: renew_one_cases)
    case (renew sub content n s1)
    have bp: "total_basis_points (royalty_splits s c) \<le> 10000"
      using splits by (auto simp: splits_inv_def valid_splits_def)
    have "renewal_debit s now a k = (if a = b then unat (subscription_price content) else 0)"
      using renew(1-4) indexed k by (auto simp: renewal_debit_def renewal_due_def renewal_price_def)
    with pay_with_royalties_debit [OF law bp renew(5), of a] renew(6) show ?thesis
      by (simp add: finish_renewal_ext)
  next
    case (requeue sub off)
    then show ?thesis by (auto elim!: enqueue_renewal_cases)
  qed (simp_all add: stop_auto_renew_def update_subscription_def Let_def)
qed

lemma renewal_debit_cong:
  assumes "subscriptions t k = subscriptions s k" "auto_renew_index t k = auto_renew_index s k"
    "contents t = contents s"
  shows "renewal_debit t now a k = renewal_debit s now a k"
  unfolding renewal_debit_def renewal_due_def renewal_price_def assms ..

lemma renew_fold_debit:
  assumes law: "moves_funds cfg bal"
  shows "fold (renew_one cfg now) due (s, sp) = (s', sp') \<Longrightarrow> splits_inv s \<Longrightarrow> distinct due \<Longrightarrow>
    bal (ext s) a \<le> bal (ext s') a + (\<Sum>k\<leftarrow>due. renewal_debit s now a k)"
proof (induction due arbitrary: s sp)
  case (Cons k due)
  obtain c b where k: "k = (c, b)" by (cases k)
  obtain t tp where t: "renew_one cfg now k (s, sp) = (t, tp)" by (cases "renew_one cfg now k (s, sp)")
  note frame = renewal_frame_simps [OF renew_one_frame [OF t [unfolded k]]]
  have same: "renewal_debit t now a k' = renewal_debit s now a k'" if "k' \<in> set due" for k'
  proof -
    have "k' \<noteq> (c, b)" using that Cons.prems(3) k by auto
    from renew_one_other [OF t [unfolded k] this] show ?thesis
      by (intro renewal_debit_cong) (simp_all add: frame)
  qed
  have "bal (ext t) a \<le> bal (ext s') a + (\<Sum>k\<leftarrow>due. renewal_debit t now a k)"
    using Cons.IH [of t tp] Cons.prems t by (simp add: splits_inv_def frame)
  also have "(\<Sum>k\<leftarrow>due. renewal_debit t now a k) = (\<Sum>k\<leftarrow>due. renewal_debit s now a k)"
    using same by (intro arg_cong [where f = sum_list] map_cong) simp_all
  finally show ?case using renew_one_debit [OF law Cons.prems(2) t, of a] by simp
qed simp

lemma on_initialize_debit:
  assumes law: "moves_funds cfg bal" and splits: "splits_inv s" and wf: "queue_wf (renewal_queue s)"
    and run: "on_initialize cfg s = (w, s')"
  shows "bal (ext s) a \<le> bal (ext s') a +
    (\<Sum>k\<leftarrow>renewal_queue s (current_block s). renewal_debit s (current_block s) a k)"
  using run
proof (cases rule: on_initialize_cases)
  case (1 sp)
  let ?t = "s\<lparr>renewal_queue := (renewal_queue s)(current_block s := [])\<rparr>"
  have "splits_inv ?t" using splits by (simp add: splits_inv_def)
  moreover have "distinct (renewal_queue s (current_block s))"
    using wf by (simp add: queue_wf_def)
  moreover have "renewal_debit ?t now a = renewal_debit s now a" for now
    by (rule HOL.ext, rule renewal_debit_cong) simp_all
  ultimately show ?thesis using renew_fold_debit [OF law 1(1), of a] by simp
qed

section \<open>Weight\<close>

lemma pay_with_royalties_count:
  assumes "pay_with_royalties cfg payer cr c amount s = Inr (n, s')" and "splits_inv s"
  shows "n \<le> MAX_ROYALTY_SPLITS"
proof -
  have "n = of_nat (length (royalty_splits s c))" using pay_with_royalties_frame [OF assms(1)] by simp
  moreover have "length (royalty_splits s c) \<le> 10"
    using assms(2) by (auto simp: splits_inv_def valid_splits_def MAX_ROYALTY_SPLITS_def)
  ultimately show ?thesis
    by (simp add: word_le_nat_alt unat_of_nat MAX_ROYALTY_SPLITS_def)
qed

lemma do_purchase_views_count:
  assumes "do_purchase_views cfg payer b c n s = Inr (k, s')" and "splits_inv s"
  shows "k \<le> MAX_ROYALTY_SPLITS"
  using assms(1)
  by (cases rule: do_purchase_views_cases) (erule pay_with_royalties_count [OF _ assms(2)])+

lemma query_rights_metadata_count:
  assumes "query_rights_metadata cfg (Signed who) c s = Inr (w, s')" and "splits_inv s"
  obtains n where "n \<le> MAX_ROYALTY_SPLITS" and "w = wi_query_rights_metadata (weights cfg) n"
proof -
  let ?n = "ucast (of_nat (length (royalty_splits s c)) :: u8) :: u32"
  have "length (royalty_splits s c) \<le> 10"
    using assms(2) by (auto simp: splits_inv_def valid_splits_def MAX_ROYALTY_SPLITS_def)
  then have "?n \<le> MAX_ROYALTY_SPLITS"
    by (simp add: word_le_nat_alt unat_ucast_up unat_of_nat MAX_ROYALTY_SPLITS_def)
  moreover have "w = wi_query_rights_metadata (weights cfg) ?n"
    using assms(1) by (auto simp: query_rights_metadata_def Let_def result_simps)
  ultimately show thesis by (rule that)
qed

text \<open>The reported weight of each call that reports one.\<close>

lemma reported_splits:
  assumes inv: "splits_inv s"
  shows "subscribe cfg (Signed who) c s = Inr (w, s') \<Longrightarrow>
      \<exists>n\<le>MAX_ROYALTY_SPLITS. w = wi_subscribe (weights cfg) n"
    and "renew_subscription cfg (Signed who) c s = Inr (w, s') \<Longrightarrow>
      \<exists>n\<le>MAX_ROYALTY_SPLITS. w = wi_renew_subscription (weights cfg) n"
    and "purchase_views cfg (Signed who) c v s = Inr (w, s') \<Longrightarrow>
      \<exists>n\<le>MAX_ROYALTY_SPLITS. w = wi_purchase_views (weights cfg) n"
    and "purchase_ownership cfg (Signed who) c s = Inr (w, s') \<Longrightarrow>
      \<exists>n\<le>MAX_ROYALTY_SPLITS. w = wi_purchase_ownership (weights cfg) n"
    and "xcm_subscribe cfg (Signed who) c b s = Inr (w, s') \<Longrightarrow>
      \<exists>n\<le>MAX_ROYALTY_SPLITS. w = wi_xcm_subscribe (weights cfg) n"
    and "xcm_renew_subscription cfg (Signed who) c b s = Inr (w, s') \<Longrightarrow>
      \<exists>n\<le>MAX_ROYALTY_SPLITS. w = wi_xcm_renew_subscription (weights cfg) n"
    and "xcm_purchase_views cfg (Signed who) c b v s = Inr (w, s') \<Longrightarrow>
      \<exists>n\<le>MAX_ROYALTY_SPLITS. w = wi_xcm_purchase_views (weights cfg) n"
    and "xcm_purchase_ownership cfg (Signed who) c b s = Inr (w, s') \<Longrightarrow>
      \<exists>n\<le>MAX_ROYALTY_SPLITS. w = wi_xcm_purchase_ownership (weights cfg) n"
  unfolding call_defs Let_def ensure_signed_simps and_then_simps
  by (elim result_elims; hypsubst;
      blast dest: pay_with_royalties_count [OF _ inv] do_purchase_views_count [OF _ inv])+

lemma renew_fold_splits:
  "fold (renew_one cfg now) due (s, sp) = (s', sp') \<Longrightarrow> splits_inv s \<Longrightarrow>
     unat sp' \<le> unat sp + length due * unat MAX_ROYALTY_SPLITS"
proof (induction due arbitrary: s sp)
  case (Cons k due)
  obtain c b where k: "k = (c, b)" by (cases k)
  obtain t tp where t: "renew_one cfg now k (s, sp) = (t, tp)" by (cases "renew_one cfg now k (s, sp)")
  have "splits_inv t"
    using Cons.prems(2) renewal_frame_simps [OF renew_one_frame [OF t [unfolded k]]]
    by (simp add: splits_inv_def)
  with Cons.IH [of t tp] Cons.prems(1) t
  have "unat sp' \<le> unat tp + length due * unat MAX_ROYALTY_SPLITS" by simp
  moreover have "unat tp \<le> unat sp + unat MAX_ROYALTY_SPLITS"
    using renew_one_split_payments [OF t [unfolded k]] Cons.prems(2) by (simp add: splits_inv_def)
  ultimately show ?case by simp
qed simp

context split_weights
begin

text \<open>The reported weight never exceeds the weight charged before dispatch.\<close>

lemma reported_le_charged:
  assumes "dispatch cfg (Signed who) act s = Inr (Some w, s')" and "splits_inv s" and "weights cfg = W"
  shows "w \<le> call_weight cfg act"
proof -
  note mono = subscribe_mono renew_subscription_mono purchase_views_mono purchase_ownership_mono
    xcm_subscribe_mono xcm_renew_subscription_mono xcm_purchase_views_mono
    xcm_purchase_ownership_mono query_rights_metadata_mono
  note mono = mono [folded assms(3)]
  note reports = reported_splits [OF assms(2)]
  from assms(1,3) show ?thesis
    by (cases act)
       (auto simp: no_post_info_Inr post_info_Inr dest!: reports intro: mono
         elim!: query_rights_metadata_count [OF _ assms(2)])
qed

lemma on_initialize_weight_bound:
  assumes run: "on_initialize cfg s = (w, s')" and splits: "splits_inv s"
    and wf: "queue_wf (renewal_queue s)" and "weights cfg = W"
  shows "w \<le> renewals_weight W (of_nat MAX_RENEWALS_PER_BLOCK)
    (of_nat MAX_RENEWALS_PER_BLOCK * MAX_ROYALTY_SPLITS)"
  using run
proof (cases rule: on_initialize_cases)
  case (1 sp)
  let ?due = "renewal_queue s (current_block s)"
  have len: "length ?due \<le> 10"
    using wf by (simp add: queue_wf_def MAX_RENEWALS_PER_BLOCK_def)
  have "splits_inv (s\<lparr>renewal_queue := (renewal_queue s)(current_block s := [])\<rparr>)"
    using splits by (simp add: splits_inv_def)
  from renew_fold_splits [OF 1(1) this] len have sp: "unat sp \<le> 100"
    by (simp add: MAX_ROYALTY_SPLITS_def)
  show ?thesis
    unfolding 1(2) assms(4)
    by (rule renewals_weight_mono)
       (use len sp in \<open>simp_all add: word_le_nat_alt unat_of_nat MAX_RENEWALS_PER_BLOCK_def
          MAX_ROYALTY_SPLITS_def\<close>)
qed

end

text \<open>
  The hook is bounded: the weight of a block's renewals is at most that of ten renewals with ten
  royalty transfers each.
\<close>

lemma hook_weight_bounded:
  assumes "reachable initial_state (chain_step cfg env) s" and "lawful_env cfg env"
    and "weights cfg = SubstrateWeight db"
  shows "fst (on_initialize cfg (s\<lparr>block_number := n\<rparr>)) \<le> renewals_weight (SubstrateWeight db) 10 100"
proof -
  let ?s = "s\<lparr>block_number := n\<rparr>"
  have "splits_inv ?s" "queue_wf (renewal_queue ?s)"
    using reachable_rights_inv [OF assms(1,2)]
    by (simp_all add: rights_inv_def splits_inv_def renewal_inv_def)
  with substrate.on_initialize_weight_bound [OF _ _ _ assms(3), of ?s] show ?thesis
    by (cases "on_initialize cfg ?s") (simp add: MAX_RENEWALS_PER_BLOCK_def MAX_ROYALTY_SPLITS_def)
qed

end
