(* ===== verification/Rights_Behaviour.thy ===== *)
theory Rights_Behaviour
  imports Rights_Charges
begin

text \<open>
  Functional behaviour that spans several operations: the local and the cross-chain variants of
  an extrinsic do the same, views can be consumed exactly as often as they were bought, and the last
  view stays while its item cannot be burnt.
\<close>

section \<open>Local and cross-chain variants\<close>

text \<open>The outcome of a call without its weight and without the event that names it.\<close>

definition unlabelled :: "('a, 'x) state \<Rightarrow> ('a, 'x) state" where
  "unlabelled s = s\<lparr>events := butlast (events s)\<rparr>"

definition outcome ::
  "dispatch_error + weight \<times> ('a, 'x) state \<Rightarrow> dispatch_error + ('a, 'x) state" where
  "outcome r = and_then r (\<lambda>(w, s). Inr (unlabelled s))"

lemma unlabelled_deposit [simp]: "unlabelled (deposit_event e s) = s"
  by (simp add: unlabelled_def deposit_event_def)

lemma and_then_cong [cong]:
  "r = r' \<Longrightarrow> (\<And>x. r' = Inr x \<Longrightarrow> f x = g x) \<Longrightarrow> and_then r f = and_then r' g"
  by (cases r') auto

lemmas outcome_simps = outcome_def and_then_assoc Let_def split_def

lemma subscribe_outcome:
  "outcome (subscribe cfg (Signed a) c s) = outcome (xcm_subscribe cfg (Signed a) c a s)"
  by (simp add: subscribe_def xcm_subscribe_def outcome_simps)

lemma renew_subscription_outcome:
  "outcome (renew_subscription cfg (Signed a) c s) = outcome (xcm_renew_subscription cfg (Signed a) c a s)"
  by (simp add: renew_subscription_def xcm_renew_subscription_def outcome_simps)

lemma purchase_views_outcome:
  "outcome (purchase_views cfg (Signed a) c n s) = outcome (xcm_purchase_views cfg (Signed a) c a n s)"
  by (simp add: purchase_views_def xcm_purchase_views_def outcome_simps)

lemma purchase_ownership_outcome:
  "outcome (purchase_ownership cfg (Signed a) c s) = outcome (xcm_purchase_ownership cfg (Signed a) c a s)"
  by (simp add: purchase_ownership_def xcm_purchase_ownership_def outcome_simps)

lemma transfer_ownership_outcome:
  "and_then (transfer_ownership cfg (Signed a) c b s) (\<lambda>s. Inr (unlabelled s)) =
     and_then (xcm_transfer_ownership cfg (Signed a) c a b s) (\<lambda>s. Inr (unlabelled s))"
  by (simp add: transfer_ownership_def xcm_transfer_ownership_def outcome_simps)

section \<open>Consuming views\<close>

text \<open>A viewer who consumes \<open>n\<close> views in a row.\<close>

fun consume_views ::
  "('a, 'x) config \<Rightarrow> u32 \<Rightarrow> 'a \<Rightarrow> nat \<Rightarrow> ('a, 'x) state \<Rightarrow> dispatch_error + ('a, 'x) state" where
  "consume_views cfg c a 0 s = Inr s"
| "consume_views cfg c a (Suc n) s = and_then (consume_view cfg (Signed a) c s) (consume_views cfg c a n)"

text \<open>The events of \<open>n\<close> consumptions, each with the number of views that it leaves of \<open>v\<close>.\<close>

definition view_events :: "u32 \<Rightarrow> 'a \<Rightarrow> u32 \<Rightarrow> nat \<Rightarrow> 'a event list" where
  "view_events c a v n = map (\<lambda>i. ViewConsumed c a (v - of_nat (Suc i))) [0..<n]"

lemma consume_view_more:
  assumes "view_packs s (c, a) = Some pack" and "1 < views_remaining pack"
  shows "do_consume_view cfg c a s =
    Inr (deposit_event (ViewConsumed c a (views_remaining pack - 1))
      (s\<lparr>view_packs := (view_packs s)((c, a) \<mapsto> pack\<lparr>views_remaining := views_remaining pack - 1\<rparr>)\<rparr>))"
proof -
  have "0 < views_remaining pack" using assms(2) by (simp add: word_less_nat_alt)
  moreover have "views_remaining pack - 1 \<noteq> 0" using assms(2) by auto
  ultimately show ?thesis using assms(1) by (simp add: do_consume_view_def saturating_sub_one)
qed

lemma consume_view_last:
  assumes "view_packs s (c, a) = Some pack" and "views_remaining pack = 1" and "contents s c = Some m"
  shows "do_consume_view cfg c a s =
    and_then (nfts_do_burn cfg (collection_id m) (pack_child_item_id pack) (ext s)) (\<lambda>x.
      Inr (deposit_event (ViewConsumed c a 0)
        (s\<lparr>ext := x, parent := (parent s)((collection_id m, pack_child_item_id pack) := None),
           view_packs := (view_packs s)((c, a) := None)\<rparr>)))"
  using assms by (simp add: do_consume_view_def saturating_sub_one and_then_assoc Let_def)

lemma consume_views_without_pack:
  "view_packs s (c, a) = None \<Longrightarrow>
     consume_views cfg c a n s = (if n = 0 then Inr s else Inl (Pallet ViewPackNotFound))"
  by (cases n) (simp_all add: consume_view_def do_consume_view_def)

text \<open>A run can be cut anywhere; in particular its last consumption can be split off.\<close>

lemma consume_views_add:
  "consume_views cfg c a (n + k) s = and_then (consume_views cfg c a n s) (consume_views cfg c a k)"
  by (induction n arbitrary: s) (simp_all add: and_then_assoc)

lemma consume_views_few:
  assumes "view_packs s (c, a) = Some pack" and "n < unat (views_remaining pack)"
  shows "consume_views cfg c a n s =
    Inr (s\<lparr>view_packs := (view_packs s)((c, a) \<mapsto> pack\<lparr>views_remaining := views_remaining pack - of_nat n\<rparr>),
           events := events s @ view_events c a (views_remaining pack) n\<rparr>)"
  using assms(2)
proof (induction n)
  case 0
  have "(view_packs s)((c, a) \<mapsto> pack) = view_packs s" using assms(1) by (rule fun_upd_idem)
  then show ?case by (simp add: view_events_def)
next
  case (Suc n)
  let ?pack = "pack\<lparr>views_remaining := views_remaining pack - of_nat n\<rparr>"
  let ?s = "s\<lparr>view_packs := (view_packs s)((c, a) \<mapsto> ?pack), events := events s @ view_events c a (views_remaining pack) n\<rparr>"
  have "unat (of_nat n :: u32) = n"
    using Suc.prems unsigned_less [where 'a = nat and w = "views_remaining pack"] by (simp add: unat_of_nat)
  then have "1 < views_remaining ?pack"
    using Suc.prems by (simp add: word_less_nat_alt unat_sub word_le_nat_alt)
  then have "consume_views cfg c a 1 ?s = Inr (deposit_event (ViewConsumed c a (views_remaining ?pack - 1))
      (?s\<lparr>view_packs := (view_packs ?s)((c, a) \<mapsto> ?pack\<lparr>views_remaining := views_remaining ?pack - 1\<rparr>)\<rparr>))"
    by (simp add: consume_view_def consume_view_more [where pack = ?pack])
  moreover have "consume_views cfg c a (Suc n) s = consume_views cfg c a 1 ?s"
    using consume_views_add [of cfg c a n 1 s] Suc.prems by (simp only: Suc.IH Suc_lessD and_then_simps Suc_eq_plus1)
  ultimately have run: "consume_views cfg c a (Suc n) s = Inr (deposit_event (ViewConsumed c a (views_remaining ?pack - 1))
      (?s\<lparr>view_packs := (view_packs ?s)((c, a) \<mapsto> ?pack\<lparr>views_remaining := views_remaining ?pack - 1\<rparr>)\<rparr>))"
    by (simp only:)
  show ?case unfolding run by (simp add: view_events_def deposit_event_def diff_diff_eq add.commute fun_upd_def cong: if_cong)
qed

text \<open>The closed form of the loop.\<close>

lemma consume_views_closed:
  assumes "view_packs s (c, a) = Some pack" and "0 < views_remaining pack" and "contents s c = Some m"
    and "v = views_remaining pack" and "item = (collection_id m, pack_child_item_id pack)"
  shows "consume_views cfg c a n s =
    (if n < unat v then
       Inr (s\<lparr>view_packs := (view_packs s)((c, a) \<mapsto> pack\<lparr>views_remaining := v - of_nat n\<rparr>),
              events := events s @ view_events c a v n\<rparr>)
     else
       and_then (nfts_do_burn cfg (fst item) (snd item) (ext s)) (\<lambda>x.
       if n = unat v then
         Inr (s\<lparr>view_packs := (view_packs s)((c, a) := None), parent := (parent s)(item := None),
                events := events s @ view_events c a v n, ext := x\<rparr>)
       else Inl (Pallet ViewPackNotFound)))"
proof (cases "n < unat v")
  case True
  with assms consume_views_few [OF assms(1)] show ?thesis by simp
next
  case False
  let ?pack = "pack\<lparr>views_remaining := 1\<rparr>"
  let ?s = "s\<lparr>view_packs := (view_packs s)((c, a) \<mapsto> ?pack), events := events s @ view_events c a v (unat v - 1)\<rparr>"
  have pos: "0 < unat v" using assms(2,4) by (simp add: word_less_nat_alt)
  then have one: "v - of_nat (unat v - 1) = 1" by (simp add: of_nat_diff)
  have "consume_views cfg c a (unat v - 1) s = Inr ?s"
    using consume_views_few [OF assms(1), of "unat v - 1" cfg] pos assms(4) one by simp
  moreover have "consume_views cfg c a 1 ?s =
      and_then (nfts_do_burn cfg (fst item) (snd item) (ext s)) (\<lambda>x.
        Inr (s\<lparr>view_packs := (view_packs s)((c, a) := None), parent := (parent s)(item := None),
               events := events s @ view_events c a v (unat v), ext := x\<rparr>))"
  proof -
    have "view_events c a v (unat v) = view_events c a v (unat v - 1) @ [ViewConsumed c a 0]"
      using pos one by (cases "unat v") (simp_all add: view_events_def algebra_simps)
    moreover have "consume_view cfg (Signed a) c ?s =
        and_then (nfts_do_burn cfg (fst item) (snd item) (ext s)) (\<lambda>x.
          Inr (deposit_event (ViewConsumed c a 0) (?s\<lparr>ext := x, parent := (parent s)(item := None),
            view_packs := (view_packs ?s)((c, a) := None)\<rparr>)))"
      using assms(3,5) by (simp add: consume_view_def consume_view_last [where pack = ?pack and m = m])
    ultimately show ?thesis
      by (cases "nfts_do_burn cfg (fst item) (snd item) (ext s)") (simp_all add: deposit_event_def)
  qed
  ultimately have all: "consume_views cfg c a (unat v) s =
      and_then (nfts_do_burn cfg (fst item) (snd item) (ext s)) (\<lambda>x.
        Inr (s\<lparr>view_packs := (view_packs s)((c, a) := None), parent := (parent s)(item := None),
               events := events s @ view_events c a v (unat v), ext := x\<rparr>))"
    using consume_views_add [of cfg c a "unat v - 1" 1 s] pos by simp
  have "consume_views cfg c a n s = and_then (consume_views cfg c a (unat v) s) (consume_views cfg c a (n - unat v))"
    using consume_views_add [of cfg c a "unat v" "n - unat v" s] False by simp
  with False show ?thesis
    unfolding all
    by (cases "nfts_do_burn cfg (fst item) (snd item) (ext s)") (simp_all add: consume_views_without_pack)
qed

section \<open>Packs whose item cannot be burnt\<close>

text \<open>\<open>pallet_nfts\<close> does not burn the item, as when its holder has burnt it before.\<close>

definition burn_refused :: "('a, 'x) config \<Rightarrow> u32 \<times> u32 \<Rightarrow> ('a, 'x) state \<Rightarrow> bool" where
  "burn_refused cfg item s \<longleftrightarrow> \<not> is_ok (nfts_do_burn cfg (fst item) (snd item) (ext s))"

lemma effect_keeps_pack:
  assumes "effect cfg who act s s'" and "view_packs s (c, a) = Some pack"
  shows "(\<exists>pack'. view_packs s' (c, a) = Some pack' \<and> pack_child_item_id pack' = pack_child_item_id pack) \<or>
    views_remaining pack = 1 \<and> (who = a \<and> act = ConsumeView c \<or> act = ConsumeViewFor c a)"
  using assms(1)
proof cases
  case (renewal_enabled c' m sub off t)
  then have "view_packs s' = view_packs s"
    using settles_storage(5) [OF renewal_enabled(6)]
      renewal_frame_simps(2) [OF enqueue_renewal_simps(4) [OF renewal_enabled(5)]] by simp
  with assms(2) show ?thesis by simp
qed (use assms(2) in \<open>auto dest!: settles_storage(5) split: if_splits\<close>)

lemma last_view_refused:
  assumes "view_packs s (c, a) = Some pack" and "views_remaining pack = 1" and "contents s c = Some m"
    and "nfts_do_burn cfg (collection_id m) (pack_child_item_id pack) (ext s) = Inl e"
  shows "consume_view cfg (Signed a) c s = Inl e"
    and "meters s c = Some who \<Longrightarrow> consume_view_for cfg (Signed who) c a s = Inl e"
  using consume_view_last [OF assms(1-3), of cfg] assms(4)
  by (simp_all add: consume_view_def consume_view_for_def)

lemma chain_step_contents:
  assumes "chain_step cfg env s s'" and "rights_inv cfg s" and "contents s c = Some m"
  shows "contents s' c = Some m"
  using assms(1)
proof (cases rule: chain_step_effect)
  case (acted who act)
  have "ids_inv cfg s" using assms(2) by (simp add: rights_inv_def)
  with effect_keeps_contents [OF acted(3)] assms(3) show ?thesis by blast
qed (use assms(3) in \<open>simp_all add: new_block_keeps\<close>)

text \<open>Such a pack survives every step of the chain.\<close>

lemma refused_pack_step:
  assumes step: "chain_step cfg env s s'" and pack: "view_packs s (c, a) = Some pack"
    and m: "contents s c = Some m" and refused: "burn_refused cfg (collection_id m, pack_child_item_id pack) s"
  shows "\<exists>pack'. view_packs s' (c, a) = Some pack' \<and> pack_child_item_id pack' = pack_child_item_id pack"
  using step
proof (cases rule: chain_step_effect)
  case (acted who act)
  from effect_keeps_pack [OF acted(3) pack] show ?thesis
  proof (elim disjE)
    assume "views_remaining pack = 1 \<and> (who = a \<and> act = ConsumeView c \<or> act = ConsumeViewFor c a)"
    moreover obtain e where "nfts_do_burn cfg (collection_id m) (pack_child_item_id pack) (ext s) = Inl e"
      using refused by (auto simp: burn_refused_def is_ok_iff) (metis sum.exhaust)
    moreover note last_view_refused [OF pack _ m this]
    ultimately have "apply_call cfg (Signed who) act s = s"
      by (cases "meters s c = Some who")
         (auto simp: apply_call_def no_post_info_def consume_view_for_def)
    with acted(2) pack show ?thesis by simp
  qed blast
qed (use pack in \<open>simp_all add: new_block_keeps\<close>)

section \<open>Metadata\<close>

text \<open>Basis points that add up to at most 10,000 do not wrap in 16 bits.\<close>

lemma unat_sum_list_basis_points:
  "total_basis_points splits \<le> 10000 \<Longrightarrow>
     unat (sum_list (map basis_points splits)) = total_basis_points splits"
  by (induction splits) (simp_all add: total_basis_points_def unat_add_no_overflow)

section \<open>Authorisation\<close>

lemma unauthorized_calls:
  "who \<noteq> holder \<Longrightarrow> xcm_transfer_ownership cfg (Signed who) c holder b s = Inl (Pallet Unauthorized)"
  "meters s c \<noteq> Some who \<Longrightarrow> consume_view_for cfg (Signed who) c a s = Inl (Pallet Unauthorized)"
  "contents s c = None \<Longrightarrow> set_royalty_splits cfg (Signed who) c sps s = Inl (Pallet ContentNotFound)"
  "contents s c = None \<Longrightarrow> set_meter cfg (Signed who) c m s = Inl (Pallet ContentNotFound)"
  "contents s c = Some content \<Longrightarrow> who \<noteq> creator content \<Longrightarrow>
     set_royalty_splits cfg (Signed who) c sps s = Inl (Pallet NotContentCreator)"
  "contents s c = Some content \<Longrightarrow> who \<noteq> creator content \<Longrightarrow>
     set_meter cfg (Signed who) c m s = Inl (Pallet NotContentCreator)"
  by (simp_all add: xcm_transfer_ownership_def consume_view_for_def set_royalty_splits_def set_meter_def)

end
