(* ===== verification/Rights_Bucket.thy ===== *)
theory Rights_Bucket
  imports Rights_Charges
begin

text \<open>
  What the hook \<open>on_initialize\<close> of \<open>src/pallets/content-rights/src/lib.rs\<close> does with each entry of the
  bucket of a block. The abstract specification is the relation \<open>renewal_outcome\<close>, one rule for each
  way an entry can be settled; an iteration of the loop is shown to follow one of the rules for its
  own entry, and all other iterations to leave that outcome alone (\<open>spares\<close>).
\<close>

section \<open>The ways to settle an entry\<close>

text \<open>The events that were deposited between two states.\<close>

definition new_events :: "('a, 'x) state \<Rightarrow> ('a, 'x) state \<Rightarrow> 'a event list" where
  "new_events s s' = drop (length (events s)) (events s')"

text \<open>An entry is queued in a bucket of the window that is searched from block \<open>at\<close> on.\<close>

definition queued_from :: "(u32 \<Rightarrow> 'e list) \<Rightarrow> u32 \<Rightarrow> 'e \<Rightarrow> bool" where
  "queued_from q at e \<longleftrightarrow> (\<exists>i<MAX_RENEWAL_SLOT_SEARCH. e \<in> set (q (saturating_add at (of_nat i))))"

inductive renewal_outcome :: "('a, 'x) state \<Rightarrow> ('a, 'x) state \<Rightarrow> u32 \<Rightarrow> u32 \<Rightarrow> 'a \<Rightarrow> bool"
  for s :: "('a, 'x) state" and s' :: "('a, 'x) state" and now :: u32 and c :: u32 and a :: 'a where
  switched_off:
    "auto_renew_index s (c, a) = None \<Longrightarrow> auto_renew_index s' (c, a) = None \<Longrightarrow>
     subscriptions s' (c, a) = subscriptions s (c, a) \<Longrightarrow> renewal_outcome s s' now c a"
| not_due:
    "subscriptions s (c, a) = Some sub \<Longrightarrow> auto_renew sub \<Longrightarrow> now < expiry_block sub \<Longrightarrow>
     auto_renew_index s' (c, a) \<noteq> None \<Longrightarrow> subscriptions s' (c, a) = Some sub \<Longrightarrow>
     queued_from (renewal_queue s') (expiry_block sub) (c, a) \<Longrightarrow> renewal_outcome s s' now c a"
| not_due_no_slot:
    "subscriptions s (c, a) = Some sub \<Longrightarrow> auto_renew sub \<Longrightarrow> now < expiry_block sub \<Longrightarrow>
     auto_renew_index s' (c, a) = None \<Longrightarrow> subscriptions s' (c, a) = Some (sub\<lparr>auto_renew := False\<rparr>) \<Longrightarrow>
     AutoRenewalFailed c a RenewalQueueFull_reason \<in> set (new_events s s') \<Longrightarrow> renewal_outcome s s' now c a"
| paid:
    "subscriptions s (c, a) = Some sub \<Longrightarrow> auto_renew sub \<Longrightarrow> expiry_block sub \<le> now \<Longrightarrow>
     contents s c = Some m \<Longrightarrow> expiry = saturating_add now (period_length m) \<Longrightarrow>
     auto_renew_index s' (c, a) \<noteq> None \<Longrightarrow> subscriptions s' (c, a) = Some (sub\<lparr>expiry_block := expiry\<rparr>) \<Longrightarrow>
     queued_from (renewal_queue s') expiry (c, a) \<Longrightarrow>
     AutoRenewalProcessed c a expiry \<in> set (new_events s s') \<Longrightarrow> renewal_outcome s s' now c a"
| paid_no_slot:
    "subscriptions s (c, a) = Some sub \<Longrightarrow> auto_renew sub \<Longrightarrow> expiry_block sub \<le> now \<Longrightarrow>
     contents s c = Some m \<Longrightarrow> expiry = saturating_add now (period_length m) \<Longrightarrow>
     auto_renew_index s' (c, a) = None \<Longrightarrow>
     subscriptions s' (c, a) = Some (sub\<lparr>expiry_block := expiry, auto_renew := False\<rparr>) \<Longrightarrow>
     AutoRenewalProcessed c a expiry \<in> set (new_events s s') \<Longrightarrow>
     AutoRenewalFailed c a RenewalQueueFull_reason \<in> set (new_events s s') \<Longrightarrow> renewal_outcome s s' now c a"
| unpaid:
    "subscriptions s (c, a) = Some sub \<Longrightarrow> auto_renew sub \<Longrightarrow> expiry_block sub \<le> now \<Longrightarrow>
     auto_renew_index s' (c, a) = None \<Longrightarrow> subscriptions s' (c, a) = Some (sub\<lparr>auto_renew := False\<rparr>) \<Longrightarrow>
     reason = (if contents s c = None then ContentNotFound_reason else InsufficientBalance) \<Longrightarrow>
     AutoRenewalFailed c a reason \<in> set (new_events s s') \<Longrightarrow> renewal_outcome s s' now c a"

section \<open>Events\<close>

definition events_grow :: "('a, 'x) state \<Rightarrow> ('a, 'x) state \<Rightarrow> bool" where
  "events_grow s s' \<longleftrightarrow> (\<exists>new. events s' = events s @ new)"

lemma events_grow_refl [simp]: "events s' = events s \<Longrightarrow> events_grow s s'"
  by (simp add: events_grow_def)

lemma events_grow_trans [trans]: "events_grow s t \<Longrightarrow> events_grow t u \<Longrightarrow> events_grow s u"
  by (auto simp: events_grow_def)

lemma events_grow_deposit [simp]: "events_grow s (deposit_event e s)"
  by (simp add: events_grow_def deposit_event_def)

lemma transfer_amount_events: "transfer_amount cfg payer to v s = Inr s' \<Longrightarrow> events s' = events s"
  by (auto simp: transfer_amount_def result_simps)

lemma pay_splits_events:
  "pay_splits cfg payer c v splits d s = Inr (d', s') \<Longrightarrow> events_grow s s'"
proof (induction splits arbitrary: d s)
  case (Cons sp splits)
  show ?case
  proof (cases "royalty_share v (basis_points sp) > 0")
    case True
    with Cons.prems obtain r t where t: "transfer_amount cfg payer r (royalty_share v (basis_points sp)) s = Inr t"
      and rest: "pay_splits cfg payer c v splits (saturating_add d (royalty_share v (basis_points sp)))
        (deposit_event (RoyaltyDistributed c r (royalty_share v (basis_points sp))) t) = Inr (d', s')"
      by (auto simp: result_simps Let_def)
    have "events_grow s t" by (simp add: transfer_amount_events [OF t])
    also note events_grow_deposit
    also note Cons.IH [OF rest]
    finally show ?thesis .
  next
    case False
    with Cons.prems show ?thesis by (simp add: Let_def Cons.IH)
  qed
qed simp

lemma pay_with_royalties_events:
  assumes "pay_with_royalties cfg payer cr c v s = Inr (n, s')"
  shows "events_grow s s'"
proof (cases "royalty_splits s c = []")
  case True
  with assms show ?thesis by (auto simp: pay_with_royalties_def result_simps dest!: transfer_amount_events)
next
  case False
  with assms obtain d t where t: "pay_splits cfg payer c v (royalty_splits s c) 0 s = Inr (d, t)" and "events s' = events t"
    by (auto simp: pay_with_royalties_def Let_def result_simps dest!: transfer_amount_events split: if_splits prod.splits)
  with pay_splits_events [OF t] show ?thesis by (simp add: events_grow_def)
qed

lemma enqueue_renewal_events: "enqueue_renewal c a at s = Inr (off, s') \<Longrightarrow> events s' = events s"
  by (auto elim!: enqueue_renewal_cases)

lemma stop_auto_renew_events [simp]:
  "events (stop_auto_renew c a r s) = events s @ [AutoRenewalFailed c a r]"
  by (simp add: stop_auto_renew_def update_subscription_def deposit_event_def Let_def)

lemma update_subscription_events [simp]: "events (update_subscription k f s) = events s"
  by (simp add: update_subscription_def)

lemma deposit_event_events [simp]: "events (deposit_event e s) = events s @ [e]"
  by (simp add: deposit_event_def)

lemma finish_renewal_events:
  "events_grow s (finish_renewal now c a p s)"
  "AutoRenewalProcessed c a (saturating_add now p) \<in> set (new_events s (finish_renewal now c a p s))"
  by (cases rule: finish_renewal_cases [of c a now p s, case_names queued stopped];
      simp add: events_grow_def new_events_def enqueue_renewal_events)+

lemma renew_one_events:
  assumes "renew_one cfg now (c, a) (s, sp) = (s', sp')"
  shows "events_grow s s'"
  using assms
proof (cases rule: renew_one_cases)
  case (renew sub content n s1)
  with pay_with_royalties_events [OF renew(5)] finish_renewal_events(1) show ?thesis
    by (metis events_grow_trans)
qed (auto simp: events_grow_def enqueue_renewal_events)

section \<open>One iteration\<close>

lemma enqueue_queued_from:
  assumes "enqueue_renewal c a at s = Inr (off, s')"
  shows "queued_from (renewal_queue s') at (c, a)"
  using assms place_in_bucket_Some
  by (fastforce simp: queued_from_def elim!: enqueue_renewal_cases)

lemma finish_renewal_outcome:
  assumes "subscriptions s (c, a) = Some sub" and "expiry = saturating_add now p"
  obtains
    (queued) "subscriptions (finish_renewal now c a p s) (c, a) = Some (sub\<lparr>expiry_block := expiry\<rparr>)"
      "auto_renew_index (finish_renewal now c a p s) (c, a) = auto_renew_index s (c, a)"
      "queued_from (renewal_queue (finish_renewal now c a p s)) expiry (c, a)"
  | (stopped) "subscriptions (finish_renewal now c a p s) (c, a) =
        Some (sub\<lparr>expiry_block := expiry, auto_renew := False\<rparr>)"
      "auto_renew_index (finish_renewal now c a p s) (c, a) = None"
      "AutoRenewalFailed c a RenewalQueueFull_reason \<in> set (new_events s (finish_renewal now c a p s))"
proof (cases rule: finish_renewal_cases [of c a now p s, case_names q st])
  case (q off)
  show ?thesis
    by (rule queued) (use q assms in \<open>simp_all add: enqueue_renewal_simps enqueue_queued_from\<close>)
next
  case st
  with assms show ?thesis by (intro stopped) (simp_all add: new_events_def)
qed

lemma new_events_later:
  assumes "events_grow s t" and "e \<in> set (new_events t u)"
  shows "e \<in> set (new_events s u)"
proof -
  from assms(1) obtain new where "events t = events s @ new" by (auto simp: events_grow_def)
  then have "new_events t u = drop (length new) (new_events s u)" by (simp add: new_events_def add.commute)
  with assms(2) show ?thesis by (metis in_set_dropD)
qed

lemma renew_one_outcome:
  assumes run: "renew_one cfg now (c, a) (s, sp) = (s', sp')" and "index_ok s"
  shows "renewal_outcome s s' now c a"
proof (cases "auto_renew_index s (c, a) = None")
  case True
  with run show ?thesis by (intro switched_off) (auto simp: renew_one_def)
next
  case indexed: False
  with assms(2) obtain sub where sub: "subscriptions s (c, a) = Some sub" "auto_renew sub"
    by (auto simp: index_ok_def)
  show ?thesis
  proof (cases "now < expiry_block sub")
    case True
    show ?thesis
    proof (cases "enqueue_renewal c a (expiry_block sub) s")
      case (Inl e)
      with run indexed sub True have "s' = stop_auto_renew c a RenewalQueueFull_reason s" by (simp add: renew_one_def)
      with sub True show ?thesis by (intro not_due_no_slot [of s c a sub]) (simp_all add: new_events_def)
    next
      case (Inr r)
      with run indexed sub True obtain off where "enqueue_renewal c a (expiry_block sub) s = Inr (off, s')"
        by (cases r) (simp add: renew_one_def)
      with sub True indexed show ?thesis
        by (intro not_due [of s c a sub]) (simp_all add: enqueue_renewal_simps enqueue_queued_from)
    qed
  next
    case False
    then have due: "expiry_block sub \<le> now" by simp
    show ?thesis
    proof (cases "\<exists>m n s1. contents s c = Some m \<and>
        pay_with_royalties cfg a (creator m) c (subscription_price m) s = Inr (n, s1)")
      case True
      then obtain m n s1 where m: "contents s c = Some m"
        and pay: "pay_with_royalties cfg a (creator m) c (subscription_price m) s = Inr (n, s1)" by blast
      with run indexed sub False have s': "s' = finish_renewal now c a (period_length m) s1"
        by (simp add: renew_one_def)
      note same = only_ext_events_storage [OF pay_with_royalties_frame [OF pay, THEN conjunct2]]
      note report = new_events_later [OF pay_with_royalties_events [OF pay]]
      note processed = report [OF finish_renewal_events(2) [where now = now and p = "period_length m" and c = c and a = a]]
      have sub1: "subscriptions s1 (c, a) = Some sub" using sub by (simp add: same)
      show ?thesis
      proof (cases rule: finish_renewal_outcome [OF sub1 refl, of now "period_length m", case_names queued stopped])
        case queued
        with indexed processed show ?thesis
          by (intro paid [OF sub due m refl]) (simp_all add: s' same)
      next
        case stopped
        with processed report show ?thesis
          by (intro paid_no_slot [OF sub due m refl]) (simp_all add: s')
      qed
    next
      case unpayable: False
      let ?reason = "if contents s c = None then ContentNotFound_reason else InsufficientBalance"
      have "s' = stop_auto_renew c a ?reason s"
        using run indexed sub False unpayable
        by (cases "contents s c"; cases "pay_with_royalties cfg a (creator (the (contents s c))) c
              (subscription_price (the (contents s c))) s") (auto simp: renew_one_def)
      with sub due show ?thesis by (intro unpaid [OF sub due _ _ refl]) (simp_all add: new_events_def)
    qed
  qed
qed

section \<open>The whole bucket\<close>

text \<open>What the other iterations leave of an entry.\<close>

definition spares :: "u32 \<times> 'a \<Rightarrow> ('a, 'x) state \<Rightarrow> ('a, 'x) state \<Rightarrow> bool" where
  "spares k s s' \<longleftrightarrow>
     subscriptions s' k = subscriptions s k \<and> auto_renew_index s' k = auto_renew_index s k \<and>
     contents s' = contents s \<and> events_grow s s' \<and> (\<forall>b. set (renewal_queue s b) \<subseteq> set (renewal_queue s' b))"

lemma spares_refl [simp]: "spares k s s"
  by (simp add: spares_def)

lemma spares_trans: "spares k s t \<Longrightarrow> spares k t u \<Longrightarrow> spares k s u"
  unfolding spares_def by (auto intro: events_grow_trans)

lemma renew_one_queue_grows:
  assumes "renew_one cfg now (c, a) (s, sp) = (s', sp')"
  shows "set (renewal_queue s b) \<subseteq> set (renewal_queue s' b)"
proof -
  note keeps = rq.enqueue_keeps [of "(c, a)" for c a, unfolded prod.case]
  from assms show ?thesis
  proof (cases rule: renew_one_cases)
    case (renew sub content n s1)
    note same = only_ext_events_storage [OF pay_with_royalties_frame [OF renew(5), THEN conjunct2]]
    show ?thesis unfolding renew(6)
      by (cases rule: finish_renewal_cases [of c a now "period_length content" s1, case_names queued stopped])
         (use keeps in \<open>fastforce simp: same\<close>)+
  next
    case (requeue sub off)
    from keeps [OF requeue(4)] show ?thesis .
  qed simp_all
qed

lemma renew_one_spares:
  assumes "renew_one cfg now (c, a) (s, sp) = (s', sp')" and "k \<noteq> (c, a)"
  shows "spares k s s'"
  using renew_one_other [OF assms] renewal_frame_simps(1) [OF renew_one_frame [OF assms(1)]]
    renew_one_events [OF assms(1)] renew_one_queue_grows [OF assms(1)]
  by (simp add: spares_def)

lemma renew_fold_spares:
  assumes "fold (renew_one cfg now) due (s, sp) = (s', sp')" and "k \<notin> set due"
  shows "spares k s s'"
  using assms(1)
proof (rule renew_fold_induct)
  show "spares k s t'" if "(c, a) \<in> set due" "renew_one cfg now (c, a) (t, tp) = (t', tp')" "spares k s t" for c a t tp t' tp'
    using that assms(2) spares_trans renew_one_spares by metis
qed simp

lemma new_events_mono:
  assumes "events_grow s t" and "events_grow u s'" and "events_grow t u" and "e \<in> set (new_events t u)"
  shows "e \<in> set (new_events s s')"
  using assms by (auto simp: events_grow_def new_events_def)

lemma renewal_outcome_spares:
  assumes "renewal_outcome t u now c a" and "spares (c, a) s t" and "spares (c, a) u s'" and "events_grow t u"
  shows "renewal_outcome s s' now c a"
proof -
  have ev: "e \<in> set (new_events s s')" if "e \<in> set (new_events t u)" for e
    using assms(2-4) that by (auto simp: spares_def intro: new_events_mono)
  have q: "queued_from (renewal_queue s') at (c, a)" if "queued_from (renewal_queue u) at (c, a)" for at
    using assms(3) that by (fastforce simp: spares_def queued_from_def)
  have same: "subscriptions t (c, a) = subscriptions s (c, a)" "auto_renew_index t (c, a) = auto_renew_index s (c, a)"
    "contents t = contents s" "subscriptions s' (c, a) = subscriptions u (c, a)"
    "auto_renew_index s' (c, a) = auto_renew_index u (c, a)"
    using assms(2,3) by (simp_all add: spares_def)
  from assms(1) show ?thesis
    by (cases rule: renewal_outcome.cases) (auto intro: renewal_outcome.intros simp: same dest!: ev q)
qed

lemma renew_fold_outcome:
  assumes "fold (renew_one cfg now) due (s, sp) = (s', sp')" and "distinct due" and "index_ok s" and "(c, a) \<in> set due"
  shows "renewal_outcome s s' now c a"
proof -
  from assms(2,4) obtain xs ys where due: "due = xs @ (c, a) # ys" and out: "(c, a) \<notin> set xs" "(c, a) \<notin> set ys"
    by (metis split_list distinct_append distinct.simps(2) disjoint_iff list.set_intros(1))
  obtain t tp where t: "fold (renew_one cfg now) xs (s, sp) = (t, tp)" by (cases "fold (renew_one cfg now) xs (s, sp)")
  obtain u up where u: "renew_one cfg now (c, a) (t, tp) = (u, up)" by (cases "renew_one cfg now (c, a) (t, tp)")
  have rest: "fold (renew_one cfg now) ys (u, up) = (s', sp')" using assms(1) t u by (simp add: due)
  have "index_ok t" using t assms(3) by (rule renew_fold_induct) (rule renew_one_index_ok)
  from renewal_outcome_spares [OF renew_one_outcome [OF u this] renew_fold_spares [OF t out(1)]
      renew_fold_spares [OF rest out(2)] renew_one_events [OF u]]
  show ?thesis .
qed

text \<open>Nothing is put back into the bucket that is being processed.\<close>

lemma renew_one_bucket:
  assumes "renew_one cfg now (c, a) (s, sp) = (s', sp')" and now: "now < - 1"
    and period: "\<And>m. auto_renew_index s (c, a) \<noteq> None \<Longrightarrow> contents s c = Some m \<Longrightarrow> 0 < period_length m"
    and idx: "index_ok s"
  shows "renewal_queue s' now = renewal_queue s now"
  using assms(1)
proof (cases rule: renew_one_cases)
  case (requeue sub off)
  then show ?thesis by (simp add: enqueue_renewal_keeps_earlier)
next
  case (renew sub content n s1)
  note same = only_ext_events_storage [OF pay_with_royalties_frame [OF renew(5), THEN conjunct2]]
  have "auto_renew_index s (c, a) \<noteq> None" using idx renew(1,2) by (auto simp: index_ok_def)
  with period renew(4) now have later: "now < saturating_add now (period_length content)"
    by (intro saturating_add_gt) simp_all
  show ?thesis unfolding renew(6)
  proof (cases rule: finish_renewal_cases [of c a now "period_length content" s1, case_names queued stopped])
    case (queued off)
    from enqueue_renewal_keeps_earlier [OF queued later] show
      "renewal_queue (finish_renewal now c a (period_length content) s1) now = renewal_queue s now"
      by (simp add: same)
  qed (simp add: same)
qed simp_all

lemma renew_fold_bucket:
  assumes "fold (renew_one cfg now) due (s, sp) = (s', sp')" and now: "now < - 1" and idx: "index_ok s"
    and period: "\<And>c a m. auto_renew_index s (c, a) \<noteq> None \<Longrightarrow> contents s c = Some m \<Longrightarrow> 0 < period_length m"
  shows "renewal_queue s' now = renewal_queue s now"
proof -
  let ?P = "\<lambda>t. index_ok t \<and> contents t = contents s \<and>
    (\<forall>k. auto_renew_index t k \<noteq> None \<longrightarrow> auto_renew_index s k \<noteq> None) \<and> renewal_queue t now = renewal_queue s now"
  have "?P s'" using assms(1)
  proof (rule renew_fold_induct)
    fix c a t tp t' tp'
    assume step: "renew_one cfg now (c, a) (t, tp) = (t', tp')" and t: "?P t"
    have idx': "index_ok t'" using step t by (blast intro: renew_one_index_ok)
    moreover have "contents t' = contents s" using renewal_frame_simps(1) [OF renew_one_frame [OF step]] t by simp
    moreover have "auto_renew_index s k \<noteq> None" if "auto_renew_index t' k \<noteq> None" for k
      using index_never_switched_on [OF _ idx' renew_one_progress [OF step] that] t by blast
    moreover have "renewal_queue t' now = renewal_queue t now"
    proof (rule renew_one_bucket [OF step now])
      show "0 < period_length m" if "auto_renew_index t (c, a) \<noteq> None" "contents t c = Some m" for m
        using that t by (intro period [of c a]) simp_all
    qed (use t in blast)
    ultimately show "?P t'" using t by simp
  qed (simp add: idx)
  then show ?thesis by blast
qed

lemma on_initialize_bucket:
  assumes run: "on_initialize cfg s = (w, s')" and idx: "index_ok s" and wf: "queue_wf (renewal_queue s)"
    and period: "\<And>c a m. auto_renew_index s (c, a) \<noteq> None \<Longrightarrow> contents s c = Some m \<Longrightarrow> 0 < period_length m"
    and now: "current_block s < - 1"
  shows "renewal_queue s' (current_block s) = []"
    and "(c, a) \<in> set (renewal_queue s (current_block s)) \<Longrightarrow> renewal_outcome s s' (current_block s) c a"
proof -
  let ?t = "s\<lparr>renewal_queue := (renewal_queue s)(current_block s := [])\<rparr>"
  obtain sp where fold: "fold (renew_one cfg (current_block s)) (renewal_queue s (current_block s)) (?t, 0) = (s', sp)"
    using run by (rule on_initialize_cases)
  have idx': "index_ok ?t" using idx by (simp add: index_ok_def)
  from renew_fold_bucket [OF fold now idx'] period show "renewal_queue s' (current_block s) = []" by simp
  assume k: "(c, a) \<in> set (renewal_queue s (current_block s))"
  have "distinct (renewal_queue s (current_block s))" using wf by (simp add: queue_wf_def)
  from renew_fold_outcome [OF fold this idx' k]
  show "renewal_outcome s s' (current_block s) c a"
    by (cases rule: renewal_outcome.cases)
       (auto intro: renewal_outcome.intros simp: new_events_def)
qed

lemma on_initialize_events:
  assumes "on_initialize cfg s = (w, s')"
  shows "events_grow s s'"
  using assms
proof (rule on_initialize_cases)
  fix sp
  assume "fold (renew_one cfg (current_block s)) (renewal_queue s (current_block s))
    (s\<lparr>renewal_queue := (renewal_queue s)(current_block s := [])\<rparr>, 0) = (s', sp)"
  then show ?thesis
    by (rule renew_fold_induct) (auto intro: events_grow_trans renew_one_events)
qed

lemma new_block_events: "\<exists>new. events (new_block cfg s) = events s @ new"
proof -
  obtain w where "on_initialize cfg (s\<lparr>block_number := Suc (block_number s)\<rparr>) = (w, new_block cfg s)"
    by (rule new_block_frame)
  from on_initialize_events [OF this] show ?thesis by (simp add: events_grow_def)
qed

end
