(* ===== verification/Mock_Chain.thy ===== *)
theory Mock_Chain
  imports Rights_Invariant Content_Weights
begin

text \<open>
  A concrete instance of the pallets outside the repository, on which the definitions evaluate:
  balances with an existential deposit of one unit, a table of minted items, the owners of
  collections and the collection counter of \<open>pallet_nfts\<close>. It shows that the hypotheses on a configuration can hold
  together, and the concrete runs of the development use it.
\<close>

section \<open>The external pallets\<close>

record mock_ext =
  balance :: "nat \<Rightarrow> nat"
  counter :: "u32 option"
  items :: "(u32 \<times> u32) list"
  colls :: "u32 \<rightharpoonup> nat"

definition mock_transfer ::
  "nat \<Rightarrow> nat \<Rightarrow> u128 \<Rightarrow> preservation \<Rightarrow> mock_ext \<Rightarrow> dispatch_error + mock_ext" where
  "mock_transfer payer to v p x =
     (if unat v < balance x payer then
        let b = (balance x)(payer := balance x payer - unat v)
        in Inr (x\<lparr>balance := b(to := b to + unat v)\<rparr>)
      else Inl (External 0))"

definition mock_mint :: "u32 \<Rightarrow> u32 \<Rightarrow> nat option \<Rightarrow> nat \<Rightarrow> mock_ext \<Rightarrow> dispatch_error + mock_ext" where
  "mock_mint col item minter owner x =
     (if (col, item) \<in> set (items x) then Inl (External 1) else Inr (x\<lparr>items := (col, item) # items x\<rparr>))"

definition mock_burn :: "u32 \<Rightarrow> u32 \<Rightarrow> mock_ext \<Rightarrow> dispatch_error + mock_ext" where
  "mock_burn col item x =
     (if (col, item) \<in> set (items x) then Inr (x\<lparr>items := removeAll (col, item) (items x)\<rparr>)
      else Inl (External 2))"

definition mock_decode_account :: "u8 list \<Rightarrow> nat option" where
  "mock_decode_account bytes =
     (case bytes of b # _ \<Rightarrow> if length bytes = 32 then Some (unat b) else None | [] \<Rightarrow> None)"

definition mock :: "(nat, mock_ext) config" where
  "mock =
     \<lparr>currency_transfer = mock_transfer, try_into_balance = Some,
      decode_account = mock_decode_account, nfts_next_collection_id = counter,
      nfts_set_next_collection_id = (\<lambda>n x. x\<lparr>counter := Some n\<rparr>), nfts_collection_deposit = 0,
      nfts_do_create_collection = (\<lambda>col own adm cc d ev x. Inr (x\<lparr>colls := (colls x)(col \<mapsto> own)\<rparr>)), nfts_do_mint = mock_mint,
      nfts_set_attribute = (\<lambda>og col item ns k v x. Inr x), nfts_do_burn = mock_burn,
      nfts_key_limit = 64, nfts_value_limit = 256, min_auto_renew_period = 100,
      weights = SubstrateWeight frame_rocks_db_weight\<rparr>"

definition mock_ext0 :: mock_ext where
  "mock_ext0 = \<lparr>balance = (\<lambda>_. 1000), counter = None, items = [], colls = Map.empty\<rparr>"

lemmas mock_simps = mock_def mock_transfer_def mock_mint_def mock_burn_def mock_ext0_def

lemma mock_counter: "collection_counter mock x = unwrap_or (counter x) 0"
  by (simp add: collection_counter_def mock_def)

lemma mock_ext_call_counter: "ext_call mock x x' \<Longrightarrow> counter x' = counter x"
  by (induction rule: ext_call.induct) (auto simp: mock_simps Let_def split: if_splits)

lemma mock_lawful: "lawful mock"
  using mock_ext_call_counter by (auto simp: lawful_def mock_counter) (simp_all add: mock_def)

lemma mock_lawful_env: "lawful_env mock (\<lambda>x x'. counter x' = counter x)"
  by (simp add: lawful_env_def mock_lawful mock_counter)

lemma mock_moves_funds: "moves_funds mock balance"
  by (auto simp: moves_funds_def mock_simps Let_def split: if_splits)

section \<open>A run\<close>

text \<open>
  Account 3 registers a work with a price of 100 per period, 10 per view and 300 to own, with
  periods of 200 blocks, and account 2 subscribes, buys three views, buys the work and switches
  auto-renewal on. All this happens in block 5.
\<close>

definition mock_register :: "nat call" where
  "mock_register = RegisterContent (replicate 32 7) [] 100 10 300 200"

definition mock_s0 :: "(nat, mock_ext) state" where
  "mock_s0 = genesis 5 mock_ext0"

definition mock_run :: "(nat \<times> nat call) list \<Rightarrow> (nat, mock_ext) state" where
  "mock_run calls = fold (\<lambda>(who, act) s. apply_call mock (Signed who) act s) calls mock_s0"

lemma mock_run_reachable:
  assumes "\<forall>(who, act)\<in>set calls. decodable act"
  shows "reachable initial_state (chain_step mock env) (mock_run calls)"
proof -
  have "reachable initial_state (chain_step mock env)
      (fold (\<lambda>(who, act) s. apply_call mock (Signed who) act s) calls s)"
    if "reachable initial_state (chain_step mock env) s" for s
    using assms that
    by (induction calls arbitrary: s) (auto intro: reachable.reach_step chain_step.call)
  moreover have "reachable initial_state (chain_step mock env) mock_s0"
    by (rule reachable.reach_start) (auto simp: initial_state_def mock_s0_def)
  ultimately show ?thesis by (simp add: mock_run_def)
qed

definition mock_calls :: "(nat \<times> nat call) list" where
  "mock_calls = [(3, mock_register), (2, Subscribe 0), (2, PurchaseViews 0 3), (2, PurchaseOwnership 0),
     (2, EnableAutoRenew 0)]"

definition mock_work :: "nat content_metadata" where
  "mock_work =
     \<lparr>creator = 3, metadata_hash = replicate 32 7, collection_id = 0, content_item_id = 0,
      title = [], subscription_price = 100, ppv_price = 10, ownership_price = 300,
      period_length = 200\<rparr>"

definition mock_s1 :: "(nat, mock_ext) state" where
  "mock_s1 =
     \<lparr>next_content_id = 1, next_item_id = (\<lambda>_. 0)(0 := 4), contents = [0 \<mapsto> mock_work],
      subscriptions = [(0, 2) \<mapsto> \<lparr>expiry_block = 205, auto_renew = True, sub_child_item_id = 1\<rparr>],
      view_packs = [(0, 2) \<mapsto> \<lparr>views_remaining = 3, pack_child_item_id = 2\<rparr>],
      ownership = [(0, 2) \<mapsto> \<lparr>own_child_item_id = 3\<rparr>],
      auto_renew_index = [(0, 2) \<mapsto> True], renewal_queue = (\<lambda>_. [])(205 := [(0, 2)]),
      royalty_splits = (\<lambda>_. []),
      parent = [(0, 1) \<mapsto> (0, 0), (0, 2) \<mapsto> (0, 0), (0, 3) \<mapsto> (0, 0)],
      meters = Map.empty, block_number = 5,
      events = [ContentRegistered 0 3 0 0, ChildNested 0 0 0 1, SubscriptionCreated 0 2 205,
        ChildNested 0 0 0 2, ViewPackPurchased 0 2 3, ChildNested 0 0 0 3, OwnershipPurchased 0 2,
        AutoRenewEnabled 0 2],
      ext = \<lparr>balance = (\<lambda>_. 1000)(2 := 570, 3 := 1430), counter = Some 1,
        items = [(0, 3), (0, 2), (0, 1), (0, 0)], colls = [0 \<mapsto> 3]\<rparr>\<rparr>"

text \<open>The definitions that a concrete run unfolds.\<close>

lemmas run_simps =
  mock_simps call_defs next_collection_id_def do_purchase_views_def do_consume_view_def
  mint_and_nest_child_def pay_with_royalties_def transfer_amount_def bounded_vec_def
  checked_add_def checked_mul_def current_block_def try_into_u32_def saturating_add_def
  saturating_sub_def enqueue_renewal_def MAX_RENEWAL_SLOT_SEARCH_def upt_rec place_in_bucket_def
  MAX_RENEWALS_PER_BLOCK_def no_post_info_def post_info_def deposit_event_def Let_def
  update_subscription_def

lemma mock_run_calls: "mock_run mock_calls = mock_s1"
  by (simp add: mock_run_def mock_calls_def mock_register_def apply_call_def mock_s0_def genesis_def
      mock_s1_def mock_work_def run_simps)

lemma mock_s1_reachable: "reachable initial_state (chain_step mock env) mock_s1"
proof -
  have "\<forall>(who, act)\<in>set mock_calls. decodable act" by (simp add: mock_calls_def mock_register_def)
  from mock_run_reachable [OF this] show ?thesis by (simp only: mock_run_calls)
qed

lemma mock_s1_inv: "rights_inv mock mock_s1"
  using reachable_rights_inv [OF mock_s1_reachable mock_lawful_env] .

text \<open>The mock chain at block 204, one block before the renewal of account 2 is due.\<close>

definition mock_blocks :: "nat \<Rightarrow> (nat, mock_ext) state" where
  "mock_blocks n = (new_block mock ^^ n) mock_s1"

lemma mock_blocks_reachable: "reachable initial_state (chain_step mock env) (mock_blocks n)"
  by (induction n) (auto simp: mock_blocks_def mock_s1_reachable intro: reachable.reach_step chain_step.block)

lemma mock_blocks_idle: "n < 200 \<Longrightarrow> mock_blocks n = mock_s1\<lparr>block_number := 5 + n\<rparr>"
proof (induction n)
  case (Suc n)
  have "(of_nat (Suc (5 + n)) :: u32) \<noteq> 205"
    using Suc.prems by (simp add: word_unat_eq_iff unat_of_nat del: of_nat_Suc of_nat_add)
  then have "renewal_queue mock_s1 (of_nat (Suc (5 + n))) = []" by (simp add: mock_s1_def del: of_nat_Suc)
  with Suc show ?case
    by (simp add: mock_blocks_def new_block_def on_initialize_def Let_def current_block_def
        try_into_u32_def fun_upd_idem del: of_nat_Suc of_nat_add)
qed (simp add: mock_blocks_def mock_s1_def)

lemma mock_block_204:
  "mock_blocks 199 = mock_s1\<lparr>block_number := 204\<rparr>"
  by (simp add: mock_blocks_idle)

text \<open>
  The run without the purchase of the work, and that purchase as its last call: the rights are
  then those of \<open>mock_s1\<close>.
\<close>

definition mock_unbought :: "(nat, mock_ext) state" where
  "mock_unbought = mock_s1
     \<lparr>next_item_id := (\<lambda>_. 0)(0 := 3), ownership := Map.empty,
      parent := [(0, 1) \<mapsto> (0, 0), (0, 2) \<mapsto> (0, 0)],
      events := [ContentRegistered 0 3 0 0, ChildNested 0 0 0 1, SubscriptionCreated 0 2 205,
        ChildNested 0 0 0 2, ViewPackPurchased 0 2 3, AutoRenewEnabled 0 2],
      ext := \<lparr>balance = (\<lambda>_. 1000)(2 := 870, 3 := 1130), counter = Some 1,
        items = [(0, 2), (0, 1), (0, 0)], colls = [0 \<mapsto> 3]\<rparr>\<rparr>"

lemma mock_unbought_run:
  "mock_run [(3, mock_register), (2, Subscribe 0), (2, PurchaseViews 0 3), (2, EnableAutoRenew 0)] =
     mock_unbought"
  by (simp add: mock_run_def mock_register_def apply_call_def mock_s0_def genesis_def mock_s1_def
      mock_work_def mock_unbought_def run_simps)

lemma mock_unbought_reachable: "reachable initial_state (chain_step mock env) mock_unbought"
  using mock_run_reachable [of "[(3, mock_register), (2, Subscribe 0), (2, PurchaseViews 0 3),
    (2, EnableAutoRenew 0)]"]
  by (simp add: mock_unbought_run) (simp add: mock_register_def)

lemma mock_bought:
  obtains w s1 where "dispatch mock (Signed 2) (PurchaseOwnership 0) mock_unbought = Inr (w, s1)"
    "ownership s1 = ownership mock_s1" "subscriptions s1 = subscriptions mock_s1"
    "view_packs s1 = view_packs mock_s1"
proof -
  define s1 where "s1 = snd (projr (dispatch mock (Signed 2) (PurchaseOwnership 0) mock_unbought))"
  define w where "w = fst (projr (dispatch mock (Signed 2) (PurchaseOwnership 0) mock_unbought))"
  have "dispatch mock (Signed 2) (PurchaseOwnership 0) mock_unbought = Inr (w, s1)"
    by (simp add: s1_def w_def mock_unbought_def mock_s1_def mock_work_def run_simps)
  moreover have "ownership s1 = ownership mock_s1" "subscriptions s1 = subscriptions mock_s1"
      "view_packs s1 = view_packs mock_s1"
    by (simp_all add: s1_def mock_unbought_def mock_s1_def mock_work_def run_simps)
  ultimately show thesis by (rule that)
qed

end
