(* ===== verification/Rights_Properties.thy ===== *)
theory Rights_Properties
  imports Rights_Behaviour Rights_Bucket Mock_Chain
begin

text \<open>
  The properties of \<open>pallet_content_rights\<close>, each with a concrete run of \<open>Mock_Chain\<close> on which
  its hypotheses hold.
\<close>

section \<open>The storage invariant\<close>

text \<open>
  C1: In every state the chain can reach by calls, blocks and the activity of other pallets,
  the storage invariant of the pallet holds: receipts and the nesting index agree, ids are below
  their counters, royalty splits are valid, no view pack is empty and auto-renewals are
  scheduled.
\<close>

theorem reachable_invariant:
  assumes "reachable initial_state (chain_step cfg env) s" and "lawful_env cfg env"
  shows "rights_inv cfg s"
  using assms by (rule reachable_rights_inv)

theorem reachable_invariant_witness:
  "rights_inv mock mock_s1 \<and> subscriptions mock_s1 (0, 2) \<noteq> None"
  using reachable_invariant [OF mock_s1_reachable mock_lawful_env] by (simp add: mock_s1_def)

text \<open>
  In a reachable state an entry of the nesting index \<open>Parent\<close> exists exactly when one right
  is backed by that child item, and then by one right only: no child item is leaked, and no two
  rights share one.
\<close>

lemma parent_index_exact:
  assumes "reachable initial_state (chain_step cfg env) s" and "lawful_env cfg env"
  shows "parent s (col, ch) \<noteq> None \<longleftrightarrow>
    (\<exists>!(c, a, rt). (c, a, rt, ch) \<in> receipts s \<and> (\<exists>m. contents s c = Some m \<and> collection_id m = col))"
proof -
  have ok: "receipts_ok (contents s) (receipts s) (parent s) (next_item_id s)"
    using reachable_rights_inv [OF assms] by (simp add: rights_inv_def receipts_inv_def)
  show ?thesis
  proof
    assume "parent s (col, ch) \<noteq> None"
    then obtain c a rt m where r: "(c, a, rt, ch) \<in> receipts s" "contents s c = Some m"
        "collection_id m = col"
      using receipts_okD(3) [OF ok] by blast
    show "\<exists>!(c, a, rt). (c, a, rt, ch) \<in> receipts s \<and> (\<exists>m. contents s c = Some m \<and> collection_id m = col)"
    proof (rule ex1I [of _ "(c, a, rt)"])
      fix q
      assume "case q of (c, a, rt) \<Rightarrow>
        (c, a, rt, ch) \<in> receipts s \<and> (\<exists>m. contents s c = Some m \<and> collection_id m = col)"
      then obtain c' a' rt' m' where q: "q = (c', a', rt')" "(c', a', rt', ch) \<in> receipts s"
          "contents s c' = Some m'" "collection_id m' = col" by (cases q) auto
      have "c' = c" using receipts_okD(4) [OF ok q(3) r(2)] q(4) r(3) by simp
      with receipts_okD(2) [OF ok r(1)] q show "q = (c, a, rt)" by blast
    qed (use r in auto)
  next
    assume "\<exists>!(c, a, rt). (c, a, rt, ch) \<in> receipts s \<and> (\<exists>m. contents s c = Some m \<and> collection_id m = col)"
    then obtain c a rt m where "(c, a, rt, ch) \<in> receipts s" "contents s c = Some m" "collection_id m = col"
      by auto
    with receipts_okD(1) [OF ok] show "parent s (col, ch) \<noteq> None" by fastforce
  qed
qed

lemma parent_index_exact_run:
  "\<exists>!(c, a, rt). (c, a, rt, 3) \<in> receipts mock_s1 \<and>
     (\<exists>m. contents mock_s1 c = Some m \<and> collection_id m = 0)"
proof -
  have "parent mock_s1 (0, 3) \<noteq> None" by (simp add: mock_s1_def)
  with parent_index_exact [OF mock_s1_reachable mock_lawful_env, of 0 3] show ?thesis by blast
qed

section \<open>Refinement of the ledger\<close>

text \<open>
  C2: Every extrinsic refines the ledger specification: a call that succeeds for a signed caller
  was allowed by the ledger, and changes the ledger as the specification says and in no other
  way.
\<close>

theorem dispatch_refines_ledger:
  assumes "reachable initial_state (chain_step cfg env) s" and "lawful_env cfg env"
    and "dispatch cfg (Signed who) act s = Inr (w, s')" and "decodable act"
  shows "ledger_allows who (current_block s) act (ledger_of s) \<and>
    ledger_of s' = ledger_call who (current_block s) act (ledger_of s)"
  using effect_refines [OF dispatch_effect [OF assms(3,4)] reachable_rights_inv [OF assms(1,2)]] .

theorem dispatch_refines_ledger_witness:
  "\<exists>w s'. dispatch mock (Signed 2) (ConsumeView 0) mock_s1 = Inr (w, s') \<and>
     ledger_of s' = use_view 0 2 (ledger_of mock_s1)"
proof -
  obtain w s' where run: "dispatch mock (Signed 2) (ConsumeView 0) mock_s1 = Inr (w, s')"
    by (simp add: mock_s1_def run_simps)
  from dispatch_refines_ledger [OF mock_s1_reachable mock_lawful_env run] run show ?thesis
    by auto
qed

text \<open>
  C5: In a reachable state the free access query answers what the ledger grants: the best right
  the account holds in the order ownership, subscription, pay-per-view, and nothing when it
  holds none.
\<close>

theorem access_query_is_ledger_access:
  assumes "reachable initial_state (chain_step cfg env) s" and "lawful_env cfg env"
  shows "access_rights_of c a s = ledger_access (current_block s) c a (ledger_of s)"
  by (rule access_rights_of_ledger [OF reachable_rights_inv [OF assms]])

theorem access_query_is_ledger_access_witness:
  "ledger_access 5 0 2 (ledger_of mock_s1) = Some Ownership"
  using access_query_is_ledger_access [OF mock_s1_reachable mock_lawful_env, of 0 2]
  by (simp add: access_rights_of_def access_rights_def mock_s1_def current_block_def try_into_u32_def)

section \<open>Payments\<close>

text \<open>
  C6: A payment conserves money and pays everyone their part: on a currency that moves what it
  is told to move, the payer loses exactly the price, and every account gains exactly its
  entries of the payment plan, whose total is the price.
\<close>

theorem payment_conserves_funds:
  assumes "moves_funds cfg bal" and "valid_splits (royalty_splits s c)"
    and "pay_with_royalties cfg payer cr c amount s = Inr (n, s')"
  shows "plan_total (payment_plan cfg cr amount (royalty_splits s c)) = unat amount \<and>
    (\<forall>a. bal (ext s') a + (if a = payer then unat amount else 0) =
       bal (ext s) a + credited (payment_plan cfg cr amount (royalty_splits s c)) a)"
proof -
  let ?plan = "payment_plan cfg cr amount (royalty_splits s c)"
  have bp: "total_basis_points (royalty_splits s c) \<le> 10000"
    using assms(2) by (simp add: valid_splits_def)
  note total = payment_plan_total [OF bp, of cfg cr amount]
  obtain x where x: "transfer_all cfg payer ?plan (ext s) = Inr x" "ext s' = x"
    using pay_with_royalties_plan [OF assms(3) bp] by auto
  show ?thesis unfolding x(2) using transfer_all_balances [OF assms(1) x(1), unfolded total] total by blast
qed

text \<open>The mock work with a collaborator, account 9, who gets a quarter of every payment.\<close>

definition mock_shared :: "(nat, mock_ext) state" where
  "mock_shared = mock_s1\<lparr>royalty_splits :=
     (\<lambda>_. [])(0 := [\<lparr>recipient = 9 # replicate 31 0, basis_points = 2500\<rparr>])\<rparr>"

theorem payment_conserves_funds_witness:
  "\<exists>n s'. pay_with_royalties mock 2 3 0 101 mock_shared = Inr (n, s') \<and>
     balance (ext s') 9 = balance (ext mock_shared) 9 + 25 \<and>
     balance (ext s') 3 = balance (ext mock_shared) 3 + 76"
proof -
  have valid: "valid_splits (royalty_splits mock_shared 0)"
    by (simp add: mock_shared_def valid_splits_def MAX_ROYALTY_SPLITS_def total_basis_points_def)
  have share: "royalty_share 101 2500 = 25"
    by (simp add: royalty_share_def saturating_mul_def)
  obtain n s' where run: "pay_with_royalties mock 2 3 0 101 mock_shared = Inr (n, s')"
    by (simp add: mock_shared_def mock_s1_def run_simps mock_decode_account_def share)
  have plan: "payment_plan mock 3 101 (royalty_splits mock_shared 0) = [(9, 25), (3, 76)]"
    by (simp add: payment_plan_def Let_def mock_shared_def share mock_def mock_decode_account_def)
  note bal = payment_conserves_funds [OF mock_moves_funds valid run, THEN conjunct2, rule_format,
    unfolded plan]
  from run bal [of 9] bal [of 3] show ?thesis by auto
qed

text \<open>
  The share of a royalty recipient is the floor of \<open>basis_points\<close> ten-thousandths of the
  amount as long as the product fits 128 bits; above that the multiplication saturates and the
  share stays at the ten-thousandth part of the largest 128-bit value, whatever the amount.
\<close>

lemma royalty_share_value:
  "unat (royalty_share amount bp) =
     (if unat amount * unat bp < 2 ^ 128 then unat amount * unat bp div 10000 else (2 ^ 128 - 1) div 10000)"
  by (simp add: unat_royalty_share min_def)

section \<open>Safety of holders and creators\<close>

text \<open>
  C16: No step of the chain takes an ownership right, or replaces its child item, except a
  transfer of that very content signed by the holder.
\<close>

theorem ownership_lost_only_by_holder:
  assumes "chain_step cfg env s s'" and "ownership s (c, a) = Some info"
    and "ownership s' (c, a) \<noteq> Some info"
  shows "\<exists>act b. s' = apply_call cfg (Signed a) act s \<and>
    (act = TransferOwnership c b \<or> act = XcmTransferOwnership c a b)"
  using assms by (rule chain_step_ownership_lost)

theorem ownership_lost_only_by_holder_witness:
  "\<exists>act b. apply_call mock (Signed 2) (TransferOwnership 0 7) mock_s1 =
      apply_call mock (Signed 2) act mock_s1 \<and>
    (act = TransferOwnership 0 b \<or> act = XcmTransferOwnership 0 2 b)"
proof (rule ownership_lost_only_by_holder)
  show "chain_step mock (\<lambda>x y. True) mock_s1
      (apply_call mock (Signed 2) (TransferOwnership 0 7) mock_s1)"
    by (rule chain_step.call) simp
  show "ownership mock_s1 (0, 2) = Some \<lparr>own_child_item_id = 3\<rparr>" by (simp add: mock_s1_def)
  show "ownership (apply_call mock (Signed 2) (TransferOwnership 0 7) mock_s1) (0, 2) \<noteq>
      Some \<lparr>own_child_item_id = 3\<rparr>"
    by (simp add: apply_call_def mock_s1_def mock_work_def run_simps)
qed

text \<open>
  C17: A step of the chain that leaves a viewer with fewer views takes exactly one, and is a
  \<open>consume_view\<close> by the viewer or a \<open>consume_view_for\<close> by the account the creator named as meter.
\<close>

theorem views_spent_only_by_viewer_or_meter:
  assumes "chain_step cfg env s s'" and "views (ledger_of s') (c, a) < views (ledger_of s) (c, a)"
  shows "views (ledger_of s) (c, a) = Suc (views (ledger_of s') (c, a)) \<and>
    (s' = apply_call cfg (Signed a) (ConsumeView c) s \<or>
     (\<exists>meter. meters s c = Some meter \<and> s' = apply_call cfg (Signed meter) (ConsumeViewFor c a) s))"
  using assms(1)
proof (cases rule: chain_step_effect)
  case (acted who act)
  from effect_view_spent [OF acted(3) assms(2)] acted(2) show ?thesis by blast
qed (use assms(2) in \<open>simp_all add: ledger_of_def new_block_keeps\<close>)

theorem views_spent_only_by_viewer_or_meter_witness:
  "views (ledger_of mock_s1) (0, 2) =
     Suc (views (ledger_of (apply_call mock (Signed 2) (ConsumeView 0) mock_s1)) (0, 2))"
proof -
  have "chain_step mock (\<lambda>x y. True) mock_s1 (apply_call mock (Signed 2) (ConsumeView 0) mock_s1)"
    by (rule chain_step.call) simp
  moreover have "views (ledger_of (apply_call mock (Signed 2) (ConsumeView 0) mock_s1)) (0, 2) <
      views (ledger_of mock_s1) (0, 2)"
    by (simp add: apply_call_def mock_s1_def mock_work_def run_simps ledger_of_def)
  ultimately show ?thesis
    using views_spent_only_by_viewer_or_meter [of mock "\<lambda>x y. True" mock_s1 _ 0 2] by blast
qed

text \<open>
  C18: No step of the chain removes a subscription, moves its expiry back or changes its child
  item, and auto-renewal is switched on only by a call that the subscriber signs.
\<close>

theorem subscription_kept:
  assumes "chain_step cfg env s s'" and "subscriptions s (c, a) = Some sub"
  shows "\<exists>sub'. subscriptions s' (c, a) = Some sub' \<and> expiry_block sub \<le> expiry_block sub' \<and>
    sub_child_item_id sub' = sub_child_item_id sub \<and>
    (auto_renew sub' \<and> \<not> auto_renew sub \<longrightarrow> (\<exists>act. s' = apply_call cfg (Signed a) act s))"
  using assms(1)
proof (cases rule: chain_step_effect)
  case (acted who act)
  from effect_keeps_subscription [OF acted(3) assms(2)] acted(2) show ?thesis
    by (auto simp: sub_kept_def)
next
  case block
  from new_block_progress [of s "(c, a)" cfg] assms(2) obtain sub' where
    "subscriptions (new_block cfg s) (c, a) = Some sub'" "sub_progress sub sub'"
    by (cases "subscriptions (new_block cfg s) (c, a)") auto
  with block show ?thesis by (auto simp: sub_progress_def)
qed (use assms(2) in auto)

theorem subscription_kept_witness:
  "\<exists>sub'. subscriptions (new_block mock mock_s1) (0, 2) = Some sub' \<and> 205 \<le> expiry_block sub'"
proof -
  have "chain_step mock (\<lambda>x y. True) mock_s1 (new_block mock mock_s1)" by (rule chain_step.block)
  moreover have "subscriptions mock_s1 (0, 2) =
      Some \<lparr>expiry_block = 205, auto_renew = True, sub_child_item_id = 1\<rparr>" by (simp add: mock_s1_def)
  ultimately show ?thesis using subscription_kept by fastforce
qed

text \<open>
  C20: Registered content is immutable: once a content id has metadata in a reachable state, it
  has the same metadata (creator, hash, prices, period, collection) after any number of steps.
\<close>

theorem content_immutable:
  assumes "reachable initial_state (chain_step cfg env) s" and "lawful_env cfg env"
    and "(chain_step cfg env)\<^sup>*\<^sup>* s s'" and "contents s c = Some m"
  shows "contents s' c = Some m"
  using assms(3,4)
proof (induction rule: rtranclp_induct)
  case (step t u)
  have "rights_inv cfg t"
    using chain.inv_steps [OF step.hyps(1)] reachable_rights_inv [OF assms(1,2)] assms(2) by blast
  then have ids: "ids_inv cfg t" by (simp add: rights_inv_def)
  from step.hyps(2) show ?case
    by (cases rule: chain_step_effect)
       (use step.IH [OF step.prems] effect_keeps_contents [OF _ ids] in \<open>auto simp: new_block_keeps\<close>)
qed

theorem content_immutable_witness:
  "contents (new_block mock mock_s1) 0 = Some mock_work"
proof (rule content_immutable [OF mock_s1_reachable mock_lawful_env])
  show "(chain_step mock (\<lambda>x y. counter y = counter x))\<^sup>*\<^sup>* mock_s1 (new_block mock mock_s1)"
    by (rule r_into_rtranclp) (rule chain_step.block)
  show "contents mock_s1 0 = Some mock_work" by (simp add: mock_s1_def)
qed

text \<open>
  C21: The royalty splits and the meter of a content item change only in a call signed by its
  creator.
\<close>

theorem settings_changed_only_by_creator:
  assumes "chain_step cfg env s s'"
    and "royalty_splits s' c \<noteq> royalty_splits s c \<or> meters s' c \<noteq> meters s c"
  shows "\<exists>m act. contents s c = Some m \<and> s' = apply_call cfg (Signed (creator m)) act s"
  using assms(1)
proof (cases rule: chain_step_effect)
  case (acted who act)
  from effect_settings [OF acted(3) assms(2)] acted(2) show ?thesis by blast
qed (use assms(2) in \<open>simp_all add: new_block_keeps\<close>)

theorem settings_changed_only_by_creator_witness:
  "\<exists>m act. contents mock_s1 0 = Some m \<and>
     apply_call mock (Signed 3) (SetMeter 0 (Some 8)) mock_s1 = apply_call mock (Signed (creator m)) act mock_s1"
proof (rule settings_changed_only_by_creator)
  show "chain_step mock (\<lambda>x y. True) mock_s1 (apply_call mock (Signed 3) (SetMeter 0 (Some 8)) mock_s1)"
    by (rule chain_step.call) simp
  show "royalty_splits (apply_call mock (Signed 3) (SetMeter 0 (Some 8)) mock_s1) 0 \<noteq>
        royalty_splits mock_s1 0 \<or>
      meters (apply_call mock (Signed 3) (SetMeter 0 (Some 8)) mock_s1) 0 \<noteq> meters mock_s1 0"
    by (simp add: apply_call_def mock_s1_def mock_work_def run_simps)
qed

section \<open>Auto-renewal\<close>

text \<open>
  C12: No auto-renewal is ever lost: in a reachable state, until the last block number, every
  subscription with auto-renewal on waits in the bucket of a later block.
\<close>

theorem auto_renewal_scheduled:
  assumes "reachable initial_state (chain_step cfg env) s" and "lawful_env cfg env"
    and "block_number s < 2 ^ 32 - 1"
    and "subscriptions s k = Some sub" and "auto_renew sub"
  shows "\<exists>b>current_block s. k \<in> set (renewal_queue s b)"
proof -
  have ri: "renewal_inv cfg s" using reachable_rights_inv [OF assms(1,2)] by (simp add: rights_inv_def)
  then have "auto_renew_index s k \<noteq> None"
    using index_ok_iff [of s k] assms(4,5) by (simp add: renewal_inv_def)
  from renewal_inv_scheduled [OF ri assms(3) this] show ?thesis by (simp add: scheduled_def)
qed

theorem auto_renewal_scheduled_witness:
  "\<exists>b>current_block mock_s1. (0, 2) \<in> set (renewal_queue mock_s1 b)"
  by (rule auto_renewal_scheduled [OF mock_s1_reachable mock_lawful_env,
        of "(0, 2)" "\<lparr>expiry_block = 205, auto_renew = True, sub_child_item_id = 1\<rparr>"])
     (simp_all add: mock_s1_def)

text \<open>
  C11: A block settles every renewal in its bucket. The bucket is empty afterwards, and each entry of
  it met one of the outcomes of \<open>renewal_outcome\<close>. An entry with auto-renewal off is dropped
  and its subscription untouched. An entry that is not due yet is queued again near its expiry. An
  entry that is due and paid for is extended by a period from now on, reported as renewed and queued
  near its new expiry; without a free slot, auto-renewal is switched off and the full queue reported.
  An entry that is due and not paid for has auto-renewal switched off and the reason reported. So no
  subscription stays on auto-renewal without being paid for beyond the block and queued again.
\<close>

theorem block_settles_bucket:
  assumes "reachable initial_state (chain_step cfg env) s" and "lawful_env cfg env"
    and "Suc (block_number s) < 2 ^ 32 - 1" and "(c, a) \<in> set (renewal_queue s (current_block s + 1))"
  shows "renewal_queue (new_block cfg s) (current_block s + 1) = [] \<and>
    renewal_outcome s (new_block cfg s) (current_block s + 1) c a \<and>
    (auto_renew_index (new_block cfg s) (c, a) \<noteq> None \<longrightarrow>
       (\<exists>sub. subscriptions (new_block cfg s) (c, a) = Some sub \<and> current_block s + 1 < expiry_block sub \<and>
          queued_from (renewal_queue (new_block cfg s)) (expiry_block sub) (c, a)))"
proof -
  let ?s = "s\<lparr>block_number := Suc (block_number s)\<rparr>"
  have ri: "renewal_inv cfg s" using reachable_rights_inv [OF assms(1,2)] by (simp add: rights_inv_def)
  have cb: "current_block ?s = current_block s + 1" using assms(3) by (intro current_block_Suc) simp
  have now: "current_block ?s < - 1" using assms(3) by (intro current_block_less) simp
  have pos: "0 < min_auto_renew_period cfg" using assms(2) by (simp add: lawful_env_def lawful_def)
  obtain w where run: "on_initialize cfg ?s = (w, new_block cfg s)" by (rule new_block_frame)
  have idx: "index_ok ?s" using ri by (simp add: renewal_inv_def index_ok_cong [of ?s s])
  have wf: "queue_wf (renewal_queue ?s)" using ri by (simp add: renewal_inv_def)
  have period: "0 < period_length m" if "auto_renew_index ?s (c, a) \<noteq> None" "contents ?s c = Some m" for c a m
  proof -
    have "min_auto_renew_period cfg \<le> period_length m"
      using ri that unfolding renewal_inv_def by fastforce
    with pos show ?thesis by (rule less_le_trans)
  qed
  note bucket = on_initialize_bucket [OF run idx wf period now, unfolded cb]
  have empty: "renewal_queue (new_block cfg s) (current_block s + 1) = []" by (rule bucket(1))
  have out: "renewal_outcome ?s (new_block cfg s) (current_block s + 1) c a"
    using bucket(2) assms(4) by simp
  then have out': "renewal_outcome s (new_block cfg s) (current_block s + 1) c a"
    by (rule renewal_outcome_spares) (simp_all add: spares_def events_grow_def new_block_events)
  have "\<exists>sub. subscriptions (new_block cfg s) (c, a) = Some sub \<and> current_block s + 1 < expiry_block sub \<and>
      queued_from (renewal_queue (new_block cfg s)) (expiry_block sub) (c, a)"
    if on: "auto_renew_index (new_block cfg s) (c, a) \<noteq> None"
    using out
  proof cases
    case (paid sub m expiry)
    have "auto_renew_index ?s (c, a) \<noteq> None" using idx paid(1,2) by (auto simp: index_ok_def)
    from period [OF this paid(4)] now [unfolded cb] have "current_block s + 1 < expiry"
      unfolding paid(5) by (intro saturating_add_gt)
    with paid show ?thesis by simp
  qed (use on in auto)
  with empty out' show ?thesis by blast
qed

theorem block_settles_bucket_witness:
  "renewal_queue (new_block mock (mock_blocks 199)) 205 = [] \<and>
   renewal_outcome (mock_blocks 199) (new_block mock (mock_blocks 199)) 205 0 2"
proof -
  have s: "mock_blocks 199 = mock_s1\<lparr>block_number := 204\<rparr>" by (simp add: mock_blocks_idle)
  have cb: "current_block (mock_blocks 199) + 1 = 205"
    by (simp add: s current_block_def try_into_u32_def)
  have "(0, 2) \<in> set (renewal_queue (mock_blocks 199) 205)" "Suc (block_number (mock_blocks 199)) < 2 ^ 32 - 1"
    unfolding s by (simp_all add: mock_s1_def)
  from block_settles_bucket [OF mock_blocks_reachable mock_lawful_env, of 199 0 2, unfolded cb, OF this(2,1)]
  show ?thesis by blast
qed

text \<open>
  C19: A block never charges more than what is due: whatever happens in the hook, an account
  loses at most the prices of its own subscriptions that are in the bucket of that block, have
  auto-renewal on and have expired, each once.
\<close>

theorem block_debit_bounded:
  assumes "reachable initial_state (chain_step cfg env) s" and "lawful_env cfg env"
    and "moves_funds cfg bal" and "block_number s < 2 ^ 32 - 1"
  shows "bal (ext s) a \<le> bal (ext (new_block cfg s)) a +
    (\<Sum>k\<leftarrow>renewal_queue s (current_block s + 1). renewal_debit s (current_block s + 1) a k)"
proof -
  let ?s = "s\<lparr>block_number := Suc (block_number s)\<rparr>"
  have inv: "rights_inv cfg s" using reachable_rights_inv [OF assms(1,2)] .
  obtain w where run: "on_initialize cfg ?s = (w, new_block cfg s)" by (rule new_block_frame)
  have debit: "renewal_debit ?s now a = renewal_debit s now a" for now
    by (rule HOL.ext, rule renewal_debit_cong) simp_all
  have "splits_inv ?s" "queue_wf (renewal_queue ?s)"
    using inv by (simp_all add: rights_inv_def splits_inv_def renewal_inv_def)
  from on_initialize_debit [OF assms(3) this run, of a] show ?thesis
    by (simp add: debit current_block_Suc [OF assms(4)])
qed

theorem block_debit_bounded_witness:
  "balance (ext (mock_blocks 199)) 2 \<le> balance (ext (new_block mock (mock_blocks 199))) 2 + 100"
proof -
  have s: "mock_blocks 199 = mock_s1\<lparr>block_number := 204\<rparr>" by (simp add: mock_blocks_idle)
  have cb: "current_block (mock_blocks 199) + 1 = 205"
    by (simp add: s current_block_def try_into_u32_def)
  have "(\<Sum>k\<leftarrow>renewal_queue (mock_blocks 199) 205. renewal_debit (mock_blocks 199) 205 2 k) = 100"
    by (simp add: s) (auto simp: mock_s1_def mock_work_def renewal_debit_def renewal_due_def renewal_price_def)
  moreover have "block_number (mock_blocks 199) < 2 ^ 32 - 1" by (simp add: s)
  ultimately show ?thesis
    using block_debit_bounded [OF mock_blocks_reachable mock_lawful_env mock_moves_funds, of 199 2, unfolded cb]
    by metis
qed

text \<open>A bucket refuses an entry when it is full of others.\<close>

definition slot_refused :: "u32 \<times> 'a \<Rightarrow> (u32 \<times> 'a) list \<Rightarrow> bool" where
  "slot_refused e bucket \<longleftrightarrow> e \<notin> set bucket \<and> MAX_RENEWALS_PER_BLOCK \<le> length bucket"

text \<open>
  C40: The search for a slot is first-fit and changes nothing else: it fails, with
  \<open>RenewalQueueFull\<close>, exactly when all of the 100 buckets from the wanted block on refuse the entry;
  otherwise it reports the offset of the first bucket that does not, and the new state is the old
  one with the entry appended to that bucket, unless the bucket has it already.
\<close>

theorem enqueue_renewal_slot:
  "case enqueue_renewal c a at s of
     Inl e \<Rightarrow> e = Pallet RenewalQueueFull \<and>
       (\<forall>i<MAX_RENEWAL_SLOT_SEARCH. slot_refused (c, a) (renewal_queue s (saturating_add at (of_nat i))))
   | Inr (off, s') \<Rightarrow> unat off < MAX_RENEWAL_SLOT_SEARCH \<and>
       (\<forall>i<unat off. slot_refused (c, a) (renewal_queue s (saturating_add at (of_nat i)))) \<and>
       (let slot = saturating_add at off; bucket = renewal_queue s slot in
        \<not> slot_refused (c, a) bucket \<and>
        s' = s\<lparr>renewal_queue := (renewal_queue s)(slot := if (c, a) \<in> set bucket then bucket else bucket @ [(c, a)])\<rparr>)"
proof -
  have none: "place_in_bucket e b = None \<longleftrightarrow> slot_refused e b" for e :: "u32 \<times> 'a" and b
    unfolding place_in_bucket_None slot_refused_def by auto
  show ?thesis
  proof (cases "enqueue_renewal c a at s")
    case (Inl e)
    with enqueue_search_first_fit [where c = c and a = a and start = "at" and s = s and offs = "[0..<MAX_RENEWAL_SLOT_SEARCH]", folded enqueue_renewal_def]
    show ?thesis by (simp add: none)
  next
    case (Inr r)
    obtain off s' where r: "r = (off, s')" by (cases r)
    from Inr [unfolded r] obtain i bucket where run: "i < MAX_RENEWAL_SLOT_SEARCH" "off = of_nat i"
      "\<And>j. j < i \<Longrightarrow> slot_refused (c, a) (renewal_queue s (saturating_add at (of_nat j)))"
      "place_in_bucket (c, a) (renewal_queue s (saturating_add at off)) = Some bucket"
      "s' = s\<lparr>renewal_queue := (renewal_queue s)(saturating_add at off := bucket)\<rparr>"
      by (rule enqueue_renewal_first_fit) (simp add: none)
    have "unat off = i" using run(1,2) by (simp add: unat_of_nat MAX_RENEWAL_SLOT_SEARCH_def)
    moreover have "\<not> slot_refused (c, a) (renewal_queue s (saturating_add at off))"
      using run(4) none by (metis option.distinct(1))
    moreover have "bucket = (if (c, a) \<in> set (renewal_queue s (saturating_add at off)) then renewal_queue s (saturating_add at off)
        else renewal_queue s (saturating_add at off) @ [(c, a)])"
      using run(4) by (auto simp: place_in_bucket_def split: if_splits)
    ultimately show ?thesis using run(1,3,5) unfolding Inr r Let_def sum.case prod.case by simp
  qed
qed

text \<open>Ten other entries in block 5: the entry goes to block 6.\<close>

definition mock_crowded :: "(nat, mock_ext) state" where
  "mock_crowded = mock_s1\<lparr>renewal_queue := (\<lambda>b. if b = 5 then map (\<lambda>i. (0, i)) [10..<20] else [])\<rparr>"

theorem enqueue_renewal_slot_witness:
  "\<exists>s'. enqueue_renewal 0 2 5 mock_crowded = Inr (1, s') \<and> renewal_queue s' 6 = [(0, 2)] \<and>
     renewal_queue s' 5 = renewal_queue mock_crowded 5"
proof -
  have slots: "saturating_add 5 (0 :: u32) = 5" "saturating_add 5 (1 :: u32) = 6" by (simp_all add: saturating_add_def)
  have refused: "slot_refused (0, 2) (renewal_queue mock_crowded 5)" "\<not> slot_refused (0, 2) (renewal_queue mock_crowded 6)"
    by (simp_all add: mock_crowded_def slot_refused_def MAX_RENEWALS_PER_BLOCK_def)
  note spec = enqueue_renewal_slot [where c = 0 and a = 2 and s = mock_crowded, of 5]
  show ?thesis
  proof (cases "enqueue_renewal 0 2 5 mock_crowded")
    case (Inl e)
    with spec have "\<forall>i<100. slot_refused (0, 2) (renewal_queue mock_crowded (saturating_add 5 (of_nat i)))"
      by (simp add: MAX_RENEWAL_SLOT_SEARCH_def)
    from this [rule_format, of 1] refused slots show ?thesis by simp
  next
    case (Inr r)
    obtain off s' where r: "r = (off, s')" by (cases r)
    note placed = spec [unfolded Inr r sum.case prod.case Let_def]
    have "\<not> 1 < unat off" using placed refused(2) slots(2) by (metis of_nat_1)
    moreover have "off \<noteq> 0" using placed refused(1) slots(1) by metis
    ultimately have "unat off = 1" by (cases "unat off") (auto simp: unat_eq_0)
    then have "off = 1" by (metis unat_1 word_unat_eq_iff)
    with placed Inr r slots(2) show ?thesis by (simp add: mock_crowded_def)
  qed
qed

section \<open>Weight\<close>

text \<open>
  Refunds only: the weight a call reports after its dispatch is never more than the weight
  it was charged before, whatever the royalty splits of the content are.
\<close>

lemma reported_weight_within_charge:
  assumes "reachable initial_state (chain_step cfg env) s" and "lawful_env cfg env"
    and "weights cfg = SubstrateWeight db"
    and "dispatch cfg (Signed who) act s = Inr (Some w, s')"
  shows "w \<le> call_weight cfg act"
proof -
  have "splits_inv s" using reachable_rights_inv [OF assms(1,2)] by (simp add: rights_inv_def)
  from substrate.reported_le_charged [OF assms(4) this assms(3)] show ?thesis .
qed

theorem reported_weight_within_charge_witness:
  "\<exists>w s'. dispatch mock (Signed 4) (Subscribe 0) mock_s1 = Inr (Some w, s') \<and>
     w \<le> call_weight mock (Subscribe 0)"
proof -
  obtain w s' where run: "dispatch mock (Signed 4) (Subscribe 0) mock_s1 = Inr (Some w, s')"
    by (simp add: mock_s1_def mock_work_def run_simps)
  moreover have "weights mock = SubstrateWeight frame_rocks_db_weight" by (simp add: mock_def)
  ultimately show ?thesis
    using reported_weight_within_charge [OF mock_s1_reachable mock_lawful_env] by blast
qed

section \<open>Variants, views and metadata\<close>

text \<open>
  C29: The cross-chain extrinsics are the local ones with a separate payer: when the beneficiary
  is the caller, each has the same errors and the same final state as its local counterpart,
  up to the event that names it and its weight.
\<close>

theorem xcm_variants_agree:
  "outcome (xcm_subscribe cfg (Signed a) c a s) = outcome (subscribe cfg (Signed a) c s) \<and>
   outcome (xcm_renew_subscription cfg (Signed a) c a s) = outcome (renew_subscription cfg (Signed a) c s) \<and>
   outcome (xcm_purchase_views cfg (Signed a) c a n s) = outcome (purchase_views cfg (Signed a) c n s) \<and>
   outcome (xcm_purchase_ownership cfg (Signed a) c a s) = outcome (purchase_ownership cfg (Signed a) c s) \<and>
   and_then (xcm_transfer_ownership cfg (Signed a) c a b s) (\<lambda>s. Inr (unlabelled s)) =
     and_then (transfer_ownership cfg (Signed a) c b s) (\<lambda>s. Inr (unlabelled s))"
  by (simp only: subscribe_outcome renew_subscription_outcome purchase_views_outcome
      purchase_ownership_outcome transfer_ownership_outcome simp_thms)

text \<open>
  C28: Views can be consumed exactly as often as they were bought, in closed form: with \<open>v\<close> views left,
  every run of fewer than \<open>v\<close> consumptions succeeds, whatever the other pallets do, lowers the pack by
  its length and changes nothing else but the events, one for each view. A run of \<open>v\<close> consumptions
  succeeds exactly when \<open>pallet_nfts\<close> burns the item of the pack, and then the pack and its entry in
  the nesting index are gone; otherwise it fails with the error of the burn. A longer run never
  succeeds: after the last view there is no pack.
\<close>

theorem views_consumed_exactly:
  assumes "reachable initial_state (chain_step cfg env) s" and "lawful_env cfg env"
    and "view_packs s (c, a) = Some pack" and "contents s c = Some m"
    and "v = views_remaining pack" and "item = (collection_id m, pack_child_item_id pack)"
  shows "consume_views cfg c a n s =
    (if n < unat v then
       Inr (s\<lparr>view_packs := (view_packs s)((c, a) \<mapsto> pack\<lparr>views_remaining := v - of_nat n\<rparr>),
              events := events s @ view_events c a v n\<rparr>)
     else
       and_then (nfts_do_burn cfg (fst item) (snd item) (ext s)) (\<lambda>x.
       if n = unat v then
         Inr (s\<lparr>view_packs := (view_packs s)((c, a) := None), parent := (parent s)(item := None),
                events := events s @ view_events c a v n, ext := x\<rparr>)
       else Inl (Pallet ViewPackNotFound)))"
proof -
  have "packs_inv s" using reachable_rights_inv [OF assms(1,2)] by (simp add: rights_inv_def)
  with assms(3) have "0 < views_remaining pack" by (auto simp: packs_inv_def)
  from consume_views_closed [OF assms(3) this assms(4-6)] show ?thesis .
qed

text \<open>Account 2 uses its three views; a fourth is refused.\<close>

theorem views_consumed_exactly_witness:
  "(\<exists>s'. consume_views mock 0 2 3 mock_s1 = Inr s' \<and> view_packs s' (0, 2) = None \<and> parent s' (0, 2) = None) \<and>
   consume_views mock 0 2 4 mock_s1 = Inl (Pallet ViewPackNotFound)"
proof -
  have pack: "view_packs mock_s1 (0, 2) = Some \<lparr>views_remaining = 3, pack_child_item_id = 2\<rparr>"
    "contents mock_s1 0 = Some mock_work" "collection_id mock_work = 0"
    by (simp_all add: mock_s1_def mock_work_def)
  have burn: "nfts_do_burn mock 0 2 (ext mock_s1) = Inr ((ext mock_s1)\<lparr>items := [(0, 3), (0, 1), (0, 0)]\<rparr>)"
    by (simp add: mock_s1_def mock_simps)
  note run = views_consumed_exactly [OF mock_s1_reachable mock_lawful_env pack(1,2) refl refl, unfolded pack(3)]
  from run [of 3] run [of 4] burn show ?thesis by simp
qed

text \<open>
  C34: A pack whose item cannot be burnt never ends. As long as \<open>pallet_nfts\<close> refuses to burn the item
  (as it does once the holder has burnt it there), whatever calls, blocks and other activity follow,
  the account keeps the pack with at least one view, and with it access to the content. With one view
  left, every attempt to consume it fails with the error of the burn, by the viewer as by the meter.
\<close>

theorem unburnable_pack_never_ends:
  assumes "reachable initial_state (chain_step cfg env) s" and "lawful_env cfg env"
    and "view_packs s (c, a) = Some pack" and "contents s c = Some m"
    and "item = (collection_id m, pack_child_item_id pack)"
    and "(\<lambda>u u'. chain_step cfg env u u' \<and> burn_refused cfg item u)\<^sup>*\<^sup>* s t"
  shows "\<exists>pack'. view_packs t (c, a) = Some pack' \<and> 0 < views_remaining pack' \<and>
    access_rights_of c a t \<noteq> None \<and>
    (\<forall>e. views_remaining pack' = 1 \<longrightarrow> nfts_do_burn cfg (fst item) (snd item) (ext t) = Inl e \<longrightarrow>
       consume_view cfg (Signed a) c t = Inl e \<and>
       (\<forall>who. meters t c = Some who \<longrightarrow> consume_view_for cfg (Signed who) c a t = Inl e))"
proof -
  have "rights_inv cfg t \<and> contents t c = Some m \<and>
      (\<exists>pack'. view_packs t (c, a) = Some pack' \<and> pack_child_item_id pack' = pack_child_item_id pack)"
    using assms(6)
  proof (induction rule: rtranclp_induct)
    case base
    with assms(1-4) reachable_rights_inv show ?case by blast
  next
    case (step u u')
    then obtain pack' where u: "rights_inv cfg u" "contents u c = Some m" "view_packs u (c, a) = Some pack'"
        "pack_child_item_id pack' = pack_child_item_id pack" and next_step: "chain_step cfg env u u'"
        "burn_refused cfg (collection_id m, pack_child_item_id pack') u"
      by (auto simp: assms(5))
    have "rights_inv cfg u'" using chain_step_rights_inv [OF next_step(1) assms(2) u(1)] .
    moreover have "contents u' c = Some m"
      using chain_step_contents [OF next_step(1) u(1,2)] .
    ultimately show ?case using refused_pack_step [OF next_step(1) u(3,2) next_step(2)] u(4) by auto
  qed
  then obtain pack' where t: "rights_inv cfg t" "contents t c = Some m" "view_packs t (c, a) = Some pack'"
      "pack_child_item_id pack' = pack_child_item_id pack" by blast
  have pos: "0 < views_remaining pack'" using t(1,3) by (auto simp: rights_inv_def packs_inv_def)
  then have "access_rights_of c a t \<noteq> None" using t(2,3) by (simp add: access_rights_of_def access_rights_def)
  with t pos last_view_refused [OF t(3) _ t(2)] show ?thesis by (auto simp: assms(5))
qed

text \<open>Account 2 burns the item of its pack in \<open>pallet_nfts\<close>, uses two views, and keeps the third.\<close>

definition mock_burnt :: "(nat, mock_ext) state" where
  "mock_burnt = mock_s1\<lparr>ext := (ext mock_s1)\<lparr>items := [(0, 3), (0, 1), (0, 0)]\<rparr>\<rparr>"

definition mock_viewed :: "(nat, mock_ext) state" where
  "mock_viewed = apply_call mock (Signed 2) (ConsumeView 0) (apply_call mock (Signed 2) (ConsumeView 0) mock_burnt)"

theorem unburnable_pack_never_ends_witness:
  "consume_view mock (Signed 2) 0 mock_viewed = Inl (External 2) \<and> access_rights_of 0 2 mock_viewed \<noteq> None"
proof -
  let ?env = "\<lambda>x x'. counter x' = counter x"
  let ?t = "apply_call mock (Signed 2) (ConsumeView 0) mock_burnt"
  have reach: "reachable initial_state (chain_step mock ?env) mock_burnt"
    unfolding mock_burnt_def
    by (rule reachable.reach_step [OF mock_s1_reachable chain_step.other]) simp
  have pack: "view_packs mock_burnt (0, 2) = Some \<lparr>views_remaining = 3, pack_child_item_id = 2\<rparr>"
    "contents mock_burnt 0 = Some mock_work" "collection_id mock_work = 0"
    by (simp_all add: mock_burnt_def mock_s1_def mock_work_def)
  have refused: "nfts_do_burn mock 0 2 (ext u) = Inl (External 2)" if "u \<in> {mock_burnt, ?t, mock_viewed}" for u
    using that by (auto simp: mock_viewed_def mock_burnt_def mock_s1_def mock_work_def apply_call_def run_simps)
  have steps: "(\<lambda>u u'. chain_step mock ?env u u' \<and> burn_refused mock (0, 2) u)\<^sup>*\<^sup>* mock_burnt mock_viewed"
    unfolding mock_viewed_def
    by (rule converse_rtranclp_into_rtranclp [where b = ?t]; (rule r_into_rtranclp)?)
       (simp_all add: refused burn_refused_def chain_step.call)
  have one: "view_packs mock_viewed (0, 2) = Some \<lparr>views_remaining = 1, pack_child_item_id = 2\<rparr>"
    by (simp add: mock_viewed_def mock_burnt_def mock_s1_def mock_work_def apply_call_def run_simps)
  from unburnable_pack_never_ends [OF reach mock_lawful_env pack(1,2) refl, unfolded pack(3), of mock_viewed]
  show ?thesis using steps one refused [of mock_viewed] by simp
qed

text \<open>
  The metadata query deposits exactly the rights the storage holds for the account.
\<close>

lemma metadata_query_exact:
  assumes "reachable initial_state (chain_step cfg env) s" and "lawful_env cfg env"
    and "query_rights_metadata cfg (Signed who) c s = Inr (w, s')"
  shows "\<exists>md. events s' = events s @ [RightsMetadataQueried c md] \<and>
    unat (md_royalty_total_basis_points md) = total_basis_points (royalty_splits s c) \<and>
    unat (md_num_collaborators md) = length (royalty_splits s c)"
proof -
  have valid: "valid_splits (royalty_splits s c)"
    using reachable_rights_inv [OF assms(1,2)] by (simp add: rights_inv_def splits_inv_def)
  have "unat (sum_list (map basis_points (royalty_splits s c))) = total_basis_points (royalty_splits s c)"
    using valid by (intro unat_sum_list_basis_points) (simp add: valid_splits_def)
  moreover have "unat (of_nat (length (royalty_splits s c)) :: u8) = length (royalty_splits s c)"
    using valid by (simp add: valid_splits_def MAX_ROYALTY_SPLITS_def unat_of_nat)
  ultimately show ?thesis
    using assms(3) by (auto simp: query_rights_metadata_def Let_def result_simps deposit_event_def)
qed

section \<open>Errors\<close>

text \<open>
  No extrinsic accepts an unsigned origin.
\<close>

lemma unsigned_rejected:
  assumes "\<forall>who. og \<noteq> Signed who"
  shows "dispatch cfg og act s = Inl BadOrigin \<and> apply_call cfg og act s = s"
  by (simp add: apply_call_def dispatch_unsigned [OF assms])

text \<open>
  Only the right account may act for another: a cross-chain transfer not signed by the
  holder, a metered consumption not signed by the meter, and settings not signed by the creator
  all fail and change nothing, in every state.
\<close>

lemma unauthorized_rejected:
  "(who = holder \<or> dispatch cfg (Signed who) (XcmTransferOwnership c holder b) s = Inl (Pallet Unauthorized)) \<and>
   (meters s c = Some who \<or> dispatch cfg (Signed who) (ConsumeViewFor c a) s = Inl (Pallet Unauthorized)) \<and>
   (case contents s c of
      None \<Rightarrow> dispatch cfg (Signed who) (SetRoyaltySplits c sps) s = Inl (Pallet ContentNotFound) \<and>
              dispatch cfg (Signed who) (SetMeter c m) s = Inl (Pallet ContentNotFound)
    | Some content \<Rightarrow> who = creator content \<or>
        dispatch cfg (Signed who) (SetRoyaltySplits c sps) s = Inl (Pallet NotContentCreator) \<and>
        dispatch cfg (Signed who) (SetMeter c m) s = Inl (Pallet NotContentCreator))"
  by (cases "who = holder"; cases "meters s c = Some who"; cases "contents s c")
     (simp_all add: no_post_info_def unauthorized_calls disj_imp)

text \<open>
  Royalty splits are accepted exactly when they are valid: a creator's call with at most ten
  splits succeeds if and only if the basis points, summed without wrap-around, are at most
  10,000, and otherwise fails with \<open>InvalidRoyaltySplits\<close>.
\<close>

lemma royalty_splits_validated:
  assumes "contents s c = Some m" and "decodable (SetRoyaltySplits c sps)"
  shows "dispatch cfg (Signed (creator m)) (SetRoyaltySplits c sps) s =
    (if total_basis_points sps \<le> 10000
     then Inr (None, deposit_event (RoyaltySplitsUpdated c (creator m) (of_nat (length sps)))
            (s\<lparr>royalty_splits := (royalty_splits s)(c := sps)\<rparr>))
     else Inl (Pallet InvalidRoyaltySplits))"
proof -
  have "length sps \<le> unat MAX_ROYALTY_SPLITS" using assms(2) by simp
  from unat_sum_basis_points [OF this] assms(1) show ?thesis
    by (simp add: set_royalty_splits_def no_post_info_def Let_def word_le_nat_alt fun_upd_def)
qed

theorem royalty_splits_validated_witness:
  "dispatch mock (Signed 3)
     (SetRoyaltySplits 0 [\<lparr>recipient = replicate 32 1, basis_points = 60000\<rparr>]) mock_s1 =
   Inl (Pallet InvalidRoyaltySplits)"
  using royalty_splits_validated [of mock_s1 0 mock_work
      "[\<lparr>recipient = replicate 32 1, basis_points = 60000\<rparr>]" mock]
  by (simp add: mock_s1_def mock_work_def MAX_ROYALTY_SPLITS_def total_basis_points_def
      del: dispatch.simps)

end
