(* ===== verification/Rights_Termination.thy ===== *)
theory Rights_Termination
  imports Rights_Charges Mock_Chain
begin

text \<open>
  Auto-renewal ends when nobody pays for it. An account with a standing renewal that earns nothing
  on the chain is charged at each renewal until it cannot pay, and the hook then switches the
  renewal off. The argument is a potential: the latest block in which the entry is due plus one
  period per renewal that the account can still afford. A block never raises it, and the entry is
  always due before it.
\<close>

section \<open>Accounts without income\<close>

definition earns_nothing :: "('a, 'x) config \<Rightarrow> 'a \<Rightarrow> ('a, 'x) state \<Rightarrow> bool" where
  "earns_nothing cfg a s \<longleftrightarrow>
     (\<forall>m\<in>ran (contents s). creator m \<noteq> a) \<and>
     (\<forall>c. \<forall>sp\<in>set (royalty_splits s c). decode_account cfg (recipient sp) \<noteq> Some a)"

lemma split_plan_credits:
  assumes "\<forall>sp\<in>set splits. decode_account cfg (recipient sp) \<noteq> Some a"
  shows "credited (split_plan cfg amount splits) a = 0"
  using assms by (induction splits) (auto simp: Let_def split: option.splits)

lemma payment_plan_credits:
  assumes "cr \<noteq> a" and "\<forall>sp\<in>set splits. decode_account cfg (recipient sp) \<noteq> Some a"
  shows "credited (payment_plan cfg cr amount splits) a = 0"
  using assms by (simp add: payment_plan_def Let_def split_plan_credits)

lemma renewal_payment:
  assumes law: "moves_funds cfg bal" and "splits_inv s" and "earns_nothing cfg a s"
    and "contents s c = Some m"
    and "pay_with_royalties cfg payer (creator m) c amount s = Inr (n, s')"
  shows "bal (ext s') a + (if a = payer then unat amount else 0) = bal (ext s) a"
proof -
  have bp: "total_basis_points (royalty_splits s c) \<le> 10000"
    using assms(2) by (auto simp: splits_inv_def valid_splits_def)
  let ?plan = "payment_plan cfg (creator m) amount (royalty_splits s c)"
  obtain x where x: "transfer_all cfg payer ?plan (ext s) = Inr x" and "ext s' = x"
    using pay_with_royalties_plan [OF assms(5) bp] by auto
  moreover have "credited ?plan a = 0"
    using assms(3,4) by (intro payment_plan_credits) (auto simp: earns_nothing_def ran_def)
  ultimately show ?thesis
    using transfer_all_balances [OF law x, of a] payment_plan_total [OF bp, of cfg "creator m" amount]
    by (simp split: if_splits)
qed

section \<open>The potential\<close>

text \<open>
  Block \<open>now\<close> is being processed and the entries \<open>due\<close> are still to be visited: an entry \<open>k\<close> that
  is indexed is due by block \<open>d\<close>, and would also be if it had to be queued again at its expiry.
\<close>

definition due_by :: "u32 \<Rightarrow> (u32 \<times> 'a) list \<Rightarrow> u32 \<times> 'a \<Rightarrow> nat \<Rightarrow> ('a, 'x) state \<Rightarrow> bool" where
  "due_by now due k d s \<longleftrightarrow>
     unat now \<le> d \<and>
     (\<forall>sub. subscriptions s k = Some sub \<longrightarrow> unat (expiry_block sub) + MAX_RENEWAL_SLOT_SEARCH \<le> Suc d) \<and>
     (k \<in> set due \<or> (\<exists>b. now < b \<and> unat b \<le> d \<and> k \<in> set (renewal_queue s b)))"

definition renewal_budget :: "nat \<Rightarrow> nat \<Rightarrow> u32 \<Rightarrow> nat" where
  "renewal_budget funds price len = (funds div price) * (unat len + MAX_RENEWAL_SLOT_SEARCH)"

lemma renewal_budget_mono: "f \<le> g \<Longrightarrow> renewal_budget f p l \<le> renewal_budget g p l"
  unfolding renewal_budget_def by (intro mult_le_mono1 div_le_mono)

lemma renewal_budget_paid:
  assumes "g + p = f" and "0 < p"
  shows "renewal_budget g p l + (unat l + MAX_RENEWAL_SLOT_SEARCH) = renewal_budget f p l"
proof -
  have "f div p = Suc (g div p)" using assms by (auto simp: div_add_self2)
  then show ?thesis by (simp add: renewal_budget_def)
qed

lemma enqueue_renewal_by:
  assumes "enqueue_renewal c a at s = Inr (off, s')" and "unat at + MAX_RENEWAL_SLOT_SEARCH \<le> Suc d"
    and "d < 2 ^ 32 - 1" and "now < at"
  shows "\<exists>b. now < b \<and> unat b \<le> d \<and> (c, a) \<in> set (renewal_queue s' b)"
proof (intro exI conjI)
  have off: "unat off < MAX_RENEWAL_SLOT_SEARCH"
    using rq.enqueue_window [of "(c, a)" at s] assms(1) by simp
  show "now < saturating_add at off" using assms(4) saturating_add_ge by (rule less_le_trans)
  show "unat (saturating_add at off) \<le> d" using off assms(2,3) by (simp add: machine_arith)
  show "(c, a) \<in> set (renewal_queue s' (saturating_add at off))"
    using rq.enqueue_places [of "(c, a)" at s] assms(1) by simp
qed

lemma renew_one_keeps_bucket:
  assumes "renew_one cfg now (c, a) (s, sp) = (s', sp')"
  shows "set (renewal_queue s b) \<subseteq> set (renewal_queue s' b)"
  using assms
proof (cases rule: renew_one_cases)
  case (requeue sub off)
  then show ?thesis using rq.enqueue_keeps [of "(c, a)" "expiry_block sub" s] by simp
next
  case (renew sub content n s1)
  note paid = only_ext_events_storage [OF pay_with_royalties_frame [OF renew(5), THEN conjunct2]]
  show ?thesis
  proof (cases rule: finish_renewal_cases [of c a now "period_length content" s1, case_names q st])
    case (q off)
    then show ?thesis
      using rq.enqueue_keeps [of "(c, a)" "saturating_add now (period_length content)"] renew(6)
      by (fastforce simp: paid)
  qed (use renew(6) in \<open>simp add: paid\<close>)
qed auto

text \<open>
  One iteration: as long as \<open>k\<close> stays indexed, it is due by a block whose potential is not larger.
\<close>

lemma renew_one_potential:
  assumes run: "renew_one cfg now e (s, sp) = (s', sp')"
    and law: "moves_funds cfg bal" and splits: "splits_inv s" and poor: "earns_nothing cfg a s"
    and con: "contents s c = Some m" "0 < period_length m" "0 < subscription_price m"
    and due: "due_by now (e # due) (c, a) d s"
    and on: "auto_renew_index s' (c, a) \<noteq> None"
    and pot: "d + renewal_budget (bal (ext s) a) (unat (subscription_price m)) (period_length m) = p"
      "p < 2 ^ 32 - 1"
  shows "\<exists>d'. due_by now due (c, a) d' s' \<and>
    d' + renewal_budget (bal (ext s') a) (unat (subscription_price m)) (period_length m) \<le> p"
proof -
  let ?price = "unat (subscription_price m)" and ?len = "period_length m"
  obtain c' a' where e: "e = (c', a')" by (cases e)
  have keeps: "k \<in> set (renewal_queue s b) \<Longrightarrow> k \<in> set (renewal_queue s' b)" for k b
    using renew_one_keeps_bucket [OF run [unfolded e]] by blast
  show ?thesis
  proof (cases "e = (c, a)")
    case False
    have "bal (ext s') a \<le> bal (ext s) a"
      using run [unfolded e]
    proof (cases rule: renew_one_cases)
      case (renew sub content n s1)
      from renewal_payment [OF law splits poor renew(4,5)] renew(6) show ?thesis
        by (simp add: finish_renewal_ext)
    next
      case (requeue sub off)
      then show ?thesis by (auto elim!: enqueue_renewal_cases)
    qed (simp_all add: stop_auto_renew_def update_subscription_def Let_def)
    from renewal_budget_mono [OF this, of ?price ?len]
    have "d + renewal_budget (bal (ext s') a) ?price ?len \<le> p" using pot(1) by linarith
    moreover have "due_by now due (c, a) d s'"
      using due False renew_one_other [OF run [unfolded e], of "(c, a)"] keeps e
      unfolding due_by_def by auto
    ultimately show ?thesis by blast
  next
    case True
    have small: "d < 2 ^ 32 - 1" using pot by linarith
    from run [unfolded True] show ?thesis
    proof (cases rule: renew_one_cases)
      case (requeue sub off)
      have "\<exists>b. now < b \<and> unat b \<le> d \<and> (c, a) \<in> set (renewal_queue s' b)"
        using due requeue(1) by (intro enqueue_renewal_by [OF requeue(4) _ small requeue(3)]) (auto simp: due_by_def)
      then have "due_by now due (c, a) d s'"
        using due by (auto simp: due_by_def enqueue_renewal_simps [OF requeue(4)])
      moreover have "ext s' = ext s" using requeue(4) by (auto elim!: enqueue_renewal_cases)
      ultimately show ?thesis using pot(1) by auto
    next
      case (renew sub content n s1)
      have content: "content = m" using renew(4) con(1) by simp
      let ?d' = "unat now + (unat ?len + MAX_RENEWAL_SLOT_SEARCH)"
      have bal: "bal (ext s') a + ?price = bal (ext s) a"
        using renewal_payment [OF law splits poor renew(4,5)] renew(6) content
        by (simp add: finish_renewal_ext)
      have "0 < ?price" using con(3) by (simp add: word_less_nat_alt)
      from renewal_budget_paid [OF bal this, of ?len]
      have le: "?d' + renewal_budget (bal (ext s') a) ?price ?len \<le> p"
        using pot(1) due by (simp add: due_by_def)
      then have fits: "?d' < 2 ^ 32 - 1" using pot(2) by linarith
      have expiry: "unat (saturating_add now ?len) = unat now + unat ?len"
        using fits by (simp add: machine_arith)
      have later: "now < saturating_add now ?len"
        using con(2) expiry by (simp add: word_less_nat_alt)
      note paid = only_ext_events_storage [OF pay_with_royalties_frame [OF renew(5), THEN conjunct2]]
      have "due_by now due (c, a) ?d' s'"
      proof (cases rule: finish_renewal_cases [of c a now ?len s1, case_names q st])
        case (q off)
        have "\<exists>b. now < b \<and> unat b \<le> ?d' \<and> (c, a) \<in> set (renewal_queue s' b)"
          using enqueue_renewal_by [OF q _ fits later] expiry renew(6) content by simp
        moreover have "subscriptions s' (c, a) = Some (sub\<lparr>expiry_block := saturating_add now ?len\<rparr>)"
          using renew(1,6) content by (simp add: enqueue_renewal_simps [OF q] paid)
        ultimately show ?thesis by (auto simp: due_by_def expiry)
      next
        case st
        with on renew(6) content show ?thesis by simp
      qed
      with le show ?thesis by blast
    qed (use on in auto)
  qed
qed

lemma renew_one_stays_off:
  assumes "renew_one cfg now e (s, sp) = (s', sp')" and "auto_renew_index s k = None"
  shows "auto_renew_index s' k = None"
proof (cases "e = k")
  case True
  with renew_one_not_indexed(1) [OF assms(1)] assms(2) show ?thesis by simp
next
  case False
  obtain c a where "e = (c, a)" by (cases e)
  with renew_one_other [of cfg now c a s sp s' sp' k] assms False show ?thesis by simp
qed

lemma renew_fold_potential:
  assumes law: "moves_funds cfg bal" and "fold (renew_one cfg now) due (s, sp) = (s', sp')"
    and "splits_inv s" and "earns_nothing cfg a s"
    and "contents s c = Some m" and pos: "0 < period_length m" "0 < subscription_price m"
    and "auto_renew_index s (c, a) \<noteq> None \<Longrightarrow> due_by now due (c, a) d s"
    and "auto_renew_index s' (c, a) \<noteq> None"
    and "d + renewal_budget (bal (ext s) a) (unat (subscription_price m)) (period_length m) \<le> p"
    and "p < 2 ^ 32 - 1"
  shows "\<exists>d'. due_by now [] (c, a) d' s' \<and>
    d' + renewal_budget (bal (ext s') a) (unat (subscription_price m)) (period_length m) \<le> p"
  using assms
proof (induction due arbitrary: s sp d)
  case Nil
  then show ?case by auto
next
  case (Cons e due)
  let ?pot = "\<lambda>d s. d + renewal_budget (bal (ext s) a) (unat (subscription_price m)) (period_length m)"
  obtain c' a' where e: "e = (c', a')" by (cases e)
  obtain t tp where t: "renew_one cfg now e (s, sp) = (t, tp)" by (cases "renew_one cfg now e (s, sp)")
  note frame = renewal_frame_simps [OF renew_one_frame [OF t [unfolded e]]]
  have static: "splits_inv t" "earns_nothing cfg a t" "contents t c = Some m"
    using Cons.prems(3-5) by (simp_all add: splits_inv_def earns_nothing_def frame)
  have rest: "fold (renew_one cfg now) due (t, tp) = (s', sp')" using Cons.prems(2) t by simp
  note ih = Cons.IH [OF law rest static pos]
  show ?case
  proof (cases "auto_renew_index t (c, a) = None")
    case True
    have off: "auto_renew_index s' (c, a) = None"
      by (rule renew_fold_induct [OF rest, where P = "\<lambda>t. auto_renew_index t (c, a) = None"])
         (rule True, erule (1) renew_one_stays_off)
    with Cons.prems(9) show ?thesis by simp
  next
    case False
    then have "auto_renew_index s (c, a) \<noteq> None"
      by (rule contrapos_nn) (rule renew_one_stays_off [OF t])
    then have "due_by now (e # due) (c, a) d s" by (rule Cons.prems(8))
    moreover have "?pot d s < 2 ^ 32 - 1" using Cons.prems(10,11) by linarith
    ultimately obtain d' where d': "due_by now due (c, a) d' t" "?pot d' t \<le> ?pot d s"
      using renew_one_potential [OF t law Cons.prems(3-7) _ False refl] by blast
    show ?thesis
      by (rule ih [OF d'(1) Cons.prems(9) order_trans [OF d'(2) Cons.prems(10)] Cons.prems(11)])
  qed
qed

section \<open>Blocks\<close>

lemma new_block_potential:
  assumes law: "moves_funds cfg bal" and "splits_inv s" and "earns_nothing cfg a s"
    and con: "contents s c = Some m" "0 < period_length m" "0 < subscription_price m"
    and due: "due_by (current_block s) [] (c, a) d s" and small: "block_number s < 2 ^ 32 - 1"
    and on: "auto_renew_index (new_block cfg s) (c, a) \<noteq> None"
    and pot: "d + renewal_budget (bal (ext s) a) (unat (subscription_price m)) (period_length m) \<le> p"
      "p < 2 ^ 32 - 1"
  shows "\<exists>d'. due_by (current_block s + 1) [] (c, a) d' (new_block cfg s) \<and>
    d' + renewal_budget (bal (ext (new_block cfg s)) a) (unat (subscription_price m)) (period_length m) \<le> p"
proof -
  let ?s = "s\<lparr>block_number := Suc (block_number s)\<rparr>" and ?now = "current_block s + 1"
  let ?t = "?s\<lparr>renewal_queue := (renewal_queue s)(?now := [])\<rparr>"
  obtain w where "on_initialize cfg ?s = (w, new_block cfg s)" by (rule new_block_frame)
  then obtain sp where
    run: "fold (renew_one cfg ?now) (renewal_queue s ?now) (?t, 0) = (new_block cfg s, sp)"
    by (rule on_initialize_cases) (simp add: current_block_Suc [OF small])
  obtain b where b: "current_block s < b" "unat b \<le> d" "(c, a) \<in> set (renewal_queue s b)"
    using due by (auto simp: due_by_def)
  from b(1) have ahead: "?now \<le> b" by (rule inc_le)
  then have "unat ?now \<le> d" using b(2) by (simp add: word_le_nat_alt)
  moreover have "(c, a) \<in> set (renewal_queue s ?now) \<or>
      (\<exists>b. ?now < b \<and> unat b \<le> d \<and> (c, a) \<in> set (renewal_queue ?t b))"
  proof (cases "b = ?now")
    case False
    with ahead have "?now < b" by simp
    with b show ?thesis by (intro disjI2 exI [of _ b]) simp
  qed (use b(3) in simp)
  ultimately have "due_by ?now (renewal_queue s ?now) (c, a) d ?t"
    using due by (simp add: due_by_def)
  moreover have "splits_inv ?t" "earns_nothing cfg a ?t" "contents ?t c = Some m"
    using assms(2-4) by (simp_all add: splits_inv_def earns_nothing_def)
  ultimately show ?thesis using renew_fold_potential [OF law run _ _ _ con(2,3) _ on] pot by simp
qed

text \<open>As long as the entry is indexed, its next bucket is ahead of the current block.\<close>

lemma renewals_end_by:
  assumes law: "moves_funds cfg bal" and pos: "0 < period_length m" "0 < subscription_price m"
    and bound: "p < 2 ^ 32 - 1"
  shows "splits_inv s \<Longrightarrow> earns_nothing cfg a s \<Longrightarrow> contents s c = Some m \<Longrightarrow>
    block_number s \<le> p \<Longrightarrow>
    (auto_renew_index s (c, a) \<noteq> None \<Longrightarrow> due_by (current_block s) [] (c, a) d s) \<Longrightarrow>
    d + renewal_budget (bal (ext s) a) (unat (subscription_price m)) (period_length m) \<le> p \<Longrightarrow>
    \<exists>n. block_number s + n \<le> p \<and> auto_renew_index ((new_block cfg ^^ n) s) (c, a) = None"
proof (induction "p - block_number s" arbitrary: s d rule: less_induct)
  case less
  let ?t = "new_block cfg s"
  have small: "block_number s < 2 ^ 32 - 1" using less.prems(4) bound by linarith
  show ?case
  proof (cases "auto_renew_index s (c, a) = None")
    case True
    with less.prems(4) show ?thesis by (intro exI [of _ 0]) simp
  next
    case False
    then have due: "due_by (current_block s) [] (c, a) d s" by (rule less.prems(5))
    then obtain b where "current_block s < b" "unat b \<le> d" by (auto simp: due_by_def)
    then have ahead: "block_number s < p"
      using less.prems(6) current_block_less(2) [OF small] by (simp add: word_less_nat_alt)
    show ?thesis
    proof (cases "auto_renew_index ?t (c, a) = None")
      case True
      with ahead show ?thesis by (intro exI [of _ 1]) simp
    next
      case False
      then obtain d' where d': "due_by (current_block s + 1) [] (c, a) d' ?t"
          "d' + renewal_budget (bal (ext ?t) a) (unat (subscription_price m)) (period_length m) \<le> p"
        using new_block_potential [OF law less.prems(1-3) pos due small _ less.prems(6) bound] by blast
      have "current_block ?t = current_block s + 1"
        using current_block_Suc [OF small] by (simp add: current_block_def new_block_keeps)
      with d' have "\<exists>n. block_number ?t + n \<le> p \<and> auto_renew_index ((new_block cfg ^^ n) ?t) (c, a) = None"
        using less.prems(1-3) ahead
        by (intro less.hyps [of ?t d']) (simp_all add: splits_inv_def earns_nothing_def new_block_keeps)
      then obtain n where "block_number ?t + n \<le> p" "auto_renew_index ((new_block cfg ^^ n) ?t) (c, a) = None"
        by blast
      then show ?thesis
        by (intro exI [of _ "Suc n"]) (simp add: new_block_keeps funpow_swap1)
    qed
  qed
qed

section \<open>Property\<close>

text \<open>
  C13: Auto-renewal terminates: left alone, the blocks of the chain end the renewal of a
  subscription with a positive price whose subscriber earns nothing from contents or royalties.
  The bound is the block in which the renewal is due, or would be due if it had to be queued
  again, plus one period and one search window for each renewal that the balance covers; by then
  the entry is gone from the index and the subscription no longer renews.
\<close>

theorem renewals_end:
  assumes "reachable initial_state (chain_step cfg env) s" and "lawful_env cfg env"
    and "moves_funds cfg bal" and "earns_nothing cfg a s"
    and "contents s c = Some m" and "0 < subscription_price m"
    and "subscriptions s (c, a) = Some sub" and "(c, a) \<in> set (renewal_queue s b)"
    and "current_block s < b" and "block_number s < 2 ^ 32 - 1"
    and "horizon = max (unat b) (unat (expiry_block sub) + 99) +
      bal (ext s) a div unat (subscription_price m) * (unat (period_length m) + 100)"
    and "horizon < 2 ^ 32 - 1"
  shows "\<exists>n. block_number s + n \<le> horizon \<and> auto_renew_index ((new_block cfg ^^ n) s) (c, a) = None \<and>
    (\<forall>sub'. subscriptions ((new_block cfg ^^ n) s) (c, a) = Some sub' \<longrightarrow> \<not> auto_renew sub')"
proof -
  let ?d = "max (unat b) (unat (expiry_block sub) + 99)"
  have inv: "rights_inv cfg s" by (rule reachable_rights_inv [OF assms(1,2)])
  have now: "block_number s < unat b"
    using assms(9) current_block_less(2) [OF assms(10)] by (simp add: word_less_nat_alt)
  have "\<exists>n. block_number s + n \<le> horizon \<and> auto_renew_index ((new_block cfg ^^ n) s) (c, a) = None"
  proof (cases "auto_renew_index s (c, a) = None")
    case True
    have "block_number s \<le> horizon" using now assms(11) by (simp add: le_max_iff_disj trans_le_add1)
    with True show ?thesis by (intro exI [of _ 0]) simp
  next
    case False
    have "renewal_inv cfg s" "0 < min_auto_renew_period cfg"
      using inv assms(2) by (simp_all add: rights_inv_def lawful_env_def lawful_def)
    with False assms(5) have period: "0 < period_length m"
      unfolding renewal_inv_def by fastforce
    have "due_by (current_block s) [] (c, a) ?d s"
      using assms(7-9) now current_block_less(2) [OF assms(10)]
      by (auto simp: due_by_def MAX_RENEWAL_SLOT_SEARCH_def intro!: exI [of _ b])
    moreover have "?d + renewal_budget (bal (ext s) a) (unat (subscription_price m)) (period_length m) = horizon"
      by (simp add: assms(11) renewal_budget_def MAX_RENEWAL_SLOT_SEARCH_def)
    moreover have "splits_inv s" using inv by (simp add: rights_inv_def)
    moreover have "block_number s \<le> horizon" using now assms(11) by (simp add: le_max_iff_disj trans_le_add1)
    ultimately show ?thesis
      using renewals_end_by [OF assms(3) period assms(6,12) _ assms(4,5), of ?d] by simp
  qed
  then obtain n where n: "block_number s + n \<le> horizon"
      "auto_renew_index ((new_block cfg ^^ n) s) (c, a) = None" by blast
  have "reachable initial_state (chain_step cfg env) ((new_block cfg ^^ n) s)"
    by (induction n) (auto intro: assms(1) reachable.reach_step chain_step.block)
  from reachable_rights_inv [OF this assms(2)] have "index_ok ((new_block cfg ^^ n) s)"
    by (simp add: rights_inv_def renewal_inv_def)
  from index_ok_iff [OF this, of "(c, a)"] n show ?thesis by blast
qed

theorem renewals_end_witness:
  "\<exists>n. 5 + n \<le> 1804 \<and> auto_renew_index ((new_block mock ^^ n) mock_s1) (0, 2) = None"
proof -
  have poor: "earns_nothing mock 2 mock_s1"
    by (simp add: earns_nothing_def mock_s1_def mock_work_def)
  have s: "contents mock_s1 0 = Some mock_work" "0 < subscription_price mock_work"
      "subscriptions mock_s1 (0, 2) = Some \<lparr>expiry_block = 205, auto_renew = True, sub_child_item_id = 1\<rparr>"
      "(0, 2) \<in> set (renewal_queue mock_s1 205)" "current_block mock_s1 < 205"
      "block_number mock_s1 < 2 ^ 32 - 1" and now: "block_number mock_s1 = 5"
    by (simp_all add: mock_s1_def mock_work_def current_block_def try_into_u32_def)
  have horizon: "1804 = max (unat (205 :: u32)) (unat (expiry_block
        \<lparr>expiry_block = 205, auto_renew = True, sub_child_item_id = 1\<rparr>) + 99) +
      balance (ext mock_s1) 2 div unat (subscription_price mock_work) * (unat (period_length mock_work) + 100)"
    by (simp add: mock_s1_def mock_work_def)
  from renewals_end [OF mock_s1_reachable mock_lawful_env mock_moves_funds poor s horizon]
  show ?thesis unfolding now by auto
qed

end
