(* ===== verification/Rights_Availability.thy ===== *)
theory Rights_Availability
  imports Rights_Ledger Mock_Chain
begin

text \<open>
  The other half of the refinement: a call that the ledger allows is not refused. It may still need
  the other pallets, so the theory states what they have to provide: a currency that moves money a
  payer has, and an NFT pallet that mints, tags and burns items for the owner of a collection
  (\<open>obliging\<close>). \<open>serviceable\<close> lists what a call asks of them. Both are independent of the pallet's own
  checks.
\<close>

section \<open>What the other pallets provide\<close>

text \<open>
  Observations of the external state: what an account can spend, the smallest amount a transfer may
  carry, the largest deposit an item operation takes, the items that exist and the owners of
  collections.
\<close>

record ('a, 'x) service =
  spendable :: "'x \<Rightarrow> 'a \<Rightarrow> nat"
  least_transfer :: nat
  item_deposit :: nat
  live_items :: "'x \<Rightarrow> (u32 \<times> u32) set"
  collection_owner :: "'x \<Rightarrow> u32 \<rightharpoonup> 'a"

text \<open>Nobody but \<open>who\<close> can spend less than before, and \<open>who\<close> at most \<open>cost\<close> less.\<close>

definition costs :: "('a, 'x) service \<Rightarrow> 'a \<Rightarrow> nat \<Rightarrow> 'x \<Rightarrow> 'x \<Rightarrow> bool" where
  "costs sv who cost x x' \<longleftrightarrow>
     (\<forall>a. spendable sv x a \<le> spendable sv x' a + (if a = who then cost else 0))"

definition obliging :: "('a, 'x) config \<Rightarrow> ('a, 'x) service \<Rightarrow> bool" where
  "obliging cfg sv \<longleftrightarrow>
     (\<forall>v. try_into_balance cfg v = Some v) \<and> 11 \<le> nfts_key_limit cfg \<and> 1 \<le> nfts_value_limit cfg \<and>
     (\<forall>payer to v x. least_transfer sv \<le> unat v \<longrightarrow> unat v \<le> spendable sv x payer \<longrightarrow>
        (\<exists>x'. currency_transfer cfg payer to v Preserve x = Inr x' \<and> costs sv payer (unat v) x x' \<and>
           live_items sv x' = live_items sv x \<and> collection_owner sv x' = collection_owner sv x)) \<and>
     (\<forall>col item cr own x. collection_owner sv x col = Some cr \<longrightarrow> (col, item) \<notin> live_items sv x \<longrightarrow>
        item_deposit sv \<le> spendable sv x cr \<longrightarrow>
        (\<exists>x'. nfts_do_mint cfg col item (Some cr) own x = Inr x' \<and> costs sv cr (item_deposit sv) x x' \<and>
           live_items sv x' = insert (col, item) (live_items sv x) \<and>
           collection_owner sv x' = collection_owner sv x)) \<and>
     (\<forall>col item cr k v x. collection_owner sv x col = Some cr \<longrightarrow> (col, item) \<in> live_items sv x \<longrightarrow>
        item_deposit sv \<le> spendable sv x cr \<longrightarrow>
        (\<exists>x'. nfts_set_attribute cfg (Signed cr) col (Some item) CollectionOwner k v x = Inr x' \<and>
           costs sv cr (item_deposit sv) x x' \<and>
           live_items sv x' = live_items sv x \<and> collection_owner sv x' = collection_owner sv x)) \<and>
     (\<forall>col item x. (col, item) \<in> live_items sv x \<longrightarrow>
        (\<exists>x'. nfts_do_burn cfg col item x = Inr x' \<and> (\<forall>a. spendable sv x a \<le> spendable sv x' a) \<and>
           live_items sv x' = live_items sv x - {(col, item)} \<and>
           collection_owner sv x' = collection_owner sv x)) \<and>
     (\<forall>col own cc d ev x. collection_owner sv x col = None \<longrightarrow> unat d \<le> spendable sv x own \<longrightarrow>
        (\<exists>x'. nfts_do_create_collection cfg col own own cc d ev x = Inr x' \<and> costs sv own (unat d) x x' \<and>
           live_items sv x' = live_items sv x \<and>
           collection_owner sv x' = (collection_owner sv x)(col \<mapsto> own))) \<and>
     (\<forall>n x. spendable sv (nfts_set_next_collection_id cfg n x) = spendable sv x \<and>
        live_items sv (nfts_set_next_collection_id cfg n x) = live_items sv x \<and>
        collection_owner sv (nfts_set_next_collection_id cfg n x) = collection_owner sv x)"

lemma obliging_limits:
  assumes "obliging cfg sv"
  shows "try_into_balance cfg v = Some v" "11 \<le> nfts_key_limit cfg" "Suc 0 \<le> nfts_value_limit cfg"
  using assms by (simp_all add: obliging_def)

lemma obliging_transfer:
  assumes "obliging cfg sv" and "least_transfer sv \<le> unat v" and "unat v \<le> spendable sv x payer"
  obtains x' where "currency_transfer cfg payer to v Preserve x = Inr x'" "costs sv payer (unat v) x x'"
    "live_items sv x' = live_items sv x" "collection_owner sv x' = collection_owner sv x"
  using assms unfolding obliging_def by metis

lemma obliging_mint:
  assumes "obliging cfg sv" and "collection_owner sv x col = Some cr" and "(col, item) \<notin> live_items sv x"
    and "item_deposit sv \<le> spendable sv x cr"
  obtains x' where "nfts_do_mint cfg col item (Some cr) own x = Inr x'" "costs sv cr (item_deposit sv) x x'"
    "live_items sv x' = insert (col, item) (live_items sv x)" "collection_owner sv x' = collection_owner sv x"
  using assms unfolding obliging_def by metis

lemma obliging_attribute:
  assumes "obliging cfg sv" and "collection_owner sv x col = Some cr" and "(col, item) \<in> live_items sv x"
    and "item_deposit sv \<le> spendable sv x cr"
  obtains x' where "nfts_set_attribute cfg (Signed cr) col (Some item) CollectionOwner k v x = Inr x'"
    "costs sv cr (item_deposit sv) x x'" "live_items sv x' = live_items sv x"
    "collection_owner sv x' = collection_owner sv x"
  using assms unfolding obliging_def by metis

lemma obliging_burn:
  assumes "obliging cfg sv" and "(col, item) \<in> live_items sv x"
  obtains x' where "nfts_do_burn cfg col item x = Inr x'" "\<And>a. spendable sv x a \<le> spendable sv x' a"
    "live_items sv x' = live_items sv x - {(col, item)}" "collection_owner sv x' = collection_owner sv x"
  using assms unfolding obliging_def by metis

lemma obliging_create:
  assumes "obliging cfg sv" and "collection_owner sv x col = None" and "unat d \<le> spendable sv x own"
  obtains x' where "nfts_do_create_collection cfg col own own cc d ev x = Inr x'" "costs sv own (unat d) x x'"
    "live_items sv x' = live_items sv x" "collection_owner sv x' = (collection_owner sv x)(col \<mapsto> own)"
  using assms unfolding obliging_def by metis

lemma obliging_counter:
  assumes "obliging cfg sv"
  shows "spendable sv (nfts_set_next_collection_id cfg n x) = spendable sv x"
    "live_items sv (nfts_set_next_collection_id cfg n x) = live_items sv x"
    "collection_owner sv (nfts_set_next_collection_id cfg n x) = collection_owner sv x"
  using assms by (simp_all add: obliging_def)

lemma costs_refl [simp]: "costs sv who n x x"
  by (simp add: costs_def)

lemma costsD:
  assumes "costs sv who n x x'"
  shows "spendable sv x a \<le> spendable sv x' a + (if a = who then n else 0)"
    and "spendable sv x who \<le> spendable sv x' who + n"
  using assms [unfolded costs_def, rule_format, of a] assms [unfolded costs_def, rule_format, of who]
  by simp_all

lemma costs_trans:
  assumes "costs sv who m x y" and "costs sv who n y z"
  shows "costs sv who (m + n) x z"
  unfolding costs_def
proof
  fix a
  from costsD(1) [OF assms(1), of a] costsD(1) [OF assms(2), of a]
  show "spendable sv x a \<le> spendable sv z a + (if a = who then m + n else 0)"
    by (cases "a = who") simp_all
qed

section \<open>Payments\<close>

definition payable ::
  "('a, 'x) config \<Rightarrow> ('a, 'x) service \<Rightarrow> 'a \<Rightarrow> 'a \<Rightarrow> u128 \<Rightarrow> royalty_split list \<Rightarrow> 'x \<Rightarrow> bool" where
  "payable cfg sv payer cr amount splits x \<longleftrightarrow>
     (\<forall>sp\<in>set splits. decode_account cfg (recipient sp) \<noteq> None) \<and>
     (\<forall>(to, v)\<in>set (payment_plan cfg cr amount splits). least_transfer sv \<le> unat v) \<and>
     unat amount \<le> spendable sv x payer"

lemma transfer_all_obliging:
  assumes law: "obliging cfg sv"
  shows "\<forall>(to, v)\<in>set plan. least_transfer sv \<le> unat v \<Longrightarrow> plan_total plan \<le> spendable sv x payer \<Longrightarrow>
    \<exists>x'. transfer_all cfg payer plan x = Inr x' \<and> costs sv payer (plan_total plan) x x' \<and>
      live_items sv x' = live_items sv x \<and> collection_owner sv x' = collection_owner sv x"
proof (induction plan arbitrary: x)
  case (Cons p plan)
  obtain to v where p: "p = (to, v)" by (cases p)
  obtain x1 where x1: "currency_transfer cfg payer to v Preserve x = Inr x1" "costs sv payer (unat v) x x1"
    "live_items sv x1 = live_items sv x" "collection_owner sv x1 = collection_owner sv x"
    using obliging_transfer [OF law, of v x payer to] Cons.prems p by auto
  have "spendable sv x payer \<le> spendable sv x1 payer + unat v" using costsD(2) [OF x1(2)] .
  then have "plan_total plan \<le> spendable sv x1 payer" using Cons.prems(2) p by simp
  with Cons.IH [of x1] Cons.prems(1) obtain x' where "transfer_all cfg payer plan x1 = Inr x'"
      "costs sv payer (plan_total plan) x1 x'" "live_items sv x' = live_items sv x1"
      "collection_owner sv x' = collection_owner sv x1" by auto
  with x1 show ?case
    by (auto simp: p obliging_limits(1) [OF law] intro: costs_trans [OF x1(2)])
qed simp

text \<open>A payment whose plan can be executed succeeds.\<close>

lemma pay_splits_complete:
  assumes "\<forall>sp\<in>set splits. decode_account cfg (recipient sp) \<noteq> None"
    and "transfer_all cfg payer (split_plan cfg amount splits) (ext s) = Inr x"
  shows "\<exists>d' s'. pay_splits cfg payer c amount splits d s = Inr (d', s') \<and> ext s' = x"
  using assms
proof (induction splits arbitrary: d s)
  case (Cons sp sps)
  obtain r where r: "decode_account cfg (recipient sp) = Some r" using Cons.prems(1) by auto
  show ?case
  proof (cases "royalty_share amount (basis_points sp) > 0")
    case False
    with Cons r show ?thesis by (simp add: Let_def)
  next
    case True
    let ?share = "royalty_share amount (basis_points sp)"
    from Cons.prems(2) r True obtain b x1 where
      "try_into_balance cfg ?share = Some b" "currency_transfer cfg payer r b Preserve (ext s) = Inr x1"
      "transfer_all cfg payer (split_plan cfg amount sps) x1 = Inr x"
      by (auto simp: Let_def result_simps)
    with Cons.IH [of "deposit_event (RoyaltyDistributed c r ?share) (s\<lparr>ext := x1\<rparr>)"
        "saturating_add d ?share"] Cons.prems(1) r True
    show ?thesis by (simp add: Let_def transfer_amount_def)
  qed
qed simp

lemma pay_splits_distributed:
  assumes "pay_splits cfg payer c amount splits 0 s = Inr (d, s')" and "total_basis_points splits \<le> 10000"
  shows "unat d = plan_total (split_plan cfg amount splits)"
proof -
  have "plan_total (split_plan cfg amount splits) < 2 ^ 128"
    using split_plan_total_bound [OF assms(2), of cfg amount] unat_less_pow [of amount] by simp
  with pay_splits_plan [OF assms(1)] show ?thesis by simp
qed

lemma pay_with_royalties_complete:
  assumes bp: "total_basis_points (royalty_splits s c) \<le> 10000"
    and rcpt: "\<forall>sp\<in>set (royalty_splits s c). decode_account cfg (recipient sp) \<noteq> None"
    and all: "transfer_all cfg payer (payment_plan cfg cr amount (royalty_splits s c)) (ext s) = Inr x"
  shows "\<exists>n s'. pay_with_royalties cfg payer cr c amount s = Inr (n, s') \<and> ext s' = x"
proof (cases "royalty_splits s c = []")
  case True
  with all show ?thesis
    by (auto simp: payment_plan_def pay_with_royalties_def Let_def transfer_amount_def result_simps)
next
  case False
  let ?plan = "split_plan cfg amount (royalty_splits s c)" and ?rest = "unat amount - plan_total (split_plan cfg amount (royalty_splits s c))"
  obtain x1 where x1: "transfer_all cfg payer ?plan (ext s) = Inr x1"
    and x: "transfer_all cfg payer (if ?rest > 0 then [(cr, of_nat ?rest)] else []) x1 = Inr x"
    using all False by (auto simp: payment_plan_def Let_def transfer_all_append result_simps simp del: transfer_all.simps)
  obtain d s1 where s1: "pay_splits cfg payer c amount (royalty_splits s c) 0 s = Inr (d, s1)" "ext s1 = x1"
    using pay_splits_complete [OF rcpt x1] by blast
  have "saturating_sub amount d = of_nat ?rest"
    using pay_splits_distributed [OF s1(1) bp] unat_less_pow [of amount]
    by (simp add: word_unat_eq_iff unat_of_nat machine_arith less_imp_diff_less)
  moreover have "0 < (of_nat ?rest :: u128) \<longleftrightarrow> 0 < ?rest"
    using unat_less_pow [of amount] by (simp add: word_less_nat_alt unat_of_nat less_imp_diff_less)
  ultimately show ?thesis
    using x s1 False
    by (auto simp: pay_with_royalties_def Let_def transfer_amount_def result_simps split: if_splits)
qed

lemma payable_pays:
  assumes law: "obliging cfg sv" and splits: "splits_inv s"
    and pay: "payable cfg sv payer cr amount (royalty_splits s c) (ext s)"
  obtains n s' where "pay_with_royalties cfg payer cr c amount s = Inr (n, s')" "only_ext_events s s'"
    "costs sv payer (unat amount) (ext s) (ext s')"
    "live_items sv (ext s') = live_items sv (ext s)"
    "collection_owner sv (ext s') = collection_owner sv (ext s)"
proof -
  have bp: "total_basis_points (royalty_splits s c) \<le> 10000"
    using splits by (auto simp: splits_inv_def valid_splits_def)
  let ?plan = "payment_plan cfg cr amount (royalty_splits s c)"
  have total: "plan_total ?plan = unat amount" by (rule payment_plan_total [OF bp])
  obtain x where x: "transfer_all cfg payer ?plan (ext s) = Inr x" "costs sv payer (unat amount) (ext s) x"
    "live_items sv x = live_items sv (ext s)" "collection_owner sv x = collection_owner sv (ext s)"
    using transfer_all_obliging [OF law, of ?plan "ext s" payer] pay total by (auto simp: payable_def)
  obtain n s' where run: "pay_with_royalties cfg payer cr c amount s = Inr (n, s')" and "ext s' = x"
    using pay_with_royalties_complete [OF bp _ x(1)] pay by (auto simp: payable_def)
  with x show thesis
    by (intro that [OF run pay_with_royalties_frame [OF run, THEN conjunct2]]) simp_all
qed

section \<open>Child items\<close>

definition nestable ::
  "('a, 'x) service \<Rightarrow> 'a content_metadata \<Rightarrow> nat \<Rightarrow> u32 \<Rightarrow> 'x \<Rightarrow> bool" where
  "nestable sv m spent item x \<longleftrightarrow>
     has_successor item \<and> (collection_id m, item) \<notin> live_items sv x \<and>
     collection_owner sv x (collection_id m) = Some (creator m) \<and>
     spent + 2 * item_deposit sv \<le> spendable sv x (creator m)"

lemma nestable_mint_run:
  assumes law: "obliging cfg sv" and "nestable sv m 0 (next_item_id s (collection_id m)) (ext s)"
  obtains x where
    "mint_and_nest_child cfg (creator m) own (collection_id m) par rt s =
       Inr (next_item_id s (collection_id m),
         deposit_event (ChildNested (collection_id m) par (collection_id m) (next_item_id s (collection_id m)))
           (s\<lparr>ext := x,
              parent := (parent s)((collection_id m, next_item_id s (collection_id m)) \<mapsto> (collection_id m, par)),
              next_item_id := (next_item_id s)(collection_id m := next_item_id s (collection_id m) + 1)\<rparr>))"
    "costs sv (creator m) (2 * item_deposit sv) (ext s) x"
    "live_items sv x = insert (collection_id m, next_item_id s (collection_id m)) (live_items sv (ext s))"
    "collection_owner sv x = collection_owner sv (ext s)" "ext_calls cfg (ext s) x"
proof -
  let ?item = "next_item_id s (collection_id m)"
  have succ: "checked_add ?item 1 = Some (?item + 1)"
    using assms(2) by (simp add: nestable_def has_successor_def machine_arith)
  obtain x1 where x1: "nfts_do_mint cfg (collection_id m) ?item (Some (creator m)) own (ext s) = Inr x1"
    "costs sv (creator m) (item_deposit sv) (ext s) x1"
    "live_items sv x1 = insert (collection_id m, ?item) (live_items sv (ext s))"
    "collection_owner sv x1 = collection_owner sv (ext s)"
    by (rule obliging_mint [OF law, of "ext s" "collection_id m" "creator m" ?item own])
       (use assms(2) in \<open>simp_all add: nestable_def\<close>)
  have "item_deposit sv \<le> spendable sv x1 (creator m)"
    using costsD(2) [OF x1(2)] assms(2) by (simp add: nestable_def)
  then obtain x2 where x2: "nfts_set_attribute cfg (Signed (creator m)) (collection_id m) (Some ?item)
      CollectionOwner (ascii ''rights_type'') (encode_rights_type rt) x1 = Inr x2"
      "costs sv (creator m) (item_deposit sv) x1 x2" "live_items sv x2 = live_items sv x1"
      "collection_owner sv x2 = collection_owner sv x1"
    using obliging_attribute [OF law, of x1 "collection_id m" "creator m" ?item] x1(3,4) assms(2)
    by (metis insertI1 nestable_def)
  have "length (encode_rights_type rt) \<le> nfts_value_limit cfg"
    using obliging_limits(3) [OF law] by (cases rt) simp_all
  moreover have "length (ascii ''rights_type'') \<le> nfts_key_limit cfg"
    using obliging_limits(2) [OF law] by (simp add: ascii_def)
  moreover have "costs sv (creator m) (2 * item_deposit sv) (ext s) x2"
    using costs_trans [OF x1(2) x2(2)] by (simp add: mult_2)
  moreover have "ext_calls cfg (ext s) x2"
    using ext_mint [OF x1(1)] ext_attribute [OF x2(1)] by (meson rtranclp.intros)
  ultimately show thesis
    using succ x1 x2 by (intro that [of x2]) (simp_all add: mint_and_nest_child_def bounded_vec_def Let_def)
qed

lemma nestable_mints:
  assumes "obliging cfg sv" and "nestable sv m 0 (next_item_id s (collection_id m)) (ext s)"
  shows "\<exists>ch s'. mint_and_nest_child cfg (creator m) own (collection_id m) par rt s = Inr (ch, s')"
  by (rule nestable_mint_run [OF assms, of own par rt]) blast

definition buyable ::
  "('a, 'x) config \<Rightarrow> ('a, 'x) service \<Rightarrow> 'a \<Rightarrow> u32 \<Rightarrow> 'a content_metadata \<Rightarrow> u128 \<Rightarrow> ('a, 'x) state \<Rightarrow> bool" where
  "buyable cfg sv payer c m amount s \<longleftrightarrow>
     payable cfg sv payer (creator m) amount (royalty_splits s c) (ext s) \<and>
     nestable sv m (if payer = creator m then unat amount else 0) (next_item_id s (collection_id m)) (ext s)"

lemma buyable_pays_and_mints:
  assumes law: "obliging cfg sv" and "splits_inv s" and buy: "buyable cfg sv payer c m amount s"
  obtains n s1 where "pay_with_royalties cfg payer (creator m) c amount s = Inr (n, s1)"
    "only_ext_events s s1"
    "\<And>own rt. \<exists>ch s2. mint_and_nest_child cfg (creator m) own (collection_id m) (content_item_id m) rt s1 =
       Inr (ch, s2)"
proof -
  obtain n s1 where pay: "pay_with_royalties cfg payer (creator m) c amount s = Inr (n, s1)"
    "only_ext_events s s1" "costs sv payer (unat amount) (ext s) (ext s1)"
    "live_items sv (ext s1) = live_items sv (ext s)"
    "collection_owner sv (ext s1) = collection_owner sv (ext s)"
    by (rule payable_pays [OF law assms(2), of payer "creator m" amount c]) (use buy in \<open>simp add: buyable_def\<close>)
  have "nestable sv m 0 (next_item_id s1 (collection_id m)) (ext s1)"
    using buy costsD(1) [OF pay(3), of "creator m"] pay(4,5)
    by (auto simp: buyable_def nestable_def only_ext_events_storage [OF pay(2)] split: if_splits)
  from that [OF pay(1,2)] nestable_mints [OF law this] show thesis by blast
qed

section \<open>What a call asks for\<close>

definition with_content :: "('a, 'x) state \<Rightarrow> u32 \<Rightarrow> ('a content_metadata \<Rightarrow> bool) \<Rightarrow> bool" where
  "with_content s c P \<longleftrightarrow> (case contents s c of Some m \<Rightarrow> P m | None \<Rightarrow> True)"

definition views_serviceable ::
  "('a, 'x) config \<Rightarrow> ('a, 'x) service \<Rightarrow> 'a \<Rightarrow> u32 \<Rightarrow> 'a \<Rightarrow> u32 \<Rightarrow> ('a, 'x) state \<Rightarrow> bool" where
  "views_serviceable cfg sv payer c b n s \<longleftrightarrow>
     with_content s c (\<lambda>m. unat (ppv_price m) * unat n < 2 ^ 128 \<and>
       (if view_packs s (c, b) = None then buyable cfg sv payer c m (ppv_price m * ucast n) s
        else payable cfg sv payer (creator m) (ppv_price m * ucast n) (royalty_splits s c) (ext s)))"

definition view_serviceable :: "('a, 'x) service \<Rightarrow> u32 \<Rightarrow> 'a \<Rightarrow> ('a, 'x) state \<Rightarrow> bool" where
  "view_serviceable sv c b s \<longleftrightarrow>
     with_content s c (\<lambda>m. \<forall>pack. view_packs s (c, b) = Some pack \<longrightarrow> views_remaining pack = 1 \<longrightarrow>
       (collection_id m, pack_child_item_id pack) \<in> live_items sv (ext s))"

definition move_serviceable :: "('a, 'x) service \<Rightarrow> u32 \<Rightarrow> 'a \<Rightarrow> ('a, 'x) state \<Rightarrow> bool" where
  "move_serviceable sv c a s \<longleftrightarrow>
     with_content s c (\<lambda>m. nestable sv m 0 (next_item_id s (collection_id m)) (ext s) \<and>
       (\<forall>info. ownership s (c, a) = Some info \<longrightarrow>
          (collection_id m, own_child_item_id info) \<in> live_items sv (ext s)))"

text \<open>A slot in the window of 100 blocks in which the renewal would be queued.\<close>

definition slot_free :: "u32 \<Rightarrow> 'a \<Rightarrow> ('a, 'x) state \<Rightarrow> bool" where
  "slot_free c a s \<longleftrightarrow>
     (\<forall>sub. subscriptions s (c, a) = Some sub \<longrightarrow>
        (\<exists>i<MAX_RENEWAL_SLOT_SEARCH.
           length (renewal_queue s (saturating_add
             (max (expiry_block sub) (saturating_add (current_block s) 1)) (of_nat i))) < MAX_RENEWALS_PER_BLOCK))"

fun serviceable ::
  "('a, 'x) config \<Rightarrow> ('a, 'x) service \<Rightarrow> 'a \<Rightarrow> 'a call \<Rightarrow> ('a, 'x) state \<Rightarrow> bool" where
  "serviceable cfg sv who (RegisterContent h t p q r l) s \<longleftrightarrow>
     (let col = collection_counter cfg (ext s) in
      has_successor col \<and> collection_owner sv (ext s) col = None \<and> (col, 0) \<notin> live_items sv (ext s) \<and>
      unat (nfts_collection_deposit cfg) + item_deposit sv \<le> spendable sv (ext s) who)"
| "serviceable cfg sv who (Subscribe c) s \<longleftrightarrow>
     with_content s c (\<lambda>m. buyable cfg sv who c m (subscription_price m) s)"
| "serviceable cfg sv who (RenewSubscription c) s \<longleftrightarrow>
     with_content s c (\<lambda>m. payable cfg sv who (creator m) (subscription_price m) (royalty_splits s c) (ext s))"
| "serviceable cfg sv who (PurchaseViews c n) s \<longleftrightarrow> views_serviceable cfg sv who c who n s"
| "serviceable cfg sv who (ConsumeView c) s \<longleftrightarrow> view_serviceable sv c who s"
| "serviceable cfg sv who (PurchaseOwnership c) s \<longleftrightarrow>
     with_content s c (\<lambda>m. buyable cfg sv who c m (ownership_price m) s)"
| "serviceable cfg sv who (XcmSubscribe c b) s \<longleftrightarrow>
     with_content s c (\<lambda>m. buyable cfg sv who c m (subscription_price m) s)"
| "serviceable cfg sv who (XcmRenewSubscription c b) s \<longleftrightarrow>
     with_content s c (\<lambda>m. payable cfg sv who (creator m) (subscription_price m) (royalty_splits s c) (ext s))"
| "serviceable cfg sv who (XcmPurchaseViews c b n) s \<longleftrightarrow> views_serviceable cfg sv who c b n s"
| "serviceable cfg sv who (XcmPurchaseOwnership c b) s \<longleftrightarrow>
     with_content s c (\<lambda>m. buyable cfg sv who c m (ownership_price m) s)"
| "serviceable cfg sv who (TransferOwnership c t) s \<longleftrightarrow> move_serviceable sv c who s"
| "serviceable cfg sv who (XcmTransferOwnership c f t) s \<longleftrightarrow> move_serviceable sv c f s"
| "serviceable cfg sv who (EnableAutoRenew c) s \<longleftrightarrow>
     slot_free c who s \<and> with_content s c (\<lambda>m. min_auto_renew_period cfg \<le> period_length m)"
| "serviceable cfg sv who (ConsumeViewFor c v) s \<longleftrightarrow> view_serviceable sv c v s"
| "serviceable cfg sv who _ s \<longleftrightarrow> True"

section \<open>Calls succeed\<close>

lemma subscribe_ok:
  assumes "obliging cfg sv" and "splits_inv s" and "contents s c = Some m"
    and "buyable cfg sv payer c m (subscription_price m) s"
  shows "subscriptions s (c, payer) = None \<Longrightarrow> is_ok (subscribe cfg (Signed payer) c s)"
    and "subscriptions s (c, b) = None \<Longrightarrow> is_ok (xcm_subscribe cfg (Signed payer) c b s)"
proof -
  obtain n s1 where pay: "pay_with_royalties cfg payer (creator m) c (subscription_price m) s = Inr (n, s1)"
    and mint: "\<And>own rt. \<exists>ch s2. mint_and_nest_child cfg (creator m) own (collection_id m) (content_item_id m) rt s1 =
       Inr (ch, s2)"
    using buyable_pays_and_mints [OF assms(1,2,4)] by metis
  show "is_ok (subscribe cfg (Signed payer) c s)" if "subscriptions s (c, payer) = None"
    using that pay mint [of payer Subscription] assms(3) by (auto simp: subscribe_def Let_def)
  show "is_ok (xcm_subscribe cfg (Signed payer) c b s)" if "subscriptions s (c, b) = None"
    using that pay mint [of b Subscription] assms(3) by (auto simp: xcm_subscribe_def Let_def)
qed

lemma purchase_ownership_ok:
  assumes "obliging cfg sv" and "splits_inv s" and "contents s c = Some m"
    and "buyable cfg sv payer c m (ownership_price m) s"
  shows "ownership s (c, payer) = None \<Longrightarrow> is_ok (purchase_ownership cfg (Signed payer) c s)"
    and "ownership s (c, b) = None \<Longrightarrow> is_ok (xcm_purchase_ownership cfg (Signed payer) c b s)"
proof -
  obtain n s1 where pay: "pay_with_royalties cfg payer (creator m) c (ownership_price m) s = Inr (n, s1)"
    and mint: "\<And>own rt. \<exists>ch s2. mint_and_nest_child cfg (creator m) own (collection_id m) (content_item_id m) rt s1 =
       Inr (ch, s2)"
    using buyable_pays_and_mints [OF assms(1,2,4)] by metis
  show "is_ok (purchase_ownership cfg (Signed payer) c s)" if "ownership s (c, payer) = None"
    using that pay mint [of payer Ownership] assms(3) by (auto simp: purchase_ownership_def Let_def)
  show "is_ok (xcm_purchase_ownership cfg (Signed payer) c b s)" if "ownership s (c, b) = None"
    using that pay mint [of b Ownership] assms(3) by (auto simp: xcm_purchase_ownership_def Let_def)
qed

lemma renew_subscription_ok:
  assumes "obliging cfg sv" and "splits_inv s" and "contents s c = Some m"
    and "payable cfg sv payer (creator m) (subscription_price m) (royalty_splits s c) (ext s)"
  shows "subscriptions s (c, payer) = Some sub \<Longrightarrow> expiry_block sub \<le> current_block s \<Longrightarrow>
      is_ok (renew_subscription cfg (Signed payer) c s)"
    and "subscriptions s (c, b) = Some sub \<Longrightarrow> expiry_block sub \<le> current_block s \<Longrightarrow>
      is_ok (xcm_renew_subscription cfg (Signed payer) c b s)"
proof -
  obtain n s1 where pay: "pay_with_royalties cfg payer (creator m) c (subscription_price m) s = Inr (n, s1)"
    using payable_pays [OF assms(1,2,4)] by metis
  show "is_ok (renew_subscription cfg (Signed payer) c s)"
    if "subscriptions s (c, payer) = Some sub" "expiry_block sub \<le> current_block s"
    using that pay assms(3) by (simp add: renew_subscription_def Let_def)
  show "is_ok (xcm_renew_subscription cfg (Signed payer) c b s)"
    if "subscriptions s (c, b) = Some sub" "expiry_block sub \<le> current_block s"
    using that pay assms(3) by (simp add: xcm_renew_subscription_def Let_def)
qed

lemma do_purchase_views_ok:
  assumes law: "obliging cfg sv" and inv: "splits_inv s" and con: "contents s c = Some m" and "0 < n"
    and ready: "views_serviceable cfg sv payer c b n s"
  shows "is_ok (do_purchase_views cfg payer b c n s)"
proof -
  let ?total = "ppv_price m * ucast n"
  have total: "checked_mul (ppv_price m) (ucast n) = Some ?total"
    using ready con by (simp add: views_serviceable_def with_content_def machine_arith)
  show ?thesis
  proof (cases "view_packs s (c, b)")
    case None
    then have "buyable cfg sv payer c m ?total s"
      using ready con by (simp add: views_serviceable_def with_content_def)
    then obtain k s1 where pay: "pay_with_royalties cfg payer (creator m) c ?total s = Inr (k, s1)"
      "only_ext_events s s1"
      and mint: "\<And>own rt. \<exists>ch s2. mint_and_nest_child cfg (creator m) own (collection_id m) (content_item_id m) rt s1 =
         Inr (ch, s2)"
      using buyable_pays_and_mints [OF law inv] by metis
    show ?thesis
      using assms(4) con total pay(1) None mint [of b PayPerView]
      by (auto simp: do_purchase_views_def only_ext_events_storage [OF pay(2)])
  next
    case (Some pack)
    then have "payable cfg sv payer (creator m) ?total (royalty_splits s c) (ext s)"
      using ready con by (simp add: views_serviceable_def with_content_def)
    then obtain k s1 where pay: "pay_with_royalties cfg payer (creator m) c ?total s = Inr (k, s1)"
      "only_ext_events s s1"
      using payable_pays [OF law inv] by metis
    show ?thesis
      using assms(4) con total pay(1) Some
      by (simp add: do_purchase_views_def only_ext_events_storage [OF pay(2)] Let_def)
  qed
qed

lemma do_consume_view_succeeds:
  assumes law: "obliging cfg sv" and con: "contents s c = Some m"
    and pack: "view_packs s (c, b) = Some pack" "0 < views_remaining pack"
    and ready: "view_serviceable sv c b s"
  shows "is_ok (do_consume_view cfg c b s)"
proof (cases "views_remaining pack = 1")
  case True
  then have "(collection_id m, pack_child_item_id pack) \<in> live_items sv (ext s)"
    using ready con pack(1) by (simp add: view_serviceable_def with_content_def)
  then obtain x where "nfts_do_burn cfg (collection_id m) (pack_child_item_id pack) (ext s) = Inr x"
    using obliging_burn [OF law] by metis
  with True con pack show ?thesis by (simp add: do_consume_view_def saturating_sub_def Let_def)
next
  case False
  have "1 < unat (views_remaining pack)"
    using False pack(2) by (simp add: word_less_nat_alt word_unat_eq_iff)
  then have "saturating_sub (views_remaining pack) 1 \<noteq> 0"
    by (simp add: word_unat_eq_iff machine_arith)
  with pack show ?thesis by (simp add: do_consume_view_def Let_def)
qed

lemma transfer_ownership_ok:
  assumes law: "obliging cfg sv" and con: "contents s c = Some m"
    and own: "ownership s (c, a) = Some info" "ownership s (c, b) = None"
    and ready: "move_serviceable sv c a s"
  shows "is_ok (transfer_ownership cfg (Signed a) c b s)" and "is_ok (xcm_transfer_ownership cfg (Signed a) c a b s)"
proof -
  have live: "(collection_id m, own_child_item_id info) \<in> live_items sv (ext s)"
    and nest: "nestable sv m 0 (next_item_id s (collection_id m)) (ext s)"
    using ready con own by (simp_all add: move_serviceable_def with_content_def)
  obtain x where x: "nfts_do_burn cfg (collection_id m) (own_child_item_id info) (ext s) = Inr x"
      "\<And>a. spendable sv (ext s) a \<le> spendable sv x a"
      "live_items sv x = live_items sv (ext s) - {(collection_id m, own_child_item_id info)}"
      "collection_owner sv x = collection_owner sv (ext s)"
    using obliging_burn [OF law live] by metis
  let ?s = "s\<lparr>ext := x, parent := (parent s)((collection_id m, own_child_item_id info) := None)\<rparr>"
  have "nestable sv m 0 (next_item_id ?s (collection_id m)) (ext ?s)"
    using nest x(3,4) order_trans [OF _ x(2) [of "creator m"]] by (simp add: nestable_def)
  from nestable_mints [OF law this, of b "content_item_id m" Ownership] obtain ch s2 where
    mint: "mint_and_nest_child cfg (creator m) b (collection_id m) (content_item_id m) Ownership ?s = Inr (ch, s2)"
    by blast
  show "is_ok (transfer_ownership cfg (Signed a) c b s)"
    using con own x(1) mint by (simp add: transfer_ownership_def Let_def)
  show "is_ok (xcm_transfer_ownership cfg (Signed a) c a b s)"
    using con own x(1) mint by (simp add: xcm_transfer_ownership_def Let_def)
qed

lemma register_content_ok:
  assumes law: "obliging cfg sv" and "has_successor (next_content_id s)"
    and ready: "serviceable cfg sv who (RegisterContent h t p q r l) s"
  shows "is_ok (register_content cfg (Signed who) h t p q r l s)"
proof -
  let ?col = "collection_counter cfg (ext s)"
  let ?x = "nfts_set_next_collection_id cfg (?col + 1) (ext s)"
  let ?cc = "\<lparr>disabled_settings = [TransferableItems], max_supply = None\<rparr>"
  have succ: "checked_add (next_content_id s) 1 = Some (next_content_id s + 1)"
    using assms(2) by (simp add: has_successor_def machine_arith)
  have next_col: "next_collection_id cfg s = Inr (?col, s\<lparr>ext := ?x\<rparr>)"
    using ready by (simp add: next_collection_id_Inr Let_def)
  obtain x1 where x1: "nfts_do_create_collection cfg ?col who who ?cc (nfts_collection_deposit cfg)
      (?col, who, who) ?x = Inr x1" "costs sv who (unat (nfts_collection_deposit cfg)) ?x x1"
      "live_items sv x1 = live_items sv ?x" "collection_owner sv x1 = (collection_owner sv ?x)(?col \<mapsto> who)"
    by (rule obliging_create [OF law, of ?x ?col "nfts_collection_deposit cfg" who ?cc "(?col, who, who)"])
       (use ready in \<open>simp_all add: obliging_counter [OF law] Let_def\<close>)
  have "item_deposit sv \<le> spendable sv x1 who"
    using costsD(2) [OF x1(2)] ready by (simp add: obliging_counter [OF law] Let_def)
  moreover have "collection_owner sv x1 ?col = Some who" "(?col, 0) \<notin> live_items sv x1"
    using x1(3,4) ready by (simp_all add: obliging_counter [OF law] Let_def)
  ultimately obtain x2 where "nfts_do_mint cfg ?col 0 (Some who) who x1 = Inr x2"
    using obliging_mint [OF law] by metis
  with succ next_col x1(1) show ?thesis by (simp add: register_content_def Let_def)
qed

lemma enable_auto_renew_ok:
  assumes "contents s c = Some m" and "min_auto_renew_period cfg \<le> period_length m"
    and sub: "subscriptions s (c, a) = Some sub" "\<not> auto_renew sub" and "slot_free c a s"
  shows "is_ok (enable_auto_renew cfg (Signed a) c s)"
proof -
  let ?s = "s\<lparr>subscriptions := (subscriptions s)((c, a) \<mapsto> sub\<lparr>auto_renew := True\<rparr>),
    auto_renew_index := (auto_renew_index s)((c, a) \<mapsto> True)\<rparr>"
  have "is_ok (enqueue_renewal c a (max (expiry_block sub) (saturating_add (current_block s) 1)) ?s)"
    using rq.enqueue_fails_iff [of "(c, a)" _ ?s] assms(5) sub(1) by (auto simp: slot_free_def)
  then show ?thesis
    using assms(1-4) by (auto simp: enable_auto_renew_def Let_def is_ok_iff)
qed

section \<open>Dispatch\<close>

lemma is_ok_post_info [simp]: "is_ok (post_info r) = is_ok r"
  by (cases r) (simp_all add: post_info_def split: prod.splits)

lemma is_ok_no_post_info [simp]: "is_ok (no_post_info r) = is_ok r"
  by (cases r) (simp_all add: no_post_info_def)

lemma listed_content:
  assumes "rights_inv cfg s" and "listed c (ledger_of s)"
  obtains m where "contents s c = Some m" "work c (ledger_of s) = work_of m"
  using assms listed_iff [OF assms(1)] listed_work(2) by (metis not_None_eq rights_inv_def)

lemma holder_content:
  assumes "rights_inv cfg s" and "subscriptions s (c, a) \<noteq> None \<or> view_packs s (c, a) \<noteq> None \<or> ownership s (c, a) \<noteq> None"
  obtains m where "contents s c = Some m"
proof -
  have ok: "receipts_ok (contents s) (receipts s) (parent s) (next_item_id s)"
    using assms(1) by (simp add: rights_inv_def receipts_inv_def)
  have "\<exists>rt ch. (c, a, rt, ch) \<in> receipts s"
  proof (rule ccontr)
    assume "\<nexists>rt ch. (c, a, rt, ch) \<in> receipts s"
    then have "(c, a, rt, ch) \<notin> receipts s" for rt ch by blast
    from receipts_of_none [OF this] assms(2) show False by blast
  qed
  then obtain rt ch where "(c, a, rt, ch) \<in> receipts s" by blast
  from receipts_okD(1) [OF ok this] that show thesis by blast
qed

lemma views_pack:
  assumes "rights_inv cfg s" and "0 < views (ledger_of s) (c, b)"
  obtains m pack where "contents s c = Some m" "view_packs s (c, b) = Some pack" "0 < views_remaining pack"
proof -
  obtain pack where pack: "view_packs s (c, b) = Some pack"
    using assms views_exist [OF assms(1), of "(c, b)"] by auto
  moreover have "0 < views_remaining pack"
    using pack assms(1) unfolding rights_inv_def packs_inv_def by blast
  moreover obtain m where "contents s c = Some m" using holder_content [OF assms(1), of c b] pack by auto
  ultimately show thesis using that by blast
qed

lemma lapsed_subscription:
  assumes "lapsed now k (ledger_of s)"
  obtains sub where "subscriptions s k = Some sub" "expiry_block sub \<le> now"
  using assms by (auto simp: lapsed_def split: option.splits)

text \<open>The calls on listed content: purchases, then what holders do, then the settings of a creator.\<close>

lemma dispatch_purchase_ok:
  assumes inv: "rights_inv cfg s" and law: "obliging cfg sv" and m: "contents s c = Some m"
    and allow: "ledger_allows who (current_block s) act (ledger_of s)"
    and ready: "serviceable cfg sv who act s"
    and act: "act \<in> {Subscribe c, XcmSubscribe c b, RenewSubscription c, XcmRenewSubscription c b,
      PurchaseViews c n, XcmPurchaseViews c b n, PurchaseOwnership c, XcmPurchaseOwnership c b}"
  shows "is_ok (dispatch cfg (Signed who) act s)"
proof -
  have splits: "splits_inv s" using inv by (simp add: rights_inv_def)
  have "act = Subscribe c \<Longrightarrow> ?thesis" "act = XcmSubscribe c b \<Longrightarrow> ?thesis"
    using allow ready subscribe_ok [OF law splits m] m by (simp_all add: with_content_def)
  moreover have "act = RenewSubscription c \<Longrightarrow> ?thesis" "act = XcmRenewSubscription c b \<Longrightarrow> ?thesis"
    using allow ready renew_subscription_ok [OF law splits m] m
    by (auto simp: with_content_def elim: lapsed_subscription)
  moreover have "act = PurchaseViews c n \<Longrightarrow> ?thesis"
    using allow ready do_purchase_views_ok [OF law splits m, of n who who]
    by (auto simp: purchase_views_def is_ok_iff post_info_def)
  moreover have "act = XcmPurchaseViews c b n \<Longrightarrow> ?thesis"
    using allow ready do_purchase_views_ok [OF law splits m, of n who b]
    by (auto simp: xcm_purchase_views_def is_ok_iff post_info_def)
  moreover have "act = PurchaseOwnership c \<Longrightarrow> ?thesis" "act = XcmPurchaseOwnership c b \<Longrightarrow> ?thesis"
    using allow ready purchase_ownership_ok [OF law splits m] m by (auto simp: with_content_def domIff)
  ultimately show ?thesis using act by blast
qed

lemma dispatch_holder_ok:
  assumes inv: "rights_inv cfg s" and law: "obliging cfg sv" and m: "contents s c = Some m"
    and allow: "ledger_allows who (current_block s) act (ledger_of s)"
    and ready: "serviceable cfg sv who act s"
    and act: "act \<in> {CheckAccess c, TransferOwnership c b, XcmTransferOwnership c a b,
      EnableAutoRenew c, DisableAutoRenew c, QueryRightsMetadata c}"
  shows "is_ok (dispatch cfg (Signed who) act s)"
proof -
  have "act = CheckAccess c \<Longrightarrow> ?thesis" using m by (simp add: check_access_def Let_def)
  moreover have "act = TransferOwnership c b \<Longrightarrow> ?thesis" "act = XcmTransferOwnership c a b \<Longrightarrow> ?thesis"
    using allow ready transfer_ownership_ok [OF law m] by (auto simp: domIff)
  moreover have "act = EnableAutoRenew c \<Longrightarrow> ?thesis"
    using allow ready enable_auto_renew_ok [OF m, of cfg who] m by (auto simp: with_content_def)
  moreover have "act = DisableAutoRenew c \<Longrightarrow> ?thesis"
    using allow by (auto simp: disable_auto_renew_def Let_def)
  moreover have "act = QueryRightsMetadata c \<Longrightarrow> ?thesis"
    using m by (simp add: query_rights_metadata_def Let_def)
  ultimately show ?thesis using act by blast
qed

lemma dispatch_settings_ok:
  assumes inv: "rights_inv cfg s" and allow: "ledger_allows who (current_block s) act (ledger_of s)"
    and act: "act \<in> {SetRoyaltySplits c sps, SetMeter c mt}"
  shows "is_ok (dispatch cfg (Signed who) act s)"
proof -
  have "listed c (ledger_of s)" using act allow by auto
  then obtain m where m: "contents s c = Some m" "work c (ledger_of s) = work_of m"
    by (rule listed_content [OF inv])
  show ?thesis
  proof (cases "act = SetMeter c mt")
    case True
    then show ?thesis using allow m by (simp add: set_meter_def Let_def work_of_def)
  next
    case False
    then have sps: "act = SetRoyaltySplits c sps" using act by blast
    then have "sum_list (map (\<lambda>sp. ucast (basis_points sp) :: u32) sps) \<le> 10000"
      using allow unat_sum_basis_points [of sps] by (simp add: word_le_nat_alt valid_splits_def)
    then show ?thesis using sps allow m by (simp add: set_royalty_splits_def Let_def work_of_def)
  qed
qed

lemma dispatch_consume_ok:
  assumes inv: "rights_inv cfg s" and law: "obliging cfg sv"
    and allow: "ledger_allows who (current_block s) act (ledger_of s)"
    and ready: "serviceable cfg sv who act s"
    and act: "act = ConsumeView c \<and> v = who \<or> act = ConsumeViewFor c v"
  shows "is_ok (dispatch cfg (Signed who) act s)"
proof -
  have "0 < views (ledger_of s) (c, v)" using act allow by auto
  then obtain m pack where "contents s c = Some m" "view_packs s (c, v) = Some pack"
    "0 < views_remaining pack" by (rule views_pack [OF inv])
  with act allow ready do_consume_view_succeeds [OF law] show ?thesis
    by (auto simp: consume_view_def consume_view_for_def)
qed

text \<open>The content a call is about: every call but a registration names one, and the ledger lists it.\<close>

fun call_content :: "'a call \<Rightarrow> u32 option" where
  "call_content (RegisterContent _ _ _ _ _ _) = None"
| "call_content (Subscribe c) = Some c"
| "call_content (RenewSubscription c) = Some c"
| "call_content (PurchaseViews c _) = Some c"
| "call_content (ConsumeView c) = Some c"
| "call_content (PurchaseOwnership c) = Some c"
| "call_content (CheckAccess c) = Some c"
| "call_content (XcmSubscribe c _) = Some c"
| "call_content (XcmRenewSubscription c _) = Some c"
| "call_content (XcmPurchaseViews c _ _) = Some c"
| "call_content (XcmPurchaseOwnership c _) = Some c"
| "call_content (TransferOwnership c _) = Some c"
| "call_content (XcmTransferOwnership c _ _) = Some c"
| "call_content (SetRoyaltySplits c _) = Some c"
| "call_content (EnableAutoRenew c) = Some c"
| "call_content (DisableAutoRenew c) = Some c"
| "call_content (QueryRightsMetadata c) = Some c"
| "call_content (SetMeter c _) = Some c"
| "call_content (ConsumeViewFor c _) = Some c"

lemma allowed_content:
  assumes "rights_inv cfg s" and "ledger_allows who now act (ledger_of s)" and "call_content act = Some c"
  obtains m where "contents s c = Some m"
proof (cases "listed c (ledger_of s)")
  case True
  with listed_content [OF assms(1)] that show thesis by metis
next
  case False
  with assms(2,3) have "subscriptions s (c, who) \<noteq> None \<or> (\<exists>a. 0 < views (ledger_of s) (c, a))"
    by (cases act) auto
  then show thesis
  proof
    assume "subscriptions s (c, who) \<noteq> None"
    then show thesis using holder_content [OF assms(1), of c who] that by blast
  next
    assume "\<exists>a. 0 < views (ledger_of s) (c, a)"
    then obtain a where "0 < views (ledger_of s) (c, a)" ..
    then show thesis by (rule views_pack [OF assms(1)]) (rule that)
  qed
qed

lemma dispatch_ok:
  assumes inv: "rights_inv cfg s" and law: "obliging cfg sv"
    and allow: "ledger_allows who (current_block s) act (ledger_of s)"
    and ready: "serviceable cfg sv who act s"
  shows "is_ok (dispatch cfg (Signed who) act s)"
proof (cases "call_content act")
  case None
  then obtain h t p q r l where "act = RegisterContent h t p q r l" by (cases act) simp_all
  then show ?thesis
    using allow ready register_content_ok [OF law, of s who h t p q r l] by (simp add: has_successor_def)
next
  case (Some c)
  with inv allow obtain m where m: "contents s c = Some m" by (rule allowed_content)
  note ok = dispatch_purchase_ok [OF inv law m allow ready] dispatch_holder_ok [OF inv law m allow ready]
    dispatch_settings_ok [OF inv allow, of c] dispatch_consume_ok [OF inv law allow ready, of c]
  from Some have "(\<exists>b n. act \<in> {Subscribe c, XcmSubscribe c b, RenewSubscription c, XcmRenewSubscription c b,
      PurchaseViews c n, XcmPurchaseViews c b n, PurchaseOwnership c, XcmPurchaseOwnership c b}) \<or>
    (\<exists>a b. act \<in> {CheckAccess c, TransferOwnership c b, XcmTransferOwnership c a b,
      EnableAutoRenew c, DisableAutoRenew c, QueryRightsMetadata c}) \<or>
    (\<exists>sps mt. act \<in> {SetRoyaltySplits c sps, SetMeter c mt}) \<or>
    (\<exists>v. act = ConsumeView c \<and> v = who \<or> act = ConsumeViewFor c v)"
    by (cases act) simp_all
  with ok show ?thesis by metis
qed

section \<open>The mock pallets oblige\<close>

text \<open>An account of the mock chain can spend all but its last unit.\<close>

definition mock_service :: "(nat, mock_ext) service" where
  "mock_service =
     \<lparr>spendable = (\<lambda>x a. balance x a - 1), least_transfer = 1, item_deposit = 0,
      live_items = (\<lambda>x. set (items x)), collection_owner = colls\<rparr>"

lemma mock_obliging: "obliging mock mock_service"
  by (auto simp: obliging_def costs_def mock_service_def mock_simps Let_def)

section \<open>Property\<close>

text \<open>
  C3: No rightful call is refused: in a reachable state, a call that the ledger allows and for which
  the other pallets can serve the caller succeeds, and does to the ledger what the specification
  says. Together with the refinement this makes the ledger a total specification of the pallet: its
  conditions are necessary, and sufficient up to the other pallets.
\<close>

theorem rightful_call_succeeds:
  assumes "reachable initial_state (chain_step cfg env) s" and "lawful_env cfg env"
    and "obliging cfg sv" and "decodable act"
    and "ledger_allows who (current_block s) act (ledger_of s)" and "serviceable cfg sv who act s"
  shows "\<exists>w s'. dispatch cfg (Signed who) act s = Inr (w, s') \<and>
    ledger_of s' = ledger_call who (current_block s) act (ledger_of s)"
proof -
  have inv: "rights_inv cfg s" by (rule reachable_rights_inv [OF assms(1,2)])
  obtain w s' where run: "dispatch cfg (Signed who) act s = Inr (w, s')"
    using dispatch_ok [OF inv assms(3,5,6)] by (auto simp: is_ok_iff)
  with effect_refines [OF dispatch_effect [OF run assms(4)] inv] show ?thesis by blast
qed

theorem rightful_call_succeeds_witness:
  "\<exists>w s'. dispatch mock (Signed 1) (PurchaseViews 0 7) mock_s1 = Inr (w, s') \<and>
     views (ledger_of s') (0, 1) = 7"
proof -
  let ?act = "PurchaseViews 0 7 :: nat call"
  have "ledger_allows 1 (current_block mock_s1) ?act (ledger_of mock_s1)"
    by (simp add: listed_def mock_s1_def)
  moreover have "serviceable mock mock_service 1 ?act mock_s1"
    by (simp add: views_serviceable_def with_content_def buyable_def payable_def nestable_def
        payment_plan_def has_successor_def mock_service_def mock_s1_def mock_work_def)
  ultimately obtain w s' where "dispatch mock (Signed 1) ?act mock_s1 = Inr (w, s')"
      "ledger_of s' = ledger_call 1 (current_block mock_s1) ?act (ledger_of mock_s1)"
    using rightful_call_succeeds [OF mock_s1_reachable mock_lawful_env mock_obliging, of ?act 1] by auto
  then show ?thesis by (simp add: add_views_def views_ledger_of mock_s1_def)
qed

end
