(* ===== verification/Cross_Chain_Weights.thy ===== *)
theory Cross_Chain_Weights
  imports Content_Weights
begin

text \<open>
  The weights of \<open>src/pallets/rights-verifier/src/weights.rs\<close> and
  \<open>src/pallets/rights-client/src/weights.rs\<close>: per pallet the implementation \<open>SubstrateWeight\<close>,
  generic in the database weight, and the one for the unit type. A verification is charged per
  proof byte; \<open>proof_weights\<close> is what the verifier relies on of its weights.
\<close>

section \<open>rights-verifier\<close>

record verifier_weight_info =
  wi_verify_ownership :: "u32 \<Rightarrow> weight"
  wi_verify_subscription :: "u32 \<Rightarrow> weight"
  wi_verify_view_pack :: "u32 \<Rightarrow> weight"
  wi_record_relay_root :: weight

definition VerifierWeight_verify_ownership :: "db_weight \<Rightarrow> u32 \<Rightarrow> weight" where
  "VerifierWeight_verify_ownership db b =
     weight_chain (from_parts 21714044 5087)
       [weight_saturating_mul (from_parts 2611 0) (ucast b),
        reads db 1]"

definition VerifierWeight_verify_subscription :: "db_weight \<Rightarrow> u32 \<Rightarrow> weight" where
  "VerifierWeight_verify_subscription db b =
     weight_chain (from_parts 21166997 5087)
       [weight_saturating_mul (from_parts 2620 0) (ucast b),
        reads db 1]"

definition VerifierWeight_verify_view_pack :: "db_weight \<Rightarrow> u32 \<Rightarrow> weight" where
  "VerifierWeight_verify_view_pack db b =
     weight_chain (from_parts 20977348 5087)
       [weight_saturating_mul (from_parts 2603 0) (ucast b),
        reads db 1]"

definition VerifierWeight_record_relay_root :: "db_weight \<Rightarrow> weight" where
  "VerifierWeight_record_relay_root db =
     weight_chain (from_parts 19000000 5189)
       [reads db 2,
        writes db 1]"

definition VerifierWeight :: "db_weight \<Rightarrow> verifier_weight_info" where
  "VerifierWeight db =
     \<lparr>wi_verify_ownership = VerifierWeight_verify_ownership db,
      wi_verify_subscription = VerifierWeight_verify_subscription db,
      wi_verify_view_pack = VerifierWeight_verify_view_pack db,
      wi_record_relay_root = VerifierWeight_record_relay_root db\<rparr>"

definition VerifierUnitWeight_verify_ownership :: "u32 \<Rightarrow> weight" where
  "VerifierUnitWeight_verify_ownership b =
     weight_chain (from_parts 21714044 5087)
       [weight_saturating_mul (from_parts 2611 0) (ucast b),
        reads frame_rocks_db_weight 1]"

definition VerifierUnitWeight_verify_subscription :: "u32 \<Rightarrow> weight" where
  "VerifierUnitWeight_verify_subscription b =
     weight_chain (from_parts 21166997 5087)
       [weight_saturating_mul (from_parts 2620 0) (ucast b),
        reads frame_rocks_db_weight 1]"

definition VerifierUnitWeight_verify_view_pack :: "u32 \<Rightarrow> weight" where
  "VerifierUnitWeight_verify_view_pack b =
     weight_chain (from_parts 20977348 5087)
       [weight_saturating_mul (from_parts 2603 0) (ucast b),
        reads frame_rocks_db_weight 1]"

definition VerifierUnitWeight_record_relay_root :: weight where
  "VerifierUnitWeight_record_relay_root =
     weight_chain (from_parts 19000000 5189)
       [reads frame_rocks_db_weight 2,
        writes frame_rocks_db_weight 1]"

definition VerifierUnitWeight :: verifier_weight_info where
  "VerifierUnitWeight =
     \<lparr>wi_verify_ownership = VerifierUnitWeight_verify_ownership,
      wi_verify_subscription = VerifierUnitWeight_verify_subscription,
      wi_verify_view_pack = VerifierUnitWeight_verify_view_pack,
      wi_record_relay_root = VerifierUnitWeight_record_relay_root\<rparr>"

text \<open>The interface: a longer proof never costs less.\<close>

locale proof_weights =
  fixes V :: verifier_weight_info
  assumes verify_ownership_mono: "b \<le> c \<Longrightarrow> wi_verify_ownership V b \<le> wi_verify_ownership V c"
    and verify_subscription_mono: "b \<le> c \<Longrightarrow> wi_verify_subscription V b \<le> wi_verify_subscription V c"
    and verify_view_pack_mono: "b \<le> c \<Longrightarrow> wi_verify_view_pack V b \<le> wi_verify_view_pack V c"
begin

lemma verification_le:
  assumes "b \<le> c" and "wi_verify_ownership V c \<le> w" and "wi_verify_subscription V c \<le> w"
    and "wi_verify_view_pack V c \<le> w"
  shows "wi_verify_ownership V b \<le> w \<and> wi_verify_subscription V b \<le> w \<and> wi_verify_view_pack V b \<le> w"
  using assms verify_ownership_mono verify_subscription_mono verify_view_pack_mono order_trans by blast

end

interpretation verifier_weights: proof_weights "VerifierWeight db"
  by unfold_locales
     (auto simp: VerifierWeight_def VerifierWeight_verify_ownership_def
       VerifierWeight_verify_subscription_def VerifierWeight_verify_view_pack_def
       intro!: weight_add_mono weight_mul_mono u32_into_u64_mono)

section \<open>rights-client\<close>

record client_weight_info =
  wi_request :: weight
  wi_on_outcome :: weight

definition ClientWeight_request :: "db_weight \<Rightarrow> weight" where
  "ClientWeight_request db =
     weight_chain (from_parts 71000000 3593)
       [reads db 5,
        writes db 6]"

definition ClientWeight_on_outcome :: "db_weight \<Rightarrow> weight" where
  "ClientWeight_on_outcome db =
     weight_chain (from_parts 52000000 3593)
       [reads db 2,
        writes db 2]"

definition ClientWeight :: "db_weight \<Rightarrow> client_weight_info" where
  "ClientWeight db = \<lparr>wi_request = ClientWeight_request db, wi_on_outcome = ClientWeight_on_outcome db\<rparr>"

definition ClientUnitWeight_request :: weight where
  "ClientUnitWeight_request =
     weight_chain (from_parts 71000000 3593)
       [reads frame_rocks_db_weight 5,
        writes frame_rocks_db_weight 6]"

definition ClientUnitWeight_on_outcome :: weight where
  "ClientUnitWeight_on_outcome =
     weight_chain (from_parts 52000000 3593)
       [reads frame_rocks_db_weight 2,
        writes frame_rocks_db_weight 2]"

definition ClientUnitWeight :: client_weight_info where
  "ClientUnitWeight = \<lparr>wi_request = ClientUnitWeight_request, wi_on_outcome = ClientUnitWeight_on_outcome\<rparr>"

end
