(* ===== verification/Rights_Verifier.thy ===== *)
theory Rights_Verifier
  imports Rights_Behaviour Cross_Chain_Weights Mock_Chain
begin

text \<open>
  \<open>pallet_rights_verifier\<close> (\<open>src/pallets/rights-verifier/src/lib.rs\<close>): the window of recent relay
  roots, the two storage proofs, and the three verification calls. The trie, the hash functions
  and the header codec are Substrate's and are parameters of the model, fields of
  \<open>verifier_config\<close>. The end-to-end theorems connect a successful verification with the state of
  \<open>pallet_content_rights\<close> on the CCRMS chain; they rest on two hypotheses, that a storage proof
  that checks against a root tells the truth about the storage committed by that root
  (\<open>proofs_sound\<close>), and that the CCRMS storage holds the pallet's maps under FRAME's keys
  (\<open>stores_rights\<close>).
\<close>

section \<open>Remote types\<close>

record remote_ownership_info =
  ro_child_item_id :: u32

record remote_subscription_info =
  rs_expiry_block :: u32
  rs_auto_renew :: bool
  rs_child_item_id :: u32

record remote_view_pack_info =
  rv_views_remaining :: u32
  rv_child_item_id :: u32

text \<open>The derived decoders: the fields in order; bytes after the last field are ignored.\<close>

definition decode_remote_ownership_info :: "u8 list \<Rightarrow> remote_ownership_info option" where
  "decode_remote_ownership_info bs =
     map_option (\<lambda>(child, _). \<lparr>ro_child_item_id = child\<rparr>) (decode_u32 bs)"

definition decode_remote_subscription_info :: "u8 list \<Rightarrow> remote_subscription_info option" where
  "decode_remote_subscription_info bs =
     (case decode_u32 bs of None \<Rightarrow> None | Some (expiry, bs) \<Rightarrow>
     (case decode_bool bs of None \<Rightarrow> None | Some (auto, bs) \<Rightarrow>
     (case decode_u32 bs of None \<Rightarrow> None | Some (child, _) \<Rightarrow>
     Some \<lparr>rs_expiry_block = expiry, rs_auto_renew = auto, rs_child_item_id = child\<rparr>)))"

definition decode_remote_view_pack_info :: "u8 list \<Rightarrow> remote_view_pack_info option" where
  "decode_remote_view_pack_info bs =
     (case decode_u32 bs of None \<Rightarrow> None | Some (remaining, bs) \<Rightarrow>
     (case decode_u32 bs of None \<Rightarrow> None | Some (child, _) \<Rightarrow>
     Some \<lparr>rv_views_remaining = remaining, rv_child_item_id = child\<rparr>))"

text \<open>The encodings of the same types on the CCRMS chain, derived in \<open>types.rs\<close>.\<close>

definition encode_ownership_info :: "ownership_info \<Rightarrow> u8 list" where
  "encode_ownership_info i = encode_u32 (own_child_item_id i)"

definition encode_subscription_info :: "subscription_info \<Rightarrow> u8 list" where
  "encode_subscription_info i =
     encode_u32 (expiry_block i) @ encode_bool (auto_renew i) @ encode_u32 (sub_child_item_id i)"

definition encode_view_pack_info :: "view_pack_info \<Rightarrow> u8 list" where
  "encode_view_pack_info i = encode_u32 (views_remaining i) @ encode_u32 (pack_child_item_id i)"

section \<open>Constants, configuration and state\<close>

definition MAX_PROOF_BYTES :: u32 where
  "MAX_PROOF_BYTES = 16384"

definition PARA_HEAD_PREFIX :: "u8 list" where
  "PARA_HEAD_PREFIX = [
     0xcd, 0x71, 0x0b, 0x30, 0xbd, 0x2e, 0xab, 0x03, 0x52, 0xdd, 0xcc, 0x26, 0x41, 0x7a, 0xa1,
     0x94, 0x1b, 0x3c, 0x25, 0x2f, 0xcb, 0x29, 0xd8, 0x8e, 0xff, 0x4f, 0x3d, 0xe5, 0xde, 0x44,
     0x76, 0xc3]"

datatype verifier_error = InvalidProof | DecodingFailed | UnknownRelayBlock | NoRightsHead | ProofTooLarge

datatype verifier_dispatch_error = Verifier verifier_error | VerifierBadOrigin

datatype 'a verifier_event =
    OwnershipVerified u32 'a bool u32 u32
  | SubscriptionVerified u32 'a bool u32 u32 u32
  | ViewPackVerified u32 'a bool u32 u32 u32

text \<open>
  \<open>'h\<close> is the type of storage roots (\<open>H256\<close>). \<open>read_trie_value root nodes key\<close> stands for building a
  memory database from the proof nodes and reading the key, \<open>decode_bytes\<close> for \<open>Vec::<u8>::decode\<close>
  and \<open>decode_header\<close> for decoding a header into its state root and number. \<open>usize_max\<close> is the
  largest \<open>usize\<close> of the platform.
\<close>

record ('a, 'h) verifier_config =
  rights_para_id :: u32
  max_relay_roots :: nat
  usize_max :: nat
  twox_64 :: "u8 list \<Rightarrow> u8 list"
  twox_128 :: "u8 list \<Rightarrow> u8 list"
  blake2_128 :: "u8 list \<Rightarrow> u8 list"
  encode_account :: "'a \<Rightarrow> u8 list"
  read_trie_value :: "'h \<Rightarrow> u8 list list \<Rightarrow> u8 list \<Rightarrow> unit + u8 list option"
  decode_bytes :: "u8 list \<Rightarrow> u8 list option"
  decode_header :: "u8 list \<Rightarrow> ('h \<times> u32) option"

record ('a, 'h) verifier_state =
  relay_roots :: "(u32 \<times> 'h) list"
  verifier_events :: "'a verifier_event list"

section \<open>Helpers\<close>

text \<open>
  \<open>record_relay_root\<close>: \<open>current\<close> is the answer of \<open>T::RelayState::current()\<close>. The result \<open>None\<close> is
  the panic of \<open>Vec::remove(0)\<close> on an empty vector.
\<close>

definition record_relay_root ::
  "('a, 'h) verifier_config \<Rightarrow> (u32 \<times> 'h) option \<Rightarrow> ('a, 'h) verifier_state \<Rightarrow>
     ('a, 'h) verifier_state option" where
  "record_relay_root cfg current s =
     (case current of None \<Rightarrow> Some s
      | Some (number, root) \<Rightarrow>
          let roots = relay_roots s in
          if list_ex (\<lambda>(n, _). n = number) roots then Some s
          else (case (if max_relay_roots cfg \<le> length roots
                      then (case roots of [] \<Rightarrow> None | _ # rest \<Rightarrow> Some rest)
                      else Some roots) of
                  None \<Rightarrow> None
                | Some roots \<Rightarrow>
                    Some (s\<lparr>relay_roots :=
                      (if length roots < max_relay_roots cfg then roots @ [(number, root)] else roots)\<rparr>)))"

definition proof_bytes :: "('a, 'h) verifier_config \<Rightarrow> u8 list list \<Rightarrow> u8 list list \<Rightarrow> u32" where
  "proof_bytes cfg relay_proof rights_proof =
     unwrap_or
       (try_into_u32
         (fold (\<lambda>node acc. min (acc + length node) (usize_max cfg)) (relay_proof @ rights_proof) 0))
       (- 1)"

definition para_head_key :: "('a, 'h) verifier_config \<Rightarrow> u32 \<Rightarrow> u8 list" where
  "para_head_key cfg para_id =
     (let id = encode_u32 para_id in PARA_HEAD_PREFIX @ twox_64 cfg id @ id)"

definition blake2_128_concat :: "('a, 'h) verifier_config \<Rightarrow> u8 list \<Rightarrow> u8 list" where
  "blake2_128_concat cfg x = blake2_128 cfg x @ x"

definition content_rights_key :: "('a, 'h) verifier_config \<Rightarrow> string \<Rightarrow> u32 \<Rightarrow> 'a \<Rightarrow> u8 list" where
  "content_rights_key cfg storage_name content_id who =
     twox_128 cfg (ascii ''ContentRights'') @ twox_128 cfg (ascii storage_name)
     @ blake2_128_concat cfg (encode_u32 content_id) @ blake2_128_concat cfg (encode_account cfg who)"

definition read_proof_value ::
  "('a, 'h) verifier_config \<Rightarrow> 'h \<Rightarrow> u8 list list \<Rightarrow> u8 list \<Rightarrow> verifier_error + u8 list option" where
  "read_proof_value cfg state_root proof_nodes key =
     (case read_trie_value cfg state_root proof_nodes key of Inl _ \<Rightarrow> Inl InvalidProof | Inr v \<Rightarrow> Inr v)"

definition rights_state ::
  "('a, 'h) verifier_config \<Rightarrow> u32 \<Rightarrow> u8 list list \<Rightarrow> ('a, 'h) verifier_state \<Rightarrow>
     verifier_error + 'h \<times> u32" where
  "rights_state cfg relay_block relay_proof s =
     and_then (ok_or (map_option snd (find (\<lambda>(n, _). n = relay_block) (relay_roots s))) UnknownRelayBlock)
       (\<lambda>relay_root.
     and_then (read_proof_value cfg relay_root relay_proof (para_head_key cfg (rights_para_id cfg)))
       (\<lambda>head_opt.
     and_then (ok_or head_opt NoRightsHead) (\<lambda>head.
     and_then (ok_or (decode_bytes cfg head) DecodingFailed) (\<lambda>head_data.
     and_then (ok_or (decode_header cfg head_data) DecodingFailed) (\<lambda>(state_root, number).
     Inr (state_root, number))))))"

definition read_rights_entry ::
  "('a, 'h) verifier_config \<Rightarrow> u32 \<Rightarrow> u8 list list \<Rightarrow> u8 list list \<Rightarrow> string \<Rightarrow> u32 \<Rightarrow> 'a \<Rightarrow>
     ('a, 'h) verifier_state \<Rightarrow> verifier_error + u8 list option \<times> u32" where
  "read_rights_entry cfg relay_block relay_proof rights_proof storage_name content_id who s =
     and_then (ensure (proof_bytes cfg relay_proof rights_proof \<le> MAX_PROOF_BYTES) ProofTooLarge) (\<lambda>_.
     and_then (rights_state cfg relay_block relay_proof s) (\<lambda>(state_root, rights_block).
     let key = content_rights_key cfg storage_name content_id who in
     and_then (read_proof_value cfg state_root rights_proof key) (\<lambda>v. Inr (v, rights_block))))"

section \<open>Extrinsics\<close>

definition verifier_signed :: "'a origin \<Rightarrow> verifier_dispatch_error + 'a" where
  "verifier_signed og = (case og of Signed who \<Rightarrow> Inr who | _ \<Rightarrow> Inl VerifierBadOrigin)"

definition lift_error :: "verifier_error + 'v \<Rightarrow> verifier_dispatch_error + 'v" where
  "lift_error r = (case r of Inl e \<Rightarrow> Inl (Verifier e) | Inr v \<Rightarrow> Inr v)"

definition verifier_deposit :: "'a verifier_event \<Rightarrow> ('a, 'h) verifier_state \<Rightarrow> ('a, 'h) verifier_state" where
  "verifier_deposit e s = s\<lparr>verifier_events := verifier_events s @ [e]\<rparr>"

definition verify_ownership ::
  "('a, 'h) verifier_config \<Rightarrow> 'a origin \<Rightarrow> u32 \<Rightarrow> u8 list list \<Rightarrow> u8 list list \<Rightarrow> u32 \<Rightarrow> 'a \<Rightarrow>
     ('a, 'h) verifier_state \<Rightarrow> verifier_dispatch_error + ('a, 'h) verifier_state" where
  "verify_ownership cfg og relay_block relay_proof rights_proof content_id who s =
     and_then (verifier_signed og) (\<lambda>_.
     and_then (lift_error (read_rights_entry cfg relay_block relay_proof rights_proof ''Ownership''
                 content_id who s)) (\<lambda>(raw, rights_block).
     and_then
       (case raw of
          Some bytes \<Rightarrow>
            and_then (ok_or (decode_remote_ownership_info bytes) (Verifier DecodingFailed)) (\<lambda>_. Inr True)
        | None \<Rightarrow> Inr False) (\<lambda>is_owner.
     Inr (verifier_deposit (OwnershipVerified content_id who is_owner relay_block rights_block) s))))"

definition verify_subscription ::
  "('a, 'h) verifier_config \<Rightarrow> 'a origin \<Rightarrow> u32 \<Rightarrow> u8 list list \<Rightarrow> u8 list list \<Rightarrow> u32 \<Rightarrow> 'a \<Rightarrow>
     ('a, 'h) verifier_state \<Rightarrow> verifier_dispatch_error + ('a, 'h) verifier_state" where
  "verify_subscription cfg og relay_block relay_proof rights_proof content_id who s =
     and_then (verifier_signed og) (\<lambda>_.
     and_then (lift_error (read_rights_entry cfg relay_block relay_proof rights_proof ''Subscriptions''
                 content_id who s)) (\<lambda>(raw, rights_block).
     and_then
       (case raw of
          Some bytes \<Rightarrow>
            and_then (ok_or (decode_remote_subscription_info bytes) (Verifier DecodingFailed)) (\<lambda>info.
            Inr (rights_block < rs_expiry_block info, rs_expiry_block info))
        | None \<Rightarrow> Inr (False, 0)) (\<lambda>(is_active, expiry).
     Inr (verifier_deposit
            (SubscriptionVerified content_id who is_active expiry relay_block rights_block) s))))"

definition verify_view_pack ::
  "('a, 'h) verifier_config \<Rightarrow> 'a origin \<Rightarrow> u32 \<Rightarrow> u8 list list \<Rightarrow> u8 list list \<Rightarrow> u32 \<Rightarrow> 'a \<Rightarrow>
     ('a, 'h) verifier_state \<Rightarrow> verifier_dispatch_error + ('a, 'h) verifier_state" where
  "verify_view_pack cfg og relay_block relay_proof rights_proof content_id who s =
     and_then (verifier_signed og) (\<lambda>_.
     and_then (lift_error (read_rights_entry cfg relay_block relay_proof rights_proof ''ViewPacks''
                 content_id who s)) (\<lambda>(raw, rights_block).
     and_then
       (case raw of
          Some bytes \<Rightarrow>
            and_then (ok_or (decode_remote_view_pack_info bytes) (Verifier DecodingFailed)) (\<lambda>info.
            Inr (0 < rv_views_remaining info, rv_views_remaining info))
        | None \<Rightarrow> Inr (False, 0)) (\<lambda>(has_views, remaining).
     Inr (verifier_deposit
            (ViewPackVerified content_id who has_views remaining relay_block rights_block) s))))"

section \<open>Hooks\<close>

text \<open>\<open>on_initialize\<close> charges for the recording that \<open>on_finalize\<close> does.\<close>

definition verifier_on_initialize :: "verifier_weight_info \<Rightarrow> weight" where
  "verifier_on_initialize V = wi_record_relay_root V"

definition verifier_on_finalize ::
  "('a, 'h) verifier_config \<Rightarrow> (u32 \<times> 'h) option \<Rightarrow> ('a, 'h) verifier_state \<Rightarrow>
     ('a, 'h) verifier_state option" where
  "verifier_on_finalize cfg current s = record_relay_root cfg current s"

section \<open>The window of relay roots\<close>

definition roots_inv :: "('a, 'h) verifier_config \<Rightarrow> ('a, 'h) verifier_state \<Rightarrow> bool" where
  "roots_inv cfg s \<longleftrightarrow>
     distinct (map fst (relay_roots s)) \<and> length (relay_roots s) \<le> max_relay_roots cfg"

inductive verifier_step ::
  "('a, 'h) verifier_config \<Rightarrow> ('a, 'h) verifier_state \<Rightarrow> ('a, 'h) verifier_state \<Rightarrow> bool"
  for cfg :: "('a, 'h) verifier_config" where
  finalize: "verifier_on_finalize cfg current s = Some s' \<Longrightarrow> verifier_step cfg s s'"
| ownership_call: "verify_ownership cfg og b rp cp c who s = Inr s' \<Longrightarrow> verifier_step cfg s s'"
| subscription_call: "verify_subscription cfg og b rp cp c who s = Inr s' \<Longrightarrow> verifier_step cfg s s'"
| view_pack_call: "verify_view_pack cfg og b rp cp c who s = Inr s' \<Longrightarrow> verifier_step cfg s s'"

definition verifier_initial :: "('a, 'h) verifier_state \<Rightarrow> bool" where
  "verifier_initial s \<longleftrightarrow> relay_roots s = []"

lemma verifier_deposit_simps [simp]:
  "relay_roots (verifier_deposit e s) = relay_roots s"
  "verifier_events (verifier_deposit e s) = verifier_events s @ [e]"
  by (simp_all add: verifier_deposit_def)

lemma verify_keeps_roots:
  "verify_ownership cfg og b rp cp c who s = Inr s' \<Longrightarrow> relay_roots s' = relay_roots s"
  "verify_subscription cfg og b rp cp c who s = Inr s' \<Longrightarrow> relay_roots s' = relay_roots s"
  "verify_view_pack cfg og b rp cp c who s = Inr s' \<Longrightarrow> relay_roots s' = relay_roots s"
  by (auto simp: verify_ownership_def verify_subscription_def verify_view_pack_def result_simps)

lemma list_ex_number: "list_ex (\<lambda>(n, _). n = number) roots \<longleftrightarrow> number \<in> fst ` set roots"
  by (force simp: list_ex_iff)

lemma record_relay_root_cases:
  assumes "record_relay_root cfg current s = Some s'"
  obtains (same) "s' = s"
  | (added) number root kept where "current = Some (number, root)" "number \<notin> fst ` set (relay_roots s)"
      "kept = (if max_relay_roots cfg \<le> length (relay_roots s) then tl (relay_roots s) else relay_roots s)"
      "s' = s\<lparr>relay_roots := (if length kept < max_relay_roots cfg then kept @ [(number, root)] else kept)\<rparr>"
proof (cases current)
  case None
  with assms same show ?thesis by (simp add: record_relay_root_def)
next
  case (Some p)
  obtain number root where p: "p = (number, root)" by (cases p)
  show ?thesis
  proof (cases "number \<in> fst ` set (relay_roots s)")
    case True
    with assms Some p same show ?thesis by (simp add: record_relay_root_def Let_def list_ex_number)
  next
    case False
    with assms Some p show ?thesis
      by (intro added [OF _ False refl])
         (auto simp: record_relay_root_def Let_def list_ex_number split: list.splits if_splits)
  qed
qed

lemma record_relay_root_inv:
  assumes "record_relay_root cfg current s = Some s'" and "roots_inv cfg s"
  shows "roots_inv cfg s'"
  using assms(1)
proof (cases rule: record_relay_root_cases)
  case (added number root kept)
  have "set kept \<subseteq> set (relay_roots s)" "length kept \<le> max_relay_roots cfg" "distinct (map fst kept)"
    using assms(2) added(3) by (cases "relay_roots s"; auto simp: roots_inv_def)+
  with added(2,4) show ?thesis by (auto simp: roots_inv_def)
qed (simp add: assms(2))

interpretation verifier: invariant_system verifier_initial "verifier_step cfg" "roots_inv cfg"
proof
  show "verifier_initial s \<Longrightarrow> roots_inv cfg s" for s
    by (simp add: verifier_initial_def roots_inv_def)
  show "roots_inv cfg s \<Longrightarrow> verifier_step cfg s t \<Longrightarrow> roots_inv cfg t" for s t
    by (erule verifier_step.cases)
       (auto simp: verifier_on_finalize_def record_relay_root_inv roots_inv_def [of cfg t] roots_inv_def [of cfg s] verify_keeps_roots)
qed

section \<open>Proof sizes and keys\<close>

lemma fold_saturating:
  "fold (\<lambda>node acc. min (acc + length node) m) nodes (min a m) =
     min (a + (\<Sum>node\<leftarrow>nodes. length node)) m"
proof (induction nodes arbitrary: a)
  case (Cons node nodes)
  have "min (min a m + length node) m = min (a + length node) m" by auto
  with Cons.IH [of "a + length node"] show ?case by (simp add: add.assoc)
qed simp

lemma unat_proof_bytes:
  assumes "2 ^ 32 - 1 \<le> usize_max cfg"
  shows "unat (proof_bytes cfg rp cp) =
    min ((\<Sum>node\<leftarrow>rp. length node) + (\<Sum>node\<leftarrow>cp. length node)) (2 ^ 32 - 1)"
proof -
  let ?n = "(\<Sum>node\<leftarrow>rp. length node) + (\<Sum>node\<leftarrow>cp. length node)"
  have "fold (\<lambda>node acc. min (acc + length node) (usize_max cfg)) (rp @ cp) 0 = min ?n (usize_max cfg)"
    using fold_saturating [where a = 0 and nodes = "rp @ cp" and m = "usize_max cfg"]
    by (simp del: fold_append)
  then have "proof_bytes cfg rp cp = unwrap_or (try_into_u32 (min ?n (usize_max cfg))) (- 1)"
    by (simp only: proof_bytes_def)
  with assms show ?thesis
    by (auto simp: try_into_u32_def unat_of_nat unat_minus_one_word min_def simp del: of_nat_add)
qed

definition fixed_hashes :: "('a, 'h) verifier_config \<Rightarrow> bool" where
  "fixed_hashes cfg \<longleftrightarrow>
     (\<forall>x. length (twox_128 cfg x) = 16 \<and> length (blake2_128 cfg x) = 16) \<and>
     inj_on (\<lambda>name. twox_128 cfg (ascii name)) {''Ownership'', ''Subscriptions'', ''ViewPacks''}"

lemma content_rights_key_inj:
  assumes "fixed_hashes cfg" and "inj (encode_account cfg)"
    and "content_rights_key cfg name c a = content_rights_key cfg name' c' a'"
    and "name \<in> {''Ownership'', ''Subscriptions'', ''ViewPacks''}"
    and "name' \<in> {''Ownership'', ''Subscriptions'', ''ViewPacks''}"
  shows "name = name' \<and> c = c' \<and> a = a'"
proof -
  have len: "length (twox_128 cfg x) = 16" "length (blake2_128 cfg x) = 16" for x
    using assms(1) by (simp_all add: fixed_hashes_def)
  from assms(3) have "twox_128 cfg (ascii name) = twox_128 cfg (ascii name')"
    and c: "encode_u32 c = encode_u32 c'" and a: "encode_account cfg a = encode_account cfg a'"
    by (simp_all add: content_rights_key_def blake2_128_concat_def len)
  then have "name = name'" using assms(1,4,5) by (auto simp: fixed_hashes_def inj_on_def)
  with c a show ?thesis using assms(2) by (simp add: u32_codec.encode_eq_iff inj_eq)
qed

section \<open>What a verification says about CCRMS\<close>

definition proofs_sound ::
  "('a, 'h) verifier_config \<Rightarrow> ('h \<Rightarrow> u8 list \<Rightarrow> u8 list option) \<Rightarrow> bool" where
  "proofs_sound cfg stored \<longleftrightarrow>
     (\<forall>root nodes key v. read_trie_value cfg root nodes key = Inr v \<longrightarrow> v = stored root key)"

text \<open>The relay-chain storage holds, for the CCRMS para, a head with this state root and number.\<close>

definition includes_head ::
  "('a, 'h) verifier_config \<Rightarrow> (u8 list \<Rightarrow> u8 list option) \<Rightarrow> 'h \<Rightarrow> u32 \<Rightarrow> bool" where
  "includes_head cfg relay_storage rights_root n \<longleftrightarrow>
     (case relay_storage (para_head_key cfg (rights_para_id cfg)) of None \<Rightarrow> False
      | Some head \<Rightarrow>
          (case decode_bytes cfg head of None \<Rightarrow> False
           | Some head_data \<Rightarrow> decode_header cfg head_data = Some (rights_root, n)))"

definition stores_rights ::
  "('a, 'h) verifier_config \<Rightarrow> (u8 list \<Rightarrow> u8 list option) \<Rightarrow> ('a, 'x) state \<Rightarrow> bool" where
  "stores_rights cfg storage cs \<longleftrightarrow>
     (\<forall>c a.
        storage (content_rights_key cfg ''Ownership'' c a) =
          map_option encode_ownership_info (ownership cs (c, a)) \<and>
        storage (content_rights_key cfg ''Subscriptions'' c a) =
          map_option encode_subscription_info (subscriptions cs (c, a)) \<and>
        storage (content_rights_key cfg ''ViewPacks'' c a) =
          map_option encode_view_pack_info (view_packs cs (c, a)))"

text \<open>
  A relay root is recorded whose relay storage includes the CCRMS block with state \<open>cs\<close> and
  number \<open>n\<close>.
\<close>

definition proves_state ::
  "('a, 'h) verifier_config \<Rightarrow> ('h \<Rightarrow> u8 list \<Rightarrow> u8 list option) \<Rightarrow> ('a, 'h) verifier_state \<Rightarrow> u32 \<Rightarrow>
     ('a, 'x) state \<Rightarrow> u32 \<Rightarrow> bool" where
  "proves_state cfg stored s relay_block cs n \<longleftrightarrow>
     proofs_sound cfg stored \<and>
     (\<forall>relay_root. (relay_block, relay_root) \<in> set (relay_roots s) \<longrightarrow>
        (\<exists>rights_root. includes_head cfg (stored relay_root) rights_root n \<and>
           stores_rights cfg (stored rights_root) cs))"

text \<open>Only the three proven maps of the CCRMS state matter.\<close>

lemma proves_state_cong:
  assumes "ownership cs = ownership cs'" and "subscriptions cs = subscriptions cs'"
    and "view_packs cs = view_packs cs'"
  shows "proves_state cfg stored s b cs n = proves_state cfg stored s b cs' n"
  using assms by (simp add: proves_state_def stores_rights_def)

lemma read_proof_value_Inr:
  "read_proof_value cfg root nodes key = Inr v \<longleftrightarrow> read_trie_value cfg root nodes key = Inr v"
  by (auto simp: read_proof_value_def split: sum.splits)

lemma find_root: "find (\<lambda>(n, _). n = b) roots = Some (a, r) \<Longrightarrow> (b, r) \<in> set roots"
  by (induction roots) (auto split: if_splits)

lemma read_rights_entry_correct:
  assumes world: "proves_state cfg stored s relay_block cs n"
    and run: "read_rights_entry cfg relay_block rp cp name c who s = Inr (raw, m)"
  obtains storage where "m = n" and "stores_rights cfg storage cs"
    and "raw = storage (content_rights_key cfg name c who)"
proof -
  from run obtain rights_root where
    st: "rights_state cfg relay_block rp s = Inr (rights_root, m)"
    and raw: "read_trie_value cfg rights_root cp (content_rights_key cfg name c who) = Inr raw"
    by (auto simp: read_rights_entry_def Let_def result_simps read_proof_value_Inr)
  from st obtain relay_root head hd where
    root: "(relay_block, relay_root) \<in> set (relay_roots s)"
    and head: "read_trie_value cfg relay_root rp (para_head_key cfg (rights_para_id cfg)) = Inr (Some head)"
    and hd: "decode_bytes cfg head = Some hd" "decode_header cfg hd = Some (rights_root, m)"
    by (auto simp: rights_state_def result_simps read_proof_value_Inr dest!: find_root)
  have sound: "read_trie_value cfg r nodes k = Inr v \<Longrightarrow> v = stored r k" for r nodes k v
    using world by (simp add: proves_state_def proofs_sound_def)
  from world root obtain rr where
    rr: "includes_head cfg (stored relay_root) rr n" "stores_rights cfg (stored rr) cs"
    by (auto simp: proves_state_def)
  have "rr = rights_root" "m = n"
    using rr(1) sound [OF head, symmetric] hd by (simp_all add: includes_head_def)
  with rr(2) sound [OF raw] show thesis by (intro that) simp_all
qed

lemma decode_remote_roundtrip [simp]:
  "decode_remote_ownership_info (encode_ownership_info i) = Some \<lparr>ro_child_item_id = own_child_item_id i\<rparr>"
  "decode_remote_subscription_info (encode_subscription_info j) =
     Some \<lparr>rs_expiry_block = expiry_block j, rs_auto_renew = auto_renew j,
           rs_child_item_id = sub_child_item_id j\<rparr>"
  "decode_remote_view_pack_info (encode_view_pack_info k) =
     Some \<lparr>rv_views_remaining = views_remaining k, rv_child_item_id = pack_child_item_id k\<rparr>"
  by (simp_all add: decode_remote_ownership_info_def encode_ownership_info_def
      decode_remote_subscription_info_def encode_subscription_info_def
      decode_remote_view_pack_info_def encode_view_pack_info_def
      u32_codec.decode_encode u32_codec.decode_encode_self bool_codec.decode_encode)

lemma lift_error_Inr [result_simps]: "lift_error r = Inr v \<longleftrightarrow> r = Inr v"
  by (cases r) (simp_all add: lift_error_def)

lemma verify_ownership_correct:
  assumes "proves_state cfg stored s relay_block cs n"
    and "verify_ownership cfg og relay_block rp cp c who s = Inr s'"
  shows "verifier_events s' = verifier_events s @
    [OwnershipVerified c who (Ownership \<in> rights_held n c who (ledger_of cs)) relay_block n]"
proof -
  from assms(2) obtain raw m is_owner where
    entry: "read_rights_entry cfg relay_block rp cp ''Ownership'' c who s = Inr (raw, m)"
    and dec: "(case raw of Some bytes \<Rightarrow>
        and_then (ok_or (decode_remote_ownership_info bytes) (Verifier DecodingFailed)) (\<lambda>_. Inr True)
      | None \<Rightarrow> Inr False) = Inr is_owner"
    and ev: "verifier_events s' = verifier_events s @ [OwnershipVerified c who is_owner relay_block m]"
    by (auto simp: verify_ownership_def result_simps)
  obtain storage where m: "m = n" and st: "stores_rights cfg storage cs"
    and raw: "raw = storage (content_rights_key cfg ''Ownership'' c who)"
    by (rule read_rights_entry_correct [OF assms(1) entry])
  have "is_owner \<longleftrightarrow> ownership cs (c, who) \<noteq> None"
    using dec st raw by (cases "ownership cs (c, who)") (simp_all add: stores_rights_def)
  then have "is_owner \<longleftrightarrow> Ownership \<in> rights_held n c who (ledger_of cs)"
    by (auto simp: rights_held_def)
  then show ?thesis using ev m by simp
qed

lemma verify_subscription_correct:
  assumes "proves_state cfg stored s relay_block cs n"
    and "verify_subscription cfg og relay_block rp cp c who s = Inr s'"
  shows "verifier_events s' = verifier_events s @
    [SubscriptionVerified c who (Subscription \<in> rights_held n c who (ledger_of cs))
       (unwrap_or (paid_until (ledger_of cs) (c, who)) 0) relay_block n]"
proof -
  from assms(2) obtain raw m is_active expiry where
    entry: "read_rights_entry cfg relay_block rp cp ''Subscriptions'' c who s = Inr (raw, m)"
    and dec: "(case raw of Some bytes \<Rightarrow>
        and_then (ok_or (decode_remote_subscription_info bytes) (Verifier DecodingFailed)) (\<lambda>info.
          Inr (m < rs_expiry_block info, rs_expiry_block info))
      | None \<Rightarrow> Inr (False, 0)) = Inr (is_active, expiry)"
    and ev: "verifier_events s' =
      verifier_events s @ [SubscriptionVerified c who is_active expiry relay_block m]"
    by (auto simp: verify_subscription_def result_simps)
  obtain storage where m: "m = n" and st: "stores_rights cfg storage cs"
    and raw: "raw = storage (content_rights_key cfg ''Subscriptions'' c who)"
    by (rule read_rights_entry_correct [OF assms(1) entry])
  have "is_active = (Subscription \<in> rights_held n c who (ledger_of cs)) \<and>
      expiry = unwrap_or (paid_until (ledger_of cs) (c, who)) 0"
    using dec st raw m
    by (cases "subscriptions cs (c, who)") (auto simp: stores_rights_def rights_held_def)
  then show ?thesis using ev m by simp
qed

lemma verify_view_pack_correct:
  assumes "proves_state cfg stored s relay_block cs n"
    and "verify_view_pack cfg og relay_block rp cp c who s = Inr s'"
  shows "verifier_events s' = verifier_events s @
    [ViewPackVerified c who (PayPerView \<in> rights_held n c who (ledger_of cs))
       (of_nat (views (ledger_of cs) (c, who))) relay_block n]"
proof -
  from assms(2) obtain raw m has_views remaining where
    entry: "read_rights_entry cfg relay_block rp cp ''ViewPacks'' c who s = Inr (raw, m)"
    and dec: "(case raw of Some bytes \<Rightarrow>
        and_then (ok_or (decode_remote_view_pack_info bytes) (Verifier DecodingFailed)) (\<lambda>info.
          Inr (0 < rv_views_remaining info, rv_views_remaining info))
      | None \<Rightarrow> Inr (False, 0)) = Inr (has_views, remaining)"
    and ev: "verifier_events s' =
      verifier_events s @ [ViewPackVerified c who has_views remaining relay_block m]"
    by (auto simp: verify_view_pack_def result_simps)
  obtain storage where m: "m = n" and st: "stores_rights cfg storage cs"
    and raw: "raw = storage (content_rights_key cfg ''ViewPacks'' c who)"
    by (rule read_rights_entry_correct [OF assms(1) entry])
  have "has_views = (PayPerView \<in> rights_held n c who (ledger_of cs)) \<and>
      remaining = of_nat (views (ledger_of cs) (c, who))"
    using dec st raw
    by (cases "view_packs cs (c, who)")
       (auto simp: stores_rights_def rights_held_def views_ledger_of word_less_nat_alt)
  then show ?thesis using ev m by simp
qed

section \<open>A concrete world\<close>

text \<open>
  Root 0 commits a relay storage whose only entry is the CCRMS head, root 1 the CCRMS storage of
  the mock chain in state \<open>mock_s1\<close>, block 5.
\<close>

definition mock_keys :: "(nat, nat) verifier_config" where
  "mock_keys =
     \<lparr>rights_para_id = 2000, max_relay_roots = 2, usize_max = 2 ^ 32 - 1,
      twox_64 = (\<lambda>_. replicate 8 0),
      twox_128 = (\<lambda>bs. replicate 15 0 @ [case bs of [] \<Rightarrow> 0 | b # _ \<Rightarrow> b]),
      blake2_128 = (\<lambda>_. replicate 16 0), encode_account = (\<lambda>a. replicate a 1 @ [0]),
      read_trie_value = (\<lambda>_ _ _. Inl ()), decode_bytes = Some, decode_header = (\<lambda>_. Some (1, 5))\<rparr>"

definition mock_rights_storage :: "u8 list \<Rightarrow> u8 list option" where
  "mock_rights_storage key =
     (if key = content_rights_key mock_keys ''Ownership'' 0 2 then
        Some (encode_ownership_info \<lparr>own_child_item_id = 3\<rparr>)
      else if key = content_rights_key mock_keys ''Subscriptions'' 0 2 then
        Some (encode_subscription_info \<lparr>expiry_block = 205, auto_renew = True, sub_child_item_id = 1\<rparr>)
      else if key = content_rights_key mock_keys ''ViewPacks'' 0 2 then
        Some (encode_view_pack_info \<lparr>views_remaining = 3, pack_child_item_id = 2\<rparr>)
      else None)"

definition mock_stored :: "nat \<Rightarrow> u8 list \<Rightarrow> u8 list option" where
  "mock_stored root =
     (if root = 0 then [para_head_key mock_keys 2000 \<mapsto> []] else mock_rights_storage)"

definition mock_verifier :: "(nat, nat) verifier_config" where
  "mock_verifier = mock_keys\<lparr>read_trie_value := \<lambda>root nodes key. Inr (mock_stored root key)\<rparr>"

definition mock_vs :: "(nat, nat) verifier_state" where
  "mock_vs = \<lparr>relay_roots = [(77, 0)], verifier_events = []\<rparr>"

lemma mock_verifier_keys [simp]:
  "content_rights_key mock_verifier = content_rights_key mock_keys"
  "para_head_key mock_verifier = para_head_key mock_keys"
  "rights_para_id mock_verifier = 2000" "decode_bytes mock_verifier = Some"
  "decode_header mock_verifier = (\<lambda>_. Some (1, 5))"
  "read_trie_value mock_verifier = (\<lambda>root nodes key. Inr (mock_stored root key))"
  "max_relay_roots mock_verifier = 2"
  by (simp_all add: fun_eq_iff mock_verifier_def content_rights_key_def blake2_128_concat_def
      para_head_key_def mock_keys_def)

lemma mock_fixed_hashes: "fixed_hashes mock_keys"
  by (auto simp: fixed_hashes_def mock_keys_def inj_on_def ascii_def)

lemma inj_mock_account: "inj (encode_account mock_keys)"
proof (rule injI)
  fix a b :: nat
  assume "encode_account mock_keys a = encode_account mock_keys b"
  then have "length (replicate a (1 :: u8) @ [0]) = length (replicate b (1 :: u8) @ [0])"
    by (simp add: mock_keys_def)
  then show "a = b" by simp
qed

lemma mock_key_eq:
  assumes "name \<in> {''Ownership'', ''Subscriptions'', ''ViewPacks''}"
    and "name' \<in> {''Ownership'', ''Subscriptions'', ''ViewPacks''}"
  shows "content_rights_key mock_keys name c a = content_rights_key mock_keys name' c' a' \<longleftrightarrow>
    name = name' \<and> c = c' \<and> a = a'"
  using content_rights_key_inj [OF mock_fixed_hashes inj_mock_account _ assms] by blast

lemma mock_proves_state: "proves_state mock_verifier mock_stored mock_vs 77 mock_s1 5"
  unfolding proves_state_def
proof (intro conjI allI impI)
  show "proofs_sound mock_verifier mock_stored" by (simp add: proofs_sound_def)
  fix relay_root
  assume "(77, relay_root) \<in> set (relay_roots mock_vs)"
  then have r: "relay_root = 0" by (simp add: mock_vs_def)
  have "includes_head mock_verifier (mock_stored relay_root) 1 5"
    by (simp add: r includes_head_def mock_stored_def)
  moreover have "stores_rights mock_verifier (mock_stored 1) mock_s1"
    by (auto simp: stores_rights_def mock_stored_def mock_rights_storage_def mock_key_eq mock_s1_def)
  ultimately show "\<exists>rights_root. includes_head mock_verifier (mock_stored relay_root) rights_root 5 \<and>
      stores_rights mock_verifier (mock_stored rights_root) mock_s1" by blast
qed

lemma mock_entry:
  "read_rights_entry mock_verifier 77 [] [] name c a mock_vs =
     Inr (mock_rights_storage (content_rights_key mock_keys name c a), 5)"
  by (simp add: read_rights_entry_def rights_state_def read_proof_value_def mock_vs_def mock_stored_def
      proof_bytes_def try_into_u32_def MAX_PROOF_BYTES_def Let_def)

section \<open>Properties\<close>

text \<open>
  C35: A successful verification tells the truth about the CCRMS chain, as of the block included
  at the chosen relay block, which the event names. Ownership is reported exactly when the account
  holds it there; for a subscription the stored expiry block is reported, and it is called active
  exactly when the account holds the subscription right at that block; for a view pack the number
  of views left is reported, and that there are views exactly when the account holds the
  pay-per-view right.
\<close>

theorem verification_sound:
  assumes "proves_state cfg stored s relay_block cs n"
  shows "(verify_ownership cfg og relay_block rp cp c who s = Inr s' \<longrightarrow>
      verifier_events s' = verifier_events s @
        [OwnershipVerified c who (Ownership \<in> rights_held n c who (ledger_of cs)) relay_block n]) \<and>
    (verify_subscription cfg og relay_block rp cp c who s = Inr s' \<longrightarrow>
      verifier_events s' = verifier_events s @
        [SubscriptionVerified c who (Subscription \<in> rights_held n c who (ledger_of cs))
           (unwrap_or (paid_until (ledger_of cs) (c, who)) 0) relay_block n]) \<and>
    (verify_view_pack cfg og relay_block rp cp c who s = Inr s' \<longrightarrow>
      verifier_events s' = verifier_events s @
        [ViewPackVerified c who (PayPerView \<in> rights_held n c who (ledger_of cs))
           (of_nat (views (ledger_of cs) (c, who))) relay_block n])"
  using verify_ownership_correct [OF assms] verify_subscription_correct [OF assms]
    verify_view_pack_correct [OF assms] by blast

theorem verification_sound_witness:
  "\<exists>s' t' u'. verify_ownership mock_verifier (Signed 1) 77 [] [] 0 2 mock_vs = Inr s' \<and>
     verifier_events s' = [OwnershipVerified 0 2 True 77 5] \<and>
     verify_subscription mock_verifier (Signed 1) 77 [] [] 0 2 mock_vs = Inr t' \<and>
     verifier_events t' = [SubscriptionVerified 0 2 True 205 77 5] \<and>
     verify_view_pack mock_verifier (Signed 1) 77 [] [] 0 2 mock_vs = Inr u' \<and>
     verifier_events u' = [ViewPackVerified 0 2 True 3 77 5]"
proof -
  obtain s' where s: "verify_ownership mock_verifier (Signed 1) 77 [] [] 0 2 mock_vs = Inr s'"
    by (simp add: verify_ownership_def verifier_signed_def mock_entry lift_error_def mock_rights_storage_def)
  obtain t' where t: "verify_subscription mock_verifier (Signed 1) 77 [] [] 0 2 mock_vs = Inr t'"
    by (simp add: verify_subscription_def verifier_signed_def mock_entry lift_error_def
        mock_rights_storage_def mock_key_eq)
  obtain u' where u: "verify_view_pack mock_verifier (Signed 1) 77 [] [] 0 2 mock_vs = Inr u'"
    by (simp add: verify_view_pack_def verifier_signed_def mock_entry lift_error_def
        mock_rights_storage_def mock_key_eq)
  have v: "views (ledger_of mock_s1) (0, 2) = 3" by (simp add: ledger_of_def mock_s1_def)
  note sound = verification_sound [OF mock_proves_state, of "Signed 1" "[]" "[]" 0 2]
  have "verifier_events s' = [OwnershipVerified 0 2 True 77 5]"
    using sound [of s'] s by (simp add: mock_vs_def rights_held_def mock_s1_def)
  moreover have "verifier_events t' = [SubscriptionVerified 0 2 True 205 77 5]"
    using sound [of t'] t by (simp add: mock_vs_def rights_held_def mock_s1_def)
  moreover have "verifier_events u' = [ViewPackVerified 0 2 True 3 77 5]"
    using sound [of u'] u v by (simp add: mock_vs_def rights_held_def)
  ultimately show ?thesis using s t u by blast
qed

text \<open>
  C39: The window of relay roots: as long as at least one root may be kept, recording never
  panics; afterwards the relay parent is recorded, no number is recorded twice, at most
  \<open>MaxRelayRoots\<close> entries are kept, and a new relay parent displaces the oldest entry only.
\<close>

theorem relay_root_window:
  assumes "reachable verifier_initial (verifier_step cfg) s" and "0 < max_relay_roots cfg"
  shows "\<exists>s'. record_relay_root cfg (Some (number, root)) s = Some s' \<and>
    number \<in> fst ` set (relay_roots s') \<and> distinct (map fst (relay_roots s')) \<and>
    length (relay_roots s') \<le> max_relay_roots cfg \<and>
    relay_roots s' =
      (if number \<in> fst ` set (relay_roots s) then relay_roots s
       else drop (Suc (length (relay_roots s)) - max_relay_roots cfg) (relay_roots s) @ [(number, root)])"
proof -
  have inv: "roots_inv cfg s" using verifier.inv_reachable [OF assms(1)] .
  show ?thesis
  proof (cases "number \<in> fst ` set (relay_roots s)")
    case True
    with inv show ?thesis by (simp add: record_relay_root_def Let_def list_ex_number roots_inv_def)
  next
    case False
    let ?kept = "drop (Suc (length (relay_roots s)) - max_relay_roots cfg) (relay_roots s)"
    have run: "record_relay_root cfg (Some (number, root)) s = Some (s\<lparr>relay_roots := ?kept @ [(number, root)]\<rparr>)"
      using False assms(2) inv
      by (cases "relay_roots s")
         (auto simp: record_relay_root_def Let_def list_ex_number roots_inv_def Suc_diff_le)
    from record_relay_root_inv [OF run inv] False run show ?thesis by (simp add: roots_inv_def)
  qed
qed

theorem relay_root_window_witness:
  "\<exists>s'. record_relay_root mock_verifier (Some (78, 4)) \<lparr>relay_roots = [], verifier_events = []\<rparr> = Some s' \<and>
     relay_roots s' = [(78, 4)]"
proof -
  have "reachable verifier_initial (verifier_step mock_verifier)
      \<lparr>relay_roots = [], verifier_events = []\<rparr>"
    by (rule reachable.reach_start) (simp add: verifier_initial_def)
  from relay_root_window [OF this, of 78 4] show ?thesis by auto
qed

lemma read_rights_entry_guards:
  "read_rights_entry cfg b rp cp name c who s = Inl ProofTooLarge \<longleftrightarrow>
     MAX_PROOF_BYTES < proof_bytes cfg rp cp"
  "read_rights_entry cfg b rp cp name c who s = Inl UnknownRelayBlock \<longleftrightarrow>
     proof_bytes cfg rp cp \<le> MAX_PROOF_BYTES \<and> b \<notin> fst ` set (relay_roots s)"
proof -
  have rp: "read_proof_value cfg r nodes k \<noteq> Inl e" if "e \<noteq> InvalidProof" for r nodes k e
    using that by (auto simp: read_proof_value_def split: sum.splits)
  have none: "find (\<lambda>(n, _). n = b) (relay_roots s) = None \<longleftrightarrow> b \<notin> fst ` set (relay_roots s)"
    by (force simp: find_None_iff)
  have st: "rights_state cfg b rp s \<noteq> Inl ProofTooLarge"
    "rights_state cfg b rp s = Inl UnknownRelayBlock \<longleftrightarrow> b \<notin> fst ` set (relay_roots s)"
    by (auto simp: rights_state_def result_simps rp none)
  show "read_rights_entry cfg b rp cp name c who s = Inl ProofTooLarge \<longleftrightarrow>
      MAX_PROOF_BYTES < proof_bytes cfg rp cp"
    by (auto simp: read_rights_entry_def Let_def result_simps rp st not_le)
  show "read_rights_entry cfg b rp cp name c who s = Inl UnknownRelayBlock \<longleftrightarrow>
      proof_bytes cfg rp cp \<le> MAX_PROOF_BYTES \<and> b \<notin> fst ` set (relay_roots s)"
    by (auto simp: read_rights_entry_def Let_def result_simps rp st)
qed

lemma verify_errors:
  assumes "e \<noteq> DecodingFailed"
  shows "verify_ownership cfg (Signed a) b rp cp c who s = Inl (Verifier e) \<longleftrightarrow>
      read_rights_entry cfg b rp cp ''Ownership'' c who s = Inl e"
    and "verify_subscription cfg (Signed a) b rp cp c who s = Inl (Verifier e) \<longleftrightarrow>
      read_rights_entry cfg b rp cp ''Subscriptions'' c who s = Inl e"
    and "verify_view_pack cfg (Signed a) b rp cp c who s = Inl (Verifier e) \<longleftrightarrow>
      read_rights_entry cfg b rp cp ''ViewPacks'' c who s = Inl e"
proof -
  have lift: "lift_error r = Inl (Verifier e) \<longleftrightarrow> r = Inl e" for r :: "verifier_error + u8 list option \<times> u32"
    by (cases r) (auto simp: lift_error_def)
  note defs = verify_ownership_def verify_subscription_def verify_view_pack_def verifier_signed_def
  show "verify_ownership cfg (Signed a) b rp cp c who s = Inl (Verifier e) \<longleftrightarrow>
      read_rights_entry cfg b rp cp ''Ownership'' c who s = Inl e"
    using assms by (auto simp: defs result_simps lift split: option.splits)
  show "verify_subscription cfg (Signed a) b rp cp c who s = Inl (Verifier e) \<longleftrightarrow>
      read_rights_entry cfg b rp cp ''Subscriptions'' c who s = Inl e"
    using assms by (auto simp: defs result_simps lift split: option.splits)
  show "verify_view_pack cfg (Signed a) b rp cp c who s = Inl (Verifier e) \<longleftrightarrow>
      read_rights_entry cfg b rp cp ''ViewPacks'' c who s = Inl e"
    using assms by (auto simp: defs result_simps lift split: option.splits)
qed

text \<open>
  Proofs are bounded and roots are not the caller's to choose: a verification call of a
  signed caller fails with \<open>ProofTooLarge\<close> exactly when its proofs have more than
  \<open>MAX_PROOF_BYTES\<close> bytes, and with \<open>UnknownRelayBlock\<close> exactly when they have not but no root is
  recorded for the relay block it names, whatever the proofs say.
\<close>

lemma verification_guards:
  "(verify_ownership cfg (Signed a) b rp cp c who s = Inl (Verifier ProofTooLarge) \<longleftrightarrow>
      MAX_PROOF_BYTES < proof_bytes cfg rp cp) \<and>
   (verify_subscription cfg (Signed a) b rp cp c who s = Inl (Verifier ProofTooLarge) \<longleftrightarrow>
      MAX_PROOF_BYTES < proof_bytes cfg rp cp) \<and>
   (verify_view_pack cfg (Signed a) b rp cp c who s = Inl (Verifier ProofTooLarge) \<longleftrightarrow>
      MAX_PROOF_BYTES < proof_bytes cfg rp cp) \<and>
   (verify_ownership cfg (Signed a) b rp cp c who s = Inl (Verifier UnknownRelayBlock) \<longleftrightarrow>
      proof_bytes cfg rp cp \<le> MAX_PROOF_BYTES \<and> b \<notin> fst ` set (relay_roots s)) \<and>
   (verify_subscription cfg (Signed a) b rp cp c who s = Inl (Verifier UnknownRelayBlock) \<longleftrightarrow>
      proof_bytes cfg rp cp \<le> MAX_PROOF_BYTES \<and> b \<notin> fst ` set (relay_roots s)) \<and>
   (verify_view_pack cfg (Signed a) b rp cp c who s = Inl (Verifier UnknownRelayBlock) \<longleftrightarrow>
      proof_bytes cfg rp cp \<le> MAX_PROOF_BYTES \<and> b \<notin> fst ` set (relay_roots s))"
  by (simp add: verify_errors read_rights_entry_guards)

text \<open>
  The storage keys do not collide: two entries of the three proven maps have the same key
  only if they are the same entry of the same map (for hashes of the fixed length that tell the
  three map names apart, and an injective account encoding).
\<close>

lemma storage_keys_distinct:
  assumes "fixed_hashes cfg" and "inj (encode_account cfg)"
    and "{name, name'} \<subseteq> {''Ownership'', ''Subscriptions'', ''ViewPacks''}"
  shows "content_rights_key cfg name c a = content_rights_key cfg name' c' a' \<longleftrightarrow>
    name = name' \<and> c = c' \<and> a = a'"
proof
  assume "content_rights_key cfg name c a = content_rights_key cfg name' c' a'"
  from content_rights_key_inj [OF assms(1,2) this] assms(3)
  show "name = name' \<and> c = c' \<and> a = a'" by (simp only: insert_subset)
qed simp

theorem storage_keys_distinct_witness:
  "content_rights_key mock_keys ''Ownership'' 1 2 \<noteq> content_rights_key mock_keys ''ViewPacks'' 1 2"
  using storage_keys_distinct [OF mock_fixed_hashes inj_mock_account, of "''Ownership''" "''ViewPacks''" 1 2 1 2]
  by simp

text \<open>
  The charged proof size is the exact number of bytes of both proofs, whenever it fits.
\<close>

lemma proof_bytes_exact:
  assumes "2 ^ 32 - 1 \<le> usize_max cfg"
  shows "unat (proof_bytes cfg rp cp) = min (length (concat rp) + length (concat cp)) (2 ^ 32 - 1)"
  using unat_proof_bytes [OF assms] by (simp add: length_concat)

end
