(* ===== verification/Call_Codec.thy ===== *)
theory Call_Codec
  imports Rights_Calls Scale_Codec
begin

text \<open>
  The SCALE encoding of the calls of \<open>pallet_content_rights\<close>. The call indices and the order of the
  arguments are those of \<open>src/pallets/content-rights/src/lib.rs\<close>; the call enum is encoded as the index
  of the pallet in the runtime, the call index, and the arguments in their order, vectors with a
  compact length. The decoder that the call macro derives is a parameter \<open>dec\<close> with the law
  \<open>call_decoder\<close>: it reads back what was encoded. \<open>decode_call\<close> is a decoder that satisfies the law and
  rejects everything else, so that the bounds on arguments which the other theories assume of a
  dispatched call are those a decoder enforces.
\<close>

section \<open>Codecs of bounded types\<close>

locale checked_codec =
  fixes encode :: "'v \<Rightarrow> u8 list"
    and decode :: "u8 list \<Rightarrow> ('v \<times> u8 list) option"
    and fits :: "'v \<Rightarrow> bool"
  assumes decode_iff: "decode bs = Some (v, rest) \<longleftrightarrow> fits v \<and> bs = encode v @ rest"
begin

lemma decode_encode: "fits v \<Longrightarrow> decode (encode v @ rest) = Some (v, rest)"
  by (simp add: decode_iff)

lemma decode_fits: "decode bs = Some (v, rest) \<Longrightarrow> fits v"
  by (simp add: decode_iff)

lemma encode_prefix_free:
  assumes "fits v" and "fits w" and "encode v @ r = encode w @ r'"
  shows "v = w \<and> r = r'"
  by (metis assms decode_encode option.inject prod.inject)

end

sublocale canonical_codec \<subseteq> checked: checked_codec encode decode "\<lambda>_. True"
  by unfold_locales (simp add: decode_iff)

section \<open>Integers of other widths\<close>

definition encode_word :: "nat \<Rightarrow> 'w::len word \<Rightarrow> u8 list" where
  "encode_word k w = le_encode k (unat w)"

definition decode_word :: "nat \<Rightarrow> u8 list \<Rightarrow> ('w::len word \<times> u8 list) option" where
  "decode_word k bs = map_option (\<lambda>(n, rest). (of_nat n, rest)) (le_decode k bs)"

lemma decode_word_iff:
  fixes w :: "'w::len word"
  assumes "256 ^ k = (2 :: nat) ^ LENGTH('w)"
  shows "decode_word k bs = Some (w, rest) \<longleftrightarrow> bs = encode_word k w @ rest"
proof
  assume "decode_word k bs = Some (w, rest)"
  then obtain n where n: "le_decode k bs = Some (n, rest)" "w = of_nat n"
    by (auto simp: decode_word_def)
  have "unat w = n" using le_decode_bound [OF n(1)] assms n(2) by (simp add: unat_of_nat)
  then show "bs = encode_word k w @ rest" using le_decode_sound [OF n(1)] by (simp add: encode_word_def)
next
  have "unat w < 256 ^ k" using unat_less_pow [of w] assms by simp
  then show "bs = encode_word k w @ rest \<Longrightarrow> decode_word k bs = Some (w, rest)"
    by (simp add: decode_word_def encode_word_def le_decode_encode)
qed

interpretation u16_codec: canonical_codec "encode_word 2 :: u16 \<Rightarrow> _" "decode_word 2"
  by unfold_locales (simp_all add: decode_word_iff)

interpretation u128_codec: canonical_codec "encode_word 16 :: u128 \<Rightarrow> _" "decode_word 16"
  by unfold_locales (simp_all add: decode_word_iff)

section \<open>Compact lengths\<close>

text \<open>
  The two lowest bits of the first byte give the mode. A decoder rejects an encoding that is longer
  than necessary. Mode three announces at least \<open>2 ^ 30\<close> elements, more than any vector here may have.
\<close>

definition encode_compact :: "nat \<Rightarrow> u8 list" where
  "encode_compact n =
     (if n < 2 ^ 6 then le_encode 1 (4 * n)
      else if n < 2 ^ 14 then le_encode 2 (4 * n + 1)
      else le_encode 4 (4 * n + 2))"

definition decode_compact :: "u8 list \<Rightarrow> (nat \<times> u8 list) option" where
  "decode_compact bs =
     (case bs of [] \<Rightarrow> None
      | b # _ \<Rightarrow>
        if unat b mod 4 = 0 then
          map_option (\<lambda>(n, rest). (n div 4, rest)) (le_decode 1 bs)
        else if unat b mod 4 = 1 then
          Option.bind (le_decode 2 bs) (\<lambda>(n, rest). if n div 4 < 2 ^ 6 then None else Some (n div 4, rest))
        else if unat b mod 4 = 2 then
          Option.bind (le_decode 4 bs) (\<lambda>(n, rest). if n div 4 < 2 ^ 14 then None else Some (n div 4, rest))
        else None)"

lemma le_decode_iff: "le_decode k bs = Some (n, rest) \<longleftrightarrow> n < 256 ^ k \<and> bs = le_encode k n @ rest"
  using le_decode_bound le_decode_sound le_decode_encode by blast

lemma le_encode_mode:
  assumes "b # bs = le_encode (Suc k) n @ rest"
  shows "unat b mod 4 = n mod 4"
proof -
  have "unat b = n mod 256" using assms by (simp add: unat_of_nat_u8)
  then show ?thesis by (simp add: mod_mod_cancel)
qed

lemma decode_compact_mode:
  assumes "m < 3" and "n < 2 ^ 30"
    and "k = (if m = 0 then 1 else if m = 1 then 2 else 4)" and "4 * n + m < 256 ^ k"
    and "m = 1 \<Longrightarrow> 2 ^ 6 \<le> n" and "m = 2 \<Longrightarrow> 2 ^ 14 \<le> n"
  shows "decode_compact (le_encode k (4 * n + m) @ rest) = Some (n, rest)"
proof -
  obtain b bs where b: "le_encode k (4 * n + m) @ rest = b # bs"
    using assms(3) by (cases "le_encode k (4 * n + m)") (auto split: if_splits dest: arg_cong [where f = length])
  have "unat b mod 4 = m"
    using le_encode_mode [of b bs "k - 1" "4 * n + m" rest] b assms(1,3) by (auto split: if_splits)
  moreover have "le_decode k (b # bs) = Some (4 * n + m, rest)"
    using le_decode_encode [OF assms(4), of rest] b by simp
  ultimately show ?thesis
    unfolding b using assms(1,3,5,6) by (auto simp: decode_compact_def)
qed

lemma decode_encode_compact:
  assumes "n < 2 ^ 30"
  shows "decode_compact (encode_compact n @ rest) = Some (n, rest)"
proof -
  consider "n < 2 ^ 6" | "2 ^ 6 \<le> n" "n < 2 ^ 14" | "2 ^ 14 \<le> n" by linarith
  then show ?thesis
  proof cases
    case 1
    then show ?thesis using decode_compact_mode [of 0 n 1 rest] by (simp add: encode_compact_def)
  next
    case 2
    then show ?thesis using decode_compact_mode [of 1 n 2 rest] by (simp add: encode_compact_def)
  next
    case 3
    then show ?thesis using decode_compact_mode [of 2 n 4 rest] assms by (simp add: encode_compact_def)
  qed
qed

lemma decode_compact_sound:
  assumes "decode_compact bs = Some (n, rest)"
  shows "n < 2 ^ 30 \<and> bs = encode_compact n @ rest"
proof -
  obtain b cs where bs: "bs = b # cs" using assms by (cases bs) (simp_all add: decode_compact_def)
  have dec: "m < 256 ^ k \<and> bs = le_encode k m @ rest \<and> m = 4 * (m div 4) + unat b mod 4"
    if "le_decode k bs = Some (m, rest)" "0 < k" for k m
  proof -
    have m: "m < 256 ^ k" "bs = le_encode k m @ rest" using that(1) unfolding le_decode_iff by blast+
    have "\<exists>j. k = Suc j" using that(2) by (simp add: gr0_implies_Suc)
    then obtain j where "k = Suc j" ..
    with m(2) le_encode_mode [of b cs j m rest] bs have "unat b mod 4 = m mod 4" by simp
    with m mult_div_mod_eq [of 4 m] show ?thesis by simp
  qed
  consider (one) m where "unat b mod 4 = 0" "le_decode 1 bs = Some (m, rest)" "n = m div 4"
    | (two) m where "unat b mod 4 = 1" "le_decode 2 bs = Some (m, rest)" "n = m div 4" "2 ^ 6 \<le> n"
    | (four) m where "unat b mod 4 = 2" "le_decode 4 bs = Some (m, rest)" "n = m div 4" "2 ^ 14 \<le> n"
    using assms unfolding decode_compact_def bs list.case
    by (auto simp: bind_eq_Some_conv not_less simp del: le_decode.simps split: if_splits)
  then show ?thesis
  proof cases
    case one
    with dec [OF one(2)] have m: "m = 4 * n" "m < 256" "bs = le_encode 1 m @ rest" by simp_all
    then show ?thesis by (simp add: encode_compact_def)
  next
    case two
    with dec [OF two(2)] have m: "m = 4 * n + 1" "m < 65536" "bs = le_encode 2 m @ rest" by simp_all
    with two(4) show ?thesis by (simp add: encode_compact_def)
  next
    case four
    with dec [OF four(2)] have m: "m = 4 * n + 2" "m < 4294967296" "bs = le_encode 4 m @ rest" by simp_all
    with four(4) show ?thesis by (simp add: encode_compact_def)
  qed
qed

interpretation compact_codec: checked_codec encode_compact decode_compact "\<lambda>n. n < 2 ^ 30"
  using decode_encode_compact decode_compact_sound by unfold_locales blast

section \<open>Vectors, options and structs\<close>

fun decode_many ::
  "nat \<Rightarrow> (u8 list \<Rightarrow> ('v \<times> u8 list) option) \<Rightarrow> u8 list \<Rightarrow> ('v list \<times> u8 list) option" where
  "decode_many 0 dec bs = Some ([], bs)"
| "decode_many (Suc n) dec bs =
     Option.bind (dec bs) (\<lambda>(v, bs). Option.bind (decode_many n dec bs) (\<lambda>(vs, bs). Some (v # vs, bs)))"

definition encode_vec :: "('v \<Rightarrow> u8 list) \<Rightarrow> 'v list \<Rightarrow> u8 list" where
  "encode_vec enc vs = encode_compact (length vs) @ concat (map enc vs)"

definition decode_bounded_vec ::
  "nat \<Rightarrow> (u8 list \<Rightarrow> ('v \<times> u8 list) option) \<Rightarrow> u8 list \<Rightarrow> ('v list \<times> u8 list) option" where
  "decode_bounded_vec limit dec bs =
     Option.bind (decode_compact bs) (\<lambda>(n, bs). if n \<le> limit then decode_many n dec bs else None)"

definition encode_option :: "('v \<Rightarrow> u8 list) \<Rightarrow> 'v option \<Rightarrow> u8 list" where
  "encode_option enc x = (case x of None \<Rightarrow> [0] | Some v \<Rightarrow> 1 # enc v)"

definition decode_option ::
  "(u8 list \<Rightarrow> ('v \<times> u8 list) option) \<Rightarrow> u8 list \<Rightarrow> ('v option \<times> u8 list) option" where
  "decode_option dec bs =
     Option.bind (decode_bool bs) (\<lambda>(some, bs).
       if some then map_option (\<lambda>(v, rest). (Some v, rest)) (dec bs) else Some (None, bs))"

context checked_codec
begin

lemma decode_many_iff:
  "decode_many n decode bs = Some (vs, rest) \<longleftrightarrow>
     length vs = n \<and> (\<forall>v\<in>set vs. fits v) \<and> bs = concat (map encode vs) @ rest"
proof (induction n arbitrary: bs vs)
  case (Suc n)
  show ?case
    by (cases vs) (auto simp: bind_eq_Some_conv decode_iff Suc.IH)
qed auto

lemma decode_bounded_vec_iff:
  assumes "limit < 2 ^ 30"
  shows "decode_bounded_vec limit decode bs = Some (vs, rest) \<longleftrightarrow>
    length vs \<le> limit \<and> (\<forall>v\<in>set vs. fits v) \<and> bs = encode_vec encode vs @ rest"
  using assms
  by (auto simp: decode_bounded_vec_def encode_vec_def bind_eq_Some_conv decode_many_iff
      compact_codec.decode_iff split: if_splits intro!: exI [of _ "length vs"])

lemma decode_option_iff:
  "decode_option decode bs = Some (x, rest) \<longleftrightarrow>
     (\<forall>v. x = Some v \<longrightarrow> fits v) \<and> bs = encode_option encode x @ rest"
  by (cases x)
     (auto simp: decode_option_def encode_option_def encode_bool_def bind_eq_Some_conv
       bool_codec.decode_iff decode_iff split: if_splits)

end

definition encode_royalty_split :: "royalty_split \<Rightarrow> u8 list" where
  "encode_royalty_split sp = recipient sp @ encode_word 2 (basis_points sp)"

definition decode_royalty_split :: "u8 list \<Rightarrow> (royalty_split \<times> u8 list) option" where
  "decode_royalty_split bs =
     Option.bind (decode_array 32 bs) (\<lambda>(r, bs).
     Option.bind (decode_word 2 bs) (\<lambda>(bp, bs). Some (\<lparr>recipient = r, basis_points = bp\<rparr>, bs)))"

interpretation split_codec: checked_codec encode_royalty_split decode_royalty_split
  "\<lambda>sp. length (recipient sp) = 32"
proof
  fix bs rest and sp :: royalty_split
  show "decode_royalty_split bs = Some (sp, rest) \<longleftrightarrow>
      length (recipient sp) = 32 \<and> bs = encode_royalty_split sp @ rest"
    by (cases sp) (auto simp: decode_royalty_split_def encode_royalty_split_def bind_eq_Some_conv
        decode_array_Some u16_codec.decode_iff)
qed

section \<open>Calls\<close>

text \<open>
  An account is 32 bytes; \<open>dec\<close> is the decoder of the account type, \<open>enc\<close> its encoder. The argument
  decoders return the value and the remaining bytes.
\<close>

definition account_codec :: "(u8 list \<Rightarrow> 'a option) \<Rightarrow> ('a \<Rightarrow> u8 list) \<Rightarrow> bool" where
  "account_codec dec enc \<longleftrightarrow> (\<forall>bs a. length bs = 32 \<and> dec bs = Some a \<longleftrightarrow> bs = enc a)"

definition decode_account_arg :: "(u8 list \<Rightarrow> 'a option) \<Rightarrow> u8 list \<Rightarrow> ('a \<times> u8 list) option" where
  "decode_account_arg dec bs =
     Option.bind (decode_array 32 bs) (\<lambda>(acc, rest). map_option (\<lambda>a. (a, rest)) (dec acc))"

lemma decode_account_arg_iff:
  assumes "account_codec dec enc"
  shows "decode_account_arg dec bs = Some (a, rest) \<longleftrightarrow> bs = enc a @ rest"
  using assms unfolding account_codec_def decode_account_arg_def
  by (auto simp: bind_eq_Some_conv decode_array_Some)

lemma account_checked_codec:
  "account_codec dec enc \<Longrightarrow> checked_codec enc (decode_account_arg dec) (\<lambda>_. True)"
  by unfold_locales (simp add: decode_account_arg_iff)

fun call_index :: "'a call \<Rightarrow> u8" where
  "call_index (RegisterContent _ _ _ _ _ _) = 0"
| "call_index (Subscribe _) = 1"
| "call_index (RenewSubscription _) = 2"
| "call_index (PurchaseViews _ _) = 3"
| "call_index (ConsumeView _) = 4"
| "call_index (PurchaseOwnership _) = 5"
| "call_index (CheckAccess _) = 6"
| "call_index (XcmSubscribe _ _) = 7"
| "call_index (XcmRenewSubscription _ _) = 8"
| "call_index (XcmPurchaseViews _ _ _) = 9"
| "call_index (XcmPurchaseOwnership _ _) = 10"
| "call_index (TransferOwnership _ _) = 11"
| "call_index (XcmTransferOwnership _ _ _) = 12"
| "call_index (SetRoyaltySplits _ _) = 13"
| "call_index (EnableAutoRenew _) = 14"
| "call_index (DisableAutoRenew _) = 15"
| "call_index (QueryRightsMetadata _) = 16"
| "call_index (SetMeter _ _) = 17"
| "call_index (ConsumeViewFor _ _) = 18"

fun encode_args :: "('a \<Rightarrow> u8 list) \<Rightarrow> 'a call \<Rightarrow> u8 list" where
  "encode_args enc (RegisterContent h t p q r l) =
     h @ encode_vec encode_u8 t @ encode_word 16 p @ encode_word 16 q @ encode_word 16 r @ encode_u32 l"
| "encode_args enc (Subscribe c) = encode_u32 c"
| "encode_args enc (RenewSubscription c) = encode_u32 c"
| "encode_args enc (PurchaseViews c n) = encode_u32 c @ encode_u32 n"
| "encode_args enc (ConsumeView c) = encode_u32 c"
| "encode_args enc (PurchaseOwnership c) = encode_u32 c"
| "encode_args enc (CheckAccess c) = encode_u32 c"
| "encode_args enc (XcmSubscribe c b) = encode_u32 c @ enc b"
| "encode_args enc (XcmRenewSubscription c b) = encode_u32 c @ enc b"
| "encode_args enc (XcmPurchaseViews c b n) = encode_u32 c @ enc b @ encode_u32 n"
| "encode_args enc (XcmPurchaseOwnership c b) = encode_u32 c @ enc b"
| "encode_args enc (TransferOwnership c t) = encode_u32 c @ enc t"
| "encode_args enc (XcmTransferOwnership c f t) = encode_u32 c @ enc f @ enc t"
| "encode_args enc (SetRoyaltySplits c sps) = encode_u32 c @ encode_vec encode_royalty_split sps"
| "encode_args enc (EnableAutoRenew c) = encode_u32 c"
| "encode_args enc (DisableAutoRenew c) = encode_u32 c"
| "encode_args enc (QueryRightsMetadata c) = encode_u32 c"
| "encode_args enc (SetMeter c m) = encode_u32 c @ encode_option enc m"
| "encode_args enc (ConsumeViewFor c v) = encode_u32 c @ enc v"

definition encode_call :: "u8 \<Rightarrow> ('a \<Rightarrow> u8 list) \<Rightarrow> 'a call \<Rightarrow> u8 list" where
  "encode_call index enc c = encode_u8 index @ encode_u8 (call_index c) @ encode_args enc c"

text \<open>One argument and then the rest; a call is complete when no bytes are left.\<close>

definition arg ::
  "(u8 list \<Rightarrow> ('v \<times> u8 list) option) \<Rightarrow> ('v \<Rightarrow> u8 list \<Rightarrow> 'c option) \<Rightarrow> u8 list \<Rightarrow> 'c option" where
  "arg dec k bs = Option.bind (dec bs) (\<lambda>(v, bs). k v bs)"

definition complete :: "'c \<Rightarrow> u8 list \<Rightarrow> 'c option" where
  "complete c bs = (if bs = [] then Some c else None)"

definition decode_args :: "(u8 list \<Rightarrow> 'a option) \<Rightarrow> u8 \<Rightarrow> u8 list \<Rightarrow> 'a call option" where
  "decode_args dec i =
     (let acc = decode_account_arg dec; id = arg decode_u32 in
      if i = 0 then
        arg (decode_array 32) (\<lambda>h. arg (decode_bounded_vec 128 decode_u8) (\<lambda>t.
        arg (decode_word 16) (\<lambda>p. arg (decode_word 16) (\<lambda>q. arg (decode_word 16) (\<lambda>r.
        arg decode_u32 (\<lambda>l. complete (RegisterContent h t p q r l)))))))
      else if i = 1 then id (\<lambda>c. complete (Subscribe c))
      else if i = 2 then id (\<lambda>c. complete (RenewSubscription c))
      else if i = 3 then id (\<lambda>c. arg decode_u32 (\<lambda>n. complete (PurchaseViews c n)))
      else if i = 4 then id (\<lambda>c. complete (ConsumeView c))
      else if i = 5 then id (\<lambda>c. complete (PurchaseOwnership c))
      else if i = 6 then id (\<lambda>c. complete (CheckAccess c))
      else if i = 7 then id (\<lambda>c. arg acc (\<lambda>b. complete (XcmSubscribe c b)))
      else if i = 8 then id (\<lambda>c. arg acc (\<lambda>b. complete (XcmRenewSubscription c b)))
      else if i = 9 then id (\<lambda>c. arg acc (\<lambda>b. arg decode_u32 (\<lambda>n. complete (XcmPurchaseViews c b n))))
      else if i = 10 then id (\<lambda>c. arg acc (\<lambda>b. complete (XcmPurchaseOwnership c b)))
      else if i = 11 then id (\<lambda>c. arg acc (\<lambda>t. complete (TransferOwnership c t)))
      else if i = 12 then id (\<lambda>c. arg acc (\<lambda>f. arg acc (\<lambda>t. complete (XcmTransferOwnership c f t))))
      else if i = 13 then
        id (\<lambda>c. arg (decode_bounded_vec (unat MAX_ROYALTY_SPLITS) decode_royalty_split) (\<lambda>sps.
          complete (SetRoyaltySplits c sps)))
      else if i = 14 then id (\<lambda>c. complete (EnableAutoRenew c))
      else if i = 15 then id (\<lambda>c. complete (DisableAutoRenew c))
      else if i = 16 then id (\<lambda>c. complete (QueryRightsMetadata c))
      else if i = 17 then id (\<lambda>c. arg (decode_option acc) (\<lambda>m. complete (SetMeter c m)))
      else if i = 18 then id (\<lambda>c. arg acc (\<lambda>v. complete (ConsumeViewFor c v)))
      else (\<lambda>_. None))"

definition decode_call :: "(u8 list \<Rightarrow> 'a option) \<Rightarrow> u8 \<Rightarrow> u8 list \<Rightarrow> 'a call option" where
  "decode_call dec index =
     arg decode_u8 (\<lambda>p. arg decode_u8 (\<lambda>i. if p = index then decode_args dec i else (\<lambda>_. None)))"

lemma arg_Some: "arg dec k bs = Some c \<longleftrightarrow> (\<exists>v rest. dec bs = Some (v, rest) \<and> k v rest = Some c)"
  by (auto simp: arg_def bind_eq_Some_conv)

lemma complete_Some: "complete c bs = Some c' \<longleftrightarrow> bs = [] \<and> c' = c"
  by (auto simp: complete_def)

lemma decode_args_iff:
  assumes acc: "account_codec dec enc"
  shows "decode_args dec i bs = Some c \<longleftrightarrow> decodable c \<and> i = call_index c \<and> bs = encode_args enc c"
proof -
  note opt = checked_codec.decode_option_iff [OF account_checked_codec [OF acc]]
  note iffs = arg_Some complete_Some decode_account_arg_iff [OF acc] opt decode_array_Some
    u32_codec.decode_iff u128_codec.decode_iff u8_codec.checked.decode_bounded_vec_iff
    split_codec.decode_bounded_vec_iff
  show ?thesis
    by (cases c) (auto simp: decode_args_def Let_def iffs MAX_ROYALTY_SPLITS_def)
qed

lemma decode_call_iff:
  assumes "account_codec dec enc"
  shows "decode_call dec index bs = Some c \<longleftrightarrow> decodable c \<and> bs = encode_call index enc c"
  using decode_args_iff [OF assms]
  by (auto simp: decode_call_def encode_call_def arg_Some u8_codec.decode_iff split: if_splits)

text \<open>
  What is relied on of a decoder of calls: it inverts the encoding, for every encoder of accounts in
  32 bytes whose results the decoder \<open>dec_acc\<close> of accounts reads.
\<close>

definition call_decoder :: "u8 \<Rightarrow> (u8 list \<Rightarrow> 'a option) \<Rightarrow> (u8 list \<Rightarrow> 'a call option) \<Rightarrow> bool" where
  "call_decoder index dec_acc dec \<longleftrightarrow>
     (\<forall>enc act. decodable act \<longrightarrow> (\<forall>a\<in>set_call act. length (enc a) = 32 \<and> dec_acc (enc a) = Some a) \<longrightarrow>
        dec (encode_call index enc act) = Some act)"

lemma call_decoderD:
  assumes "call_decoder index dec_acc dec" and "decodable act"
    and "\<And>a. a \<in> set_call act \<Longrightarrow> length (enc a) = 32 \<and> dec_acc (enc a) = Some a"
  shows "dec (encode_call index enc act) = Some act"
  using assms unfolding call_decoder_def by blast

lemma decode_account_arg_encoded:
  "length (enc a) = 32 \<and> dec (enc a) = Some a \<Longrightarrow> decode_account_arg dec (enc a @ rest) = Some (a, rest)"
  by (simp add: decode_account_arg_def decode_array_append)

lemma decode_call_decoder: "call_decoder index dec (decode_call dec index)"
  unfolding call_decoder_def
proof (intro allI impI)
  fix enc :: "'a \<Rightarrow> u8 list" and act :: "'a call"
  assume "decodable act" and acc: "\<forall>a\<in>set_call act. length (enc a) = 32 \<and> dec (enc a) = Some a"
  note args = decode_account_arg_encoded [of enc _ dec] decode_account_arg_encoded [of enc _ dec "[]", simplified]
  have "decode_args dec (call_index act) (encode_args enc act) = Some act"
    using \<open>decodable act\<close> acc
    by (cases act)
       (auto simp: decode_args_def Let_def arg_Some complete_Some decode_array_Some u32_codec.decode_iff
          u128_codec.decode_iff u8_codec.checked.decode_bounded_vec_iff split_codec.decode_bounded_vec_iff
          MAX_ROYALTY_SPLITS_def args decode_option_def encode_option_def decode_bool_def decode_u8_def split: option.splits)
  then show "decode_call dec index (encode_call index enc act) = Some act"
    by (simp add: decode_call_def encode_call_def arg_def u8_codec.decode_encode)
qed

end
