(* ===== verification/Rights_Client.thy ===== *)
theory Rights_Client
  imports Rights_Safety Call_Codec Cross_Chain_Weights Mock_Chain
begin

text \<open>
  The sending side, \<open>src/pallets/rights-client/src/lib.rs\<close>: a user of another chain asks for a
  right and pays an escrow, the pallet sends an XCM program to the rights chain, and the reported
  outcome releases the escrow to the operator or refunds it. The currency, \<open>pallet_xcm\<close> and the
  account codec are parameters, fields of \<open>client_config\<close>. The theory has the operations, the
  decoding of the sent call on the rights chain, and the solvency of the escrow account as the
  invariant of a step relation.
\<close>

section \<open>Data\<close>

datatype rights_request =
    Req_Subscribe u32
  | Req_RenewSubscription u32
  | Req_PurchaseViews u32 u32
  | Req_PurchaseOwnership u32

record 'a pending_request =
  who :: 'a
  escrow :: u128
  request_of :: rights_request
  sent_at :: u32

datatype client_error = SendFailed | UnknownQuery | WrongResponder | BadBeneficiary

datatype client_dispatch_error = Client client_error | ClientExternal dispatch_error

datatype ('a, 'h) client_event =
    RequestSent u64 'a rights_request u128 'h
  | OutcomeReported u64 'a bool

text \<open>The part of the XCM language that the pallet, the router and the barrier of the runtime look at; \<open>'l\<close>
  are locations, \<open>'b\<close> assets. The instructions that none of them looks at are \<open>OtherInstruction\<close>.
\<close>

datatype weight_limit = Unlimited | Limited weight

datatype origin_kind = Native | SovereignAccount | Superuser | Xcm

datatype wild_asset = All | AllCounted u32

datatype 'b asset_filter = Definite "'b list" | Wild wild_asset

record 'l query_response_info =
  destination :: 'l
  response_query_id :: u64
  max_weight :: weight

datatype maybe_error_code = Success | ErrorCode "u8 list" | TruncatedErrorCode "u8 list"

datatype response = Null | DispatchResult maybe_error_code | OtherResponse nat

datatype ('l, 'b) instruction =
    WithdrawAsset "'b list"
  | BuyExecution 'b weight_limit
  | SetAppendix "('l, 'b) instruction list"
  | RefundSurplus
  | DepositAsset "'b asset_filter" 'l
  | Transact origin_kind "weight option" "u8 list"
  | ReportTransactStatus "'l query_response_info"
  | SetTopic "u8 list"
  | QueryResponse u64 response weight "'l option"
  | UnpaidExecution weight_limit
  | PayFees 'b
  | DescendOrigin 'l
  | UniversalOrigin 'l
  | SetErrorHandler "('l, 'b) instruction list"
  | ExecuteWithOrigin "'l option" "('l, 'b) instruction list"
  | TransferReserveAsset "'b list" 'l "('l, 'b) instruction list"
  | DepositReserveAsset "'b asset_filter" 'l "('l, 'b) instruction list"
  | InitiateReserveWithdraw "'b asset_filter" 'l "('l, 'b) instruction list"
  | OtherInstruction nat

text \<open>The notification call \<open>on_outcome\<close> that \<open>pallet_xcm\<close> completes and dispatches.\<close>

datatype notify_call = On_Outcome u64 response

text \<open>
  \<open>Config\<close>. \<open>escrow_account\<close> is \<open>T::PalletId::get().into_account_truncating()\<close>, \<open>client_weights\<close> is
  \<open>T::ClientWeightInfo\<close>, and \<open>response_origin\<close> the origin check \<open>T::ResponseOrigin\<close>. The
  functions on \<open>'x\<close> act on the storage of the other pallets.
\<close>

record ('a, 'l, 'b, 'h, 'o, 'x) client_config =
  rights_chain :: 'l
  rights_pallet_index :: u8
  self_location :: 'l
  execution_fee :: 'b
  query_timeout :: u32
  operator :: 'a
  escrow_account :: 'a
  client_weights :: client_weight_info
  encode_account_id :: "'a \<Rightarrow> u8 list"
  escrow_transfer :: "'a \<Rightarrow> 'a \<Rightarrow> u128 \<Rightarrow> preservation \<Rightarrow> 'x \<Rightarrow> dispatch_error + 'x"
  new_notify_query :: "'l \<Rightarrow> notify_call \<Rightarrow> u32 \<Rightarrow> 'x \<Rightarrow> u64 \<times> 'x"
  send_xcm :: "'l \<Rightarrow> ('l, 'b) instruction list \<Rightarrow> 'x \<Rightarrow> unit + 'h \<times> 'x"
  client_signed :: "'o \<Rightarrow> dispatch_error + 'a"
  response_origin :: "'o \<Rightarrow> dispatch_error + 'l"

record ('a, 'h, 'x) client_state =
  pending :: "u64 \<rightharpoonup> 'a pending_request"
  client_block :: u32
  client_events :: "('a, 'h) client_event list"
  client_ext :: 'x

section \<open>Operations\<close>

definition remote_call ::
  "('a, 'l, 'b, 'h, 'o, 'x) client_config \<Rightarrow> rights_request \<Rightarrow> u8 list \<Rightarrow> u8 list" where
  "remote_call cfg req beneficiary =
     (let p = rights_pallet_index cfg in
      case req of
        Req_Subscribe content_id \<Rightarrow> encode_u8 p @ encode_u8 7 @ encode_u32 content_id @ beneficiary
      | Req_RenewSubscription content_id \<Rightarrow>
          encode_u8 p @ encode_u8 8 @ encode_u32 content_id @ beneficiary
      | Req_PurchaseViews content_id num_views \<Rightarrow>
          encode_u8 p @ encode_u8 9 @ encode_u32 content_id @ beneficiary @ encode_u32 num_views
      | Req_PurchaseOwnership content_id \<Rightarrow>
          encode_u8 p @ encode_u8 10 @ encode_u32 content_id @ beneficiary)"

definition rights_message ::
  "('a, 'l, 'b, 'h, 'o, 'x) client_config \<Rightarrow> u8 list \<Rightarrow> u64 \<Rightarrow> ('l, 'b) instruction list" where
  "rights_message cfg call query_id =
     (let fee = execution_fee cfg in
      [WithdrawAsset [fee],
       BuyExecution fee Unlimited,
       SetAppendix [RefundSurplus, DepositAsset (Wild (AllCounted 1)) (self_location cfg)],
       Transact SovereignAccount None call,
       ReportTransactStatus
         \<lparr>destination = self_location cfg, response_query_id = query_id,
          max_weight = wi_on_outcome (client_weights cfg)\<rparr>])"

definition client_deposit ::
  "('a, 'h) client_event \<Rightarrow> ('a, 'h, 'x) client_state \<Rightarrow> ('a, 'h, 'x) client_state" where
  "client_deposit e s = s\<lparr>client_events := client_events s @ [e]\<rparr>"

definition request ::
  "('a, 'l, 'b, 'h, 'o, 'x) client_config \<Rightarrow> 'o \<Rightarrow> rights_request \<Rightarrow> u128 \<Rightarrow>
     ('a, 'h, 'x) client_state \<Rightarrow> client_dispatch_error + ('a, 'h, 'x) client_state" where
  "request cfg og req amount s =
     and_then (map_err ClientExternal (client_signed cfg og)) (\<lambda>caller.
     and_then (ok_or (let bs = encode_account_id cfg caller in
                      if length bs = 32 then Some bs else None) (Client BadBeneficiary)) (\<lambda>beneficiary.
     and_then (map_err ClientExternal (escrow_transfer cfg caller (escrow_account cfg) amount Preserve
                              (client_ext s))) (\<lambda>x.
     let now = client_block s;
         notify = On_Outcome 0 Null;
         (query_id, x) = new_notify_query cfg (rights_chain cfg) notify
                           (saturating_add now (query_timeout cfg)) x;
         message = rights_message cfg (remote_call cfg req beneficiary) query_id
     in and_then (map_err (\<lambda>_. Client SendFailed) (send_xcm cfg (rights_chain cfg) message x)) (\<lambda>(message_id, x).
        Inr (client_deposit (RequestSent query_id caller req amount message_id)
          (s\<lparr>pending := (pending s)(query_id \<mapsto>
               \<lparr>who = caller, escrow = amount, request_of = req, sent_at = now\<rparr>),
             client_ext := x\<rparr>))))))"

definition on_outcome ::
  "('a, 'l, 'b, 'h, 'o, 'x) client_config \<Rightarrow> 'o \<Rightarrow> u64 \<Rightarrow> response \<Rightarrow>
     ('a, 'h, 'x) client_state \<Rightarrow> client_dispatch_error + ('a, 'h, 'x) client_state" where
  "on_outcome cfg og query_id resp s =
     and_then (map_err ClientExternal (response_origin cfg og)) (\<lambda>responder.
     and_then (ensure (responder = rights_chain cfg) (Client WrongResponder)) (\<lambda>_.
     and_then (ok_or (pending s query_id) (Client UnknownQuery)) (\<lambda>p.
     let s = s\<lparr>pending := (pending s)(query_id := None)\<rparr>;
         success = (resp = DispatchResult Success);
         to = (if success then operator cfg else who p)
     in and_then (map_err ClientExternal (escrow_transfer cfg (escrow_account cfg) to (escrow p) Expendable
                                 (client_ext s))) (\<lambda>x.
        Inr (client_deposit (OutcomeReported query_id (who p) success) (s\<lparr>client_ext := x\<rparr>))))))"

section \<open>The call on the rights chain\<close>

text \<open>The call a request means, with the caller as beneficiary.\<close>

fun requested_call :: "rights_request \<Rightarrow> 'a \<Rightarrow> 'a call" where
  "requested_call (Req_Subscribe c) a = XcmSubscribe c a"
| "requested_call (Req_RenewSubscription c) a = XcmRenewSubscription c a"
| "requested_call (Req_PurchaseViews c n) a = XcmPurchaseViews c a n"
| "requested_call (Req_PurchaseOwnership c) a = XcmPurchaseOwnership c a"

text \<open>The client encodes it as the runtime of the rights chain decodes it.\<close>

lemma remote_call_encodes:
  "remote_call cfg req (enc a) = encode_call (rights_pallet_index cfg) enc (requested_call req a)"
  by (cases req) (simp_all add: remote_call_def encode_call_def Let_def)

lemma decodable_requested_call: "decodable (requested_call req a)"
  by (cases req) simp_all

lemma decode_remote_call:
  assumes "call_decoder (rights_pallet_index cfg) dec_acc dec" and "dec_acc bs = Some a" and "length bs = 32"
  shows "dec (remote_call cfg req bs) = Some (requested_call req a)"
proof -
  have "set_call (requested_call req a) = {a}" by (cases req) simp_all
  with call_decoderD [OF assms(1) decodable_requested_call, of req a "\<lambda>_. bs"] assms(2,3)
  show ?thesis by (simp add: remote_call_encodes [where enc = "\<lambda>_. bs" and a = a])
qed

section \<open>Successful calls\<close>

lemma client_deposit_simps [simp]:
  "pending (client_deposit e s) = pending s"
  "client_block (client_deposit e s) = client_block s"
  "client_ext (client_deposit e s) = client_ext s"
  by (simp_all add: client_deposit_def)

lemma request_cases:
  assumes "request cfg og req amount s = Inr s'"
  obtains a x1 q x2 h x3 where "client_signed cfg og = Inr a"
    "length (encode_account_id cfg a) = 32"
    "escrow_transfer cfg a (escrow_account cfg) amount Preserve (client_ext s) = Inr x1"
    "new_notify_query cfg (rights_chain cfg) (On_Outcome 0 Null)
       (saturating_add (client_block s) (query_timeout cfg)) x1 = (q, x2)"
    "send_xcm cfg (rights_chain cfg)
       (rights_message cfg (remote_call cfg req (encode_account_id cfg a)) q) x2 = Inr (h, x3)"
    "s' = client_deposit (RequestSent q a req amount h)
       (s\<lparr>pending := (pending s)(q \<mapsto>
            \<lparr>who = a, escrow = amount, request_of = req, sent_at = client_block s\<rparr>),
          client_ext := x3\<rparr>)"
  using assms unfolding request_def Let_def
  by (elim result_elims) (auto split: if_splits elim!: result_elims)

lemma on_outcome_cases:
  assumes "on_outcome cfg og q resp s = Inr s'"
  obtains p x where "response_origin cfg og = Inr (rights_chain cfg)" "pending s q = Some p"
    "escrow_transfer cfg (escrow_account cfg)
       (if resp = DispatchResult Success then operator cfg else who p) (escrow p) Expendable
       (client_ext s) = Inr x"
    "s' = client_deposit (OutcomeReported q (who p) (resp = DispatchResult Success))
       (s\<lparr>pending := (pending s)(q := None), client_ext := x\<rparr>)"
  using assms by (auto simp: on_outcome_def result_simps Let_def)

lemma on_outcome_forgets:
  assumes "on_outcome cfg og q resp s = Inr s'"
  shows "pending s' = (pending s)(q := None)"
  using assms by (cases rule: on_outcome_cases) simp

lemma on_outcome_unknown:
  assumes "pending s q = None"
  shows "\<not> is_ok (on_outcome cfg og q resp s)"
  using assms by (auto simp: is_ok_iff elim: on_outcome_cases)

section \<open>Solvency of the escrow account\<close>

text \<open>
  What is relied on of the other pallets, for a balance function \<open>bal\<close>, the query counter
  \<open>next_query\<close> of \<open>pallet_xcm\<close> and the existential deposit \<open>ed\<close>. A transfer between different
  accounts debits and credits the amount; with \<open>Expendable\<close> a sender left with less than \<open>ed\<close> may
  be reaped, its remainder lost as dust. A query id is the counter, which is then incremented
  (saturating at the largest \<open>u64\<close>). Registering a query and sending a message leave the escrow
  account alone.
\<close>

definition max_query :: nat where
  "max_query = 2 ^ 64 - 1"

definition moves_escrow ::
  "('a, 'l, 'b, 'h, 'o, 'x) client_config \<Rightarrow> ('x \<Rightarrow> 'a \<Rightarrow> nat) \<Rightarrow> nat \<Rightarrow> bool" where
  "moves_escrow cfg bal ed \<longleftrightarrow>
     (\<forall>payer to v p x x'. escrow_transfer cfg payer to v p x = Inr x' \<longrightarrow> payer \<noteq> to \<longrightarrow>
        unat v \<le> bal x payer \<and> bal x' to = bal x to + unat v \<and>
        (\<forall>a. a \<noteq> payer \<longrightarrow> a \<noteq> to \<longrightarrow> bal x' a = bal x a) \<and>
        (bal x' payer = bal x payer - unat v \<or>
         p = Expendable \<and> bal x payer - unat v < ed \<and> bal x' payer = 0))"

definition issues_queries ::
  "('a, 'l, 'b, 'h, 'o, 'x) client_config \<Rightarrow> ('x \<Rightarrow> 'a \<Rightarrow> nat) \<Rightarrow> ('x \<Rightarrow> nat) \<Rightarrow> bool" where
  "issues_queries cfg bal next_query \<longleftrightarrow>
     (\<forall>l n t x q x'. new_notify_query cfg l n t x = (q, x') \<longrightarrow>
        unat q = next_query x \<and> next_query x' = min (Suc (next_query x)) max_query \<and>
        bal x' (escrow_account cfg) = bal x (escrow_account cfg)) \<and>
     (\<forall>l msg x h x'. send_xcm cfg l msg x = Inr (h, x') \<longrightarrow>
        next_query x' = next_query x \<and> bal x' (escrow_account cfg) = bal x (escrow_account cfg)) \<and>
     (\<forall>payer to v p x x'. escrow_transfer cfg payer to v p x = Inr x' \<longrightarrow> next_query x' = next_query x)"

definition client_laws ::
  "('a, 'l, 'b, 'h, 'o, 'x) client_config \<Rightarrow> ('x \<Rightarrow> 'a \<Rightarrow> nat) \<Rightarrow> ('x \<Rightarrow> nat) \<Rightarrow> nat \<Rightarrow> bool" where
  "client_laws cfg bal next_query ed \<longleftrightarrow>
     moves_escrow cfg bal ed \<and> issues_queries cfg bal next_query \<and> operator cfg \<noteq> escrow_account cfg"

definition escrowed :: "(u64 \<rightharpoonup> 'a pending_request) \<Rightarrow> nat" where
  "escrowed pnd = (\<Sum>q\<in>dom pnd. unat (escrow (the (pnd q))))"

definition solvent ::
  "('a, 'l, 'b, 'h, 'o, 'x) client_config \<Rightarrow> ('x \<Rightarrow> 'a \<Rightarrow> nat) \<Rightarrow> ('x \<Rightarrow> nat) \<Rightarrow> nat \<Rightarrow>
     ('a, 'h, 'x) client_state \<Rightarrow> bool" where
  "solvent cfg bal next_query ed s \<longleftrightarrow>
     finite (dom (pending s)) \<and>
     (\<forall>q p. pending s q = Some p \<longrightarrow> unat q < next_query (client_ext s) \<and> who p \<noteq> escrow_account cfg) \<and>
     ed + escrowed (pending s) \<le> bal (client_ext s) (escrow_account cfg)"

text \<open>
  The steps of the chain: a request, a reported outcome, and the activity of other pallets, which
  cannot debit the escrow account (it has no key) nor reset the query counter. A call is applied
  in a storage layer. A request is signed by an account with a key and the query counter is not yet
  saturated.
\<close>

definition applied :: "('e + 's) \<Rightarrow> 's \<Rightarrow> 's" where
  "applied r s = (case r of Inl _ \<Rightarrow> s | Inr s' \<Rightarrow> s')"

inductive client_step ::
  "('a, 'l, 'b, 'h, 'o, 'x) client_config \<Rightarrow> ('x \<Rightarrow> 'a \<Rightarrow> nat) \<Rightarrow> ('x \<Rightarrow> nat) \<Rightarrow>
     ('a, 'h, 'x) client_state \<Rightarrow> ('a, 'h, 'x) client_state \<Rightarrow> bool"
  for cfg :: "('a, 'l, 'b, 'h, 'o, 'x) client_config" and bal :: "'x \<Rightarrow> 'a \<Rightarrow> nat"
    and next_query :: "'x \<Rightarrow> nat" where
  requested: "client_signed cfg og \<noteq> Inr (escrow_account cfg) \<Longrightarrow> next_query (client_ext s) < max_query \<Longrightarrow>
    client_step cfg bal next_query s (applied (request cfg og req amount s) s)"
| reported: "client_step cfg bal next_query s (applied (on_outcome cfg og q resp s) s)"
| elsewhere: "bal (client_ext s) (escrow_account cfg) \<le> bal x (escrow_account cfg) \<Longrightarrow>
    next_query (client_ext s) \<le> next_query x \<Longrightarrow>
    client_step cfg bal next_query s (s\<lparr>client_ext := x, client_block := n\<rparr>)"

text \<open>At the start nothing is pending and the operator has endowed the escrow account with \<open>ed\<close>.\<close>

definition client_initial ::
  "('a, 'l, 'b, 'h, 'o, 'x) client_config \<Rightarrow> ('x \<Rightarrow> 'a \<Rightarrow> nat) \<Rightarrow> nat \<Rightarrow>
     ('a, 'h, 'x) client_state \<Rightarrow> bool" where
  "client_initial cfg bal ed s \<longleftrightarrow>
     pending s = Map.empty \<and> client_events s = [] \<and> ed \<le> bal (client_ext s) (escrow_account cfg)"

lemma escrowed_insert:
  assumes "finite (dom pnd)" and "pnd q = None"
  shows "escrowed (pnd(q \<mapsto> p)) = escrowed pnd + unat (escrow p)"
proof -
  have "(\<Sum>k\<in>dom pnd. unat (escrow (the ((pnd(q \<mapsto> p)) k)))) = escrowed pnd"
    unfolding escrowed_def by (rule sum.cong) (use assms(2) in auto)
  with assms show ?thesis by (simp add: escrowed_def domIff)
qed

lemma escrowed_remove:
  assumes "finite (dom pnd)" and "pnd q = Some p"
  shows "escrowed pnd = escrowed (pnd(q := None)) + unat (escrow p)"
proof -
  have "pnd = (pnd(q := None))(q \<mapsto> p)" using assms(2) by (simp add: fun_upd_idem)
  then have "escrowed pnd = escrowed ((pnd(q := None))(q \<mapsto> p))" by simp
  also have "\<dots> = escrowed (pnd(q := None)) + unat (escrow p)"
    by (rule escrowed_insert) (use assms(1) in simp_all)
  finally show ?thesis .
qed

lemma client_lawsD:
  assumes "client_laws cfg bal next_query ed"
  shows "moves_escrow cfg bal ed" and "issues_queries cfg bal next_query"
    and "operator cfg \<noteq> escrow_account cfg"
  using assms by (auto simp: client_laws_def)

lemma moves_escrowD:
  assumes "moves_escrow cfg bal ed" and "escrow_transfer cfg payer to v p x = Inr x'" and "payer \<noteq> to"
  shows "unat v \<le> bal x payer" and "bal x' to = bal x to + unat v"
    and "a \<noteq> payer \<Longrightarrow> a \<noteq> to \<Longrightarrow> bal x' a = bal x a"
    and "p = Expendable \<longrightarrow> ed + unat v \<le> bal x payer \<Longrightarrow> bal x' payer = bal x payer - unat v"
proof -
  note law = assms(1) [unfolded moves_escrow_def, rule_format, OF assms(2,3)]
  show "unat v \<le> bal x payer" "bal x' to = bal x to + unat v" using law by blast+
  show "a \<noteq> payer \<Longrightarrow> a \<noteq> to \<Longrightarrow> bal x' a = bal x a" using law by blast
  show "p = Expendable \<longrightarrow> ed + unat v \<le> bal x payer \<Longrightarrow> bal x' payer = bal x payer - unat v"
    using law by linarith
qed

lemma issues_queriesD:
  assumes "issues_queries cfg bal next_query"
  shows "new_notify_query cfg l n t x = (q, x') \<Longrightarrow>
      unat q = next_query x \<and> next_query x' = min (Suc (next_query x)) max_query \<and>
      bal x' (escrow_account cfg) = bal x (escrow_account cfg)"
    and "send_xcm cfg l msg x = Inr (h, x') \<Longrightarrow>
      next_query x' = next_query x \<and> bal x' (escrow_account cfg) = bal x (escrow_account cfg)"
    and "escrow_transfer cfg payer to v p x = Inr x' \<Longrightarrow> next_query x' = next_query x"
  using assms unfolding issues_queries_def by blast+

lemma solventD:
  assumes "solvent cfg bal next_query ed s"
  shows "finite (dom (pending s))"
    and "pending s q = Some p \<Longrightarrow> unat q < next_query (client_ext s) \<and> who p \<noteq> escrow_account cfg"
    and "ed + escrowed (pending s) \<le> bal (client_ext s) (escrow_account cfg)"
  using assms by (auto simp: solvent_def)

lemma escrow_covered:
  assumes "solvent cfg bal next_query ed s" and "pending s q = Some p"
  shows "ed + escrowed ((pending s)(q := None)) + unat (escrow p)
    \<le> bal (client_ext s) (escrow_account cfg)"
  using solventD(3) [OF assms(1)] escrowed_remove [OF solventD(1) [OF assms(1)] assms(2)] by simp

lemma request_solvent:
  assumes laws: "client_laws cfg bal next_query ed" and inv: "solvent cfg bal next_query ed s"
    and run: "request cfg og req amount s = Inr s'"
    and signed: "client_signed cfg og \<noteq> Inr (escrow_account cfg)"
    and room: "next_query (client_ext s) < max_query"
  shows "solvent cfg bal next_query ed s'"
proof -
  note qs = issues_queriesD [OF client_lawsD(2) [OF laws]]
  let ?esc = "escrow_account cfg"
  from run obtain a x1 q x2 h x3 where st: "client_signed cfg og = Inr a"
      "escrow_transfer cfg a ?esc amount Preserve (client_ext s) = Inr x1"
      "new_notify_query cfg (rights_chain cfg) (On_Outcome 0 Null)
         (saturating_add (client_block s) (query_timeout cfg)) x1 = (q, x2)"
      "send_xcm cfg (rights_chain cfg)
         (rights_message cfg (remote_call cfg req (encode_account_id cfg a)) q) x2 = Inr (h, x3)"
      "s' = client_deposit (RequestSent q a req amount h)
         (s\<lparr>pending := (pending s)(q \<mapsto>
              \<lparr>who = a, escrow = amount, request_of = req, sent_at = client_block s\<rparr>),
            client_ext := x3\<rparr>)"
    by (rule request_cases)
  from st(1) signed have a: "a \<noteq> ?esc" by auto
  have q: "unat q = next_query (client_ext s)" using qs(1) [OF st(3)] qs(3) [OF st(2)] by simp
  have nextq: "next_query x3 = Suc (next_query (client_ext s))"
    using qs(2) [OF st(4)] qs(1) [OF st(3)] qs(3) [OF st(2)] room by simp
  have bal: "bal x3 ?esc = bal (client_ext s) ?esc + unat amount"
    using qs(2) [OF st(4)] qs(1) [OF st(3)] moves_escrowD(2) [OF client_lawsD(1) [OF laws] st(2) a] by simp
  have fresh: "pending s q = None" using solventD(2) [OF inv, of q] q by (cases "pending s q") auto
  show ?thesis
    unfolding solvent_def
  proof (intro conjI allI impI)
    show "finite (dom (pending s'))" using solventD(1) [OF inv] by (simp add: st(5))
    show "unat k < next_query (client_ext s')" "who p \<noteq> ?esc" if "pending s' k = Some p" for k p
      using that solventD(2) [OF inv, of k p] a q nextq by (auto simp: st(5) split: if_splits)
    show "ed + escrowed (pending s') \<le> bal (client_ext s') ?esc"
      using solventD(3) [OF inv] escrowed_insert [OF solventD(1) [OF inv] fresh] bal by (simp add: st(5))
  qed
qed

text \<open>An outcome pays the escrow out in full, and no other balance but the recipient's changes.\<close>

lemma on_outcome_pays:
  assumes laws: "client_laws cfg bal next_query ed" and inv: "solvent cfg bal next_query ed s"
    and run: "on_outcome cfg og q resp s = Inr s'" and p: "pending s q = Some p"
    and to: "to = (if resp = DispatchResult Success then operator cfg else who p)"
  shows "bal (client_ext s') (escrow_account cfg) + unat (escrow p) = bal (client_ext s) (escrow_account cfg)"
    and "bal (client_ext s') to = bal (client_ext s) to + unat (escrow p)"
    and "a \<noteq> escrow_account cfg \<Longrightarrow> a \<noteq> to \<Longrightarrow> bal (client_ext s') a = bal (client_ext s) a"
    and "next_query (client_ext s') = next_query (client_ext s)"
proof -
  from run obtain x where x: "escrow_transfer cfg (escrow_account cfg) to (escrow p) Expendable
      (client_ext s) = Inr x" "client_ext s' = x"
    using p to by (elim on_outcome_cases) auto
  have ne: "escrow_account cfg \<noteq> to"
    using client_lawsD(3) [OF laws] solventD(2) [OF inv p] by (auto simp: to)
  note moves = moves_escrowD [OF client_lawsD(1) [OF laws] x(1) ne]
  show "bal (client_ext s') (escrow_account cfg) + unat (escrow p) = bal (client_ext s) (escrow_account cfg)"
    using moves(1) moves(4) escrow_covered [OF inv p] by (simp add: x(2))
  show "bal (client_ext s') to = bal (client_ext s) to + unat (escrow p)" using moves(2) by (simp add: x(2))
  show "a \<noteq> escrow_account cfg \<Longrightarrow> a \<noteq> to \<Longrightarrow> bal (client_ext s') a = bal (client_ext s) a"
    using moves(3) by (simp add: x(2))
  show "next_query (client_ext s') = next_query (client_ext s)"
    using issues_queriesD(3) [OF client_lawsD(2) [OF laws] x(1)] by (simp add: x(2))
qed

lemma on_outcome_solvent:
  assumes laws: "client_laws cfg bal next_query ed" and inv: "solvent cfg bal next_query ed s"
    and run: "on_outcome cfg og q resp s = Inr s'"
  shows "solvent cfg bal next_query ed s'"
proof -
  obtain p where p: "pending s q = Some p" using run by (rule on_outcome_cases)
  note pays = on_outcome_pays [OF laws inv run p refl]
  note rest = on_outcome_forgets [OF run]
  show ?thesis
    unfolding solvent_def
  proof (intro conjI allI impI)
    show "finite (dom (pending s'))" using solventD(1) [OF inv] by (simp add: rest)
    show "unat k < next_query (client_ext s')" "who r \<noteq> escrow_account cfg" if "pending s' k = Some r" for k r
      using that solventD(2) [OF inv, of k r] pays(4) by (auto simp: rest split: if_splits)
    show "ed + escrowed (pending s') \<le> bal (client_ext s') (escrow_account cfg)"
      using escrow_covered [OF inv p] pays(1) by (simp add: rest)
  qed
qed

lemma client_step_solvent:
  assumes "client_step cfg bal next_query s s'" and laws: "client_laws cfg bal next_query ed"
    and inv: "solvent cfg bal next_query ed s"
  shows "solvent cfg bal next_query ed s'"
  using assms(1)
proof cases
  case (requested og req amount)
  with request_solvent [OF laws inv] inv show ?thesis
    by (cases "request cfg og req amount s") (auto simp: applied_def)
next
  case (reported og q resp)
  with on_outcome_solvent [OF laws inv] inv show ?thesis
    by (cases "on_outcome cfg og q resp s") (auto simp: applied_def)
next
  case (elsewhere x n)
  with inv show ?thesis by (fastforce simp: solvent_def)
qed

lemma client_initial_solvent: "client_initial cfg bal ed s \<Longrightarrow> solvent cfg bal next_query ed s"
  by (simp add: client_initial_def solvent_def escrowed_def)

text \<open>The client is a transition system with the invariant, for all lawful surroundings.\<close>

interpretation client: invariant_system "client_initial cfg bal ed" "client_step cfg bal next_query"
  "\<lambda>s. client_laws cfg bal next_query ed \<longrightarrow> solvent cfg bal next_query ed s"
  for cfg :: "('a, 'l, 'b, 'h, 'o, 'x) client_config" and bal next_query ed
  by unfold_locales (auto intro: client_step_solvent client_initial_solvent)

lemma reachable_solvent:
  assumes "reachable (client_initial cfg bal ed) (client_step cfg bal next_query) s"
    and "client_laws cfg bal next_query ed"
  shows "solvent cfg bal next_query ed s"
  using client.inv_reachable [OF assms(1)] assms(2) by blast

text \<open>
  A payment from an account that keeps its existential deposit, to an account that will hold at
  least its own and not overflow, goes through.
\<close>

definition pays_out ::
  "('a, 'l, 'b, 'h, 'o, 'x) client_config \<Rightarrow> ('x \<Rightarrow> 'a \<Rightarrow> nat) \<Rightarrow> nat \<Rightarrow> bool" where
  "pays_out cfg bal ed \<longleftrightarrow>
     (\<forall>to v x. to \<noteq> escrow_account cfg \<longrightarrow> ed + unat v \<le> bal x (escrow_account cfg) \<longrightarrow>
        ed \<le> bal x to + unat v \<longrightarrow> bal x to + unat v < 2 ^ 128 \<longrightarrow>
        is_ok (escrow_transfer cfg (escrow_account cfg) to v Expendable x))"

lemma on_outcome_total:
  assumes "client_laws cfg bal next_query ed" and "pays_out cfg bal ed" and "solvent cfg bal next_query ed s"
    and "response_origin cfg og = Inr (rights_chain cfg)" and "pending s q = Some p"
    and "to = (if resp = DispatchResult Success then operator cfg else who p)"
    and "ed \<le> bal (client_ext s) to + unat (escrow p)"
    and "bal (client_ext s) to + unat (escrow p) < 2 ^ 128"
  shows "is_ok (on_outcome cfg og q resp s)"
proof -
  have "to \<noteq> escrow_account cfg"
    using client_lawsD(3) [OF assms(1)] solventD(2) [OF assms(3,5)] assms(6) by simp
  moreover have "ed + unat (escrow p) \<le> bal (client_ext s) (escrow_account cfg)"
    using escrow_covered [OF assms(3,5)] by simp
  ultimately have "is_ok (escrow_transfer cfg (escrow_account cfg) to (escrow p) Expendable (client_ext s))"
    using assms(2,7,8) unfolding pays_out_def by blast
  then show ?thesis using assms(4-6) by (auto simp: is_ok_iff on_outcome_def)
qed

section \<open>Agreement of the event log\<close>

text \<open>
  The requests and the reports in the order in which the pallet announced them, and the
  invariant that ties them to each other and to the storage: no query id is announced twice, none
  is reported twice, every report is about a request of the same user, and pending are exactly
  the requests without a report.
\<close>

fun sent_log :: "('a, 'h) client_event list \<Rightarrow> (u64 \<times> 'a) list" where
  "sent_log [] = []"
| "sent_log (RequestSent q a req amount h # es) = (q, a) # sent_log es"
| "sent_log (OutcomeReported q a ok # es) = sent_log es"

fun report_log :: "('a, 'h) client_event list \<Rightarrow> (u64 \<times> 'a) list" where
  "report_log [] = []"
| "report_log (RequestSent q a req amount h # es) = report_log es"
| "report_log (OutcomeReported q a ok # es) = (q, a) # report_log es"

lemma sent_log_append [simp]: "sent_log (es @ fs) = sent_log es @ sent_log fs"
  by (induction es rule: sent_log.induct) auto

lemma report_log_append [simp]: "report_log (es @ fs) = report_log es @ report_log fs"
  by (induction es rule: report_log.induct) auto

definition log_agrees :: "('x \<Rightarrow> nat) \<Rightarrow> ('a, 'h, 'x) client_state \<Rightarrow> bool" where
  "log_agrees next_query s \<longleftrightarrow>
     (let sent = sent_log (client_events s); reported = report_log (client_events s) in
      distinct (map fst sent) \<and> distinct (map fst reported) \<and> set reported \<subseteq> set sent \<and>
      dom (pending s) = fst ` set sent - fst ` set reported \<and>
      (\<forall>q p. pending s q = Some p \<longrightarrow> (q, who p) \<in> set sent) \<and>
      (\<forall>q\<in>fst ` set sent. unat q < next_query (client_ext s)))"

lemma log_agreesD:
  assumes "log_agrees next_query s"
  shows "distinct (map fst (sent_log (client_events s)))"
    and "distinct (map fst (report_log (client_events s)))"
    and "set (report_log (client_events s)) \<subseteq> set (sent_log (client_events s))"
    and "dom (pending s) = fst ` set (sent_log (client_events s)) - fst ` set (report_log (client_events s))"
    and "pending s q = Some p \<Longrightarrow> (q, who p) \<in> set (sent_log (client_events s))"
    and "q \<in> fst ` set (sent_log (client_events s)) \<Longrightarrow> unat q < next_query (client_ext s)"
  using assms unfolding log_agrees_def Let_def by blast+

lemma request_log_agrees:
  assumes laws: "client_laws cfg bal next_query ed" and inv: "log_agrees next_query s"
    and run: "request cfg og req amount s = Inr s'" and room: "next_query (client_ext s) < max_query"
  shows "log_agrees next_query s'"
proof -
  note qs = issues_queriesD [OF client_lawsD(2) [OF laws]]
  let ?es = "client_events s"
  from run obtain a x1 q x2 h x3 where st:
      "escrow_transfer cfg a (escrow_account cfg) amount Preserve (client_ext s) = Inr x1"
      "new_notify_query cfg (rights_chain cfg) (On_Outcome 0 Null)
         (saturating_add (client_block s) (query_timeout cfg)) x1 = (q, x2)"
      "send_xcm cfg (rights_chain cfg)
         (rights_message cfg (remote_call cfg req (encode_account_id cfg a)) q) x2 = Inr (h, x3)"
      and s': "s' = client_deposit (RequestSent q a req amount h)
         (s\<lparr>pending := (pending s)(q \<mapsto>
              \<lparr>who = a, escrow = amount, request_of = req, sent_at = client_block s\<rparr>),
            client_ext := x3\<rparr>)"
    by (rule request_cases)
  have q: "unat q = next_query (client_ext s)" using qs(1) [OF st(2)] qs(3) [OF st(1)] by simp
  have nextq: "next_query x3 = Suc (next_query (client_ext s))"
    using qs(2) [OF st(3)] qs(1) [OF st(2)] qs(3) [OF st(1)] room by simp
  have fresh: "q \<notin> fst ` set (sent_log ?es)" using log_agreesD(6) [OF inv, of q] q by auto
  then have unreported: "q \<notin> fst ` set (report_log ?es)" using log_agreesD(3) [OF inv] by auto
  have logs: "sent_log (client_events s') = sent_log ?es @ [(q, a)]"
      "report_log (client_events s') = report_log ?es"
    by (simp_all add: s' client_deposit_def)
  show ?thesis
    unfolding log_agrees_def Let_def logs
  proof (intro conjI allI impI ballI)
    show "distinct (map fst (sent_log ?es @ [(q, a)]))" using fresh log_agreesD(1) [OF inv] by auto
    show "distinct (map fst (report_log ?es))" by (rule log_agreesD(2) [OF inv])
    show "set (report_log ?es) \<subseteq> set (sent_log ?es @ [(q, a)])" using log_agreesD(3) [OF inv] by auto
    show "dom (pending s') = fst ` set (sent_log ?es @ [(q, a)]) - fst ` set (report_log ?es)"
      using log_agreesD(4) [OF inv] unreported by (auto simp: s')
    show "(k, who r) \<in> set (sent_log ?es @ [(q, a)])" if "pending s' k = Some r" for k r
      using that log_agreesD(5) [OF inv, of k r] by (auto simp: s' split: if_splits)
    show "unat k < next_query (client_ext s')" if "k \<in> fst ` set (sent_log ?es @ [(q, a)])" for k
    proof (cases "k = q")
      case True
      then show ?thesis by (simp add: q nextq s')
    next
      case False
      then have "k \<in> fst ` set (sent_log ?es)" using that by auto
      from log_agreesD(6) [OF inv this] show ?thesis by (simp add: nextq s')
    qed
  qed
qed

lemma on_outcome_log_agrees:
  assumes laws: "client_laws cfg bal next_query ed" and inv: "log_agrees next_query s"
    and run: "on_outcome cfg og q resp s = Inr s'"
  shows "log_agrees next_query s'"
proof -
  let ?es = "client_events s"
  from run obtain p x where p: "pending s q = Some p" and x: "escrow_transfer cfg (escrow_account cfg)
       (if resp = DispatchResult Success then operator cfg else who p) (escrow p) Expendable
       (client_ext s) = Inr x"
    and s': "s' = client_deposit (OutcomeReported q (who p) (resp = DispatchResult Success))
       (s\<lparr>pending := (pending s)(q := None), client_ext := x\<rparr>)"
    by (rule on_outcome_cases)
  have open_q: "q \<in> fst ` set (sent_log ?es) - fst ` set (report_log ?es)"
    using log_agreesD(4) [OF inv] p by auto
  have logs: "sent_log (client_events s') = sent_log ?es"
      "report_log (client_events s') = report_log ?es @ [(q, who p)]"
    by (simp_all add: s' client_deposit_def)
  show ?thesis
    unfolding log_agrees_def Let_def logs
  proof (intro conjI allI impI ballI)
    show "distinct (map fst (sent_log ?es))" by (rule log_agreesD(1) [OF inv])
    show "distinct (map fst (report_log ?es @ [(q, who p)]))"
      using log_agreesD(2) [OF inv] open_q by auto
    show "set (report_log ?es @ [(q, who p)]) \<subseteq> set (sent_log ?es)"
      using log_agreesD(3) [OF inv] log_agreesD(5) [OF inv p] by auto
    show "dom (pending s') = fst ` set (sent_log ?es) - fst ` set (report_log ?es @ [(q, who p)])"
      using log_agreesD(4) [OF inv] by (auto simp: s')
    show "(k, who r) \<in> set (sent_log ?es)" if "pending s' k = Some r" for k r
      using that log_agreesD(5) [OF inv, of k r] by (auto simp: s' split: if_splits)
    show "unat k < next_query (client_ext s')" if "k \<in> fst ` set (sent_log ?es)" for k
      using log_agreesD(6) [OF inv that] issues_queriesD(3) [OF client_lawsD(2) [OF laws] x]
      by (simp add: s')
  qed
qed

lemma client_step_log_agrees:
  assumes "client_step cfg bal next_query s s'" and laws: "client_laws cfg bal next_query ed"
    and inv: "log_agrees next_query s"
  shows "log_agrees next_query s'"
  using assms(1)
proof cases
  case (requested og req amount)
  with request_log_agrees [OF laws inv] inv show ?thesis
    by (cases "request cfg og req amount s") (auto simp: applied_def)
next
  case (reported og q resp)
  with on_outcome_log_agrees [OF laws inv] inv show ?thesis
    by (cases "on_outcome cfg og q resp s") (auto simp: applied_def)
next
  case (elsewhere x n)
  have "\<forall>q\<in>fst ` set (sent_log (client_events s)). unat q < next_query x"
    using log_agreesD(6) [OF inv] elsewhere(3) by (meson less_le_trans)
  with inv elsewhere(1) show ?thesis by (simp add: log_agrees_def Let_def)
qed

interpretation client_log: invariant_system "client_initial cfg bal ed" "client_step cfg bal next_query"
  "\<lambda>s. client_laws cfg bal next_query ed \<longrightarrow> log_agrees next_query s"
  for cfg :: "('a, 'l, 'b, 'h, 'o, 'x) client_config" and bal next_query ed
proof unfold_locales
  show "client_laws cfg bal next_query ed \<longrightarrow> log_agrees next_query s" if "client_initial cfg bal ed s" for s
    using that by (simp add: client_initial_def log_agrees_def)
qed (use client_step_log_agrees in blast)

section \<open>A concrete client\<close>

text \<open>
  Accounts, locations and assets are numbers; an origin is a signed account or the location of a
  responder. The existential deposit is 10, account 99 holds the escrows and account 7 is the
  operator. The rights chain is location 100 and keeps the pallet at index 51.
\<close>

record mock_client_ext =
  cm_balance :: "nat \<Rightarrow> nat"
  cm_queries :: nat
  cm_sent :: "(nat \<times> (nat, nat) instruction list) list"

definition mock_escrow_transfer ::
  "nat \<Rightarrow> nat \<Rightarrow> u128 \<Rightarrow> preservation \<Rightarrow> mock_client_ext \<Rightarrow> dispatch_error + mock_client_ext" where
  "mock_escrow_transfer payer to v p x =
     (if cm_balance x payer < unat v then Inl (External 0)
      else if payer = to then Inr x
      else if p \<noteq> Expendable \<and> cm_balance x payer - unat v < 10 then Inl (External 1)
      else if cm_balance x to + unat v < 10 then Inl (External 2)
      else if 2 ^ 128 \<le> cm_balance x to + unat v then Inl (External 3)
      else let rest = cm_balance x payer - unat v
           in Inr (x\<lparr>cm_balance := (cm_balance x)
                (payer := if rest < 10 then 0 else rest, to := cm_balance x to + unat v)\<rparr>))"

definition mock_client :: "(nat, nat, nat, nat, nat + nat, mock_client_ext) client_config" where
  "mock_client =
     \<lparr>rights_chain = 100, rights_pallet_index = 51, self_location = 200, execution_fee = 150000,
      query_timeout = 100, operator = 7, escrow_account = 99, client_weights = ClientUnitWeight,
      encode_account_id = (\<lambda>a. of_nat a # replicate 31 0), escrow_transfer = mock_escrow_transfer,
      new_notify_query = (\<lambda>l n t x. (of_nat (min (cm_queries x) max_query),
         x\<lparr>cm_queries := min (Suc (cm_queries x)) max_query\<rparr>)),
      send_xcm = (\<lambda>l msg x. Inr (0, x\<lparr>cm_sent := (l, msg) # cm_sent x\<rparr>)),
      client_signed = (\<lambda>og. case og of Inl a \<Rightarrow> Inr a | Inr _ \<Rightarrow> Inl BadOrigin),
      response_origin = (\<lambda>og. case og of Inl _ \<Rightarrow> Inl BadOrigin | Inr l \<Rightarrow> Inr l)\<rparr>"

text \<open>The query counter of the mock never exceeds the largest \<open>u64\<close>.\<close>

abbreviation mock_next_query :: "mock_client_ext \<Rightarrow> nat" where
  "mock_next_query x \<equiv> min (cm_queries x) max_query"

definition mock_client_state :: "nat \<Rightarrow> (nat, nat, mock_client_ext) client_state" where
  "mock_client_state endowment =
     \<lparr>pending = Map.empty, client_block = 3, client_events = [],
      client_ext = \<lparr>cm_balance = (\<lambda>_. 1000)(99 := endowment), cm_queries = 0, cm_sent = []\<rparr>\<rparr>"

text \<open>Account 1 escrows 100 for a subscription to content 0.\<close>

definition mock_requested :: "nat \<Rightarrow> (nat, nat, mock_client_ext) client_state" where
  "mock_requested endowment =
     applied (request mock_client (Inl 1) (Req_Subscribe 0) 100 (mock_client_state endowment))
       (mock_client_state endowment)"

lemmas client_run_simps =
  mock_client_def mock_escrow_transfer_def mock_client_state_def mock_requested_def applied_def
  request_def on_outcome_def client_deposit_def Let_def max_query_def

lemma mock_client_fields [simp]:
  "operator mock_client = 7" "escrow_account mock_client = 99" "rights_chain mock_client = 100"
  "rights_pallet_index mock_client = 51" "response_origin mock_client (Inr l) = Inr l"
  "client_signed mock_client (Inl a) = Inr a"
  "encode_account_id mock_client a = of_nat a # replicate 31 0"
  by (simp_all add: mock_client_def)

lemma unat_max_query: "unat (of_nat (min n max_query) :: u64) = min n max_query"
  by (simp add: unat_of_nat max_query_def)

lemma mock_moves_escrow: "moves_escrow mock_client cm_balance 10"
  by (auto simp: moves_escrow_def mock_client_def mock_escrow_transfer_def Let_def split: if_splits)

lemma mock_issues_queries: "issues_queries mock_client cm_balance mock_next_query"
  by (auto simp: issues_queries_def mock_client_def mock_escrow_transfer_def Let_def unat_max_query
      split: if_splits)

lemma mock_client_laws: "client_laws mock_client cm_balance mock_next_query 10"
  by (simp add: client_laws_def mock_moves_escrow mock_issues_queries)

lemma mock_pays_out: "pays_out mock_client cm_balance 10"
  by (auto simp: pays_out_def mock_client_def mock_escrow_transfer_def Let_def)

lemma mock_requested_reachable:
  "reachable (client_initial mock_client cm_balance 10) (client_step mock_client cm_balance mock_next_query)
     (mock_requested 10)"
proof (rule reachable.reach_step)
  show "reachable (client_initial mock_client cm_balance 10)
      (client_step mock_client cm_balance mock_next_query) (mock_client_state 10)"
    by (rule reachable.reach_start)
       (simp add: client_initial_def mock_client_state_def mock_client_def)
  show "client_step mock_client cm_balance mock_next_query (mock_client_state 10) (mock_requested 10)"
    unfolding mock_requested_def
    by (rule client_step.requested) (simp_all add: client_run_simps)
qed

lemma mock_requested_pending:
  "pending (mock_requested 10) = [0 \<mapsto> \<lparr>who = 1, escrow = 100, request_of = Req_Subscribe 0, sent_at = 3\<rparr>]"
  "cm_balance (client_ext (mock_requested 10)) = (\<lambda>_. 1000)(99 := 110, 1 := 900)"
  by (simp_all add: client_run_simps fun_upd_twist)

section \<open>Properties\<close>

text \<open>
  C9: Escrows are covered: once the escrow account holds its existential deposit, in every
  reachable state its balance pays all pending escrows in full and still keeps that deposit, and
  every pending request has a query id that \<open>pallet_xcm\<close> has issued.
\<close>

theorem escrow_solvent:
  assumes "reachable (client_initial cfg bal ed) (client_step cfg bal next_query) s"
    and "client_laws cfg bal next_query ed"
  shows "ed + escrowed (pending s) \<le> bal (client_ext s) (escrow_account cfg) \<and>
    (\<forall>q\<in>dom (pending s). unat q < next_query (client_ext s))"
  using reachable_solvent [OF assms] by (auto simp: solvent_def)

theorem escrow_solvent_witness:
  "10 + escrowed (pending (mock_requested 10)) \<le> cm_balance (client_ext (mock_requested 10)) 99 \<and>
   pending (mock_requested 10) 0 \<noteq> None"
  using escrow_solvent [OF mock_requested_reachable mock_client_laws]
  by (simp add: mock_requested_pending)

text \<open>
  C10: A report from the rights chain settles its request, provided that the escrow account was
  endowed with the existential deposit at the start, that the account which is paid holds at least
  the existential deposit afterwards and its balance does not overflow, and that the currency pays
  out what is covered: the report succeeds, pays the whole escrow to the operator when the remote
  call succeeded and back to the user otherwise, moves no other balance, and removes the request, so
  that a second report of it can only fail. Without the endowment this need not hold, see
  \<open>escrow_stranded\<close>.
\<close>

theorem outcome_settles:
  assumes "reachable (client_initial cfg bal ed) (client_step cfg bal next_query) s"
    and "client_laws cfg bal next_query ed" and "pays_out cfg bal ed"
    and "response_origin cfg og = Inr (rights_chain cfg)" and "pending s q = Some p"
    and "to = (if resp = DispatchResult Success then operator cfg else who p)"
    and "ed \<le> bal (client_ext s) to + unat (escrow p)"
    and "bal (client_ext s) to + unat (escrow p) < 2 ^ 128"
  shows "\<exists>s'. on_outcome cfg og q resp s = Inr s' \<and> pending s' = (pending s)(q := None) \<and>
    bal (client_ext s') to = bal (client_ext s) to + unat (escrow p) \<and>
    bal (client_ext s') (escrow_account cfg) + unat (escrow p) = bal (client_ext s) (escrow_account cfg) \<and>
    (\<forall>a. a \<notin> {to, escrow_account cfg} \<longrightarrow> bal (client_ext s') a = bal (client_ext s) a) \<and>
    (\<forall>og' resp'. \<not> is_ok (on_outcome cfg og' q resp' s'))"
proof -
  have inv: "solvent cfg bal next_query ed s" using assms(1,2) by (rule reachable_solvent)
  from on_outcome_total [OF assms(2,3) inv assms(4-8)] obtain s' where run: "on_outcome cfg og q resp s = Inr s'"
    by (auto simp: is_ok_iff)
  note pays = on_outcome_pays [OF assms(2) inv run assms(5,6)]
  from on_outcome_forgets [OF run] have "pending s' q = None" by simp
  with run pays on_outcome_forgets [OF run] on_outcome_unknown [of s' q cfg] show ?thesis by blast
qed

theorem outcome_settles_witness:
  "\<exists>s'. on_outcome mock_client (Inr 100) 0 (DispatchResult Success) (mock_requested 10) = Inr s' \<and>
     cm_balance (client_ext s') 7 = 1100 \<and> cm_balance (client_ext s') 1 = 900 \<and>
     \<not> is_ok (on_outcome mock_client (Inr 100) 0 (DispatchResult Success) s')"
proof -
  let ?s = "mock_requested 10"
  have p: "pending ?s 0 = Some \<lparr>who = 1, escrow = 100, request_of = Req_Subscribe 0, sent_at = 3\<rparr>"
    by (simp add: mock_requested_pending)
  from outcome_settles [OF mock_requested_reachable mock_client_laws mock_pays_out _ p,
      of "Inr 100" 7 "DispatchResult Success"]
  obtain s' where "on_outcome mock_client (Inr 100) 0 (DispatchResult Success) ?s = Inr s'"
      "cm_balance (client_ext s') 7 = 1100"
      "\<forall>a. a \<notin> {7, 99} \<longrightarrow> cm_balance (client_ext s') a = cm_balance (client_ext ?s) a"
      "\<not> is_ok (on_outcome mock_client (Inr 100) 0 (DispatchResult Success) s')"
    by (auto simp: mock_requested_pending)
  then show ?thesis by (auto simp: mock_requested_pending)
qed

text \<open>
  C22: Requests and reports agree injectively: in every reachable state each query id was
  announced and reported at most once, every report is of a request by the same user, and the
  pending requests are exactly the announced ones that have not been reported.
\<close>

theorem reports_agree:
  assumes "reachable (client_initial cfg bal ed) (client_step cfg bal next_query) s"
    and "client_laws cfg bal next_query ed"
    and "sent = sent_log (client_events s)" and "reported = report_log (client_events s)"
  shows "distinct (map fst sent) \<and> distinct (map fst reported) \<and> set reported \<subseteq> set sent \<and>
    dom (pending s) = fst ` set sent - fst ` set reported"
  using client_log.inv_reachable [OF assms(1)] assms(2-4) by (simp add: log_agrees_def Let_def)

theorem reports_agree_witness:
  "dom (pending (mock_requested 10)) = {0} \<and> sent_log (client_events (mock_requested 10)) = [(0, 1)]"
proof -
  have log: "sent_log (client_events (mock_requested 10)) = [(0, 1)]"
      "report_log (client_events (mock_requested 10)) = []"
    by (simp_all add: client_run_simps)
  with reports_agree [OF mock_requested_reachable mock_client_laws refl refl] show ?thesis by simp
qed

text \<open>
  Which reports are refused: one whose responder is not the rights chain with
  \<open>WrongResponder\<close>, one from the rights chain about a query that is not pending with
  \<open>UnknownQuery\<close>, and no report removes any request but its own.
\<close>

lemma outcome_refused:
  "(on_outcome cfg og q resp s = Inl (Client WrongResponder) \<longleftrightarrow>
      (\<exists>l. response_origin cfg og = Inr l \<and> l \<noteq> rights_chain cfg)) \<and>
   (on_outcome cfg og q resp s = Inl (Client UnknownQuery) \<longleftrightarrow>
      response_origin cfg og = Inr (rights_chain cfg) \<and> pending s q = None) \<and>
   (case on_outcome cfg og q resp s of
      Inl e \<Rightarrow> e \<notin> {Client SendFailed, Client BadBeneficiary}
    | Inr s' \<Rightarrow> pending s q \<noteq> None \<and> pending s' = (pending s)(q := None))"
proof (intro conjI)
  show "on_outcome cfg og q resp s = Inl (Client WrongResponder) \<longleftrightarrow>
      (\<exists>l. response_origin cfg og = Inr l \<and> l \<noteq> rights_chain cfg)"
    by (auto simp: on_outcome_def result_simps Let_def)
  show "on_outcome cfg og q resp s = Inl (Client UnknownQuery) \<longleftrightarrow>
      response_origin cfg og = Inr (rights_chain cfg) \<and> pending s q = None"
    by (auto simp: on_outcome_def result_simps Let_def)
  show "case on_outcome cfg og q resp s of
      Inl e \<Rightarrow> e \<notin> {Client SendFailed, Client BadBeneficiary}
    | Inr s' \<Rightarrow> pending s q \<noteq> None \<and> pending s' = (pending s)(q := None)"
    by (auto simp: on_outcome_forgets elim: on_outcome_cases split: sum.splits)
       (auto simp: on_outcome_def result_simps Let_def)
qed

text \<open>
  C33: An escrow can be stranded: when the balance of the escrow account has fallen below the
  escrow of a pending request, no report settles that request. Without an endowment this happens
  by the reaping of dust: an outcome pays with \<open>Preservation::Expendable\<close>, so an account left with
  less than the existential deposit, which still owes it to another request, loses it.
\<close>

theorem escrow_stranded:
  assumes "client_laws cfg bal next_query ed" and "pending s q = Some p" and "who p \<noteq> escrow_account cfg"
    and "bal (client_ext s) (escrow_account cfg) < unat (escrow p)"
  shows "\<not> is_ok (on_outcome cfg og q resp s)"
proof
  assume "is_ok (on_outcome cfg og q resp s)"
  then obtain s' where "on_outcome cfg og q resp s = Inr s'" by (auto simp: is_ok_iff)
  then obtain x where x: "escrow_transfer cfg (escrow_account cfg)
      (if resp = DispatchResult Success then operator cfg else who p) (escrow p) Expendable
      (client_ext s) = Inr x"
    using assms(2) by (elim on_outcome_cases) auto
  have "unat (escrow p) \<le> bal (client_ext s) (escrow_account cfg)"
    using moves_escrowD(1) [OF client_lawsD(1) [OF assms(1)] x] client_lawsD(3) [OF assms(1)] assms(3)
    by (simp split: if_splits)
  with assms(4) show False by simp
qed

text \<open>
  The run: with nothing endowed, accounts 1 and 2 escrow 100 and 5, and the first request
  succeeds. The remaining 5 are dust, and account 2 can neither be refunded nor the operator paid.
\<close>

definition mock_dusted :: "(nat, nat, mock_client_ext) client_state" where
  "mock_dusted =
     (let s = applied (request mock_client (Inl 2) (Req_Subscribe 0) 5 (mock_requested 0)) (mock_requested 0)
      in applied (on_outcome mock_client (Inr 100) 0 (DispatchResult Success) s) s)"

lemma mock_dusted_pending:
  "pending mock_dusted 1 = Some \<lparr>who = 2, escrow = 5, request_of = Req_Subscribe 0, sent_at = 3\<rparr>"
  "cm_balance (client_ext mock_dusted) 99 = 0"
  by (simp_all add: mock_dusted_def client_run_simps)

theorem escrow_stranded_witness:
  "pending mock_dusted 1 \<noteq> None \<and> \<not> is_ok (on_outcome mock_client (Inr 100) 1 Null mock_dusted)"
  using escrow_stranded [OF mock_client_laws mock_dusted_pending(1), of "Inr 100" Null]
  by (simp add: mock_dusted_pending)

end
