(* ===== verification/Precompile.thy ===== *)
theory Precompile
  imports Rights_Behaviour Mock_Chain
begin

text \<open>
  The read-only precompile of \<open>src/runtime/src/precompiles.rs\<close>, by which Solidity contracts read
  the storage of \<open>pallet_content_rights\<close>. The environment of \<open>pallet_revive\<close> (its weight meter,
  the two address mappings) and the ABI encoder are parameters; the five functions are one
  definition each. The properties say that contracts see what the pallet itself reports.
\<close>

section \<open>Interface\<close>

type_synonym h160 = "u8 list"

datatype icontent_rights_call =
    checkAccess u32 h160
  | getContent u32
  | isOwner u32 h160
  | getSubscription u32 h160
  | getViewPack u32 h160

text \<open>The values that are ABI-encoded as the answers, one constructor per return type.\<close>

datatype sol_value =
    Sol_uint8 u8
  | Sol_bool bool
  | Sol_content h160 "u8 list" u128 u128 u128 u32
  | Sol_bool_uint32 bool u32

datatype 'e precompile_error = Revert string | MeterError 'e

text \<open>\<open>StorageRead(n)\<close> and the weight of that token.\<close>

datatype storage_read = StorageRead u32

definition token_weight :: "storage_read \<Rightarrow> weight" where
  "token_weight tok = (case tok of StorageRead n \<Rightarrow> from_parts (25000 * ucast n) 0)"

record ('a, 'm, 'e) precompile_env =
  charge_weight_token :: "weight \<Rightarrow> 'm \<Rightarrow> 'e + 'm"
  to_account_id :: "h160 \<Rightarrow> 'a"
  to_address :: "'a \<Rightarrow> h160"
  abi_encode :: "sol_value \<Rightarrow> u8 list"

section \<open>The five functions\<close>

definition charge ::
  "('a, 'm, 'e) precompile_env \<Rightarrow> storage_read \<Rightarrow> 'm \<Rightarrow> 'e precompile_error + 'm" where
  "charge env tok m = map_err MeterError (charge_weight_token env (token_weight tok) m)"

definition check_access_fn ::
  "('a, 'm, 'e) precompile_env \<Rightarrow> u32 \<Rightarrow> h160 \<Rightarrow> ('a, 'x) state \<Rightarrow> 'm \<Rightarrow>
     'e precompile_error + u8 list \<times> 'm" where
  "check_access_fn env content_id addr s m =
     and_then (charge env (StorageRead 3) m) (\<lambda>m.
     let who = to_account_id env addr in
     if contents s content_id = None then Inl (Revert ''ContentNotFound'')
     else if ownership s (content_id, who) \<noteq> None then Inr (abi_encode env (Sol_uint8 2), m)
     else if (case subscriptions s (content_id, who) of
                Some sub \<Rightarrow> current_block s < expiry_block sub | None \<Rightarrow> False)
     then Inr (abi_encode env (Sol_uint8 0), m)
     else if (case view_packs s (content_id, who) of
                Some pack \<Rightarrow> views_remaining pack > 0 | None \<Rightarrow> False)
     then Inr (abi_encode env (Sol_uint8 1), m)
     else Inr (abi_encode env (Sol_uint8 3), m))"

definition get_content_fn ::
  "('a, 'm, 'e) precompile_env \<Rightarrow> u32 \<Rightarrow> ('a, 'x) state \<Rightarrow> 'm \<Rightarrow> 'e precompile_error + u8 list \<times> 'm" where
  "get_content_fn env content_id s m =
     and_then (charge env (StorageRead 1) m) (\<lambda>m.
     and_then (ok_or (contents s content_id) (Revert ''ContentNotFound'')) (\<lambda>content.
     Inr (abi_encode env
            (Sol_content (to_address env (creator content)) (metadata_hash content)
               (subscription_price content) (ppv_price content) (ownership_price content)
               (period_length content)), m)))"

definition is_owner_fn ::
  "('a, 'm, 'e) precompile_env \<Rightarrow> u32 \<Rightarrow> h160 \<Rightarrow> ('a, 'x) state \<Rightarrow> 'm \<Rightarrow>
     'e precompile_error + u8 list \<times> 'm" where
  "is_owner_fn env content_id addr s m =
     and_then (charge env (StorageRead 1) m) (\<lambda>m.
     let who = to_account_id env addr;
         owned = (ownership s (content_id, who) \<noteq> None)
     in Inr (abi_encode env (Sol_bool owned), m))"

definition get_subscription_fn ::
  "('a, 'm, 'e) precompile_env \<Rightarrow> u32 \<Rightarrow> h160 \<Rightarrow> ('a, 'x) state \<Rightarrow> 'm \<Rightarrow>
     'e precompile_error + u8 list \<times> 'm" where
  "get_subscription_fn env content_id addr s m =
     and_then (charge env (StorageRead 1) m) (\<lambda>m.
     case subscriptions s (content_id, to_account_id env addr) of
       Some sub \<Rightarrow> Inr (abi_encode env (Sol_bool_uint32 True (expiry_block sub)), m)
     | None \<Rightarrow> Inr (abi_encode env (Sol_bool_uint32 False 0), m))"

definition get_view_pack_fn ::
  "('a, 'm, 'e) precompile_env \<Rightarrow> u32 \<Rightarrow> h160 \<Rightarrow> ('a, 'x) state \<Rightarrow> 'm \<Rightarrow>
     'e precompile_error + u8 list \<times> 'm" where
  "get_view_pack_fn env content_id addr s m =
     and_then (charge env (StorageRead 1) m) (\<lambda>m.
     case view_packs s (content_id, to_account_id env addr) of
       Some pack \<Rightarrow> Inr (abi_encode env (Sol_bool_uint32 True (views_remaining pack)), m)
     | None \<Rightarrow> Inr (abi_encode env (Sol_bool_uint32 False 0), m))"

fun precompile_call ::
  "('a, 'm, 'e) precompile_env \<Rightarrow> icontent_rights_call \<Rightarrow> ('a, 'x) state \<Rightarrow> 'm \<Rightarrow>
     'e precompile_error + u8 list \<times> 'm" where
  "precompile_call env (checkAccess c addr) s m = check_access_fn env c addr s m"
| "precompile_call env (getContent c) s m = get_content_fn env c s m"
| "precompile_call env (isOwner c addr) s m = is_owner_fn env c addr s m"
| "precompile_call env (getSubscription c addr) s m = get_subscription_fn env c addr s m"
| "precompile_call env (getViewPack c addr) s m = get_view_pack_fn env c addr s m"

fun reads_charged :: "icontent_rights_call \<Rightarrow> u32" where
  "reads_charged (checkAccess _ _) = 3"
| "reads_charged _ = 1"

lemmas precompile_defs =
  check_access_fn_def get_content_fn_def is_owner_fn_def get_subscription_fn_def get_view_pack_fn_def

section \<open>Agreement with the pallet\<close>

text \<open>The documented codes of the rights: 0 subscription, 1 pay-per-view, 2 ownership, 3 none.\<close>

definition rights_code :: "rights_type option \<Rightarrow> u8" where
  "rights_code r = (case r of None \<Rightarrow> 3 | Some rt \<Rightarrow> hd (encode_rights_type rt))"

lemma rights_code_inj: "rights_code r = rights_code r' \<longleftrightarrow> r = r'"
proof -
  have "rights_code r \<noteq> rights_code r'" if "r \<noteq> r'"
    using that by (cases r; cases r'; (cases "the r")?; (cases "the r'")?) (auto simp: rights_code_def)
  then show ?thesis by blast
qed

lemma check_access_fn_agrees:
  "check_access_fn env c addr s m =
     and_then (charge env (StorageRead 3) m) (\<lambda>m.
       if contents s c = None then Inl (Revert ''ContentNotFound'')
       else Inr (abi_encode env (Sol_uint8 (rights_code (access_rights_of c (to_account_id env addr) s))), m))"
  by (simp add: check_access_fn_def access_rights_of_def access_rights_def rights_code_def Let_def
      cong: if_cong)

lemma precompile_charges:
  "precompile_call env f s m = Inr (bs, m') \<Longrightarrow>
     charge_weight_token env (from_parts (25000 * ucast (reads_charged f)) 0) m = Inr m'"
  by (cases f)
     (auto simp: precompile_defs charge_def token_weight_def result_simps Let_def
       split: if_splits option.splits)

section \<open>Properties\<close>

text \<open>
  C27: Contracts see the ledger: once the reads are paid for, \<open>checkAccess\<close> reverts exactly for
  unregistered content and otherwise returns the code of the best right the ledger grants (each
  right its own code), \<open>isOwner\<close> is membership among the owners, \<open>getSubscription\<close> the paid-until
  block (zero when there is none) and \<open>getViewPack\<close> the remaining views, existing exactly when
  there is one.
\<close>

theorem precompile_agrees:
  assumes "reachable initial_state (chain_step cfg env) s" and "lawful_env cfg env"
    and "charge_weight_token penv (from_parts 75000 0) m = Inr m3"
    and "charge_weight_token penv (from_parts 25000 0) m = Inr m1"
    and "who = to_account_id penv addr" and "L = ledger_of s"
  shows "precompile_call penv (checkAccess c addr) s m =
      (if listed c L
       then Inr (abi_encode penv (Sol_uint8 (rights_code (ledger_access (current_block s) c who L))), m3)
       else Inl (Revert ''ContentNotFound'')) \<and>
    precompile_call penv (isOwner c addr) s m = Inr (abi_encode penv (Sol_bool ((c, who) \<in> owners L)), m1) \<and>
    precompile_call penv (getSubscription c addr) s m =
      Inr (abi_encode penv (Sol_bool_uint32 (paid_until L (c, who) \<noteq> None)
        (case paid_until L (c, who) of None \<Rightarrow> 0 | Some e \<Rightarrow> e)), m1) \<and>
    precompile_call penv (getViewPack c addr) s m =
      Inr (abi_encode penv (Sol_bool_uint32 (0 < views L (c, who)) (of_nat (views L (c, who)))), m1) \<and>
    inj rights_code"
proof (intro conjI)
  have inv: "rights_inv cfg s" using assms(1,2) by (rule reachable_rights_inv)
  have charged: "charge penv (StorageRead 3) m = Inr m3" "charge penv (StorageRead 1) m = Inr m1"
    using assms(3,4) by (simp_all add: charge_def token_weight_def)
  show "precompile_call penv (checkAccess c addr) s m =
      (if listed c L
       then Inr (abi_encode penv (Sol_uint8 (rights_code (ledger_access (current_block s) c who L))), m3)
       else Inl (Revert ''ContentNotFound''))"
    by (simp add: check_access_fn_agrees charged access_rights_of_ledger [OF inv] listed_iff [OF inv] assms(5,6))
  show "precompile_call penv (isOwner c addr) s m = Inr (abi_encode penv (Sol_bool ((c, who) \<in> owners L)), m1)"
    by (simp add: is_owner_fn_def charged Let_def ledger_of_def domIff assms(5,6))
  show "precompile_call penv (getSubscription c addr) s m =
      Inr (abi_encode penv (Sol_bool_uint32 (paid_until L (c, who) \<noteq> None)
        (case paid_until L (c, who) of None \<Rightarrow> 0 | Some e \<Rightarrow> e)), m1)"
    by (simp add: get_subscription_fn_def charged ledger_of_def assms(5,6) split: option.split)
  have "view_packs s (c, who) \<noteq> None \<longleftrightarrow> 0 < views (ledger_of s) (c, who)"
    by (rule views_exist [OF inv])
  then show "precompile_call penv (getViewPack c addr) s m =
      Inr (abi_encode penv (Sol_bool_uint32 (0 < views L (c, who)) (of_nat (views L (c, who)))), m1)"
    by (cases "view_packs s (c, who)")
       (simp_all add: get_view_pack_fn_def charged assms(5,6), simp_all add: ledger_of_def)
  show "inj rights_code" by (rule injI) (simp add: rights_code_inj)
qed

text \<open>The mock environment: a meter with a budget of reference time and accounts by first byte.\<close>

definition mock_penv :: "(nat, nat, unit) precompile_env" where
  "mock_penv =
     \<lparr>charge_weight_token = (\<lambda>w m. if unat (ref_time w) \<le> m then Inr (m - unat (ref_time w)) else Inl ()),
      to_account_id = (\<lambda>addr. unat (hd addr)), to_address = (\<lambda>a. of_nat a # replicate 19 0),
      abi_encode = (\<lambda>v. case v of Sol_uint8 b \<Rightarrow> replicate 31 0 @ [b] | _ \<Rightarrow> [])\<rparr>"

lemma mock_charges:
  "charge_weight_token mock_penv (from_parts 75000 0) 100000 = Inr 25000"
  "charge_weight_token mock_penv (from_parts 25000 0) 100000 = Inr 75000"
  by (simp_all add: mock_penv_def)

theorem precompile_agrees_witness:
  "precompile_call mock_penv (checkAccess 0 (2 # replicate 19 0)) mock_s1 100000 =
     Inr (replicate 31 0 @ [2], 25000)"
proof -
  let ?addr = "2 # replicate 19 0 :: u8 list"
  have who: "2 = to_account_id mock_penv ?addr" by (simp add: mock_penv_def)
  have call: "precompile_call mock_penv (checkAccess 0 ?addr) mock_s1 100000 =
      (if listed 0 (ledger_of mock_s1)
       then Inr (abi_encode mock_penv (Sol_uint8 (rights_code
              (ledger_access (current_block mock_s1) 0 2 (ledger_of mock_s1)))), 25000)
       else Inl (Revert ''ContentNotFound''))"
    by (rule conjunct1 [OF precompile_agrees [OF mock_s1_reachable mock_lawful_env mock_charges who refl]])
  have access: "ledger_access (current_block mock_s1) 0 2 (ledger_of mock_s1) = Some Ownership"
    unfolding access_rights_of_ledger [OF mock_s1_inv, symmetric]
    by (simp add: access_rights_of_def access_rights_def mock_s1_def)
  have "listed 0 (ledger_of mock_s1)"
    unfolding listed_iff [OF mock_s1_inv] by (simp add: mock_s1_def)
  then show ?thesis
    unfolding call access by (simp add: rights_code_def mock_penv_def)
qed

text \<open>
  The precompile charges 25,000 units of reference time per declared read and nothing else, which
  is less than the cost of one read of the database that the runtime charges everywhere else.
\<close>

lemma precompile_charge:
  assumes "precompile_call penv f s m = Inr (bs, m')"
  shows "charge_weight_token penv (from_parts (25000 * ucast (reads_charged f)) 0) m = Inr m' \<and>
    from_parts (25000 * ucast (reads_charged f)) 0 < reads frame_rocks_db_weight 1"
proof
  show "charge_weight_token penv (from_parts (25000 * ucast (reads_charged f)) 0) m = Inr m'"
    using assms by (rule precompile_charges)
  show "from_parts (25000 * ucast (reads_charged f)) 0 < reads frame_rocks_db_weight 1"
    by (cases f)
       (simp_all add: reads_def frame_rocks_db_weight_def less_weight_def less_eq_weight_def
         saturating_mul_def)
qed

end
