(* ===== verification/Rights_Storage.thy ===== *)
theory Rights_Storage
  imports Rights_Safety Mock_Chain
begin

text \<open>
  When and how far the hook of a block (\<open>on_initialize\<close> of \<open>src/pallets/content-rights/src/lib.rs\<close>)
  extends a subscription: a relation between the states before and after, kept by every iteration of
  its loop.
\<close>

section \<open>What a block extends\<close>

definition extended :: "u32 \<Rightarrow> ('a, 'x) state \<Rightarrow> ('a, 'x) state \<Rightarrow> bool" where
  "extended now s t \<longleftrightarrow>
     contents t = contents s \<and>
     (\<forall>k y. subscriptions t k = Some y \<longrightarrow>
        (\<exists>x. subscriptions s k = Some x \<and> (auto_renew y \<longrightarrow> auto_renew x) \<and>
           (expiry_block y = expiry_block x \<or>
            auto_renew x \<and> expiry_block x \<le> now \<and>
            (\<exists>m. contents s (fst k) = Some m \<and> expiry_block y = saturating_add now (period_length m)))))"

lemma extended_refl: "contents t = contents s \<Longrightarrow> subscriptions t = subscriptions s \<Longrightarrow> extended now s t"
  by (auto simp: extended_def)

lemma extendedD:
  assumes "extended now s t" and "subscriptions t k = Some y"
  obtains x where "subscriptions s k = Some x" "auto_renew y \<longrightarrow> auto_renew x"
    "expiry_block y = expiry_block x \<or> auto_renew x \<and> expiry_block x \<le> now \<and>
       (\<exists>m. contents s (fst k) = Some m \<and> expiry_block y = saturating_add now (period_length m))"
  using assms unfolding extended_def by blast

lemma extended_keeps:
  assumes "extended now s t" and "contents u = contents t"
    and "\<And>k z. subscriptions u k = Some z \<Longrightarrow>
      \<exists>y. subscriptions t k = Some y \<and> (auto_renew z \<longrightarrow> auto_renew y) \<and> expiry_block z = expiry_block y"
  shows "extended now s u"
  unfolding extended_def
proof (intro conjI allI impI)
  show "contents u = contents s" using assms(1,2) by (simp add: extended_def)
  fix k z
  assume "subscriptions u k = Some z"
  with assms(3) obtain y where "subscriptions t k = Some y" and "auto_renew z \<longrightarrow> auto_renew y"
    and "expiry_block z = expiry_block y" by blast
  with extendedD [OF assms(1), of k y]
  show "\<exists>x. subscriptions s k = Some x \<and> (auto_renew z \<longrightarrow> auto_renew x) \<and>
      (expiry_block z = expiry_block x \<or> auto_renew x \<and> expiry_block x \<le> now \<and>
       (\<exists>m. contents s (fst k) = Some m \<and> expiry_block z = saturating_add now (period_length m)))"
    by metis
qed

lemma extended_renew:
  assumes ext: "extended now s t" and sub: "subscriptions t (c, a) = Some sub" "auto_renew sub"
    and due: "expiry_block sub \<le> now" and con: "contents t c = Some m" "contents u = contents t"
    and other: "\<And>k. k \<noteq> (c, a) \<Longrightarrow> subscriptions u k = subscriptions t k"
    and self: "\<And>z. subscriptions u (c, a) = Some z \<Longrightarrow> expiry_block z = saturating_add now (period_length m)"
  shows "extended now s u"
  unfolding extended_def
proof (intro conjI allI impI)
  have con_s: "contents t = contents s" using ext by (simp add: extended_def)
  then show "contents u = contents s" using con(2) by simp
  fix k z
  assume z: "subscriptions u k = Some z"
  obtain x where x: "subscriptions s (c, a) = Some x" "auto_renew x"
      "expiry_block x \<le> now"
    using extendedD [OF ext sub(1)] sub(2) due by metis
  show "\<exists>x. subscriptions s k = Some x \<and> (auto_renew z \<longrightarrow> auto_renew x) \<and>
      (expiry_block z = expiry_block x \<or> auto_renew x \<and> expiry_block x \<le> now \<and>
       (\<exists>m. contents s (fst k) = Some m \<and> expiry_block z = saturating_add now (period_length m)))"
  proof (cases "k = (c, a)")
    case True
    with x z self con(1) con_s show ?thesis by auto
  next
    case False
    with other z have "subscriptions t k = Some z" by simp
    then show ?thesis by (rule extendedD [OF ext]) blast
  qed
qed

lemma renew_one_extended:
  assumes "renew_one cfg now (c, a) (t, sp) = (u, sp')" and "extended now s t"
  shows "extended now s u"
  using assms(1)
proof (cases rule: renew_one_cases)
  case (requeue sub off)
  with assms(2) show ?thesis
    by (intro extended_keeps [OF assms(2)]) (auto simp: enqueue_renewal_simps
        renewal_frame_simps [OF enqueue_renewal_simps(4) [OF requeue(4)]])
next
  case (renew sub content n s1)
  note paid = only_ext_events_storage [OF pay_with_royalties_frame [OF renew(5), THEN conjunct2]]
  show ?thesis
  proof (rule extended_renew [OF assms(2) renew(1-4)])
    show "contents u = contents t"
      using renew(6) by (simp add: paid renewal_frame_simps(1) [OF finish_renewal_frame])
    show "subscriptions u k = subscriptions t k" if "k \<noteq> (c, a)" for k
      using renew(6) by (simp add: paid finish_renewal_maps(1) [OF that])
    show "expiry_block z = saturating_add now (period_length content)"
      if "subscriptions u (c, a) = Some z" for z
    proof (rule finish_renewal_self [of s1 c a sub now "period_length content"])
      show "subscriptions s1 (c, a) = Some sub" using renew(1) by (simp add: paid)
    qed (use that renew(6) in auto)
  qed
qed (use assms(2) in \<open>auto intro!: extended_keeps [OF assms(2)] split: if_splits\<close>)

lemma on_initialize_extended:
  assumes "on_initialize cfg s = (w, s')"
  shows "extended (current_block s) s s'"
  using assms
  by (elim on_initialize_cases renew_fold_induct [where P = "extended (current_block s) s"])
     (auto intro: renew_one_extended extended_refl)

lemma new_block_extended:
  "extended (current_block (s\<lparr>block_number := Suc (block_number s)\<rparr>)) s (new_block cfg s)"
proof -
  let ?s = "s\<lparr>block_number := Suc (block_number s)\<rparr>"
  obtain w where "on_initialize cfg ?s = (w, new_block cfg s)" by (rule new_block_frame)
  from on_initialize_extended [OF this] show ?thesis by (simp add: extended_def)
qed

section \<open>Property\<close>

text \<open>
  C26: A block extends a subscription only when it is due and only by its period: when the expiry
  of a subscription changes, auto-renewal was on, the old expiry had been reached, and the new
  one is the current block plus the period of the content, which is at least the configured
  minimum. So the same subscription is not charged again before the minimum period has passed.
\<close>

theorem renewal_only_when_due:
  assumes "reachable initial_state (chain_step cfg env) s" and "lawful_env cfg env"
    and "now = current_block (s\<lparr>block_number := Suc (block_number s)\<rparr>)"
    and "subscriptions s (c, a) = Some x" and "subscriptions (new_block cfg s) (c, a) = Some y"
    and "expiry_block y \<noteq> expiry_block x"
  shows "auto_renew x \<and> expiry_block x \<le> now \<and>
    (\<exists>m. contents s c = Some m \<and> min_auto_renew_period cfg \<le> period_length m \<and>
       unat (expiry_block y) = min (unat now + unat (period_length m)) (2 ^ 32 - 1))"
proof -
  obtain m where m: "auto_renew x" "expiry_block x \<le> now" "contents s c = Some m"
      "expiry_block y = saturating_add now (period_length m)"
    using extendedD [OF new_block_extended assms(5)] assms(3,4,6) by force
  have inv: "renewal_inv cfg s" using reachable_rights_inv [OF assms(1,2)] by (simp add: rights_inv_def)
  have "auto_renew_index s (c, a) \<noteq> None"
    using inv m(1) assms(4) by (simp add: renewal_inv_def index_ok_def)
  then have "min_auto_renew_period cfg \<le> period_length m"
    using inv m(3) unfolding renewal_inv_def by fastforce
  with m show ?thesis by (simp add: machine_arith)
qed

theorem renewal_only_when_due_witness:
  "\<exists>y. subscriptions (new_block mock (mock_blocks 199)) (0, 2) = Some y \<and>
     unat (expiry_block y) = 405"
proof -
  let ?s = "mock_s1\<lparr>block_number := 204\<rparr>" and ?x = "\<lparr>expiry_block = 205, auto_renew = True, sub_child_item_id = 1\<rparr>"
  have reach: "reachable initial_state (chain_step mock (\<lambda>x x'. counter x' = counter x)) ?s"
    using mock_blocks_reachable [of _ 199] by (simp only: mock_block_204)
  have x: "subscriptions ?s (0, 2) = Some ?x" by (simp add: mock_s1_def)
  have y: "subscriptions (new_block mock ?s) (0, 2) = Some (?x\<lparr>expiry_block := 405\<rparr>)"
    by (simp add: new_block_def on_initialize_def renew_one_def finish_renewal_def mock_s1_def
        mock_work_def run_simps)
  have "current_block (?s\<lparr>block_number := Suc (block_number ?s)\<rparr>) = 205"
    by (simp add: current_block_def try_into_u32_def)
  with renewal_only_when_due [OF reach mock_lawful_env refl x y]
  have "unat (expiry_block (?x\<lparr>expiry_block := 405\<rparr>)) = 405"
    by (simp add: mock_s1_def mock_work_def)
  with y show ?thesis by (simp only: mock_block_204) blast
qed

end
