(* ===== verification/Runtime_Config.thy ===== *)
theory Runtime_Config
  imports Rights_Storage Rights_Charges Rights_Verifier Rights_Client
begin

text \<open>
  The runtime that hosts the three pallets: the constants of \<open>src/runtime/src/lib.rs\<close>, the weights
  of \<open>src/runtime/src/weights\<close>, the pallet configurations of \<open>src/runtime/src/configs/mod.rs\<close> and the
  genesis presets of \<open>src/runtime/src/genesis_config_presets.rs\<close>. A configuration of the runtime is
  a configuration of the pallet with the fields that the runtime fixes; the operations of the
  other pallets stay parameters. The properties say that with these constants every call and
  both hooks fit into a block.
\<close>

section \<open>Constants of the runtime\<close>

definition MILLI_SECS_PER_BLOCK :: u64 where
  "MILLI_SECS_PER_BLOCK = 6000"

definition MINUTES :: u32 where
  "MINUTES = 60000 div ucast MILLI_SECS_PER_BLOCK"

definition HOURS :: u32 where
  "HOURS = MINUTES * 60"

definition DAYS :: u32 where
  "DAYS = HOURS * 24"

definition MILLI_UNIT :: u128 where
  "MILLI_UNIT = 1000000000"

definition EXISTENTIAL_DEPOSIT :: u128 where
  "EXISTENTIAL_DEPOSIT = MILLI_UNIT"

text \<open>
  \<open>Perbill::from_percent\<close>, multiplied with a weight: a multiplication by a \<open>Perbill\<close> rounds to the nearest
  integer, and down when two are equally near.
\<close>

definition percent_part :: "nat \<Rightarrow> nat \<Rightarrow> nat" where
  "percent_part p n = (p * n + 49) div 100"

definition percent_of :: "nat \<Rightarrow> weight \<Rightarrow> weight" where
  "percent_of p w =
     from_parts (of_nat (percent_part p (unat (ref_time w)))) (of_nat (percent_part p (unat (proof_size w))))"

definition AVERAGE_ON_INITIALIZE_RATIO :: nat where
  "AVERAGE_ON_INITIALIZE_RATIO = 5"

definition NORMAL_DISPATCH_RATIO :: nat where
  "NORMAL_DISPATCH_RATIO = 75"

text \<open>
  \<open>WEIGHT_REF_TIME_PER_SECOND\<close> is 1,000,000,000,000 and \<open>WEIGHT_REF_TIME_PER_NANOS\<close> is 1000;
  \<open>max_pov\<close> stands for \<open>MAX_POV_SIZE\<close> of the relay chain.
\<close>

definition MAXIMUM_BLOCK_WEIGHT :: "u64 \<Rightarrow> weight" where
  "MAXIMUM_BLOCK_WEIGHT max_pov = from_parts (saturating_mul 1000000000000 2) max_pov"

definition RocksDbWeight :: db_weight where
  "RocksDbWeight = RuntimeDbWeight (25000 * 1000) (100000 * 1000)"

definition BlockExecutionWeight :: weight where
  "BlockExecutionWeight = from_parts (saturating_mul 1000 5000000) 0"

definition ExtrinsicBaseWeight :: weight where
  "ExtrinsicBaseWeight = from_parts (saturating_mul 1000 125000) 0"

section \<open>Limits of a block\<close>

text \<open>The classes of calls. Normal calls get three quarters of the length of a block.\<close>

datatype dispatch_class = Normal | Operational | Mandatory

definition RuntimeBlockLength :: "dispatch_class \<Rightarrow> nat" where
  "RuntimeBlockLength c =
     (let max_length = 5 * 1024 * 1024 in if c = Normal then NORMAL_DISPATCH_RATIO * max_length div 100 else max_length)"

text \<open>
  The limits that the builder of the block weights is given for each class; \<open>None\<close> is no limit of the
  class. The subtraction of weights wraps, and is shown not to.
\<close>

record class_weights =
  base_extrinsic :: weight
  max_total :: "weight option"
  reserved :: "weight option"

record block_weights =
  base_block :: weight
  per_class :: "dispatch_class \<Rightarrow> class_weights"
  avg_block_initialization :: nat

definition weight_minus :: "weight \<Rightarrow> weight \<Rightarrow> weight" where
  "weight_minus v w = from_parts (ref_time v - ref_time w) (proof_size v - proof_size w)"

definition RuntimeBlockWeights :: "u64 \<Rightarrow> block_weights" where
  "RuntimeBlockWeights max_pov =
     (let max = MAXIMUM_BLOCK_WEIGHT max_pov; normal = percent_of NORMAL_DISPATCH_RATIO max in
      \<lparr>base_block = BlockExecutionWeight,
       per_class = (\<lambda>c. case c of
          Normal \<Rightarrow> \<lparr>base_extrinsic = ExtrinsicBaseWeight, max_total = Some normal, reserved = None\<rparr>
        | Operational \<Rightarrow> \<lparr>base_extrinsic = ExtrinsicBaseWeight, max_total = Some max,
            reserved = Some (weight_minus max normal)\<rparr>
        | Mandatory \<Rightarrow> \<lparr>base_extrinsic = ExtrinsicBaseWeight, max_total = None, reserved = None\<rparr>),
       avg_block_initialization = AVERAGE_ON_INITIALIZE_RATIO\<rparr>)"

text \<open>The share of a block for incoming messages; \<open>RuntimeBlockWeights::get().max_block\<close> is the largest block.\<close>

definition MessageQueueServiceWeight :: "u64 \<Rightarrow> weight" where
  "MessageQueueServiceWeight max_pov = percent_of 35 (MAXIMUM_BLOCK_WEIGHT max_pov)"

definition ReservedXcmpWeight :: "u64 \<Rightarrow> weight" where
  "ReservedXcmpWeight max_pov =
     (let max = MAXIMUM_BLOCK_WEIGHT max_pov in from_parts (ref_time max div 4) (proof_size max div 4))"

definition ReservedDmpWeight :: "u64 \<Rightarrow> weight" where
  "ReservedDmpWeight max_pov =
     (let max = MAXIMUM_BLOCK_WEIGHT max_pov in from_parts (ref_time max div 4) (proof_size max div 4))"

section \<open>Pallet configurations\<close>

definition NftsCollectionDeposit :: u128 where
  "NftsCollectionDeposit = 10 * EXISTENTIAL_DEPOSIT"

definition MinAutoRenewPeriod :: u32 where
  "MinAutoRenewPeriod = 14400"

definition content_rights_config :: "('a, 'x) config \<Rightarrow> ('a, 'x) config" where
  "content_rights_config cfg =
     cfg\<lparr>nfts_collection_deposit := NftsCollectionDeposit, nfts_key_limit := 64,
         nfts_value_limit := 256, min_auto_renew_period := MinAutoRenewPeriod,
         weights := SubstrateWeight RocksDbWeight\<rparr>"

text \<open>
  \<open>RelayParentFromValidationData::current\<close>: the number and the storage root of the relay parent in
  the validation data of the block, when there are any.
\<close>

record 'h persisted_validation_data =
  relay_parent_number :: u32
  relay_parent_storage_root :: 'h

definition relay_state_current :: "'h persisted_validation_data option \<Rightarrow> (u32 \<times> 'h) option" where
  "relay_state_current vd = map_option (\<lambda>d. (relay_parent_number d, relay_parent_storage_root d)) vd"

definition VerifierRightsParaId :: u32 where
  "VerifierRightsParaId = 100"

definition VerifierMaxRelayRoots :: nat where
  "VerifierMaxRelayRoots = 100"

definition rights_verifier_config :: "('a, 'h) verifier_config \<Rightarrow> ('a, 'h) verifier_config" where
  "rights_verifier_config cfg =
     cfg\<lparr>rights_para_id := VerifierRightsParaId, max_relay_roots := VerifierMaxRelayRoots\<rparr>"

text \<open>Locations, as far as the configuration looks at them: a parent count and junctions. The part of a
  body and a network are numbers.
\<close>

datatype body_id = Executive | Defense | OtherBody nat

datatype junction =
    Parachain u32
  | Plurality body_id nat
  | AccountId32 "nat option" "u8 list"
  | GlobalConsensus nat
  | OtherJunction nat

datatype location = Location u8 "junction list"

definition RightsPalletIndex :: u8 where
  "RightsPalletIndex = 51"

definition ClientQueryTimeout :: u32 where
  "ClientQueryTimeout = 600"

definition rights_client_config ::
  "u32 \<Rightarrow> 'a \<Rightarrow> ('a, location, location \<times> u128, 'h, 'o, 'x) client_config \<Rightarrow>
     ('a, location, location \<times> u128, 'h, 'o, 'x) client_config" where
  "rights_client_config parachain_id client_operator cfg =
     cfg\<lparr>rights_chain := Location 1 [Parachain 100],
         self_location := Location 1 [Parachain parachain_id],
         execution_fee := (Location 1 [], 150000000000), rights_pallet_index := RightsPalletIndex,
         query_timeout := ClientQueryTimeout, operator := client_operator,
         client_weights := ClientWeight RocksDbWeight\<rparr>"

text \<open>The pallets of the runtime and the indices that \<open>#[runtime::pallet_index]\<close> gives them.\<close>

datatype runtime_pallet = System | ParachainSystem | Timestamp | ParachainInfo | WeightReclaim |
  Balances | TransactionPayment | Sudo | Authorship | CollatorSelection | Session | Aura |
  AuraExt | XcmpQueue | PolkadotXcm | CumulusXcm | MessageQueue | Revive | Nfts | ContentRights
  | RightsVerifier | RightsClient

fun pallet_index :: "runtime_pallet \<Rightarrow> u8" where
  "pallet_index System = 0"
| "pallet_index ParachainSystem = 1"
| "pallet_index Timestamp = 2"
| "pallet_index ParachainInfo = 3"
| "pallet_index WeightReclaim = 4"
| "pallet_index Balances = 10"
| "pallet_index TransactionPayment = 11"
| "pallet_index Sudo = 15"
| "pallet_index Authorship = 20"
| "pallet_index CollatorSelection = 21"
| "pallet_index Session = 22"
| "pallet_index Aura = 23"
| "pallet_index AuraExt = 24"
| "pallet_index XcmpQueue = 30"
| "pallet_index PolkadotXcm = 31"
| "pallet_index CumulusXcm = 32"
| "pallet_index MessageQueue = 33"
| "pallet_index Revive = 41"
| "pallet_index Nfts = 42"
| "pallet_index ContentRights = 51"
| "pallet_index RightsVerifier = 52"
| "pallet_index RightsClient = 53"

text \<open>
  The first byte of an encoded call identifies its pallet, and the index that the client writes is
  that of \<open>pallet_content_rights\<close>.
\<close>

lemma inj_pallet_index: "inj pallet_index"
proof (rule injI)
  fix p p'
  assume "pallet_index p = pallet_index p'"
  then show "p = p'" by (cases p) (cases p'; simp)+
qed

lemma client_index: "RightsPalletIndex = pallet_index ContentRights"
  by (simp add: RightsPalletIndex_def)

text \<open>\<open>ParentOrParentsExecutivePlurality\<close> of \<open>src/runtime/src/configs/xcm_config.rs\<close>.\<close>

definition parent_or_executive :: "location \<Rightarrow> bool" where
  "parent_or_executive l =
     (case l of Location p js \<Rightarrow>
        p = 1 \<and> (case js of [] \<Rightarrow> True | [Plurality body part] \<Rightarrow> body = Executive | _ \<Rightarrow> False))"

section \<open>Genesis\<close>

text \<open>\<open>xcm_version\<close> stands for \<open>XCM_VERSION\<close> of the XCM library.\<close>

record 'k opaque_keys =
  aura :: 'k

record ('a, 'k) runtime_genesis =
  genesis_balances :: "('a \<times> u128) list"
  genesis_parachain_id :: u32
  genesis_invulnerables :: "'a list"
  candidacy_bond :: u128
  session_keys :: "('a \<times> 'a \<times> 'k opaque_keys) list"
  safe_xcm_version :: "u32 option"
  genesis_sudo :: "'a option"

definition PARACHAIN_ID :: u32 where
  "PARACHAIN_ID = 1000"

definition template_session_keys :: "'k \<Rightarrow> 'k opaque_keys" where
  "template_session_keys keys = \<lparr>aura = keys\<rparr>"

definition testnet_genesis ::
  "u32 \<Rightarrow> ('a \<times> 'k) list \<Rightarrow> 'a list \<Rightarrow> 'a \<Rightarrow> u32 \<Rightarrow> ('a, 'k) runtime_genesis" where
  "testnet_genesis xcm_version invulnerables endowed_accounts sudo_root para_id =
     \<lparr>genesis_balances = map (\<lambda>k. (k, push_bit 60 1)) endowed_accounts,
      genesis_parachain_id = para_id,
      genesis_invulnerables = map (\<lambda>(acc, _). acc) invulnerables,
      candidacy_bond = EXISTENTIAL_DEPOSIT * 16,
      session_keys = map (\<lambda>(acc, key). (acc, acc, template_session_keys key)) invulnerables,
      safe_xcm_version = Some xcm_version,
      genesis_sudo = Some sudo_root\<rparr>"

text \<open>
  Every collator of the preset has its own session keys, and an endowed account can pay the
  candidacy bond and the deposit of a collection and stays alive.
\<close>

lemma testnet_genesis_consistent:
  assumes "g = testnet_genesis v invulnerables endowed_accounts sudo_root para_id"
  shows "map fst (session_keys g) = genesis_invulnerables g"
    and "(a, b) \<in> set (genesis_balances g) \<Longrightarrow>
      candidacy_bond g + NftsCollectionDeposit + EXISTENTIAL_DEPOSIT \<le> b"
  by (auto simp: assms testnet_genesis_def NftsCollectionDeposit_def EXISTENTIAL_DEPOSIT_def MILLI_UNIT_def
      push_bit_eq_mult)

lemmas runtime_constants =
  MILLI_SECS_PER_BLOCK_def MINUTES_def HOURS_def DAYS_def MILLI_UNIT_def EXISTENTIAL_DEPOSIT_def
  AVERAGE_ON_INITIALIZE_RATIO_def NORMAL_DISPATCH_RATIO_def RocksDbWeight_def BlockExecutionWeight_def
  ExtrinsicBaseWeight_def NftsCollectionDeposit_def MinAutoRenewPeriod_def

text \<open>Finding M of the source: the minimum period is one day of six-second blocks.\<close>

lemma min_period_is_a_day: "MinAutoRenewPeriod = DAYS"
  by (simp add: runtime_constants)

lemma runtime_db_weight: "RocksDbWeight = frame_rocks_db_weight"
  by (simp add: RocksDbWeight_def frame_rocks_db_weight_def)

text \<open>Only fields that no call to another pallet depends on are fixed.\<close>

lemma ext_call_config: "ext_call (content_rights_config cfg) x x' \<Longrightarrow> ext_call cfg x x'"
  by (induction rule: ext_call.induct) (auto simp: content_rights_config_def intro: ext_call.intros)

lemma lawful_env_config:
  assumes "lawful_env cfg env"
  shows "lawful_env (content_rights_config cfg) env"
proof -
  have "collection_counter (content_rights_config cfg) = collection_counter cfg"
    by (simp add: content_rights_config_def collection_counter_def fun_eq_iff)
  moreover have "0 < min_auto_renew_period (content_rights_config cfg)"
    by (simp add: content_rights_config_def MinAutoRenewPeriod_def)
  moreover have "nfts_set_next_collection_id (content_rights_config cfg) = nfts_set_next_collection_id cfg"
    by (simp add: content_rights_config_def)
  ultimately show ?thesis using assms by (auto simp: lawful_env_def lawful_def dest!: ext_call_config)
qed

section \<open>Everything fits into a block\<close>

lemmas weight_eval =
  weight_saturating_add_def weight_saturating_sub_def weight_saturating_mul_def reads_def writes_def
  saturating_add_def saturating_mul_def saturating_sub_def RocksDbWeight_def

lemmas substrate_calls =
  SubstrateWeight_register_content_def SubstrateWeight_subscribe_def SubstrateWeight_renew_subscription_def
  SubstrateWeight_purchase_views_def SubstrateWeight_consume_view_def SubstrateWeight_purchase_ownership_def
  SubstrateWeight_check_access_def SubstrateWeight_xcm_subscribe_def
  SubstrateWeight_xcm_renew_subscription_def SubstrateWeight_xcm_purchase_views_def
  SubstrateWeight_xcm_purchase_ownership_def SubstrateWeight_transfer_ownership_def
  SubstrateWeight_xcm_transfer_ownership_def SubstrateWeight_set_royalty_splits_def
  SubstrateWeight_enable_auto_renew_def SubstrateWeight_disable_auto_renew_def
  SubstrateWeight_query_rights_metadata_def SubstrateWeight_set_meter_def SubstrateWeight_consume_view_for_def

lemma runtime_renewals_weight:
  "renewals_weight (SubstrateWeight RocksDbWeight) 10 100 = from_parts 25549580927 603646"
  by (simp add: renewals_weight_def SubstrateWeight_def SubstrateWeight_on_initialize_renewals_def
      SubstrateWeight_on_initialize_split_payments_def weight_eval Let_def)

lemma set_royalty_splits_bound:
  "n \<le> 10 \<Longrightarrow> SubstrateWeight_set_royalty_splits RocksDbWeight (of_nat n) \<le> from_parts 6000000000 300000"
proof -
  assume "n \<le> 10"
  then have "(of_nat n :: u32) \<le> 10" by (simp add: word_le_nat_alt unat_of_nat)
  then have "SubstrateWeight_set_royalty_splits RocksDbWeight (of_nat n) \<le>
      SubstrateWeight_set_royalty_splits RocksDbWeight 10"
    unfolding SubstrateWeight_set_royalty_splits_def weight_chain_simps
    by (intro weight_chain_intros)
  also have "\<dots> \<le> from_parts 6000000000 300000"
    by (simp add: SubstrateWeight_set_royalty_splits_def weight_eval less_eq_weight_def)
  finally show ?thesis .
qed

text \<open>No call costs more than six milliseconds and 300 kilobytes of proof.\<close>

lemma call_weight_bound:
  assumes "decodable act"
  shows "call_weight (content_rights_config cfg) act \<le> from_parts 6000000000 300000"
proof (cases "\<exists>c sps. act = SetRoyaltySplits c sps")
  case True
  with assms set_royalty_splits_bound show ?thesis
    by (auto simp: content_rights_config_def SubstrateWeight_def MAX_ROYALTY_SPLITS_def)
next
  case False
  then show ?thesis
    by (cases act)
       (simp_all add: content_rights_config_def SubstrateWeight_def substrate_calls weight_eval
         MAX_ROYALTY_SPLITS_def less_eq_weight_def)
qed

lemma verification_weight_bound:
  assumes "b \<le> MAX_PROOF_BYTES"
  shows "wi_verify_ownership (VerifierWeight RocksDbWeight) b \<le> from_parts 100000000 5087 \<and>
    wi_verify_subscription (VerifierWeight RocksDbWeight) b \<le> from_parts 100000000 5087 \<and>
    wi_verify_view_pack (VerifierWeight RocksDbWeight) b \<le> from_parts 100000000 5087"
  by (rule verifier_weights.verification_le [OF assms])
     (simp_all add: VerifierWeight_def VerifierWeight_verify_ownership_def MAX_PROOF_BYTES_def
       VerifierWeight_verify_subscription_def VerifierWeight_verify_view_pack_def weight_eval
       less_eq_weight_def)

lemma of_nat_u64_mono: "n \<le> k \<Longrightarrow> k < 2 ^ 64 \<Longrightarrow> (of_nat n :: u64) \<le> of_nat k"
  by (simp add: word_le_nat_alt unat_of_nat)

text \<open>Shares of the largest block, for a relay chain that accepts at least five MiB of proof.\<close>

lemma percent_part_le: "p \<le> 100 \<Longrightarrow> percent_part p n \<le> n"
  using div_le_mono [of "p * n + 49" "100 * n + 49" 100] mult_le_mono1 [of p 100 n] by (simp add: percent_part_def)

lemma percent_part_ge: "v * 100 \<le> p * n \<Longrightarrow> v \<le> percent_part p n"
  by (simp add: percent_part_def less_eq_div_iff_mult_less_eq)

lemma unat_share:
  assumes "p \<le> 100"
  shows "unat (of_nat (percent_part p (unat (x :: u64))) :: u64) = percent_part p (unat x)"
  using percent_part_le [OF assms, of "unat x"] unat_less_pow [of x] by (simp add: unat_of_nat)

lemma percent_of_block:
  assumes "5242880 \<le> unat max_pov" and "p \<le> 100" and "r \<le> p * 20000000000" and "v \<le> p * 52428"
  shows "from_parts (of_nat r) (of_nat v) \<le> percent_of p (MAXIMUM_BLOCK_WEIGHT max_pov)"
proof -
  have "v * 100 \<le> p * 5242880" using assms(4) by linarith
  also have "\<dots> \<le> p * unat max_pov" by (rule mult_le_mono2 [OF assms(1)])
  finally have "v \<le> percent_part p (unat max_pov)" by (rule percent_part_ge)
  moreover have "percent_part p (unat max_pov) < 2 ^ 64"
    using percent_part_le [OF assms(2), of "unat max_pov"] unat_less_pow [of max_pov] by simp
  ultimately have pov: "(of_nat v :: u64) \<le> of_nat (percent_part p (unat max_pov))" by (rule of_nat_u64_mono)
  have "r \<le> percent_part p 2000000000000" using assms(3) by (intro percent_part_ge) simp
  moreover have "percent_part p 2000000000000 < 2 ^ 64"
    using percent_part_le [OF assms(2), of 2000000000000] by simp
  ultimately have "(of_nat r :: u64) \<le> of_nat (percent_part p 2000000000000)" by (rule of_nat_u64_mono)
  with pov show ?thesis
    by (simp add: percent_of_def MAXIMUM_BLOCK_WEIGHT_def saturating_mul_def less_eq_weight_def)
qed

text \<open>What is reserved for operational calls is what normal calls may not use.\<close>

lemma reserved_with_normal:
  "weight_saturating_add (percent_of NORMAL_DISPATCH_RATIO (MAXIMUM_BLOCK_WEIGHT max_pov))
     (the (reserved (per_class (RuntimeBlockWeights max_pov) Operational))) = MAXIMUM_BLOCK_WEIGHT max_pov"
proof -
  let ?part = "of_nat (percent_part 75 (unat max_pov)) :: u64"
  have "?part \<le> max_pov" using unat_share [of 75 max_pov] percent_part_le [of 75] by (simp add: word_le_nat_alt)
  then have "saturating_add ?part (max_pov - ?part) = max_pov"
    using unat_less_pow [of max_pov] by (simp add: saturating_add_def unat_sub word_le_nat_alt)
  moreover have "percent_part 75 2000000000000 = 1500000000000" by (simp add: percent_part_def)
  ultimately show ?thesis
    by (simp add: RuntimeBlockWeights_def Let_def NORMAL_DISPATCH_RATIO_def weight_minus_def weight_saturating_add_def
        percent_of_def MAXIMUM_BLOCK_WEIGHT_def saturating_mul_def saturating_add_def)
qed

lemma room_beside_messages:
  assumes "5242880 \<le> unat max_pov"
  shows "weight_saturating_add (from_parts 37200000000 910000) (MessageQueueServiceWeight max_pov) \<le> MAXIMUM_BLOCK_WEIGHT max_pov"
proof -
  have "910000 + percent_part 35 (unat max_pov) \<le> unat max_pov" using assms unfolding percent_part_def by linarith
  then have "saturating_add 910000 (of_nat (percent_part 35 (unat max_pov))) \<le> max_pov"
    using unat_share [of 35 max_pov] unat_less_pow [of max_pov]
    by (simp add: saturating_add_def word_le_nat_alt unat_word_ariths)
  moreover have "percent_part 35 2000000000000 = 700000000000" by (simp add: percent_part_def)
  ultimately show ?thesis
    by (simp add: MessageQueueServiceWeight_def percent_of_def MAXIMUM_BLOCK_WEIGHT_def weight_saturating_add_def
        saturating_mul_def saturating_add_def less_eq_weight_def)
qed

text \<open>
  C30: With the constants of the runtime everything fits into a block: in every reachable state the
  block overhead and the hooks of both pallets take at most the quarter of a block that normal
  calls may not use, and every call of \<open>pallet_content_rights\<close> with the base weight of an extrinsic fits into the share
  of normal calls that is left beside the average of \<open>on_initialize\<close>. A block that also spends its whole
  share for incoming messages still has room for any call. So a block can always be built and no
  call is too heavy to be included.
\<close>

theorem runtime_weights_fit:
  assumes "cfg = content_rights_config base" and "reachable initial_state (chain_step cfg env) s"
    and "lawful_env cfg env" and "decodable act" and "5242880 \<le> unat max_pov"
    and "hooks = weight_chain BlockExecutionWeight
      [fst (on_initialize cfg (s\<lparr>block_number := n\<rparr>)), verifier_on_initialize (VerifierWeight RocksDbWeight)]"
    and "extrinsic = weight_saturating_add ExtrinsicBaseWeight (call_weight cfg act)"
  shows "hooks \<le> percent_of (100 - NORMAL_DISPATCH_RATIO) (MAXIMUM_BLOCK_WEIGHT max_pov) \<and>
    extrinsic \<le> percent_of (NORMAL_DISPATCH_RATIO - AVERAGE_ON_INITIALIZE_RATIO) (MAXIMUM_BLOCK_WEIGHT max_pov) \<and>
    weight_saturating_add (weight_saturating_add hooks extrinsic) (MessageQueueServiceWeight max_pov)
      \<le> MAXIMUM_BLOCK_WEIGHT max_pov"
proof (intro conjI)
  let ?s = "s\<lparr>block_number := n\<rparr>"
  have "weights cfg = SubstrateWeight RocksDbWeight" by (simp add: assms(1) content_rights_config_def)
  from hook_weight_bounded [OF assms(2,3) this, of n]
  have "fst (on_initialize cfg ?s) \<le> from_parts 25549580927 603646"
    by (simp only: runtime_renewals_weight)
  then have "hooks \<le> weight_chain BlockExecutionWeight
      [from_parts 25549580927 603646, verifier_on_initialize (VerifierWeight RocksDbWeight)]"
    unfolding assms(6) weight_chain_simps by (intro weight_add_mono order_refl)
  also have "\<dots> \<le> from_parts (of_nat 31000000000) (of_nat 610000)"
    by (simp add: verifier_on_initialize_def VerifierWeight_def VerifierWeight_record_relay_root_def
        BlockExecutionWeight_def weight_eval less_eq_weight_def)
  finally have hooks: "hooks \<le> from_parts (of_nat 31000000000) (of_nat 610000)" .
  have "extrinsic \<le> weight_saturating_add ExtrinsicBaseWeight (from_parts 6000000000 300000)"
    unfolding assms(1,7) by (intro weight_add_mono order_refl call_weight_bound assms(4))
  also have "\<dots> \<le> from_parts (of_nat 6200000000) (of_nat 300000)"
    by (simp add: ExtrinsicBaseWeight_def weight_eval less_eq_weight_def)
  finally have extrinsic: "extrinsic \<le> from_parts (of_nat 6200000000) (of_nat 300000)" .
  note hooks
  also have "from_parts (of_nat 31000000000) (of_nat 610000)
      \<le> percent_of (100 - NORMAL_DISPATCH_RATIO) (MAXIMUM_BLOCK_WEIGHT max_pov)"
    by (rule percent_of_block [OF assms(5)]) (simp_all add: NORMAL_DISPATCH_RATIO_def)
  finally show "hooks \<le> percent_of (100 - NORMAL_DISPATCH_RATIO) (MAXIMUM_BLOCK_WEIGHT max_pov)" .
  note extrinsic
  also have "from_parts (of_nat 6200000000) (of_nat 300000)
      \<le> percent_of (NORMAL_DISPATCH_RATIO - AVERAGE_ON_INITIALIZE_RATIO) (MAXIMUM_BLOCK_WEIGHT max_pov)"
    by (rule percent_of_block [OF assms(5)])
       (simp_all add: NORMAL_DISPATCH_RATIO_def AVERAGE_ON_INITIALIZE_RATIO_def)
  finally show "extrinsic \<le> percent_of (NORMAL_DISPATCH_RATIO - AVERAGE_ON_INITIALIZE_RATIO) (MAXIMUM_BLOCK_WEIGHT max_pov)" .
  have "weight_saturating_add hooks extrinsic \<le> from_parts 37200000000 910000"
    using weight_add_mono [OF hooks extrinsic] by (simp add: weight_eval)
  then have "weight_saturating_add (weight_saturating_add hooks extrinsic) (MessageQueueServiceWeight max_pov) \<le>
      weight_saturating_add (from_parts 37200000000 910000) (MessageQueueServiceWeight max_pov)"
    by (intro weight_add_mono order_refl)
  also have "\<dots> \<le> MAXIMUM_BLOCK_WEIGHT max_pov" by (rule room_beside_messages [OF assms(5)])
  finally show "weight_saturating_add (weight_saturating_add hooks extrinsic) (MessageQueueServiceWeight max_pov)
      \<le> MAXIMUM_BLOCK_WEIGHT max_pov" .
qed

theorem runtime_weights_fit_witness:
  "weight_saturating_add ExtrinsicBaseWeight (call_weight (content_rights_config mock) (EnableAutoRenew 0))
     \<le> percent_of 70 (MAXIMUM_BLOCK_WEIGHT 10485760)"
proof -
  have start: "reachable initial_state (chain_step (content_rights_config mock) (\<lambda>x x'. counter x' = counter x)) mock_s0"
    by (rule reachable.reach_start) (auto simp: initial_state_def mock_s0_def)
  show ?thesis
    using runtime_weights_fit [OF refl start lawful_env_config [OF mock_lawful_env], of "EnableAutoRenew 0" 10485760,
        OF _ _ refl refl]
    by (simp add: NORMAL_DISPATCH_RATIO_def AVERAGE_ON_INITIALIZE_RATIO_def)
qed

end
