(* ===== verification/Xcm_Fees.thy ===== *)
theory Xcm_Fees
  imports Runtime_Config
begin

text \<open>
  What a request of \<open>pallet_rights_client\<close> costs on the rights chain. The XCM weights of
  \<open>src/runtime/src/configs/xcm_config.rs\<close> are constants of the runtime, like the share of a block for
  incoming messages and the execution fee of \<open>Runtime_Config\<close>. The weigher
  \<open>FixedWeightBounds\<close> and the fee conversion \<open>BlockRatioFee\<close> belong to the polkadot-sdk; they are
  parameters with the laws \<open>fixed_weight_bounds\<close> and \<open>block_ratio_fee\<close>.
\<close>

section \<open>Constants\<close>

definition UnitWeightCost :: weight where
  "UnitWeightCost = from_parts 1000000000 (64 * 1024)"

definition MaxInstructions :: u32 where
  "MaxInstructions = 100"

section \<open>The weigher and the fee\<close>

text \<open>Instructions are counted with those of nested programs.\<close>

fun instruction_count :: "('l, 'b) instruction list \<Rightarrow> nat" where
  "instruction_count [] = 0"
| "instruction_count (SetAppendix p # is) = Suc (instruction_count p + instruction_count is)"
| "instruction_count (SetErrorHandler p # is) = Suc (instruction_count p + instruction_count is)"
| "instruction_count (ExecuteWithOrigin _ p # is) = Suc (instruction_count p + instruction_count is)"
| "instruction_count (_ # is) = Suc (instruction_count is)"

text \<open>
  \<open>FixedWeightBounds\<close> with a unit cost: an instruction costs one unit, an appendix, an error handler and
  a program with an origin of its own also their program, and a \<open>Transact\<close> also the weight declared by
  the call that its bytes decode to, for the decoder of the runtime. The weight of a program is the
  sum of its instructions.
\<close>

fun nests :: "('l, 'b) instruction \<Rightarrow> ('l, 'b) instruction list option" where
  "nests (SetAppendix p) = Some p"
| "nests (SetErrorHandler p) = Some p"
| "nests (ExecuteWithOrigin _ p) = Some p"
| "nests _ = None"

definition weighs_calls ::
  "('a, 'x) config \<Rightarrow> (u8 list \<Rightarrow> 'a call option) \<Rightarrow> weight \<Rightarrow> (('l, 'b) instruction \<Rightarrow> weight) \<Rightarrow> bool" where
  "weighs_calls rc dec unit instr \<longleftrightarrow>
     (\<forall>k f bs act. dec bs = Some act \<longrightarrow> instr (Transact k f bs) = weight_saturating_add unit (call_weight rc act))"

definition fixed_weight_bounds ::
  "('a, 'x) config \<Rightarrow> u8 \<Rightarrow> weight \<Rightarrow> (('l, 'b) instruction \<Rightarrow> weight) \<Rightarrow>
     (('l, 'b) instruction list \<Rightarrow> weight) \<Rightarrow> bool" where
  "fixed_weight_bounds rc index unit instr weigh \<longleftrightarrow>
     weigh [] = bot \<and>
     (\<forall>i is. weigh (i # is) = weight_saturating_add (instr i) (weigh is)) \<and>
     (\<forall>i p. nests i = Some p \<longrightarrow> instr i = weight_saturating_add unit (weigh p)) \<and>
     (\<forall>i. nests i = None \<longrightarrow> (\<nexists>k f bs. i = Transact k f bs) \<longrightarrow> instr i = unit) \<and>
     (\<exists>dec. call_decoder index (decode_account rc) dec \<and> weighs_calls rc dec unit instr)"

text \<open>
  \<open>BlockRatioFee<1, 1, _, _>\<close>: a unit of reference time costs one unit of balance, the proof size
  is charged in proportion to its share of the block, and the larger of the two counts; one unit
  is left for rounding.
\<close>

definition block_ratio_fee :: "weight \<Rightarrow> (weight \<Rightarrow> u128) \<Rightarrow> bool" where
  "block_ratio_fee max_block fee \<longleftrightarrow>
     (\<forall>w. unat (fee w) \<le> Suc (max (unat (ref_time w))
        (unat (proof_size w) * unat (ref_time max_block) div unat (proof_size max_block))))"

section \<open>The weight of a request\<close>

text \<open>The calls that a request can name are among the cheap ones.\<close>

lemma requested_call_weight:
  "call_weight (content_rights_config base) (requested_call req a) \<le> from_parts 3000000000 40000"
  by (cases req)
     (simp_all add: content_rights_config_def SubstrateWeight_def substrate_calls weight_eval
       MAX_ROYALTY_SPLITS_def less_eq_weight_def)

lemma rights_message_weight:
  assumes law: "fixed_weight_bounds rc (rights_pallet_index cl) UnitWeightCost instr weigh"
    and acc: "decode_account rc bs = Some a" "length bs = 32"
    and le: "call_weight rc (requested_call req a) \<le> from_parts 3000000000 40000"
  shows "weigh (rights_message cl (remote_call cl req bs) q @ [SetTopic h]) \<le> from_parts 11000000000 564288"
proof -
  let ?call = "remote_call cl req bs" and ?act = "requested_call req a"
  have flat: "nests i = None \<Longrightarrow> (\<nexists>k f bs. i = Transact k f bs) \<Longrightarrow> instr i = UnitWeightCost"
    and nest: "nests i = Some p \<Longrightarrow> instr i = weight_saturating_add UnitWeightCost (weigh p)"
    and rules: "weigh [] = bot" "weigh (i # is) = weight_saturating_add (instr i) (weigh is)" for i "is" p
    using law unfolding fixed_weight_bounds_def by blast+
  obtain dec where dec: "call_decoder (rights_pallet_index cl) (decode_account rc) dec"
    and calls: "weighs_calls rc dec UnitWeightCost instr"
    using law unfolding fixed_weight_bounds_def by blast
  have transact: "instr (Transact k f ?call) = weight_saturating_add UnitWeightCost (call_weight rc ?act)" for k f
    using calls decode_remote_call [OF dec acc, of req] by (simp add: weighs_calls_def)
  let ?u = UnitWeightCost and ?add = weight_saturating_add
  have "weigh (rights_message cl ?call q @ [SetTopic h]) =
      ?add ?u (?add ?u (?add (?add ?u (?add ?u (?add ?u bot)))
        (?add (?add ?u (call_weight rc ?act)) (?add ?u (?add ?u bot)))))"
    by (simp add: rights_message_def Let_def rules flat nest transact)
  also have "\<dots> \<le> ?add ?u (?add ?u (?add (?add ?u (?add ?u (?add ?u bot)))
        (?add (?add ?u (from_parts 3000000000 40000)) (?add ?u (?add ?u bot)))))"
    by (intro weight_add_mono order_refl le)
  also have "\<dots> \<le> from_parts 11000000000 564288"
    by (simp add: UnitWeightCost_def bot_weight_def weight_eval less_eq_weight_def)
  finally show ?thesis .
qed

lemma block_ratio_fee_bound:
  assumes "block_ratio_fee (MAXIMUM_BLOCK_WEIGHT max_pov) fee" and "10485760 \<le> unat max_pov"
    and "w \<le> from_parts 11000000000 564288"
  shows "unat (fee w) \<le> 150000000000"
proof -
  have ref: "unat (ref_time w) \<le> 11000000000" and pov: "unat (proof_size w) \<le> 564288"
    using assms(3) by (simp_all add: less_eq_weight_def word_le_nat_alt)
  have "unat (proof_size w) * 2000000000000 div unat max_pov \<le> 1128576000000000000 div unat max_pov"
    by (rule div_le_mono) (use pov in simp)
  also have "\<dots> \<le> 1128576000000000000 div 10485760"
    by (rule div_le_mono2) (use assms(2) in simp_all)
  also have "\<dots> \<le> 149999999999" by simp
  finally have "max (unat (ref_time w)) (unat (proof_size w) * 2000000000000 div unat max_pov) \<le> 149999999999"
    using ref by simp
  moreover have "unat (fee w) \<le> Suc (max (unat (ref_time w))
      (unat (proof_size w) * 2000000000000 div unat max_pov))"
    using assms(1) by (simp add: block_ratio_fee_def MAXIMUM_BLOCK_WEIGHT_def saturating_mul_def)
  ultimately show ?thesis by linarith
qed

section \<open>A concrete weigher and fee\<close>

text \<open>A chain with this runtime as a client of the mock chain, with a weigher and a fee that satisfy the laws.\<close>

fun mock_instr :: "(location, location \<times> u128) instruction \<Rightarrow> weight"
  and mock_weigh :: "(location, location \<times> u128) instruction list \<Rightarrow> weight" where
  "mock_instr (SetAppendix p) = weight_saturating_add UnitWeightCost (mock_weigh p)"
| "mock_instr (SetErrorHandler p) = weight_saturating_add UnitWeightCost (mock_weigh p)"
| "mock_instr (ExecuteWithOrigin _ p) = weight_saturating_add UnitWeightCost (mock_weigh p)"
| "mock_instr (Transact k f bs) = weight_saturating_add UnitWeightCost
     (case decode_call (decode_account (content_rights_config mock)) 51 bs of
        None \<Rightarrow> bot | Some act \<Rightarrow> call_weight (content_rights_config mock) act)"
| "mock_instr i = UnitWeightCost"
| "mock_weigh [] = bot"
| "mock_weigh (i # is) = weight_saturating_add (mock_instr i) (mock_weigh is)"

lemma mock_fixed_weight_bounds:
  "fixed_weight_bounds (content_rights_config mock) 51 UnitWeightCost mock_instr mock_weigh"
  unfolding fixed_weight_bounds_def
proof (intro conjI allI impI)
  fix i :: "(location, location \<times> u128) instruction" and p
  show "nests i = Some p \<Longrightarrow> mock_instr i = weight_saturating_add UnitWeightCost (mock_weigh p)" by (cases i) simp_all
  show "nests i = None \<Longrightarrow> \<nexists>k f bs. i = Transact k f bs \<Longrightarrow> mock_instr i = UnitWeightCost" by (cases i) simp_all
  show "\<exists>dec. call_decoder 51 (decode_account (content_rights_config mock)) dec \<and>
      weighs_calls (content_rights_config mock) dec UnitWeightCost mock_instr"
    by (intro exI [of _ "decode_call (decode_account (content_rights_config mock)) 51"] conjI decode_call_decoder)
       (simp add: weighs_calls_def)
qed simp_all

definition mock_fee :: "weight \<Rightarrow> u128" where
  "mock_fee w = of_nat (max (unat (ref_time w)) (unat (proof_size w) * 2000000000000 div 10485760))"

lemma mock_block_ratio_fee: "block_ratio_fee (MAXIMUM_BLOCK_WEIGHT 10485760) mock_fee"
proof -
  have "unat (of_nat n :: u128) \<le> Suc n" for n
    by (simp add: unat_of_nat le_SucI)
  then show ?thesis
    by (simp add: block_ratio_fee_def mock_fee_def MAXIMUM_BLOCK_WEIGHT_def saturating_mul_def)
qed

definition mock_consumer ::
  "(nat, location, location \<times> u128, nat, nat + nat, mock_client_ext) client_config" where
  "mock_consumer = rights_client_config 200 7
     \<lparr>rights_chain = Location 0 [], rights_pallet_index = 0, self_location = Location 0 [],
      execution_fee = (Location 0 [], 0), query_timeout = 0, operator = 0, escrow_account = 99,
      client_weights = ClientUnitWeight, encode_account_id = (\<lambda>a. of_nat a # replicate 31 0),
      escrow_transfer = mock_escrow_transfer,
      new_notify_query = (\<lambda>l n t x. (of_nat (cm_queries x), x\<lparr>cm_queries := Suc (cm_queries x)\<rparr>)),
      send_xcm = (\<lambda>l msg x. Inr (0, x)),
      client_signed = (\<lambda>og. case og of Inl a \<Rightarrow> Inr a | Inr _ \<Rightarrow> Inl BadOrigin),
      response_origin = (\<lambda>og. case og of Inl _ \<Rightarrow> Inl BadOrigin | Inr l \<Rightarrow> Inr (Location 1 []))\<rparr>"

section \<open>Property\<close>

text \<open>
  C31: The fee of a request is enough: between two chains with this runtime, the program that a
  request sends, with the topic that the router appends, stays within the instruction limit of the
  rights chain and within the share of a block for incoming messages, and the fee for its weight
  is at most the execution fee that the program withdraws.
\<close>

theorem execution_fee_suffices:
  assumes "cl = rights_client_config para_id oper clbase" and "rc = content_rights_config base"
    and "decode_account rc (encode_account_id cl a) = Some a" and "length (encode_account_id cl a) = 32"
    and "fixed_weight_bounds rc (pallet_index ContentRights) UnitWeightCost instr weigh"
    and "block_ratio_fee (MAXIMUM_BLOCK_WEIGHT max_pov) fee" and "10485760 \<le> unat max_pov"
    and "program = rights_message cl (remote_call cl req (encode_account_id cl a)) q @ [SetTopic h]"
  shows "instruction_count program \<le> unat MaxInstructions \<and>
    weigh program \<le> MessageQueueServiceWeight max_pov \<and>
    fee (weigh program) \<le> snd (execution_fee cl)"
proof (intro conjI)
  have "rights_pallet_index cl = pallet_index ContentRights"
    by (simp add: assms(1) rights_client_config_def RightsPalletIndex_def)
  with assms(5) have law: "fixed_weight_bounds rc (rights_pallet_index cl) UnitWeightCost instr weigh" by simp
  have "weigh program \<le> from_parts 11000000000 564288"
    unfolding assms(8)
    by (rule rights_message_weight [OF law assms(3,4)]) (simp only: assms(2) requested_call_weight)
  note weight = this
  show "instruction_count program \<le> unat MaxInstructions"
    by (simp add: assms(8) rights_message_def Let_def MaxInstructions_def)
  have "from_parts (of_nat 11000000000) (of_nat 564288) \<le> MessageQueueServiceWeight max_pov"
    unfolding MessageQueueServiceWeight_def by (rule percent_of_block) (use assms(7) in simp_all)
  with weight show "weigh program \<le> MessageQueueServiceWeight max_pov" by simp
  from block_ratio_fee_bound [OF assms(6,7) weight]
  show "fee (weigh program) \<le> snd (execution_fee cl)"
    by (simp add: word_le_nat_alt assms(1) rights_client_config_def)
qed

theorem execution_fee_suffices_witness:
  "mock_fee (mock_weigh (rights_message mock_consumer
      (remote_call mock_consumer (Req_Subscribe 0) (1 # replicate 31 0)) 5 @ [SetTopic []])) \<le> 150000000000"
proof -
  have acct: "decode_account (content_rights_config mock) (encode_account_id mock_consumer 1) = Some 1"
    "length (encode_account_id mock_consumer 1) = 32"
    by (simp_all add: mock_consumer_def rights_client_config_def content_rights_config_def mock_def
        mock_decode_account_def)
  have bytes: "encode_account_id mock_consumer 1 = 1 # replicate 31 0"
    and fee: "snd (execution_fee mock_consumer) = 150000000000"
    by (simp_all add: mock_consumer_def rights_client_config_def)
  have weigher: "fixed_weight_bounds (content_rights_config mock) (pallet_index ContentRights)
      UnitWeightCost mock_instr mock_weigh"
    using mock_fixed_weight_bounds by simp
  from execution_fee_suffices [OF mock_consumer_def refl acct weigher mock_block_ratio_fee _ refl,
      of "Req_Subscribe 0" 5 "[]"]
  show ?thesis unfolding bytes fee by simp
qed

end
