(* ===== verification/Bench_Programs.thy ===== *)
theory Bench_Programs
  imports Rights_Availability
begin

text \<open>
  The benchmarks of \<open>src/pallets/content-rights/src/benchmarking.rs\<close>, from which the weights of the
  pallet are measured. A benchmark is a program that prepares the storage, runs the measured call
  or block and asserts its outcome. A panic of \<open>expect\<close> or \<open>unwrap\<close>, a failure of the measured call
  and a failed assertion are errors. What \<open>frame_benchmarking\<close> and the currencies offer the set-up
  code is the record \<open>bench_env\<close>.
\<close>

section \<open>Environment\<close>

datatype bench_error = Expect | CallFailed dispatch_error | AssertFailed

text \<open>
  \<open>account(name, index, seed)\<close> and \<open>whitelisted_caller()\<close> of the benchmark harness, the encoding of
  an account, the largest balances of the payment currency and of the currency of \<open>pallet_nfts\<close>, and
  how they set the balance of an account.
\<close>

record ('a, 'x) bench_env =
  account :: "string \<Rightarrow> u32 \<Rightarrow> u32 \<Rightarrow> 'a"
  whitelisted_caller :: 'a
  encode_account :: "'a \<Rightarrow> u8 list"
  max_balance :: u128
  max_nft_balance :: u128
  set_balance :: "'a \<Rightarrow> u128 \<Rightarrow> 'x \<Rightarrow> 'x"
  make_free_balance_be :: "'a \<Rightarrow> u128 \<Rightarrow> 'x \<Rightarrow> 'x"

definition SEED :: u32 where
  "SEED = 0"

definition PRICE :: u128 where
  "PRICE = 10000000000000"

definition MAX_HOLDERS :: u32 where
  "MAX_HOLDERS = 2000"

definition MAX_SPLIT_PAYMENTS :: u32 where
  "MAX_SPLIT_PAYMENTS = of_nat MAX_RENEWALS_PER_BLOCK * MAX_ROYALTY_SPLITS"

definition assert :: "bool \<Rightarrow> ('a, 'x) state \<Rightarrow> bench_error + ('a, 'x) state" where
  "assert c s = and_then (ensure c AssertFailed) (\<lambda>_. Inr s)"

text \<open>A call of the set-up with \<open>expect\<close>, and the measured call.\<close>

definition prepare ::
  "('a, 'x) config \<Rightarrow> 'a \<Rightarrow> 'a call \<Rightarrow> ('a, 'x) state \<Rightarrow> bench_error + ('a, 'x) state" where
  "prepare cfg who act s = and_then (map_err (\<lambda>_. Expect) (dispatch cfg (Signed who) act s)) (\<lambda>(_, s). Inr s)"

definition extrinsic_call ::
  "('a, 'x) config \<Rightarrow> 'a \<Rightarrow> 'a call \<Rightarrow> ('a, 'x) state \<Rightarrow> bench_error + ('a, 'x) state" where
  "extrinsic_call cfg who act s = and_then (map_err CallFailed (dispatch cfg (Signed who) act s)) (\<lambda>(_, s). Inr s)"

section \<open>Set-up code\<close>

definition fund :: "('a, 'x) bench_env \<Rightarrow> 'a \<Rightarrow> ('a, 'x) state \<Rightarrow> ('a, 'x) state" where
  "fund b who s =
     (let pay = max_balance b div 100000;
          s = s\<lparr>ext := set_balance b who pay (ext s)\<rparr>;
          deposit = max_nft_balance b div 100000
      in s\<lparr>ext := make_free_balance_be b who deposit (ext s)\<rparr>)"

definition funded :: "('a, 'x) bench_env \<Rightarrow> string \<Rightarrow> u32 \<Rightarrow> ('a, 'x) state \<Rightarrow> 'a \<times> ('a, 'x) state" where
  "funded b name i s = (let who = account b name i SEED in (who, fund b who s))"

definition caller :: "('a, 'x) bench_env \<Rightarrow> ('a, 'x) state \<Rightarrow> 'a \<times> ('a, 'x) state" where
  "caller b s = (let who = whitelisted_caller b in (who, fund b who s))"

definition bench_title :: "u8 list" where
  "bench_title = replicate 128 120"

definition register ::
  "('a, 'x) bench_env \<Rightarrow> ('a, 'x) config \<Rightarrow> u32 \<Rightarrow> ('a, 'x) state \<Rightarrow>
     bench_error + (u32 \<times> 'a) \<times> ('a, 'x) state" where
  "register b cfg blocks s =
     (let (creator_acc, s) = funded b ''creator'' 0 s;
          content_id = next_content_id s
      in and_then (prepare cfg creator_acc
                     (RegisterContent (replicate 32 7) bench_title PRICE PRICE PRICE blocks) s)
           (\<lambda>s. Inr ((content_id, creator_acc), s)))"

definition as_bytes32 :: "('a, 'x) bench_env \<Rightarrow> 'a \<Rightarrow> u8 list" where
  "as_bytes32 b who =
     (let enc = encode_account b who;
          n = min (length enc) 32
      in take n enc @ drop n (replicate 32 0))"

text \<open>The royalty splits that both \<open>set_splits_from\<close> and the benchmark of \<open>set_royalty_splits\<close> build.\<close>

definition bench_splits :: "('a, 'x) bench_env \<Rightarrow> u32 \<Rightarrow> u32 \<Rightarrow> royalty_split list" where
  "bench_splits b n offset =
     map (\<lambda>i. \<lparr>recipient = as_bytes32 b (account b ''split'' (offset + of_nat i) SEED), basis_points = 1000\<rparr>)
       [0..<unat n]"

definition set_splits_from ::
  "('a, 'x) bench_env \<Rightarrow> u32 \<Rightarrow> u32 \<Rightarrow> u32 \<Rightarrow> ('a, 'x) state \<Rightarrow> bench_error + ('a, 'x) state" where
  "set_splits_from b content_id n offset s =
     (let splits = bench_splits b n offset in
      and_then (ensure (length splits \<le> unat MAX_ROYALTY_SPLITS) Expect) (\<lambda>_.
      Inr (s\<lparr>royalty_splits := (royalty_splits s)(content_id := splits)\<rparr>)))"

definition set_splits ::
  "('a, 'x) bench_env \<Rightarrow> u32 \<Rightarrow> u32 \<Rightarrow> ('a, 'x) state \<Rightarrow> bench_error + ('a, 'x) state" where
  "set_splits b content_id n s = set_splits_from b content_id n 0 s"

definition set_block :: "u32 \<Rightarrow> ('a, 'x) state \<Rightarrow> ('a, 'x) state" where
  "set_block n s = s\<lparr>block_number := unat n\<rparr>"

text \<open>One bucket of \<open>fill_buckets\<close>, with as many entries as it can hold.\<close>

definition filler_bucket :: "('a, 'x) bench_env \<Rightarrow> u32 \<Rightarrow> u32 \<Rightarrow> (u32 \<times> 'a) list" where
  "filler_bucket b content_id block =
     map (\<lambda>i. (content_id, account b ''filler'' (block * 16 + of_nat i) SEED)) [0..<MAX_RENEWALS_PER_BLOCK]"

definition fill_buckets ::
  "('a, 'x) bench_env \<Rightarrow> u32 \<Rightarrow> u32 \<Rightarrow> u32 \<Rightarrow> ('a, 'x) state \<Rightarrow> ('a, 'x) state" where
  "fill_buckets b content_id start count s =
     fold (\<lambda>block s. s\<lparr>renewal_queue := (renewal_queue s)(block := filler_bucket b content_id block)\<rparr>)
       (map of_nat [unat start..<unat (saturating_add start count)]) s"

text \<open>The body of the loop of \<open>add_holders\<close>: mint an item for a holder and store the right.\<close>

definition add_holder ::
  "('a, 'x) config \<Rightarrow> u32 \<Rightarrow> 'a \<Rightarrow> 'a content_metadata \<Rightarrow> rights_type \<Rightarrow> 'a \<Rightarrow> ('a, 'x) state \<Rightarrow>
     bench_error + ('a, 'x) state" where
  "add_holder cfg content_id creator_acc content kind who s =
     and_then (map_err (\<lambda>_. Expect) (mint_and_nest_child cfg creator_acc who (collection_id content)
                 (content_item_id content) kind s)) (\<lambda>(child, s).
     Inr (case kind of
         Subscription \<Rightarrow> s\<lparr>subscriptions := (subscriptions s)((content_id, who) \<mapsto>
           \<lparr>expiry_block = - 1, auto_renew = False, sub_child_item_id = child\<rparr>)\<rparr>
       | PayPerView \<Rightarrow> s\<lparr>view_packs := (view_packs s)((content_id, who) \<mapsto>
           \<lparr>views_remaining = 1, pack_child_item_id = child\<rparr>)\<rparr>
       | Ownership \<Rightarrow> s\<lparr>ownership := (ownership s)((content_id, who) \<mapsto> \<lparr>own_child_item_id = child\<rparr>)\<rparr>))"

definition add_holders ::
  "('a, 'x) bench_env \<Rightarrow> ('a, 'x) config \<Rightarrow> u32 \<Rightarrow> 'a \<Rightarrow> u32 \<Rightarrow> rights_type \<Rightarrow> ('a, 'x) state \<Rightarrow>
     bench_error + ('a, 'x) state" where
  "add_holders b cfg content_id creator_acc h kind s =
     and_then (ok_or (contents s content_id) Expect) (\<lambda>content.
     for_each (\<lambda>i. add_holder cfg content_id creator_acc content kind (account b ''holder'' (of_nat i) SEED))
       [0..<unat h] s)"

text \<open>The body of the loop of \<open>setup_renewals\<close>; the vector \<open>due\<close> is part of the state of the loop.\<close>

definition setup_renewal ::
  "('a, 'x) bench_env \<Rightarrow> ('a, 'x) config \<Rightarrow> u32 \<Rightarrow> u32 \<Rightarrow> u32 \<Rightarrow> u32 \<Rightarrow> nat \<Rightarrow>
     (u32 \<times> 'a) list \<times> ('a, 'x) state \<Rightarrow> bench_error + (u32 \<times> 'a) list \<times> ('a, 'x) state" where
  "setup_renewal b cfg n p blocks block i st =
     (case st of (due, s) \<Rightarrow>
      and_then (register b cfg blocks s) (\<lambda>((content_id, _), s).
      let splits = p div n + (if of_nat i < p mod n then 1 else 0) in
      and_then (set_splits_from b content_id splits (of_nat i * MAX_ROYALTY_SPLITS) s) (\<lambda>s.
      let (who, s) = funded b ''renewer'' (of_nat i) s in
      and_then (prepare cfg who (Subscribe content_id) s) (\<lambda>s.
      let s = update_subscription (content_id, who) (\<lambda>sub. sub\<lparr>expiry_block := block, auto_renew := True\<rparr>) s;
          s = s\<lparr>auto_renew_index := (auto_renew_index s)((content_id, who) \<mapsto> True)\<rparr>
      in Inr (due @ [(content_id, who)], s)))))"

definition setup_renewals ::
  "('a, 'x) bench_env \<Rightarrow> ('a, 'x) config \<Rightarrow> u32 \<Rightarrow> u32 \<Rightarrow> ('a, 'x) state \<Rightarrow>
     bench_error + u32 \<times> ('a, 'x) state" where
  "setup_renewals b cfg n p s =
     (let blocks = max (min_auto_renew_period cfg) 1;
          block = saturating_add (current_block s) 1
      in and_then (for_each (setup_renewal b cfg n p blocks block) [0..<unat n] ([], s)) (\<lambda>(due, s).
         and_then (ensure (length due \<le> MAX_RENEWALS_PER_BLOCK) Expect) (\<lambda>_.
         let s = s\<lparr>renewal_queue := (renewal_queue s)(block := due)\<rparr>;
             s = fill_buckets b (- 1) (saturating_add block blocks) (of_nat MAX_RENEWAL_SLOT_SEARCH) s
         in Inr (block, set_block block s))))"

section \<open>Benchmarks\<close>

definition bench_register_content ::
  "('a, 'x) bench_env \<Rightarrow> ('a, 'x) config \<Rightarrow> ('a, 'x) state \<Rightarrow> bench_error + ('a, 'x) state" where
  "bench_register_content b cfg st =
     (let (creator_acc, st) = caller b st;
          content_id = next_content_id st
      in and_then (extrinsic_call cfg creator_acc
                     (RegisterContent (replicate 32 7) bench_title PRICE PRICE PRICE 100) st) (\<lambda>st.
         assert (contents st content_id \<noteq> None) st))"

definition bench_subscribe ::
  "('a, 'x) bench_env \<Rightarrow> ('a, 'x) config \<Rightarrow> u32 \<Rightarrow> ('a, 'x) state \<Rightarrow> bench_error + ('a, 'x) state" where
  "bench_subscribe b cfg s st =
     and_then (register b cfg 100 st) (\<lambda>((content_id, _), st).
     and_then (set_splits b content_id s st) (\<lambda>st.
     let (buyer, st) = caller b st in
     and_then (extrinsic_call cfg buyer (Subscribe content_id) st) (\<lambda>st.
     assert (subscriptions st (content_id, buyer) \<noteq> None) st)))"

definition bench_renew_subscription ::
  "('a, 'x) bench_env \<Rightarrow> ('a, 'x) config \<Rightarrow> u32 \<Rightarrow> ('a, 'x) state \<Rightarrow> bench_error + ('a, 'x) state" where
  "bench_renew_subscription b cfg s st =
     and_then (register b cfg 100 st) (\<lambda>((content_id, _), st).
     let (buyer, st) = caller b st in
     and_then (prepare cfg buyer (Subscribe content_id) st) (\<lambda>st.
     and_then (set_splits b content_id s st) (\<lambda>st.
     and_then (ok_or (subscriptions st (content_id, buyer)) Expect) (\<lambda>sub.
     let expiry = expiry_block sub;
         st = set_block expiry st
     in and_then (extrinsic_call cfg buyer (RenewSubscription content_id) st) (\<lambda>st.
     and_then (ok_or (subscriptions st (content_id, buyer)) Expect) (\<lambda>sub.
     assert (expiry_block sub > expiry) st))))))"

definition bench_purchase_views ::
  "('a, 'x) bench_env \<Rightarrow> ('a, 'x) config \<Rightarrow> u32 \<Rightarrow> ('a, 'x) state \<Rightarrow> bench_error + ('a, 'x) state" where
  "bench_purchase_views b cfg s st =
     and_then (register b cfg 100 st) (\<lambda>((content_id, _), st).
     and_then (set_splits b content_id s st) (\<lambda>st.
     let (buyer, st) = caller b st in
     and_then (extrinsic_call cfg buyer (PurchaseViews content_id 10) st) (\<lambda>st.
     assert (view_packs st (content_id, buyer) \<noteq> None) st)))"

definition bench_consume_view ::
  "('a, 'x) bench_env \<Rightarrow> ('a, 'x) config \<Rightarrow> ('a, 'x) state \<Rightarrow> bench_error + ('a, 'x) state" where
  "bench_consume_view b cfg st =
     and_then (register b cfg 100 st) (\<lambda>((content_id, _), st).
     let (viewer, st) = caller b st in
     and_then (prepare cfg viewer (PurchaseViews content_id 1) st) (\<lambda>st.
     and_then (extrinsic_call cfg viewer (ConsumeView content_id) st) (\<lambda>st.
     assert (view_packs st (content_id, viewer) = None) st)))"

definition bench_purchase_ownership ::
  "('a, 'x) bench_env \<Rightarrow> ('a, 'x) config \<Rightarrow> u32 \<Rightarrow> ('a, 'x) state \<Rightarrow> bench_error + ('a, 'x) state" where
  "bench_purchase_ownership b cfg s st =
     and_then (register b cfg 100 st) (\<lambda>((content_id, _), st).
     and_then (set_splits b content_id s st) (\<lambda>st.
     let (buyer, st) = caller b st in
     and_then (extrinsic_call cfg buyer (PurchaseOwnership content_id) st) (\<lambda>st.
     assert (ownership st (content_id, buyer) \<noteq> None) st)))"

definition bench_check_access ::
  "('a, 'x) bench_env \<Rightarrow> ('a, 'x) config \<Rightarrow> ('a, 'x) state \<Rightarrow> bench_error + ('a, 'x) state" where
  "bench_check_access b cfg st =
     and_then (register b cfg 100 st) (\<lambda>((content_id, _), st).
     let (who, st) = caller b st in
     and_then (prepare cfg who (Subscribe content_id) st) (\<lambda>st.
     and_then (prepare cfg who (PurchaseViews content_id 1) st) (\<lambda>st.
     and_then (ok_or (subscriptions st (content_id, who)) Expect) (\<lambda>sub.
     let st = set_block (expiry_block sub) st in
     and_then (extrinsic_call cfg who (CheckAccess content_id) st) (\<lambda>st.
     assert (access_rights content_id who st = Some PayPerView) st)))))"

definition bench_xcm_subscribe ::
  "('a, 'x) bench_env \<Rightarrow> ('a, 'x) config \<Rightarrow> u32 \<Rightarrow> ('a, 'x) state \<Rightarrow> bench_error + ('a, 'x) state" where
  "bench_xcm_subscribe b cfg s st =
     and_then (register b cfg 100 st) (\<lambda>((content_id, _), st).
     and_then (set_splits b content_id s st) (\<lambda>st.
     let (payer, st) = caller b st;
         beneficiary = account b ''beneficiary'' 0 SEED
     in and_then (extrinsic_call cfg payer (XcmSubscribe content_id beneficiary) st) (\<lambda>st.
     assert (subscriptions st (content_id, beneficiary) \<noteq> None) st)))"

definition bench_xcm_renew_subscription ::
  "('a, 'x) bench_env \<Rightarrow> ('a, 'x) config \<Rightarrow> u32 \<Rightarrow> ('a, 'x) state \<Rightarrow> bench_error + ('a, 'x) state" where
  "bench_xcm_renew_subscription b cfg s st =
     and_then (register b cfg 100 st) (\<lambda>((content_id, _), st).
     let (payer, st) = caller b st;
         beneficiary = account b ''beneficiary'' 0 SEED
     in and_then (prepare cfg payer (XcmSubscribe content_id beneficiary) st) (\<lambda>st.
     and_then (set_splits b content_id s st) (\<lambda>st.
     and_then (ok_or (subscriptions st (content_id, beneficiary)) Expect) (\<lambda>sub.
     let expiry = expiry_block sub;
         st = set_block expiry st
     in and_then (extrinsic_call cfg payer (XcmRenewSubscription content_id beneficiary) st) (\<lambda>st.
     and_then (ok_or (subscriptions st (content_id, beneficiary)) Expect) (\<lambda>sub.
     assert (expiry_block sub > expiry) st))))))"

definition bench_xcm_purchase_views ::
  "('a, 'x) bench_env \<Rightarrow> ('a, 'x) config \<Rightarrow> u32 \<Rightarrow> ('a, 'x) state \<Rightarrow> bench_error + ('a, 'x) state" where
  "bench_xcm_purchase_views b cfg s st =
     and_then (register b cfg 100 st) (\<lambda>((content_id, _), st).
     and_then (set_splits b content_id s st) (\<lambda>st.
     let (payer, st) = caller b st;
         beneficiary = account b ''beneficiary'' 0 SEED
     in and_then (extrinsic_call cfg payer (XcmPurchaseViews content_id beneficiary 10) st) (\<lambda>st.
     assert (view_packs st (content_id, beneficiary) \<noteq> None) st)))"

definition bench_xcm_purchase_ownership ::
  "('a, 'x) bench_env \<Rightarrow> ('a, 'x) config \<Rightarrow> u32 \<Rightarrow> ('a, 'x) state \<Rightarrow> bench_error + ('a, 'x) state" where
  "bench_xcm_purchase_ownership b cfg s st =
     and_then (register b cfg 100 st) (\<lambda>((content_id, _), st).
     and_then (set_splits b content_id s st) (\<lambda>st.
     let (payer, st) = caller b st;
         beneficiary = account b ''beneficiary'' 0 SEED
     in and_then (extrinsic_call cfg payer (XcmPurchaseOwnership content_id beneficiary) st) (\<lambda>st.
     assert (ownership st (content_id, beneficiary) \<noteq> None) st)))"

definition bench_transfer_ownership ::
  "('a, 'x) bench_env \<Rightarrow> ('a, 'x) config \<Rightarrow> ('a, 'x) state \<Rightarrow> bench_error + ('a, 'x) state" where
  "bench_transfer_ownership b cfg st =
     and_then (register b cfg 100 st) (\<lambda>((content_id, _), st).
     let (owner, st) = caller b st in
     and_then (prepare cfg owner (PurchaseOwnership content_id) st) (\<lambda>st.
     let to = account b ''to'' 0 SEED in
     and_then (extrinsic_call cfg owner (TransferOwnership content_id to) st) (\<lambda>st.
     assert (ownership st (content_id, to) \<noteq> None) st)))"

definition bench_xcm_transfer_ownership ::
  "('a, 'x) bench_env \<Rightarrow> ('a, 'x) config \<Rightarrow> ('a, 'x) state \<Rightarrow> bench_error + ('a, 'x) state" where
  "bench_xcm_transfer_ownership b cfg st =
     and_then (register b cfg 100 st) (\<lambda>((content_id, _), st).
     let (owner, st) = caller b st in
     and_then (prepare cfg owner (PurchaseOwnership content_id) st) (\<lambda>st.
     let to = account b ''to'' 0 SEED in
     and_then (extrinsic_call cfg owner (XcmTransferOwnership content_id owner to) st) (\<lambda>st.
     assert (ownership st (content_id, to) \<noteq> None) st)))"

definition bench_set_royalty_splits ::
  "('a, 'x) bench_env \<Rightarrow> ('a, 'x) config \<Rightarrow> u32 \<Rightarrow> ('a, 'x) state \<Rightarrow> bench_error + ('a, 'x) state" where
  "bench_set_royalty_splits b cfg s st =
     and_then (register b cfg 100 st) (\<lambda>((content_id, creator_acc), st).
     let splits = bench_splits b s 0 in
     and_then (ensure (length splits \<le> unat MAX_ROYALTY_SPLITS) Expect) (\<lambda>_.
     and_then (extrinsic_call cfg creator_acc (SetRoyaltySplits content_id splits) st) (\<lambda>st.
     assert (of_nat (length (royalty_splits st content_id)) = s) st)))"

definition bench_enable_auto_renew ::
  "('a, 'x) bench_env \<Rightarrow> ('a, 'x) config \<Rightarrow> ('a, 'x) state \<Rightarrow> bench_error + ('a, 'x) state" where
  "bench_enable_auto_renew b cfg st =
     (let blocks = max (min_auto_renew_period cfg) 1 in
      and_then (register b cfg blocks st) (\<lambda>((content_id, _), st).
      let (who, st) = caller b st in
      and_then (prepare cfg who (Subscribe content_id) st) (\<lambda>st.
      and_then (ok_or (subscriptions st (content_id, who)) Expect) (\<lambda>sub.
      let st = fill_buckets b content_id (expiry_block sub) (of_nat MAX_RENEWAL_SLOT_SEARCH - 1) st in
      and_then (extrinsic_call cfg who (EnableAutoRenew content_id) st) (\<lambda>st.
      assert (auto_renew_index st (content_id, who) \<noteq> None) st)))))"

definition bench_disable_auto_renew ::
  "('a, 'x) bench_env \<Rightarrow> ('a, 'x) config \<Rightarrow> ('a, 'x) state \<Rightarrow> bench_error + ('a, 'x) state" where
  "bench_disable_auto_renew b cfg st =
     (let blocks = max (min_auto_renew_period cfg) 1 in
      and_then (register b cfg blocks st) (\<lambda>((content_id, _), st).
      let (who, st) = caller b st in
      and_then (prepare cfg who (Subscribe content_id) st) (\<lambda>st.
      and_then (prepare cfg who (EnableAutoRenew content_id) st) (\<lambda>st.
      and_then (extrinsic_call cfg who (DisableAutoRenew content_id) st) (\<lambda>st.
      assert (auto_renew_index st (content_id, who) = None) st)))))"

definition bench_query_rights_metadata ::
  "('a, 'x) bench_env \<Rightarrow> ('a, 'x) config \<Rightarrow> u32 \<Rightarrow> ('a, 'x) state \<Rightarrow> bench_error + ('a, 'x) state" where
  "bench_query_rights_metadata b cfg s st =
     and_then (register b cfg 100 st) (\<lambda>((content_id, _), st).
     and_then (set_splits b content_id s st) (\<lambda>st.
     let (who, st) = caller b st in
     extrinsic_call cfg who (QueryRightsMetadata content_id) st))"

definition bench_set_meter ::
  "('a, 'x) bench_env \<Rightarrow> ('a, 'x) config \<Rightarrow> ('a, 'x) state \<Rightarrow> bench_error + ('a, 'x) state" where
  "bench_set_meter b cfg st =
     and_then (register b cfg 100 st) (\<lambda>((content_id, creator_acc), st).
     let meter = account b ''meter'' 0 SEED in
     and_then (extrinsic_call cfg creator_acc (SetMeter content_id (Some meter)) st) (\<lambda>st.
     assert (meters st content_id = Some meter) st))"

definition bench_consume_view_for ::
  "('a, 'x) bench_env \<Rightarrow> ('a, 'x) config \<Rightarrow> ('a, 'x) state \<Rightarrow> bench_error + ('a, 'x) state" where
  "bench_consume_view_for b cfg st =
     and_then (register b cfg 100 st) (\<lambda>((content_id, creator_acc), st).
     let (meter, st) = caller b st in
     and_then (prepare cfg creator_acc (SetMeter content_id (Some meter)) st) (\<lambda>st.
     let (viewer, st) = funded b ''viewer'' 0 st in
     and_then (prepare cfg viewer (PurchaseViews content_id 1) st) (\<lambda>st.
     and_then (extrinsic_call cfg meter (ConsumeViewFor content_id viewer) st) (\<lambda>st.
     assert (view_packs st (content_id, viewer) = None) st))))"

text \<open>The hook runs in the block that the set-up returns, which it has made the current one.\<close>

definition bench_on_initialize_renewals ::
  "('a, 'x) bench_env \<Rightarrow> ('a, 'x) config \<Rightarrow> u32 \<Rightarrow> ('a, 'x) state \<Rightarrow> bench_error + ('a, 'x) state" where
  "bench_on_initialize_renewals b cfg n st =
     and_then (setup_renewals b cfg n 0 st) (\<lambda>(block, st).
     let st = snd (on_initialize cfg st) in
     assert (renewal_queue st block = []) st)"

definition bench_on_initialize_split_payments ::
  "('a, 'x) bench_env \<Rightarrow> ('a, 'x) config \<Rightarrow> u32 \<Rightarrow> ('a, 'x) state \<Rightarrow> bench_error + ('a, 'x) state" where
  "bench_on_initialize_split_payments b cfg p st =
     and_then (setup_renewals b cfg (of_nat MAX_RENEWALS_PER_BLOCK) p st) (\<lambda>(block, st).
     let st = snd (on_initialize cfg st) in
     assert (renewal_queue st block = []) st)"

section \<open>Measurements with many holders\<close>

definition scale_subscribe ::
  "('a, 'x) bench_env \<Rightarrow> ('a, 'x) config \<Rightarrow> u32 \<Rightarrow> ('a, 'x) state \<Rightarrow> bench_error + ('a, 'x) state" where
  "scale_subscribe b cfg h st =
     and_then (register b cfg 100 st) (\<lambda>((content_id, creator_acc), st).
     and_then (add_holders b cfg content_id creator_acc h Subscription st) (\<lambda>st.
     let (buyer, st) = caller b st in
     and_then (prepare cfg buyer (Subscribe content_id) st) (\<lambda>st.
     assert (subscriptions st (content_id, buyer) \<noteq> None) st)))"

definition scale_check_access ::
  "('a, 'x) bench_env \<Rightarrow> ('a, 'x) config \<Rightarrow> u32 \<Rightarrow> ('a, 'x) state \<Rightarrow> bench_error + ('a, 'x) state" where
  "scale_check_access b cfg h st =
     and_then (register b cfg 100 st) (\<lambda>((content_id, creator_acc), st).
     and_then (add_holders b cfg content_id creator_acc h PayPerView st) (\<lambda>st.
     let (who, st) = caller b st in
     and_then (prepare cfg who (PurchaseViews content_id 1) st) (\<lambda>st.
     prepare cfg who (CheckAccess content_id) st)))"

definition scale_consume_view ::
  "('a, 'x) bench_env \<Rightarrow> ('a, 'x) config \<Rightarrow> u32 \<Rightarrow> ('a, 'x) state \<Rightarrow> bench_error + ('a, 'x) state" where
  "scale_consume_view b cfg h st =
     and_then (register b cfg 100 st) (\<lambda>((content_id, creator_acc), st).
     and_then (add_holders b cfg content_id creator_acc h PayPerView st) (\<lambda>st.
     let (viewer, st) = caller b st in
     and_then (prepare cfg viewer (PurchaseViews content_id 1) st) (\<lambda>st.
     and_then (prepare cfg viewer (ConsumeView content_id) st) (\<lambda>st.
     assert (view_packs st (content_id, viewer) = None) st))))"

definition scale_transfer_ownership ::
  "('a, 'x) bench_env \<Rightarrow> ('a, 'x) config \<Rightarrow> u32 \<Rightarrow> ('a, 'x) state \<Rightarrow> bench_error + ('a, 'x) state" where
  "scale_transfer_ownership b cfg h st =
     and_then (register b cfg 100 st) (\<lambda>((content_id, creator_acc), st).
     and_then (add_holders b cfg content_id creator_acc h Ownership st) (\<lambda>st.
     let (owner, st) = caller b st in
     and_then (prepare cfg owner (PurchaseOwnership content_id) st) (\<lambda>st.
     let to = account b ''to'' 0 SEED in
     and_then (prepare cfg owner (TransferOwnership content_id to) st) (\<lambda>st.
     assert (ownership st (content_id, to) \<noteq> None) st))))"

end
