(* ===== verification/Bench_Steps.thy ===== *)
theory Bench_Steps
  imports Bench_Programs
begin

text \<open>
  The steps of the benchmarks, on every chain whose pallets oblige. \<open>shop\<close> describes a registered
  content item that can still be sold; the set-up code creates a shop, and payments, mints and
  purchases keep it and cost nobody but the payer and the creator.
\<close>

section \<open>What the harness provides\<close>

text \<open>
  Accounts of different names or indices differ, also from the caller; an encoded account decodes; an
  account that was funded can pay twelve prices, and the deposits of a collection and of 5,000 items;
  a tenth of the price is a valid transfer.
\<close>

definition bench_laws :: "('a, 'x) config \<Rightarrow> ('a, 'x) service \<Rightarrow> ('a, 'x) bench_env \<Rightarrow> bool" where
  "bench_laws cfg sv b \<longleftrightarrow>
     (\<forall>n i n' i'. account b n i SEED = account b n' i' SEED \<longleftrightarrow> n = n' \<and> i = i') \<and>
     (\<forall>n i. account b n i SEED \<noteq> whitelisted_caller b) \<and>
     (\<forall>who. decode_account cfg (as_bytes32 b who) \<noteq> None) \<and>
     10 * least_transfer sv \<le> unat PRICE \<and>
     (\<forall>who x x'. x' = make_free_balance_be b who (max_nft_balance b div 100000)
                         (set_balance b who (max_balance b div 100000) x) \<longrightarrow>
        live_items sv x' = live_items sv x \<and> collection_owner sv x' = collection_owner sv x \<and>
        collection_counter cfg x' = collection_counter cfg x \<and>
        (\<forall>a. a \<noteq> who \<longrightarrow> spendable sv x' a = spendable sv x a) \<and>
        12 * unat PRICE \<le> spendable sv x' who \<and>
        unat (nfts_collection_deposit cfg) + 5000 * item_deposit sv \<le> spendable sv x' who)"

lemma bench_accounts:
  assumes "bench_laws cfg sv b"
  shows "account b n i SEED = account b n' i' SEED \<longleftrightarrow> n = n' \<and> i = i'"
    "account b n i SEED \<noteq> whitelisted_caller b" "whitelisted_caller b \<noteq> account b n i SEED"
  using assms unfolding bench_laws_def by metis+

lemma bench_decodes: "bench_laws cfg sv b \<Longrightarrow> decode_account cfg (as_bytes32 b who) \<noteq> None"
  by (simp add: bench_laws_def)

lemma fund_run:
  assumes "bench_laws cfg sv b"
  obtains x where "fund b who s = s\<lparr>ext := x\<rparr>" "live_items sv x = live_items sv (ext s)"
    "collection_owner sv x = collection_owner sv (ext s)"
    "collection_counter cfg x = collection_counter cfg (ext s)"
    "\<forall>a. a \<noteq> who \<longrightarrow> spendable sv x a = spendable sv (ext s) a" "12 * unat PRICE \<le> spendable sv x who"
    "unat (nfts_collection_deposit cfg) + 5000 * item_deposit sv \<le> spendable sv x who"
proof -
  let ?x = "make_free_balance_be b who (max_nft_balance b div 100000)
    (set_balance b who (max_balance b div 100000) (ext s))"
  have "fund b who s = s\<lparr>ext := ?x\<rparr>" by (simp add: fund_def Let_def)
  moreover note assms [unfolded bench_laws_def, THEN conjunct2, THEN conjunct2, THEN conjunct2, THEN conjunct2,
    rule_format, OF refl, of who "ext s"]
  ultimately show thesis using that [of ?x] by blast
qed

section \<open>Shops\<close>

text \<open>Content on sale at the benchmark price, with splits of ten per cent.\<close>

definition on_sale ::
  "('a, 'x) config \<Rightarrow> ('a, 'x) bench_env \<Rightarrow> u32 \<Rightarrow> 'a content_metadata \<Rightarrow> ('a, 'x) state \<Rightarrow> bool" where
  "on_sale cfg b c m s \<longleftrightarrow>
     contents s c = Some m \<and> creator m = account b ''creator'' 0 SEED \<and>
     subscription_price m = PRICE \<and> ppv_price m = PRICE \<and> ownership_price m = PRICE \<and> splits_inv s \<and>
     (\<forall>sp\<in>set (royalty_splits s c). decode_account cfg (recipient sp) \<noteq> None \<and> basis_points sp = 1000)"

text \<open>The creator can mint \<open>k\<close> more items.\<close>

definition stocked ::
  "('a, 'x) service \<Rightarrow> 'a content_metadata \<Rightarrow> nat \<Rightarrow> u32 \<Rightarrow> 'x \<Rightarrow> bool" where
  "stocked sv m k item x \<longleftrightarrow>
     collection_owner sv x (collection_id m) = Some (creator m) \<and>
     (\<forall>i\<ge>item. (collection_id m, i) \<notin> live_items sv x) \<and> unat item + k < 2 ^ 32 \<and>
     2 * k * item_deposit sv \<le> spendable sv x (creator m)"

definition shop ::
  "('a, 'x) config \<Rightarrow> ('a, 'x) service \<Rightarrow> ('a, 'x) bench_env \<Rightarrow> u32 \<Rightarrow> 'a content_metadata \<Rightarrow> nat \<Rightarrow>
     ('a, 'x) state \<Rightarrow> bool" where
  "shop cfg sv b c m k s \<longleftrightarrow>
     on_sale cfg b c m s \<and> stocked sv m k (next_item_id s (collection_id m)) (ext s)"

lemma on_sale_frame [simp]:
  "on_sale cfg b c m (s\<lparr>next_item_id := v0\<rparr>) = on_sale cfg b c m s"
  "on_sale cfg b c m (s\<lparr>subscriptions := v1\<rparr>) = on_sale cfg b c m s"
  "on_sale cfg b c m (s\<lparr>view_packs := v2\<rparr>) = on_sale cfg b c m s"
  "on_sale cfg b c m (s\<lparr>ownership := v3\<rparr>) = on_sale cfg b c m s"
  "on_sale cfg b c m (s\<lparr>auto_renew_index := v4\<rparr>) = on_sale cfg b c m s"
  "on_sale cfg b c m (s\<lparr>renewal_queue := v5\<rparr>) = on_sale cfg b c m s"
  "on_sale cfg b c m (s\<lparr>parent := v6\<rparr>) = on_sale cfg b c m s"
  "on_sale cfg b c m (s\<lparr>meters := v7\<rparr>) = on_sale cfg b c m s"
  "on_sale cfg b c m (s\<lparr>block_number := v8\<rparr>) = on_sale cfg b c m s"
  "on_sale cfg b c m (s\<lparr>events := v9\<rparr>) = on_sale cfg b c m s"
  "on_sale cfg b c m (s\<lparr>ext := x\<rparr>) = on_sale cfg b c m s"
  by (simp_all add: on_sale_def splits_inv_def)

lemma stocked_ext:
  assumes "stocked sv m k item x" and "live_items sv x' = live_items sv x"
    and "collection_owner sv x' = collection_owner sv x"
    and "spendable sv x (creator m) \<le> spendable sv x' (creator m)"
  shows "stocked sv m k item x'"
  using assms unfolding stocked_def by (metis order_trans)

lemma shop_ext:
  assumes "shop cfg sv b c m k s" and "live_items sv x = live_items sv (ext s)"
    and "collection_owner sv x = collection_owner sv (ext s)"
    and "spendable sv (ext s) (creator m) \<le> spendable sv x (creator m)"
  shows "shop cfg sv b c m k (s\<lparr>ext := x\<rparr>)"
  using assms stocked_ext [OF _ assms(2-4)] by (simp add: shop_def)

lemma shop_fund:
  assumes laws: "bench_laws cfg sv b" and "shop cfg sv b c m k s" and "who \<noteq> creator m"
  obtains x where "fund b who s = s\<lparr>ext := x\<rparr>" "shop cfg sv b c m k (s\<lparr>ext := x\<rparr>)"
    "12 * unat PRICE \<le> spendable sv x who" "\<forall>a. a \<noteq> who \<longrightarrow> spendable sv x a = spendable sv (ext s) a"
    "live_items sv x = live_items sv (ext s)" "collection_counter cfg x = collection_counter cfg (ext s)"
    "collection_owner sv x = collection_owner sv (ext s)"
proof (rule fund_run [OF laws, of who s])
  fix x
  assume x: "fund b who s = s\<lparr>ext := x\<rparr>" "live_items sv x = live_items sv (ext s)"
    "collection_owner sv x = collection_owner sv (ext s)"
    "collection_counter cfg x = collection_counter cfg (ext s)"
    "\<forall>a. a \<noteq> who \<longrightarrow> spendable sv x a = spendable sv (ext s) a" "12 * unat PRICE \<le> spendable sv x who"
  show thesis
    using shop_ext [OF assms(2) x(2,3)] x(5) [rule_format, of "creator m"] assms(3)
    by (intro that [OF x(1) _ x(6,5,2,4,3)]) simp_all
qed

subsection \<open>Payments\<close>

lemma unat_PRICE: "unat PRICE = 10000000000000"
  by (simp add: PRICE_def)

text \<open>A multiple of the price is shared in equal tenths.\<close>

lemma tenth_share:
  assumes "unat amount = q * unat PRICE" and "q \<le> 10"
  shows "unat (royalty_share amount 1000) = q * 1000000000000"
proof -
  have "unat amount * unat (1000 :: u16) < 2 ^ 128" using assms by (simp add: unat_PRICE)
  from royalty_share_exact [OF this] assms(1) show ?thesis by (simp add: unat_PRICE)
qed

lemma tenth_plan:
  assumes amount: "unat amount = q * unat PRICE" "0 < q" "q \<le> 10"
  shows "\<forall>sp\<in>set sps. decode_account cfg (recipient sp) \<noteq> None \<and> basis_points sp = 1000 \<Longrightarrow>
    (\<forall>(to, v)\<in>set (split_plan cfg amount sps). unat v = q * 1000000000000) \<and>
    plan_total (split_plan cfg amount sps) = length sps * (q * 1000000000000)"
proof (induction sps)
  case (Cons sp sps)
  have share: "unat (royalty_share amount 1000) = q * 1000000000000" by (rule tenth_share [OF amount(1,3)])
  then have pos: "0 < royalty_share amount 1000" using amount(2) by (simp add: word_less_nat_alt)
  obtain r where "decode_account cfg (recipient sp) = Some r" using Cons.prems by auto
  with Cons share pos show ?case by (auto simp: Let_def)
qed simp

lemma unat_u128_of_nat: "n < 2 ^ 128 \<Longrightarrow> unat (of_nat n :: u128) = n"
  by (simp add: unat_of_nat)

lemma shop_payable:
  assumes laws: "bench_laws cfg sv b" and sale: "on_sale cfg b c m s"
    and amount: "unat amount = q * unat PRICE" "0 < q" "q \<le> 10"
    and "unat amount \<le> spendable sv (ext s) who"
  shows "payable cfg sv who (creator m) amount (royalty_splits s c) (ext s)"
proof -
  let ?sps = "royalty_splits s c" and ?q = "q * 1000000000000 :: nat"
  have sps: "\<forall>sp\<in>set ?sps. decode_account cfg (recipient sp) \<noteq> None \<and> basis_points sp = 1000"
    using sale by (simp add: on_sale_def)
  have least: "least_transfer sv \<le> ?q"
    using laws amount(2) mult_le_mono1 [of 1 q 1000000000000] by (simp add: bench_laws_def unat_PRICE)
  note plan = tenth_plan [OF amount sps]
  have "least_transfer sv \<le> unat v" if "(to, v) \<in> set (payment_plan cfg (creator m) amount ?sps)" for to v
  proof (cases "?sps = []")
    case True
    with that least show ?thesis by (simp add: payment_plan_def amount(1) unat_PRICE)
  next
    case False
    let ?rest = "unat amount - plan_total (split_plan cfg amount ?sps)"
    have "length ?sps \<le> 10"
      using sale by (auto simp: on_sale_def splits_inv_def valid_splits_def MAX_ROYALTY_SPLITS_def)
    then have rest: "?rest = (10 - length ?sps) * ?q"
      using plan by (simp add: amount(1) unat_PRICE diff_mult_distrib)
    have fits: "?rest < 2 ^ 128" using amount by (simp add: unat_PRICE)
    have "(to, v) \<in> set (split_plan cfg amount ?sps) \<or> 0 < ?rest \<and> v = of_nat ?rest"
      using that False by (auto simp: payment_plan_def Let_def split: if_splits)
    then show ?thesis
    proof
      assume "0 < ?rest \<and> v = of_nat ?rest"
      then have v: "v = of_nat ?rest" and pos: "0 < ?rest" by blast+
      have "?q \<le> ?rest"
        using pos unfolding rest by (cases "10 - length ?sps") simp_all
      moreover have "unat v = ?rest" unfolding v by (rule unat_u128_of_nat [OF fits])
      ultimately show ?thesis using least by linarith
    qed (use plan least in fastforce)
  qed
  with sps assms(6) show ?thesis by (auto simp: payable_def)
qed

lemma shop_pays:
  assumes laws: "bench_laws cfg sv b" and law: "obliging cfg sv" and sale: "on_sale cfg b c m s"
    and amount: "unat amount = q * unat PRICE" "0 < q" "q \<le> 10"
    and "unat amount \<le> spendable sv (ext s) who"
  obtains x evs where "pay_with_royalties cfg who (creator m) c amount s =
      Inr (of_nat (length (royalty_splits s c)), s\<lparr>ext := x, events := evs\<rparr>)"
    "costs sv who (unat amount) (ext s) x" "live_items sv x = live_items sv (ext s)"
    "collection_owner sv x = collection_owner sv (ext s)" "ext_calls cfg (ext s) x"
proof -
  have "splits_inv s" using sale by (simp add: on_sale_def)
  from payable_pays [OF law this shop_payable [OF laws sale amount assms(7)]]
  obtain n s' where run: "pay_with_royalties cfg who (creator m) c amount s = Inr (n, s')"
    and ext: "only_ext_events s s'" "costs sv who (unat amount) (ext s) (ext s')"
      "live_items sv (ext s') = live_items sv (ext s)"
      "collection_owner sv (ext s') = collection_owner sv (ext s)" by metis
  obtain x evs where s': "s' = s\<lparr>ext := x, events := evs\<rparr>" using ext(1) by (metis only_ext_events_cases)
  have "n = of_nat (length (royalty_splits s c))" using pay_with_royalties_frame [OF run] by simp
  moreover have "ext_calls cfg (ext s) x"
    using pay_with_royalties_settles [OF run] s' by (simp add: settles_def)
  ultimately show thesis using run ext s' by (intro that [of evs x]) simp_all
qed

subsection \<open>Sales\<close>

lemma word_le_Suc: "unat (w :: u32) + 1 < 2 ^ 32 \<Longrightarrow> w + 1 \<le> i \<Longrightarrow> w \<le> i \<and> i \<noteq> w"
  by (auto simp: word_le_nat_alt unat_word_ariths)

text \<open>Accounts other than the creator and the payer lose nothing.\<close>

definition others_keep :: "('a, 'x) service \<Rightarrow> 'a \<Rightarrow> 'a \<Rightarrow> nat \<Rightarrow> 'x \<Rightarrow> 'x \<Rightarrow> bool" where
  "others_keep sv cr who n x x' \<longleftrightarrow>
     (\<forall>a. a \<noteq> cr \<longrightarrow> spendable sv x a \<le> spendable sv x' a + (if a = who then n else 0))"

lemma shop_mints:
  assumes law: "obliging cfg sv" and "shop cfg sv b c m (Suc k) s"
  obtains x evs where
    "mint_and_nest_child cfg (creator m) own (collection_id m) (content_item_id m) rt s =
       Inr (next_item_id s (collection_id m),
         s\<lparr>next_item_id := (next_item_id s)(collection_id m := next_item_id s (collection_id m) + 1),
           parent := (parent s)((collection_id m, next_item_id s (collection_id m)) \<mapsto>
             (collection_id m, content_item_id m)),
           events := evs, ext := x\<rparr>)"
    "stocked sv m k (next_item_id s (collection_id m) + 1) x"
    "costs sv (creator m) (2 * item_deposit sv) (ext s) x"
    "live_items sv x = insert (collection_id m, next_item_id s (collection_id m)) (live_items sv (ext s))"
    "collection_owner sv x = collection_owner sv (ext s)" "ext_calls cfg (ext s) x"
proof -
  let ?item = "next_item_id s (collection_id m)"
  have stock: "stocked sv m (Suc k) ?item (ext s)" using assms(2) by (simp add: shop_def)
  then have "nestable sv m 0 ?item (ext s)" by (simp add: stocked_def nestable_def has_successor_def)
  then obtain x where x:
    "mint_and_nest_child cfg (creator m) own (collection_id m) (content_item_id m) rt s =
       Inr (?item, deposit_event (ChildNested (collection_id m) (content_item_id m) (collection_id m) ?item)
         (s\<lparr>ext := x, parent := (parent s)((collection_id m, ?item) \<mapsto> (collection_id m, content_item_id m)),
            next_item_id := (next_item_id s)(collection_id m := ?item + 1)\<rparr>))"
    "costs sv (creator m) (2 * item_deposit sv) (ext s) x"
    "live_items sv x = insert (collection_id m, ?item) (live_items sv (ext s))"
    "collection_owner sv x = collection_owner sv (ext s)" "ext_calls cfg (ext s) x"
    by (rule nestable_mint_run [OF law])
  have small: "unat ?item + 1 < 2 ^ 32" using stock by (simp add: stocked_def)
  then have "unat (?item + 1) = unat ?item + 1" by (simp add: unat_word_ariths)
  then have "stocked sv m k (?item + 1) x"
    using stock x(3,4) costsD(2) [OF x(2)] word_le_Suc [OF small] by (auto simp: stocked_def)
  with x show thesis by (intro that [of x "events s @ [ChildNested (collection_id m) (content_item_id m) (collection_id m) ?item]"])
    (simp_all add: deposit_event_def)
qed

text \<open>What neither a registration nor a sale changes.\<close>

definition kept :: "('a, 'x) state \<Rightarrow> ('a, 'x) state \<Rightarrow> bool" where
  "kept s s' \<longleftrightarrow>
     royalty_splits s' = royalty_splits s \<and> meters s' = meters s \<and> renewal_queue s' = renewal_queue s \<and>
     auto_renew_index s' = auto_renew_index s \<and> block_number s' = block_number s"

lemma keptD:
  assumes "kept s s'"
  shows "royalty_splits s' = royalty_splits s" "meters s' = meters s" "renewal_queue s' = renewal_queue s"
    "auto_renew_index s' = auto_renew_index s" "block_number s' = block_number s"
    "current_block s' = current_block s"
  using assms by (simp_all add: kept_def current_block_def)

definition rights_kept :: "('a, 'x) state \<Rightarrow> ('a, 'x) state \<Rightarrow> bool" where
  "rights_kept s s' \<longleftrightarrow>
     subscriptions s' = subscriptions s \<and> view_packs s' = view_packs s \<and> ownership s' = ownership s"

text \<open>A sale to \<open>who\<close> for \<open>n\<close> units leaves the rest of the storage and the other accounts alone.\<close>

definition sold ::
  "('a, 'x) config \<Rightarrow> ('a, 'x) service \<Rightarrow> 'a content_metadata \<Rightarrow> 'a \<Rightarrow> nat \<Rightarrow> ('a, 'x) state \<Rightarrow> ('a, 'x) state \<Rightarrow> bool" where
  "sold cfg sv m who n s s' \<longleftrightarrow>
     kept s s' \<and> contents s' = contents s \<and> next_content_id s' = next_content_id s \<and>
     others_keep sv (creator m) who n (ext s) (ext s') \<and> ext_calls cfg (ext s) (ext s') \<and>
     live_items sv (ext s') =
       insert (collection_id m, next_item_id s (collection_id m)) (live_items sv (ext s)) \<and>
     collection_owner sv (ext s') = collection_owner sv (ext s)"

lemma sold_spendable:
  "sold cfg sv m who n s s' \<Longrightarrow> a \<noteq> creator m \<Longrightarrow>
     spendable sv (ext s) a \<le> spendable sv (ext s') a + (if a = who then n else 0)"
  unfolding sold_def others_keep_def by blast

lemma shop_sells:
  assumes laws: "bench_laws cfg sv b" and law: "obliging cfg sv" and shop: "shop cfg sv b c m (Suc k) s"
    and amount: "unat amount = q * unat PRICE" "0 < q" "q \<le> 10"
    and payer: "unat amount \<le> spendable sv (ext s) who" "who \<noteq> creator m"
  obtains x1 evs1 s2 where
    "pay_with_royalties cfg who (creator m) c amount s =
       Inr (of_nat (length (royalty_splits s c)), s\<lparr>ext := x1, events := evs1\<rparr>)"
    "mint_and_nest_child cfg (creator m) own (collection_id m) (content_item_id m) rt (s\<lparr>ext := x1, events := evs1\<rparr>) =
       Inr (next_item_id s (collection_id m), s2)"
    "shop cfg sv b c m k s2" "sold cfg sv m who (unat amount) s s2" "rights_kept s s2"
proof -
  have sale: "on_sale cfg b c m s" using shop by (simp add: shop_def)
  then obtain x1 evs1 where pay: "pay_with_royalties cfg who (creator m) c amount s =
      Inr (of_nat (length (royalty_splits s c)), s\<lparr>ext := x1, events := evs1\<rparr>)"
    "costs sv who (unat amount) (ext s) x1" "live_items sv x1 = live_items sv (ext s)"
    "collection_owner sv x1 = collection_owner sv (ext s)" "ext_calls cfg (ext s) x1"
    using shop_pays [OF laws law _ amount payer(1)] by metis
  let ?s = "s\<lparr>ext := x1, events := evs1\<rparr>" and ?item = "next_item_id s (collection_id m)"
  have "shop cfg sv b c m (Suc k) ?s"
    using shop_ext [OF shop pay(3,4)] costsD(1) [OF pay(2), of "creator m"] payer(2) by (simp add: shop_def)
  from shop_mints [OF law this, of own rt] obtain x evs where mint:
    "mint_and_nest_child cfg (creator m) own (collection_id m) (content_item_id m) rt ?s =
       Inr (?item, s\<lparr>next_item_id := (next_item_id s)(collection_id m := ?item + 1),
         parent := (parent s)((collection_id m, ?item) \<mapsto> (collection_id m, content_item_id m)),
         events := evs, ext := x\<rparr>)"
    "stocked sv m k (?item + 1) x" "costs sv (creator m) (2 * item_deposit sv) x1 x"
    "live_items sv x = insert (collection_id m, ?item) (live_items sv x1)"
    "collection_owner sv x = collection_owner sv x1" "ext_calls cfg x1 x"
    by simp metis
  have "others_keep sv (creator m) who (unat amount) (ext s) x"
    unfolding others_keep_def
  proof (intro allI impI)
    fix a assume "a \<noteq> creator m"
    then show "spendable sv (ext s) a \<le> spendable sv x a + (if a = who then unat amount else 0)"
      using costsD(1) [OF pay(2), of a] costsD(1) [OF mint(3), of a] by simp
  qed
  moreover have "ext_calls cfg (ext s) x" using pay(5) mint(6) by (rule rtranclp_trans)
  ultimately show thesis
    using that [OF pay(1) mint(1)] mint(2,4,5) pay(3,4) sale
    by (simp add: shop_def sold_def kept_def rights_kept_def)
qed

section \<open>Registration\<close>

text \<open>A chain on which \<open>k\<close> more contents can be registered, and nothing is known of contents to come.\<close>

definition blank :: "('a, 'x) config \<Rightarrow> ('a, 'x) service \<Rightarrow> nat \<Rightarrow> ('a, 'x) state \<Rightarrow> bool" where
  "blank cfg sv k s \<longleftrightarrow>
     unat (next_content_id s) + k < 2 ^ 32 \<and> unat (collection_counter cfg (ext s)) + k < 2 ^ 32 \<and>
     splits_inv s \<and>
     (\<forall>c\<ge>next_content_id s. royalty_splits s c = [] \<and>
        (\<forall>a. subscriptions s (c, a) = None \<and> view_packs s (c, a) = None \<and> ownership s (c, a) = None)) \<and>
     (\<forall>col\<ge>collection_counter cfg (ext s).
        collection_owner sv (ext s) col = None \<and> (\<forall>i. (col, i) \<notin> live_items sv (ext s)))"

text \<open>What \<open>register_content\<close> stores for the set-up code.\<close>

definition bench_content :: "'a \<Rightarrow> u32 \<Rightarrow> u32 \<Rightarrow> 'a content_metadata" where
  "bench_content cr col blocks =
     \<lparr>creator = cr, metadata_hash = replicate 32 7, collection_id = col, content_item_id = 0,
      title = bench_title, subscription_price = PRICE, ppv_price = PRICE, ownership_price = PRICE,
      period_length = blocks\<rparr>"

lemma bench_content_simps [simp]:
  "creator (bench_content cr col l) = cr" "collection_id (bench_content cr col l) = col"
  "content_item_id (bench_content cr col l) = 0" "subscription_price (bench_content cr col l) = PRICE"
  "ppv_price (bench_content cr col l) = PRICE" "ownership_price (bench_content cr col l) = PRICE"
  "period_length (bench_content cr col l) = l"
  by (simp_all add: bench_content_def)

lemma register_content_run:
  assumes law: "obliging cfg sv" and lawful: "lawful cfg" and blank: "blank cfg sv (Suc k) s"
    and rich: "unat (nfts_collection_deposit cfg) + item_deposit sv \<le> spendable sv (ext s) who"
  obtains x evs where
    "register_content cfg (Signed who) (replicate 32 7) bench_title PRICE PRICE PRICE l s =
       Inr (s\<lparr>next_content_id := next_content_id s + 1,
         next_item_id := (next_item_id s)(collection_counter cfg (ext s) := 1),
         contents := (contents s)(next_content_id s \<mapsto> bench_content who (collection_counter cfg (ext s)) l),
         events := evs, ext := x\<rparr>)"
    "costs sv who (unat (nfts_collection_deposit cfg) + item_deposit sv) (ext s) x"
    "live_items sv x = insert (collection_counter cfg (ext s), 0) (live_items sv (ext s))"
    "collection_owner sv x = (collection_owner sv (ext s))(collection_counter cfg (ext s) \<mapsto> who)"
    "collection_counter cfg x = collection_counter cfg (ext s) + 1"
proof -
  let ?col = "collection_counter cfg (ext s)"
  let ?x = "nfts_set_next_collection_id cfg (?col + 1) (ext s)"
  let ?cc = "\<lparr>disabled_settings = [TransferableItems], max_supply = None\<rparr>"
  have free: "collection_owner sv (ext s) ?col = None" "(?col, 0) \<notin> live_items sv (ext s)"
    using blank by (simp_all add: blank_def)
  have succ: "checked_add (next_content_id s) 1 = Some (next_content_id s + 1)"
    using blank by (simp add: blank_def machine_arith)
  have next_col: "next_collection_id cfg s = Inr (?col, s\<lparr>ext := ?x\<rparr>)"
    using blank by (simp add: next_collection_id_Inr blank_def has_successor_def)
  obtain x1 where x1: "nfts_do_create_collection cfg ?col who who ?cc (nfts_collection_deposit cfg)
      (?col, who, who) ?x = Inr x1" "costs sv who (unat (nfts_collection_deposit cfg)) ?x x1"
      "live_items sv x1 = live_items sv ?x" "collection_owner sv x1 = (collection_owner sv ?x)(?col \<mapsto> who)"
    by (rule obliging_create [OF law, of ?x ?col "nfts_collection_deposit cfg" who ?cc "(?col, who, who)"])
       (use free rich in \<open>simp_all add: obliging_counter [OF law]\<close>)
  have "item_deposit sv \<le> spendable sv x1 who"
    using costsD(2) [OF x1(2)] rich by (simp add: obliging_counter [OF law])
  moreover have "collection_owner sv x1 ?col = Some who" "(?col, 0) \<notin> live_items sv x1"
    using x1(3,4) free by (simp_all add: obliging_counter [OF law])
  ultimately obtain x2 where x2: "nfts_do_mint cfg ?col 0 (Some who) who x1 = Inr x2"
      "costs sv who (item_deposit sv) x1 x2" "live_items sv x2 = insert (?col, 0) (live_items sv x1)"
      "collection_owner sv x2 = collection_owner sv x1"
    using obliging_mint [OF law] by metis
  have "collection_counter cfg x2 = ?col + 1"
    using lawful ext_create [OF x1(1)] ext_mint [OF x2(1)] unfolding lawful_def by metis
  moreover have "costs sv who (unat (nfts_collection_deposit cfg) + item_deposit sv) (ext s) x2"
    using costs_trans [OF x1(2) x2(2)] by (simp add: costs_def obliging_counter [OF law])
  ultimately show thesis
    using succ next_col x1 x2
    by (intro that [of x2 "events s @ [ContentRegistered (next_content_id s) who ?col 0]"])
       (simp_all add: register_content_def Let_def deposit_event_def bench_content_def obliging_counter [OF law])
qed

lemma prepare_run:
  assumes "dispatch cfg (Signed who) act s = Inr (w, s')"
  shows "prepare cfg who act s = Inr s'" and "extrinsic_call cfg who act s = Inr s'"
  using assms by (simp_all add: prepare_def extrinsic_call_def)

lemma register_run:
  assumes laws: "bench_laws cfg sv b" and law: "obliging cfg sv" and lawful: "lawful cfg"
    and blank: "blank cfg sv (Suc k) s"
  obtains s' m where
    "register b cfg l s = Inr ((next_content_id s, account b ''creator'' 0 SEED), s')"
    "shop cfg sv b (next_content_id s) m 2400 s'" "period_length m = l"
    "contents s' = (contents s)(next_content_id s \<mapsto> m)" "next_content_id s' = next_content_id s + 1"
    "kept s s'" "rights_kept s s'" "blank cfg sv k s'" "collection_id m < collection_counter cfg (ext s')"
    "\<forall>a. a \<noteq> account b ''creator'' 0 SEED \<longrightarrow> spendable sv (ext s) a \<le> spendable sv (ext s') a"
proof -
  let ?cr = "account b ''creator'' 0 SEED" and ?c = "next_content_id s"
  obtain x0 where x0: "fund b ?cr s = s\<lparr>ext := x0\<rparr>" "live_items sv x0 = live_items sv (ext s)"
    "collection_owner sv x0 = collection_owner sv (ext s)"
    "collection_counter cfg x0 = collection_counter cfg (ext s)"
    "\<forall>a. a \<noteq> ?cr \<longrightarrow> spendable sv x0 a = spendable sv (ext s) a" "12 * unat PRICE \<le> spendable sv x0 ?cr"
    "unat (nfts_collection_deposit cfg) + 5000 * item_deposit sv \<le> spendable sv x0 ?cr"
    using fund_run [OF laws, of ?cr s] by blast
  let ?s = "s\<lparr>ext := x0\<rparr>" and ?col = "collection_counter cfg x0"
  let ?m = "bench_content ?cr ?col l"
  have "blank cfg sv (Suc k) ?s" using blank x0 by (simp add: blank_def splits_inv_def)
  moreover have "unat (nfts_collection_deposit cfg) + item_deposit sv \<le> spendable sv (ext ?s) ?cr" using x0(7) by simp
  ultimately obtain x evs where reg:
    "register_content cfg (Signed ?cr) (replicate 32 7) bench_title PRICE PRICE PRICE l ?s =
       Inr (?s\<lparr>next_content_id := ?c + 1, next_item_id := (next_item_id s)(?col := 1),
         contents := (contents s)(?c \<mapsto> ?m), events := evs, ext := x\<rparr>)"
    "costs sv ?cr (unat (nfts_collection_deposit cfg) + item_deposit sv) x0 x"
    "live_items sv x = insert (?col, 0) (live_items sv x0)"
    "collection_owner sv x = (collection_owner sv x0)(?col \<mapsto> ?cr)" "collection_counter cfg x = ?col + 1"
    using register_content_run [OF law lawful, of k ?s ?cr l] by auto
  let ?s' = "?s\<lparr>next_content_id := ?c + 1, next_item_id := (next_item_id s)(?col := 1),
    contents := (contents s)(?c \<mapsto> ?m), events := evs, ext := x\<rparr>"
  have run: "register b cfg l s = Inr ((?c, ?cr), ?s')"
    using reg(1) by (simp add: register_def funded_def Let_def x0(1) prepare_def no_post_info_def)
  have small: "unat ?c + 1 < 2 ^ 32" "unat ?col + 1 < 2 ^ 32" using blank x0(4) by (simp_all add: blank_def)
  have "stocked sv ?m 2400 1 x"
    using reg(3,4) blank x0(2,4) x0(7) costsD(2) [OF reg(2)] by (auto simp: stocked_def blank_def)
  moreover have "splits_inv s" "royalty_splits s ?c = []" using blank by (simp_all add: blank_def)
  ultimately have shop: "shop cfg sv b ?c ?m 2400 ?s'"
    by (simp add: shop_def on_sale_def splits_inv_def)
  have "unat (?c + 1) = unat ?c + 1" "unat (?col + 1) = unat ?col + 1"
    using small by (simp_all add: unat_word_ariths)
  then have "blank cfg sv k ?s'"
    using blank reg(3-5) x0(2-4) word_le_Suc [OF small(1)] word_le_Suc [OF small(2)]
    by (auto simp: blank_def splits_inv_def)
  moreover have "spendable sv (ext s) a \<le> spendable sv x a" if "a \<noteq> ?cr" for a
    using costsD(1) [OF reg(2), of a] x0(5) [rule_format, OF that] that by simp
  moreover have "?col < ?col + 1"
    using \<open>unat (?col + 1) = unat ?col + 1\<close> by (simp only: word_less_nat_alt)
  ultimately show thesis
    using that [OF run shop] reg(5) by (simp add: kept_def rights_kept_def)
qed

lemma splits_run:
  assumes laws: "bench_laws cfg sv b" and shop: "shop cfg sv b c m k s" and "n \<le> MAX_ROYALTY_SPLITS"
  obtains s' where "set_splits_from b c n offset s = Inr s'"
    "s' = s\<lparr>royalty_splits := (royalty_splits s)(c := bench_splits b n offset)\<rparr>"
    "shop cfg sv b c m k s'" "length (royalty_splits s' c) = unat n"
proof -
  let ?sps = "bench_splits b n offset"
  have len: "length ?sps = unat n" by (simp add: bench_splits_def)
  have n: "unat n \<le> 10" using assms(3) by (simp add: word_le_nat_alt MAX_ROYALTY_SPLITS_def)
  have sps: "decode_account cfg (recipient sp) \<noteq> None \<and> basis_points sp = 1000" if "sp \<in> set ?sps" for sp
    using that bench_decodes [OF laws] by (auto simp: bench_splits_def)
  have "total_basis_points ?sps = unat n * 1000"
    by (simp add: total_basis_points_def bench_splits_def comp_def sum_list_triv)
  then have "valid_splits ?sps" using n len by (simp add: valid_splits_def MAX_ROYALTY_SPLITS_def)
  with shop sps have "shop cfg sv b c m k (s\<lparr>royalty_splits := (royalty_splits s)(c := ?sps)\<rparr>)"
    by (simp add: shop_def on_sale_def splits_inv_def)
  with that [OF _ refl] len n show thesis
    by (simp add: set_splits_from_def MAX_ROYALTY_SPLITS_def)
qed

section \<open>Calls\<close>

lemma subscribe_run:
  assumes laws: "bench_laws cfg sv b" and law: "obliging cfg sv" and shop: "shop cfg sv b c m (Suc k) s"
    and free: "subscriptions s (c, ben) = None"
    and payer: "unat PRICE \<le> spendable sv (ext s) who" "who \<noteq> creator m"
    and act: "act = Subscribe c \<and> ben = who \<or> act = XcmSubscribe c ben"
  obtains w s' where "dispatch cfg (Signed who) act s = Inr (w, s')" "shop cfg sv b c m k s'"
    "sold cfg sv m who (unat PRICE) s s'"
    "subscriptions s' = (subscriptions s)((c, ben) \<mapsto>
       \<lparr>expiry_block = saturating_add (current_block s) (period_length m), auto_renew = False,
        sub_child_item_id = next_item_id s (collection_id m)\<rparr>)"
    "view_packs s' = view_packs s" "ownership s' = ownership s"
proof -
  have sale: "contents s c = Some m" "subscription_price m = PRICE"
    using shop by (simp_all add: shop_def on_sale_def)
  obtain x1 evs1 s2 where run:
    "pay_with_royalties cfg who (creator m) c PRICE s =
       Inr (of_nat (length (royalty_splits s c)), s\<lparr>ext := x1, events := evs1\<rparr>)"
    "mint_and_nest_child cfg (creator m) ben (collection_id m) (content_item_id m) Subscription
       (s\<lparr>ext := x1, events := evs1\<rparr>) = Inr (next_item_id s (collection_id m), s2)"
    "shop cfg sv b c m k s2" "sold cfg sv m who (unat PRICE) s s2" "rights_kept s s2"
    using shop_sells [OF laws law shop, of PRICE 1 who ben Subscription] payer by simp metis
  let ?sub = "\<lparr>expiry_block = saturating_add (current_block s) (period_length m), auto_renew = False,
    sub_child_item_id = next_item_id s (collection_id m)\<rparr>"
  let ?s = "s2\<lparr>subscriptions := (subscriptions s)((c, ben) \<mapsto> ?sub)\<rparr>"
  have "current_block s2 = current_block s" using run(4) by (simp add: sold_def keptD)
  then obtain w e where fin: "dispatch cfg (Signed who) act s = Inr (w, deposit_event e ?s)"
    using act free run sale
    by (auto simp: subscribe_def xcm_subscribe_def post_info_def Let_def rights_kept_def)
  show thesis
    using run(3-5) by (intro that [OF fin]) (simp_all add: shop_def sold_def kept_def rights_kept_def deposit_event_def)
qed

lemma ownership_run:
  assumes laws: "bench_laws cfg sv b" and law: "obliging cfg sv" and shop: "shop cfg sv b c m (Suc k) s"
    and free: "ownership s (c, ben) = None"
    and payer: "unat PRICE \<le> spendable sv (ext s) who" "who \<noteq> creator m"
    and act: "act = PurchaseOwnership c \<and> ben = who \<or> act = XcmPurchaseOwnership c ben"
  obtains w s' where "dispatch cfg (Signed who) act s = Inr (w, s')" "shop cfg sv b c m k s'"
    "sold cfg sv m who (unat PRICE) s s'"
    "ownership s' = (ownership s)((c, ben) \<mapsto> \<lparr>own_child_item_id = next_item_id s (collection_id m)\<rparr>)"
proof -
  have sale: "contents s c = Some m" "ownership_price m = PRICE"
    using shop by (simp_all add: shop_def on_sale_def)
  obtain x1 evs1 s2 where run:
    "pay_with_royalties cfg who (creator m) c PRICE s =
       Inr (of_nat (length (royalty_splits s c)), s\<lparr>ext := x1, events := evs1\<rparr>)"
    "mint_and_nest_child cfg (creator m) ben (collection_id m) (content_item_id m) Ownership
       (s\<lparr>ext := x1, events := evs1\<rparr>) = Inr (next_item_id s (collection_id m), s2)"
    "shop cfg sv b c m k s2" "sold cfg sv m who (unat PRICE) s s2" "rights_kept s s2"
    using shop_sells [OF laws law shop, of PRICE 1 who ben Ownership] payer by simp metis
  let ?s = "s2\<lparr>ownership := (ownership s)((c, ben) \<mapsto> \<lparr>own_child_item_id = next_item_id s (collection_id m)\<rparr>)\<rparr>"
  obtain w e where fin: "dispatch cfg (Signed who) act s = Inr (w, deposit_event e ?s)"
    using act free run sale
    by (auto simp: purchase_ownership_def xcm_purchase_ownership_def post_info_def Let_def rights_kept_def)
  show thesis
    using run(3-5) by (intro that [OF fin]) (simp_all add: shop_def sold_def kept_def rights_kept_def deposit_event_def)
qed

lemma views_run:
  assumes laws: "bench_laws cfg sv b" and law: "obliging cfg sv" and shop: "shop cfg sv b c m (Suc k) s"
    and free: "view_packs s (c, ben) = None" and n: "0 < n" "n \<le> 10"
    and payer: "unat n * unat PRICE \<le> spendable sv (ext s) who" "who \<noteq> creator m"
    and act: "act = PurchaseViews c n \<and> ben = who \<or> act = XcmPurchaseViews c ben n"
  obtains w s' where "dispatch cfg (Signed who) act s = Inr (w, s')" "shop cfg sv b c m k s'"
    "sold cfg sv m who (unat n * unat PRICE) s s'"
    "view_packs s' = (view_packs s)((c, ben) \<mapsto>
       \<lparr>views_remaining = n, pack_child_item_id = next_item_id s (collection_id m)\<rparr>)"
    "subscriptions s' = subscriptions s" "ownership s' = ownership s"
proof -
  let ?total = "PRICE * ucast n"
  have sale: "contents s c = Some m" "ppv_price m = PRICE"
    using shop by (simp_all add: shop_def on_sale_def)
  have q: "0 < unat n" "unat n \<le> 10" using n by (simp_all add: word_less_nat_alt word_le_nat_alt)
  then have fits: "unat PRICE * unat (ucast n :: u128) < 2 ^ 128" by (simp add: unat_PRICE)
  then have total: "checked_mul PRICE (ucast n) = Some ?total" by (simp add: checked_mul_def)
  have amount: "unat ?total = unat n * unat PRICE" using unat_mult_no_overflow [of PRICE "ucast n"] fits by simp
  obtain x1 evs1 s2 where run:
    "pay_with_royalties cfg who (creator m) c ?total s =
       Inr (of_nat (length (royalty_splits s c)), s\<lparr>ext := x1, events := evs1\<rparr>)"
    "mint_and_nest_child cfg (creator m) ben (collection_id m) (content_item_id m) PayPerView
       (s\<lparr>ext := x1, events := evs1\<rparr>) = Inr (next_item_id s (collection_id m), s2)"
    "shop cfg sv b c m k s2" "sold cfg sv m who (unat ?total) s s2" "rights_kept s s2"
    using shop_sells [OF laws law shop amount q, of who ben PayPerView] payer amount by simp metis
  let ?s = "s2\<lparr>view_packs := (view_packs s)((c, ben) \<mapsto>
    \<lparr>views_remaining = n, pack_child_item_id = next_item_id s (collection_id m)\<rparr>)\<rparr>"
  obtain w e where fin: "dispatch cfg (Signed who) act s = Inr (w, deposit_event e ?s)"
    using act free run sale n(1) total
    by (auto simp: purchase_views_def xcm_purchase_views_def do_purchase_views_def post_info_def rights_kept_def)
  show thesis
    using run(3-5) amount by (intro that [OF fin]) (simp_all add: shop_def sold_def kept_def rights_kept_def deposit_event_def)
qed

lemma consume_run:
  assumes law: "obliging cfg sv" and shop: "shop cfg sv b c m k s"
    and pack: "view_packs s (c, v) = Some \<lparr>views_remaining = 1, pack_child_item_id = i\<rparr>"
    and live: "(collection_id m, i) \<in> live_items sv (ext s)"
    and act: "act = ConsumeView c \<and> v = who \<or> act = ConsumeViewFor c v \<and> meters s c = Some who"
  obtains w s' where "dispatch cfg (Signed who) act s = Inr (w, s')" "view_packs s' (c, v) = None"
proof -
  have con: "contents s c = Some m" using shop by (simp add: shop_def on_sale_def)
  obtain x where "nfts_do_burn cfg (collection_id m) i (ext s) = Inr x" using obliging_burn [OF law live] by metis
  then obtain s' where "do_consume_view cfg c v s = Inr s'" "view_packs s' (c, v) = None"
    using con pack by (simp add: do_consume_view_def saturating_sub_def Let_def)
  with act that show thesis by (auto simp: consume_view_def consume_view_for_def no_post_info_def)
qed

lemma transfer_run:
  assumes law: "obliging cfg sv" and shop: "shop cfg sv b c m (Suc k) s"
    and own: "ownership s (c, who) = Some \<lparr>own_child_item_id = i\<rparr>" "ownership s (c, to) = None"
    and live: "(collection_id m, i) \<in> live_items sv (ext s)"
    and act: "act = TransferOwnership c to \<or> act = XcmTransferOwnership c who to"
  obtains w s' where "dispatch cfg (Signed who) act s = Inr (w, s')" "ownership s' (c, to) \<noteq> None"
proof -
  have con: "contents s c = Some m" using shop by (simp add: shop_def on_sale_def)
  have "move_serviceable sv c who s"
    using shop con own live
    by (simp add: move_serviceable_def with_content_def shop_def stocked_def nestable_def has_successor_def)
  from transfer_ownership_ok [OF law con own this]
  obtain s1 s2 where "transfer_ownership cfg (Signed who) c to s = Inr s1"
    "xcm_transfer_ownership cfg (Signed who) c who to s = Inr s2" by (auto simp: is_ok_iff)
  moreover from this have "ownership s1 (c, to) \<noteq> None" "ownership s2 (c, to) \<noteq> None"
    by (auto simp: transfer_ownership_def xcm_transfer_ownership_def Let_def result_simps deposit_event_def
        split: prod.splits)
  ultimately show thesis using act that by (auto simp: no_post_info_def)
qed

lemma renew_run:
  assumes laws: "bench_laws cfg sv b" and law: "obliging cfg sv" and sale: "on_sale cfg b c m s"
    and sub: "subscriptions s (c, ben) = Some sub" "expiry_block sub \<le> current_block s"
    and payer: "unat PRICE \<le> spendable sv (ext s) who"
    and act: "act = RenewSubscription c \<and> ben = who \<or> act = XcmRenewSubscription c ben"
  obtains w s' where "dispatch cfg (Signed who) act s = Inr (w, s')"
    "subscriptions s' (c, ben) = Some (sub\<lparr>expiry_block := saturating_add (current_block s) (period_length m)\<rparr>)"
proof -
  have con: "contents s c = Some m" "subscription_price m = PRICE" using sale by (simp_all add: on_sale_def)
  obtain x evs where pay: "pay_with_royalties cfg who (creator m) c PRICE s =
      Inr (of_nat (length (royalty_splits s c)), s\<lparr>ext := x, events := evs\<rparr>)"
    using shop_pays [OF laws law sale, of PRICE 1 who] payer by simp metis
  show thesis
    using act con sub pay that
    by (auto simp: renew_subscription_def xcm_renew_subscription_def post_info_def Let_def deposit_event_def
        update_subscription_def)
qed

section \<open>The start of a benchmark\<close>

text \<open>
  A benchmark starts on a chain on which the contents to register and the buckets ahead are new, and
  whose block number is far from the largest one.
\<close>

definition bench_ready ::
  "('a, 'x) config \<Rightarrow> ('a, 'x) service \<Rightarrow> ('a, 'x) bench_env \<Rightarrow> ('a, 'x) state \<Rightarrow> bool" where
  "bench_ready cfg sv b s \<longleftrightarrow>
     bench_laws cfg sv b \<and> obliging cfg sv \<and> lawful cfg \<and> blank cfg sv 10 s \<and>
     (\<forall>n. renewal_queue s n = []) \<and>
     block_number s + unat (min_auto_renew_period cfg) + 300 < 2 ^ 32"

lemma bench_readyD:
  assumes "bench_ready cfg sv b s"
  shows "bench_laws cfg sv b" "obliging cfg sv" "lawful cfg" "blank cfg sv 10 s" "renewal_queue s n = []"
    "unat (current_block s) + unat (min_auto_renew_period cfg) + 300 < 2 ^ 32"
  using assms by (simp_all add: bench_ready_def current_block_def try_into_u32_def unat_of_nat)

text \<open>The registered content: nobody holds a right to it.\<close>

definition unsold :: "u32 \<Rightarrow> ('a, 'x) state \<Rightarrow> bool" where
  "unsold c s \<longleftrightarrow> (\<forall>a. subscriptions s (c, a) = None \<and> view_packs s (c, a) = None \<and> ownership s (c, a) = None)"

lemma register_start:
  assumes "bench_ready cfg sv b st"
  obtains c m s where "register b cfg l st = Inr ((c, account b ''creator'' 0 SEED), s)"
    "shop cfg sv b c m 2400 s" "period_length m = l" "unsold c s" "kept st s"
    "creator m = account b ''creator'' 0 SEED"
proof -
  note ready = bench_readyD [OF assms]
  have "blank cfg sv (Suc 9) st" using ready(4) by simp
  from register_run [OF ready(1-3) this, of l] obtain s m where reg:
    "register b cfg l st = Inr ((next_content_id st, account b ''creator'' 0 SEED), s)"
    "shop cfg sv b (next_content_id st) m 2400 s" "period_length m = l" "kept st s" "rights_kept st s"
    by metis
  moreover have "unsold (next_content_id st) s"
    using ready(4) reg(5) by (simp add: unsold_def blank_def rights_kept_def)
  moreover have "creator m = account b ''creator'' 0 SEED" using reg(2) by (simp add: shop_def on_sale_def)
  ultimately show thesis by (intro that)
qed

lemma caller_start:
  assumes laws: "bench_laws cfg sv b" and shop: "shop cfg sv b c m k s"
  obtains x where "caller b s = (whitelisted_caller b, s\<lparr>ext := x\<rparr>)" "shop cfg sv b c m k (s\<lparr>ext := x\<rparr>)"
    "12 * unat PRICE \<le> spendable sv x (whitelisted_caller b)" "whitelisted_caller b \<noteq> creator m"
proof -
  have "whitelisted_caller b \<noteq> creator m"
    using shop bench_accounts(3) [OF laws] by (simp add: shop_def on_sale_def)
  from shop_fund [OF laws shop this] this that show thesis by (metis caller_def)
qed

lemma splits_start:
  assumes "bench_laws cfg sv b" and "shop cfg sv b c m k s" and "n \<le> MAX_ROYALTY_SPLITS"
  obtains s' where "set_splits b c n s = Inr s'" "shop cfg sv b c m k s'"
    "s' = s\<lparr>royalty_splits := (royalty_splits s)(c := bench_splits b n 0)\<rparr>"
    "length (royalty_splits s' c) = unat n"
  using splits_run [OF assms, of 0] unfolding set_splits_def by metis

lemma sale_start:
  assumes ready: "bench_ready cfg sv b st" and n: "n \<le> MAX_ROYALTY_SPLITS"
  obtains c m s1 s2 s where
    "register b cfg l st = Inr ((c, account b ''creator'' 0 SEED), s1)" "set_splits b c n s1 = Inr s2"
    "caller b s2 = (whitelisted_caller b, s)" "shop cfg sv b c m (Suc 2399) s" "unsold c s"
    "12 * unat PRICE \<le> spendable sv (ext s) (whitelisted_caller b)" "whitelisted_caller b \<noteq> creator m"
proof -
  note laws = bench_readyD(1) [OF ready]
  obtain c m s1 where reg: "register b cfg l st = Inr ((c, account b ''creator'' 0 SEED), s1)"
    "shop cfg sv b c m 2400 s1" "unsold c s1" using register_start [OF ready] by metis
  obtain s2 where sp: "set_splits b c n s1 = Inr s2" "shop cfg sv b c m 2400 s2"
    "s2 = s1\<lparr>royalty_splits := (royalty_splits s1)(c := bench_splits b n 0)\<rparr>"
    using splits_start [OF laws reg(2) n] by metis
  obtain x where call: "caller b s2 = (whitelisted_caller b, s2\<lparr>ext := x\<rparr>)" "shop cfg sv b c m 2400 (s2\<lparr>ext := x\<rparr>)"
    "12 * unat PRICE \<le> spendable sv x (whitelisted_caller b)" "whitelisted_caller b \<noteq> creator m"
    by (rule caller_start [OF laws sp(2)])
  show thesis
    using that [OF reg(1) sp(1) call(1)] call(2-4) reg(3) by (simp add: sp(3) unsold_def)
qed

end
