(* ===== verification/Rights_Benchmarks.thy ===== *)
theory Rights_Benchmarks
  imports Bench_Steps
begin

text \<open>
  The benchmarks run to the end on every chain whose pallets oblige: the set-up code never panics,
  the measured calls succeed and the assertions hold, for every value of the components. The hook
  benchmarks reach the worst case that their documentation promises: all due renewals are paid, with
  all the royalty transfers asked for, search the whole window and find no slot.
\<close>

section \<open>The benchmarks pass\<close>

lemmas bench_simps = prepare_def extrinsic_call_def assert_def Let_def

lemma bench_register_content_ok:
  assumes ready: "bench_ready cfg sv b st"
  shows "is_ok (bench_register_content b cfg st)"
proof -
  note facts = bench_readyD [OF ready]
  let ?who = "whitelisted_caller b"
  obtain x where x: "fund b ?who st = st\<lparr>ext := x\<rparr>" "live_items sv x = live_items sv (ext st)"
    "collection_owner sv x = collection_owner sv (ext st)"
    "collection_counter cfg x = collection_counter cfg (ext st)"
    "\<forall>a. a \<noteq> ?who \<longrightarrow> spendable sv x a = spendable sv (ext st) a" "12 * unat PRICE \<le> spendable sv x ?who"
    "unat (nfts_collection_deposit cfg) + 5000 * item_deposit sv \<le> spendable sv x ?who"
    using fund_run [OF facts(1), of ?who st] by blast
  have "blank cfg sv (Suc 9) (st\<lparr>ext := x\<rparr>)"
    using facts(4) x(2-4) by (simp add: blank_def splits_inv_def)
  moreover have "unat (nfts_collection_deposit cfg) + item_deposit sv \<le> spendable sv (ext (st\<lparr>ext := x\<rparr>)) ?who"
    using x(7) by simp
  ultimately obtain s' where
    "register_content cfg (Signed ?who) (replicate 32 7) bench_title PRICE PRICE PRICE 100 (st\<lparr>ext := x\<rparr>) = Inr s'"
    "contents s' (next_content_id st) \<noteq> None"
    by (rule register_content_run [OF facts(2,3), where l = 100]) auto
  then show ?thesis
    by (auto simp: bench_register_content_def caller_def x(1) bench_simps no_post_info_def)
qed

lemma bench_subscribe_ok:
  assumes ready: "bench_ready cfg sv b st" and n: "n \<le> MAX_ROYALTY_SPLITS"
  shows "is_ok (bench_subscribe b cfg n st)" and "is_ok (bench_xcm_subscribe b cfg n st)"
proof -
  note laws = bench_readyD(1,2) [OF ready]
  let ?who = "whitelisted_caller b" and ?ben = "account b ''beneficiary'' 0 SEED"
  obtain c m s1 s2 s where start: "register b cfg 100 st = Inr ((c, account b ''creator'' 0 SEED), s1)"
    "set_splits b c n s1 = Inr s2" "caller b s2 = (?who, s)" "shop cfg sv b c m (Suc 2399) s" "unsold c s"
    "12 * unat PRICE \<le> spendable sv (ext s) ?who" "?who \<noteq> creator m"
    by (rule sale_start [OF ready n])
  have free: "subscriptions s (c, a) = None" for a using start(5) by (simp add: unsold_def)
  have rich: "unat PRICE \<le> spendable sv (ext s) ?who" using start(6) by simp
  note run = subscribe_run [OF laws start(4) free rich start(7)]
  obtain w s' where "dispatch cfg (Signed ?who) (Subscribe c) s = Inr (w, s')" "subscriptions s' (c, ?who) \<noteq> None"
    by (rule run [of "Subscribe c" ?who]) auto
  then show "is_ok (bench_subscribe b cfg n st)" using start by (auto simp: bench_subscribe_def bench_simps)
  obtain w s' where "dispatch cfg (Signed ?who) (XcmSubscribe c ?ben) s = Inr (w, s')"
      "subscriptions s' (c, ?ben) \<noteq> None"
    by (rule run [of "XcmSubscribe c ?ben" ?ben]) auto
  then show "is_ok (bench_xcm_subscribe b cfg n st)" using start by (auto simp: bench_xcm_subscribe_def bench_simps)
qed

lemma bench_ownership_ok:
  assumes ready: "bench_ready cfg sv b st" and n: "n \<le> MAX_ROYALTY_SPLITS"
  shows "is_ok (bench_purchase_ownership b cfg n st)" and "is_ok (bench_xcm_purchase_ownership b cfg n st)"
proof -
  note laws = bench_readyD(1,2) [OF ready]
  let ?who = "whitelisted_caller b" and ?ben = "account b ''beneficiary'' 0 SEED"
  obtain c m s1 s2 s where start: "register b cfg 100 st = Inr ((c, account b ''creator'' 0 SEED), s1)"
    "set_splits b c n s1 = Inr s2" "caller b s2 = (?who, s)" "shop cfg sv b c m (Suc 2399) s" "unsold c s"
    "12 * unat PRICE \<le> spendable sv (ext s) ?who" "?who \<noteq> creator m"
    by (rule sale_start [OF ready n])
  have free: "ownership s (c, a) = None" for a using start(5) by (simp add: unsold_def)
  have rich: "unat PRICE \<le> spendable sv (ext s) ?who" using start(6) by simp
  note run = ownership_run [OF laws start(4) free rich start(7)]
  obtain w s' where "dispatch cfg (Signed ?who) (PurchaseOwnership c) s = Inr (w, s')"
      "ownership s' (c, ?who) \<noteq> None"
    by (rule run [of "PurchaseOwnership c" ?who]) auto
  then show "is_ok (bench_purchase_ownership b cfg n st)"
    using start by (auto simp: bench_purchase_ownership_def bench_simps)
  obtain w s' where "dispatch cfg (Signed ?who) (XcmPurchaseOwnership c ?ben) s = Inr (w, s')"
      "ownership s' (c, ?ben) \<noteq> None"
    by (rule run [of "XcmPurchaseOwnership c ?ben" ?ben]) auto
  then show "is_ok (bench_xcm_purchase_ownership b cfg n st)"
    using start by (auto simp: bench_xcm_purchase_ownership_def bench_simps)
qed

lemma bench_views_ok:
  assumes ready: "bench_ready cfg sv b st" and n: "n \<le> MAX_ROYALTY_SPLITS"
  shows "is_ok (bench_purchase_views b cfg n st)" and "is_ok (bench_xcm_purchase_views b cfg n st)"
proof -
  note laws = bench_readyD(1,2) [OF ready]
  let ?who = "whitelisted_caller b" and ?ben = "account b ''beneficiary'' 0 SEED"
  obtain c m s1 s2 s where start: "register b cfg 100 st = Inr ((c, account b ''creator'' 0 SEED), s1)"
    "set_splits b c n s1 = Inr s2" "caller b s2 = (?who, s)" "shop cfg sv b c m (Suc 2399) s" "unsold c s"
    "12 * unat PRICE \<le> spendable sv (ext s) ?who" "?who \<noteq> creator m"
    by (rule sale_start [OF ready n])
  have free: "view_packs s (c, a) = None" for a using start(5) by (simp add: unsold_def)
  have rich: "unat (10 :: u32) * unat PRICE \<le> spendable sv (ext s) ?who" using start(6) by simp
  note run = views_run [OF laws start(4) free _ _ rich start(7)]
  obtain w s' where "dispatch cfg (Signed ?who) (PurchaseViews c 10) s = Inr (w, s')"
      "view_packs s' (c, ?who) \<noteq> None"
    by (rule run [of "PurchaseViews c 10" ?who]) auto
  then show "is_ok (bench_purchase_views b cfg n st)"
    using start by (auto simp: bench_purchase_views_def bench_simps)
  obtain w s' where "dispatch cfg (Signed ?who) (XcmPurchaseViews c ?ben 10) s = Inr (w, s')"
      "view_packs s' (c, ?ben) \<noteq> None"
    by (rule run [of "XcmPurchaseViews c ?ben 10" ?ben]) auto
  then show "is_ok (bench_xcm_purchase_views b cfg n st)"
    using start by (auto simp: bench_xcm_purchase_views_def bench_simps)
qed

text \<open>Benchmarks that start without splits.\<close>

lemma plain_start:
  assumes ready: "bench_ready cfg sv b st"
  obtains c m s1 s where
    "register b cfg l st = Inr ((c, account b ''creator'' 0 SEED), s1)"
    "caller b s1 = (whitelisted_caller b, s)" "shop cfg sv b c m (Suc (Suc 2398)) s" "unsold c s"
    "12 * unat PRICE \<le> spendable sv (ext s) (whitelisted_caller b)" "whitelisted_caller b \<noteq> creator m"
    "current_block s = current_block st" "period_length m = l" "\<forall>n. renewal_queue s n = []"
proof -
  note laws = bench_readyD(1) [OF ready]
  obtain c m s1 where reg: "register b cfg l st = Inr ((c, account b ''creator'' 0 SEED), s1)"
    "shop cfg sv b c m 2400 s1" "unsold c s1" "kept st s1" "period_length m = l"
    using register_start [OF ready] by metis
  obtain x where call: "caller b s1 = (whitelisted_caller b, s1\<lparr>ext := x\<rparr>)" "shop cfg sv b c m 2400 (s1\<lparr>ext := x\<rparr>)"
    "12 * unat PRICE \<le> spendable sv x (whitelisted_caller b)" "whitelisted_caller b \<noteq> creator m"
    by (rule caller_start [OF laws reg(2)])
  show thesis
    using that [OF reg(1) call(1)] call(2-4) reg(3,5) bench_readyD(5) [OF ready]
    by (simp add: unsold_def keptD [OF reg(4)])
qed

lemma set_block_now: "current_block (set_block n s) = n"
  using unat_less_pow [of n] by (simp add: set_block_def current_block_def try_into_u32_def)

lemma renew_cycle:
  assumes laws: "bench_laws cfg sv b" "obliging cfg sv" and shop: "shop cfg sv b c m (Suc k) s"
    and free: "subscriptions s (c, ben) = None"
    and payer: "12 * unat PRICE \<le> spendable sv (ext s) who" "who \<noteq> creator m"
    and n: "n \<le> MAX_ROYALTY_SPLITS"
    and expiry: "expiry = saturating_add (current_block s) (period_length m)"
    and acts: "sact = Subscribe c \<and> ben = who \<and> ract = RenewSubscription c \<or>
      sact = XcmSubscribe c ben \<and> ract = XcmRenewSubscription c ben"
  obtains w s3 s4 sub w' s5 where "dispatch cfg (Signed who) sact s = Inr (w, s3)"
    "set_splits b c n s3 = Inr s4" "subscriptions s4 (c, ben) = Some sub" "expiry_block sub = expiry"
    "dispatch cfg (Signed who) ract (set_block expiry s4) = Inr (w', s5)"
    "subscriptions s5 (c, ben) = Some (sub\<lparr>expiry_block := saturating_add expiry (period_length m)\<rparr>)"
proof -
  let ?sub = "\<lparr>expiry_block = expiry, auto_renew = False, sub_child_item_id = next_item_id s (collection_id m)\<rparr>"
  have rich: "unat PRICE \<le> spendable sv (ext s) who" using payer(1) by simp
  have "sact = Subscribe c \<and> ben = who \<or> sact = XcmSubscribe c ben" using acts by blast
  then obtain w s3 where sub: "dispatch cfg (Signed who) sact s = Inr (w, s3)" "shop cfg sv b c m k s3"
    "sold cfg sv m who (unat PRICE) s s3" "subscriptions s3 = (subscriptions s)((c, ben) \<mapsto> ?sub)"
    using subscribe_run [OF laws shop free rich payer(2)] expiry by metis
  obtain s4 where sp: "set_splits b c n s3 = Inr s4" "shop cfg sv b c m k s4"
    "s4 = s3\<lparr>royalty_splits := (royalty_splits s3)(c := bench_splits b n 0)\<rparr>"
    using splits_start [OF laws(1) sub(2) n] by metis
  have sale: "on_sale cfg b c m (set_block expiry s4)" using sp(2) by (simp add: shop_def set_block_def)
  have sub4: "subscriptions (set_block expiry s4) (c, ben) = Some ?sub"
    by (simp add: set_block_def sp(3) sub(4))
  have "spendable sv (ext s) who \<le> spendable sv (ext s3) who + unat PRICE"
    using sold_spendable [OF sub(3), of who] payer(2) by simp
  then have rich': "unat PRICE \<le> spendable sv (ext (set_block expiry s4)) who"
    using payer(1) by (simp add: set_block_def sp(3))
  have "ract = RenewSubscription c \<and> ben = who \<or> ract = XcmRenewSubscription c ben" using acts by blast
  from renew_run [OF laws sale sub4 _ rich' this] obtain w' s5 where
    "dispatch cfg (Signed who) ract (set_block expiry s4) = Inr (w', s5)"
    "subscriptions s5 (c, ben) = Some (?sub\<lparr>expiry_block := saturating_add expiry (period_length m)\<rparr>)"
    by (auto simp: set_block_now)
  with that [OF sub(1) sp(1)] sub4 show thesis by (simp add: set_block_def)
qed

lemma bench_renew_ok:
  assumes ready: "bench_ready cfg sv b st" and n: "n \<le> MAX_ROYALTY_SPLITS"
  shows "is_ok (bench_renew_subscription b cfg n st)" and "is_ok (bench_xcm_renew_subscription b cfg n st)"
proof -
  note laws = bench_readyD(1,2) [OF ready]
  let ?who = "whitelisted_caller b" and ?ben = "account b ''beneficiary'' 0 SEED"
  obtain c m s1 s where start: "register b cfg 100 st = Inr ((c, account b ''creator'' 0 SEED), s1)"
    "caller b s1 = (?who, s)" "shop cfg sv b c m (Suc (Suc 2398)) s" "unsold c s"
    "12 * unat PRICE \<le> spendable sv (ext s) ?who" "?who \<noteq> creator m"
    "current_block s = current_block st" "period_length m = 100" "\<forall>n. renewal_queue s n = []"
    by (rule plain_start [OF ready])
  let ?expiry = "saturating_add (current_block s) 100"
  have expiry: "?expiry < saturating_add ?expiry 100"
    using bench_readyD(6) [OF ready] by (simp add: word_less_nat_alt machine_arith start(7))
  have free: "subscriptions s (c, a) = None" for a using start(4) by (simp add: unsold_def)
  note cycle = renew_cycle [OF laws start(3) free start(5,6) n refl, unfolded start(8)]
  show "is_ok (bench_renew_subscription b cfg n st)"
    by (rule cycle [of "Subscribe c" ?who "RenewSubscription c"])
       (use start(1,2) expiry in \<open>auto simp: bench_renew_subscription_def bench_simps\<close>)
  show "is_ok (bench_xcm_renew_subscription b cfg n st)"
    by (rule cycle [of "XcmSubscribe c ?ben" ?ben "XcmRenewSubscription c ?ben"])
       (use start(1,2) expiry in \<open>auto simp: bench_xcm_renew_subscription_def bench_simps\<close>)
qed

lemma bench_consume_view_ok:
  assumes ready: "bench_ready cfg sv b st"
  shows "is_ok (bench_consume_view b cfg st)"
proof -
  note laws = bench_readyD(1,2) [OF ready]
  let ?who = "whitelisted_caller b"
  obtain c m s1 s where start: "register b cfg 100 st = Inr ((c, account b ''creator'' 0 SEED), s1)"
    "caller b s1 = (?who, s)" "shop cfg sv b c m (Suc (Suc 2398)) s" "unsold c s"
    "12 * unat PRICE \<le> spendable sv (ext s) ?who" "?who \<noteq> creator m"
    "current_block s = current_block st" "period_length m = 100" "\<forall>n. renewal_queue s n = []"
    by (rule plain_start [OF ready])
  have free: "view_packs s (c, ?who) = None" using start(4) by (simp add: unsold_def)
  have rich: "unat (1 :: u32) * unat PRICE \<le> spendable sv (ext s) ?who" using start(5) by simp
  obtain w s2 where views: "dispatch cfg (Signed ?who) (PurchaseViews c 1) s = Inr (w, s2)"
    "shop cfg sv b c m (Suc 2398) s2" "sold cfg sv m ?who (unat (1 :: u32) * unat PRICE) s s2"
    "view_packs s2 = (view_packs s)((c, ?who) \<mapsto>
       \<lparr>views_remaining = 1, pack_child_item_id = next_item_id s (collection_id m)\<rparr>)"
    by (rule views_run [OF laws start(3) free _ _ rich start(6), of "PurchaseViews c 1"]) simp_all
  obtain w' s3 where "dispatch cfg (Signed ?who) (ConsumeView c) s2 = Inr (w', s3)" "view_packs s3 (c, ?who) = None"
    by (rule consume_run [OF laws(2) views(2), of ?who "next_item_id s (collection_id m)" "ConsumeView c" ?who])
       (use views(3,4) in \<open>simp_all add: sold_def\<close>)
  then show ?thesis
    using start(1,2) views(1) by (simp add: bench_consume_view_def bench_simps)
qed

lemma bench_check_access_ok:
  assumes ready: "bench_ready cfg sv b st"
  shows "is_ok (bench_check_access b cfg st)"
proof -
  note laws = bench_readyD(1,2) [OF ready]
  let ?who = "whitelisted_caller b"
  obtain c m s1 s where start: "register b cfg 100 st = Inr ((c, account b ''creator'' 0 SEED), s1)"
    "caller b s1 = (?who, s)" "shop cfg sv b c m (Suc (Suc 2398)) s" "unsold c s"
    "12 * unat PRICE \<le> spendable sv (ext s) ?who" "?who \<noteq> creator m"
    "current_block s = current_block st" "period_length m = 100" "\<forall>n. renewal_queue s n = []"
    by (rule plain_start [OF ready])
  have free: "subscriptions s (c, ?who) = None" "view_packs s (c, ?who) = None" "ownership s (c, ?who) = None"
    using start(4) by (simp_all add: unsold_def)
  have rich: "unat PRICE \<le> spendable sv (ext s) ?who" using start(5) by simp
  let ?expiry = "saturating_add (current_block s) 100"
  obtain w2 t2 where sub: "dispatch cfg (Signed ?who) (Subscribe c) s = Inr (w2, t2)"
    "shop cfg sv b c m (Suc 2398) t2" "sold cfg sv m ?who (unat PRICE) s t2"
    "subscriptions t2 = (subscriptions s)((c, ?who) \<mapsto> \<lparr>expiry_block = ?expiry, auto_renew = False,
       sub_child_item_id = next_item_id s (collection_id m)\<rparr>)"
    "view_packs t2 = view_packs s" "ownership t2 = ownership s"
    using subscribe_run [OF laws start(3) free(1) rich start(6), of "Subscribe c"] start(8) by metis
  have rich2: "unat (1 :: u32) * unat PRICE \<le> spendable sv (ext t2) ?who"
    using sold_spendable [OF sub(3), of ?who] start(5,6) by simp
  have free2: "view_packs t2 (c, ?who) = None" using free(2) sub(5) by simp
  obtain w3 t3 where pack: "dispatch cfg (Signed ?who) (PurchaseViews c 1) t2 = Inr (w3, t3)"
    "shop cfg sv b c m 2398 t3"
    "view_packs t3 = (view_packs t2)((c, ?who) \<mapsto>
       \<lparr>views_remaining = 1, pack_child_item_id = next_item_id t2 (collection_id m)\<rparr>)"
    "subscriptions t3 = subscriptions t2" "ownership t3 = ownership t2"
    by (rule views_run [OF laws sub(2) free2 _ _ rich2 start(6), of "PurchaseViews c 1"]) simp_all
  have "access_rights c ?who (deposit_event e (set_block ?expiry t3)) = Some PayPerView" for e
    using pack(3-5) sub(4,6) free(3) set_block_now [of ?expiry t3]
    by (simp add: access_rights_def set_block_def deposit_event_def)
  moreover have "contents (set_block ?expiry t3) c \<noteq> None"
    using pack(2) by (simp add: shop_def on_sale_def set_block_def)
  ultimately show ?thesis
    using start(1,2) sub(1,4) pack(1,4)
    by (simp add: bench_check_access_def bench_simps check_access_def no_post_info_def)
qed

lemma bench_transfer_ok:
  assumes ready: "bench_ready cfg sv b st"
  shows "is_ok (bench_transfer_ownership b cfg st)" and "is_ok (bench_xcm_transfer_ownership b cfg st)"
proof -
  note laws = bench_readyD(1,2) [OF ready]
  let ?who = "whitelisted_caller b" and ?to = "account b ''to'' 0 SEED"
  obtain c m s1 s where start: "register b cfg 100 st = Inr ((c, account b ''creator'' 0 SEED), s1)"
    "caller b s1 = (?who, s)" "shop cfg sv b c m (Suc (Suc 2398)) s" "unsold c s"
    "12 * unat PRICE \<le> spendable sv (ext s) ?who" "?who \<noteq> creator m"
    "current_block s = current_block st" "period_length m = 100" "\<forall>n. renewal_queue s n = []"
    by (rule plain_start [OF ready])
  have free: "ownership s (c, a) = None" for a using start(4) by (simp add: unsold_def)
  have rich: "unat PRICE \<le> spendable sv (ext s) ?who" using start(5) by simp
  obtain w s2 where buy: "dispatch cfg (Signed ?who) (PurchaseOwnership c) s = Inr (w, s2)"
    "shop cfg sv b c m (Suc 2398) s2" "sold cfg sv m ?who (unat PRICE) s s2"
    "ownership s2 = (ownership s)((c, ?who) \<mapsto> \<lparr>own_child_item_id = next_item_id s (collection_id m)\<rparr>)"
    by (rule ownership_run [OF laws start(3) free rich start(6), of "PurchaseOwnership c" ?who]) simp_all
  have own: "ownership s2 (c, ?who) = Some \<lparr>own_child_item_id = next_item_id s (collection_id m)\<rparr>"
    "ownership s2 (c, ?to) = None" using buy(4) free bench_accounts(2) [OF laws(1)] by simp_all
  have live: "(collection_id m, next_item_id s (collection_id m)) \<in> live_items sv (ext s2)"
    using buy(3) by (simp add: sold_def)
  note run = transfer_run [OF laws(2) buy(2) own live]
  show "is_ok (bench_transfer_ownership b cfg st)"
    by (rule run [of "TransferOwnership c ?to"])
       (use start(1,2) buy(1) in \<open>auto simp: bench_transfer_ownership_def bench_simps\<close>)
  show "is_ok (bench_xcm_transfer_ownership b cfg st)"
    by (rule run [of "XcmTransferOwnership c ?who ?to"])
       (use start(1,2) buy(1) in \<open>auto simp: bench_xcm_transfer_ownership_def bench_simps\<close>)
qed

lemma bench_settings_ok:
  assumes ready: "bench_ready cfg sv b st" and n: "n \<le> MAX_ROYALTY_SPLITS"
  shows "is_ok (bench_set_royalty_splits b cfg n st)" and "is_ok (bench_set_meter b cfg st)"
    and "is_ok (bench_query_rights_metadata b cfg n st)"
proof -
  obtain c m s where reg: "register b cfg 100 st = Inr ((c, account b ''creator'' 0 SEED), s)"
    "shop cfg sv b c m 2400 s" "creator m = account b ''creator'' 0 SEED"
    using register_start [OF ready] by metis
  have con: "contents s c = Some m" using reg(2) by (simp add: shop_def on_sale_def)
  have len: "unat n \<le> 10" using n by (simp add: word_le_nat_alt MAX_ROYALTY_SPLITS_def)
  have "unat (sum_list (map (\<lambda>sp. ucast (basis_points sp) :: u32) (bench_splits b n 0))) \<le> 10000"
    using len unat_sum_basis_points [of "bench_splits b n 0"]
    by (simp add: bench_splits_def total_basis_points_def comp_def sum_list_triv MAX_ROYALTY_SPLITS_def)
  then show "is_ok (bench_set_royalty_splits b cfg n st)"
    using reg con len
    by (simp add: bench_set_royalty_splits_def bench_simps set_royalty_splits_def no_post_info_def
        word_le_nat_alt bench_splits_def MAX_ROYALTY_SPLITS_def deposit_event_def)
  show "is_ok (bench_set_meter b cfg st)"
    using reg con by (simp add: bench_set_meter_def bench_simps set_meter_def no_post_info_def deposit_event_def)
  obtain c m s1 s2 s where start: "register b cfg 100 st = Inr ((c, account b ''creator'' 0 SEED), s1)"
    "set_splits b c n s1 = Inr s2" "caller b s2 = (whitelisted_caller b, s)"
    "shop cfg sv b c m (Suc 2399) s" "unsold c s"
    "12 * unat PRICE \<le> spendable sv (ext s) (whitelisted_caller b)" "whitelisted_caller b \<noteq> creator m"
    by (rule sale_start [OF ready n])
  then show "is_ok (bench_query_rights_metadata b cfg n st)"
    by (simp add: bench_query_rights_metadata_def bench_simps query_rights_metadata_def post_info_def
        shop_def on_sale_def)
qed

lemma bench_consume_view_for_ok:
  assumes ready: "bench_ready cfg sv b st"
  shows "is_ok (bench_consume_view_for b cfg st)"
proof -
  note laws = bench_readyD(1,2) [OF ready]
  let ?meter = "whitelisted_caller b" and ?viewer = "account b ''viewer'' 0 SEED"
    and ?cr = "account b ''creator'' 0 SEED"
  obtain c m s1 s where start: "register b cfg 100 st = Inr ((c, ?cr), s1)"
    "caller b s1 = (?meter, s)" "shop cfg sv b c m (Suc (Suc 2398)) s" "unsold c s"
    "12 * unat PRICE \<le> spendable sv (ext s) ?meter" "?meter \<noteq> creator m"
    "current_block s = current_block st" "period_length m = 100" "\<forall>n. renewal_queue s n = []"
    by (rule plain_start [OF ready])
  have con: "contents s c = Some m" "creator m = ?cr" using start(3) by (simp_all add: shop_def on_sale_def)
  have viewer: "?viewer \<noteq> creator m" using con(2) bench_accounts(1) [OF laws(1)] by simp
  obtain s2 where meter: "dispatch cfg (Signed ?cr) (SetMeter c (Some ?meter)) s = Inr (None, s2)"
    "shop cfg sv b c m (Suc (Suc 2398)) s2" "meters s2 c = Some ?meter" "view_packs s2 = view_packs s"
    using con start(3)
    by (simp add: set_meter_def no_post_info_def deposit_event_def shop_def)
  obtain x where x: "fund b ?viewer s2 = s2\<lparr>ext := x\<rparr>" "shop cfg sv b c m (Suc (Suc 2398)) (s2\<lparr>ext := x\<rparr>)"
    "12 * unat PRICE \<le> spendable sv x ?viewer"
    using shop_fund [OF laws(1) meter(2) viewer] by metis
  have rich: "unat (1 :: u32) * unat PRICE \<le> spendable sv (ext (s2\<lparr>ext := x\<rparr>)) ?viewer" using x(3) by simp
  have free: "view_packs (s2\<lparr>ext := x\<rparr>) (c, ?viewer) = None" using start(4) meter(4) by (simp add: unsold_def)
  obtain w s3 where views: "dispatch cfg (Signed ?viewer) (PurchaseViews c 1) (s2\<lparr>ext := x\<rparr>) = Inr (w, s3)"
    "shop cfg sv b c m (Suc 2398) s3" "sold cfg sv m ?viewer (unat (1 :: u32) * unat PRICE) (s2\<lparr>ext := x\<rparr>) s3"
    "view_packs s3 = (view_packs (s2\<lparr>ext := x\<rparr>))((c, ?viewer) \<mapsto>
       \<lparr>views_remaining = 1, pack_child_item_id = next_item_id (s2\<lparr>ext := x\<rparr>) (collection_id m)\<rparr>)"
    by (rule views_run [OF laws x(2) free _ _ rich viewer, of "PurchaseViews c 1"]) simp_all
  obtain w' s4 where "dispatch cfg (Signed ?meter) (ConsumeViewFor c ?viewer) s3 = Inr (w', s4)"
      "view_packs s4 (c, ?viewer) = None"
    by (rule consume_run [OF laws(2) views(2), of ?viewer "next_item_id s2 (collection_id m)" "ConsumeViewFor c ?viewer" ?meter])
       (use views(3,4) meter(3) in \<open>simp_all add: sold_def kept_def\<close>)
  then show ?thesis
    using start(1,2) meter(1) x(1) views(1)
    by (simp add: bench_consume_view_for_def bench_simps funded_def)
qed

section \<open>Buckets\<close>

lemma fill_buckets_eq:
  "fill_buckets b c start count s =
     s\<lparr>renewal_queue := \<lambda>n. if start \<le> n \<and> n < saturating_add start count then filler_bucket b c n
       else renewal_queue s n\<rparr>"
proof -
  let ?f = "\<lambda>block s. s\<lparr>renewal_queue := (renewal_queue s)(block := filler_bucket b c block)\<rparr>"
  have fold: "fold ?f ns s = s\<lparr>renewal_queue := \<lambda>n. if n \<in> set ns then filler_bucket b c n else renewal_queue s n\<rparr>"
    for ns and s :: "('a, 'x) state"
    by (induction ns arbitrary: s) (auto simp: fun_eq_iff intro!: state.fold_congs(8))
  have "n \<in> set (map of_nat [unat start..<unat (saturating_add start count)]) \<longleftrightarrow>
      start \<le> n \<and> n < saturating_add start count" for n :: u32
  proof
    assume "n \<in> set (map of_nat [unat start..<unat (saturating_add start count)])"
    then obtain i where i: "n = of_nat i" "unat start \<le> i" "i < unat (saturating_add start count)" by auto
    then have "unat n = i" using unat_less_pow [of "saturating_add start count"] by (simp add: unat_of_nat)
    with i show "start \<le> n \<and> n < saturating_add start count" by (simp add: word_le_nat_alt word_less_nat_alt)
  next
    assume "start \<le> n \<and> n < saturating_add start count"
    then have "unat n \<in> {unat start..<unat (saturating_add start count)}"
      by (simp add: word_le_nat_alt word_less_nat_alt)
    then have "of_nat (unat n) \<in> (of_nat :: nat \<Rightarrow> u32) ` {unat start..<unat (saturating_add start count)}"
      by (rule imageI)
    then show "n \<in> set (map of_nat [unat start..<unat (saturating_add start count)])" by simp
  qed
  then show ?thesis unfolding fill_buckets_def fold by presburger
qed

lemma fill_buckets_frame [simp]:
  "contents (fill_buckets b c start count s) = contents s"
  "subscriptions (fill_buckets b c start count s) = subscriptions s"
  by (simp_all add: fill_buckets_eq)

lemma enable_run:
  assumes "contents s c = Some m" and "min_auto_renew_period cfg \<le> period_length m"
    and "subscriptions s (c, a) = Some sub" "\<not> auto_renew sub" and "slot_free c a s"
  obtains s' where "dispatch cfg (Signed a) (EnableAutoRenew c) s = Inr (None, s')"
    "auto_renew_index s' (c, a) \<noteq> None" "subscriptions s' (c, a) = Some (sub\<lparr>auto_renew := True\<rparr>)"
proof -
  obtain s' where run: "enable_auto_renew cfg (Signed a) c s = Inr s'"
    using enable_auto_renew_ok [OF assms] by (auto simp: is_ok_iff)
  then have "auto_renew_index s' (c, a) \<noteq> None \<and> subscriptions s' (c, a) = Some (sub\<lparr>auto_renew := True\<rparr>)"
    using assms(1-4)
    by (auto simp: enable_auto_renew_def Let_def result_simps elim!: enqueue_renewal_cases)
  with run that show thesis by (simp add: no_post_info_def)
qed

lemma bench_enable_ok:
  assumes ready: "bench_ready cfg sv b st"
  shows "is_ok (bench_enable_auto_renew b cfg st)" and "is_ok (bench_disable_auto_renew b cfg st)"
proof -
  note laws = bench_readyD(1,2) [OF ready]
  let ?who = "whitelisted_caller b" and ?l = "max (min_auto_renew_period cfg) 1"
  obtain c m s1 s where start: "register b cfg ?l st = Inr ((c, account b ''creator'' 0 SEED), s1)"
    "caller b s1 = (?who, s)" "shop cfg sv b c m (Suc (Suc 2398)) s" "unsold c s"
    "12 * unat PRICE \<le> spendable sv (ext s) ?who" "?who \<noteq> creator m"
    "current_block s = current_block st" "period_length m = ?l" "\<forall>n. renewal_queue s n = []"
    by (rule plain_start [OF ready])
  have free: "subscriptions s (c, ?who) = None" using start(4) by (simp add: unsold_def)
  have rich: "unat PRICE \<le> spendable sv (ext s) ?who" using start(5) by simp
  let ?sub = "\<lparr>expiry_block = saturating_add (current_block s) ?l, auto_renew = False,
    sub_child_item_id = next_item_id s (collection_id m)\<rparr>"
  let ?e = "expiry_block ?sub"
  obtain w t where sub: "dispatch cfg (Signed ?who) (Subscribe c) s = Inr (w, t)" "shop cfg sv b c m (Suc 2398) t"
    "sold cfg sv m ?who (unat PRICE) s t" "subscriptions t (c, ?who) = Some ?sub"
    by (rule subscribe_run [OF laws start(3) free rich start(6), of "Subscribe c"]) (simp_all add: start(8))
  have q: "current_block t = current_block s" "renewal_queue t n = []" for n
    using keptD [of s t] sub(3) start(9) by (simp_all add: sold_def)
  have "saturating_add (current_block s) 1 \<le> ?e" by (simp add: saturating_add_mono)
  then have at: "max ?e (saturating_add (current_block t) 1) = ?e" by (simp add: q(1) max_absorb1)
  have con: "contents t c = Some m" using sub(2) by (simp add: shop_def on_sale_def)
  have slot: "slot_free c ?who t"
    unfolding slot_free_def by (auto simp: q(2) MAX_RENEWAL_SLOT_SEARCH_def MAX_RENEWALS_PER_BLOCK_def intro!: exI [of _ 0])
  obtain t2 where enable: "dispatch cfg (Signed ?who) (EnableAutoRenew c) t = Inr (None, t2)"
    "auto_renew_index t2 (c, ?who) \<noteq> None" "subscriptions t2 (c, ?who) = Some (?sub\<lparr>auto_renew := True\<rparr>)"
    by (rule enable_run [OF con _ sub(4), of cfg]) (simp_all add: start(8) slot)
  show "is_ok (bench_disable_auto_renew b cfg st)"
    using start(1,2) sub(1) enable
    by (simp add: bench_disable_auto_renew_def bench_simps disable_auto_renew_def no_post_info_def)
  let ?t = "fill_buckets b c ?e (of_nat MAX_RENEWAL_SLOT_SEARCH - 1) t"
  have slot: "slot_free c ?who ?t"
    unfolding slot_free_def fill_buckets_eq
    using sub(4) at q(2)
    by (auto simp: MAX_RENEWAL_SLOT_SEARCH_def MAX_RENEWALS_PER_BLOCK_def intro!: exI [of _ 99])
  obtain t2 where "dispatch cfg (Signed ?who) (EnableAutoRenew c) ?t = Inr (None, t2)"
    "auto_renew_index t2 (c, ?who) \<noteq> None"
    by (rule enable_run [of ?t c m cfg ?who ?sub])
       (use slot in \<open>simp_all add: start(8) con sub(4)\<close>)
  then show "is_ok (bench_enable_auto_renew b cfg st)"
    using start(1,2) sub(1,4) by (simp add: bench_enable_auto_renew_def bench_simps)
qed

section \<open>Many holders\<close>

definition unsold_to :: "u32 \<Rightarrow> 'a \<Rightarrow> ('a, 'x) state \<Rightarrow> bool" where
  "unsold_to c a s \<longleftrightarrow> subscriptions s (c, a) = None \<and> view_packs s (c, a) = None \<and> ownership s (c, a) = None"

lemma add_holder_run:
  assumes law: "obliging cfg sv" and shop: "shop cfg sv b c m (Suc k) s"
  obtains s' where "add_holder cfg c (creator m) m kind who s = Inr s'" "shop cfg sv b c m k s'"
    "\<And>a. a \<noteq> who \<Longrightarrow> unsold_to c a s \<Longrightarrow> unsold_to c a s'"
proof -
  obtain x evs where mint: "mint_and_nest_child cfg (creator m) who (collection_id m) (content_item_id m) kind s =
       Inr (next_item_id s (collection_id m),
         s\<lparr>next_item_id := (next_item_id s)(collection_id m := next_item_id s (collection_id m) + 1),
           parent := (parent s)((collection_id m, next_item_id s (collection_id m)) \<mapsto>
             (collection_id m, content_item_id m)),
           events := evs, ext := x\<rparr>)"
    "stocked sv m k (next_item_id s (collection_id m) + 1) x"
    using shop_mints [OF law shop, of who kind] by metis
  have "on_sale cfg b c m s" using shop by (simp add: shop_def)
  with mint show thesis
    by (cases kind) (auto simp: add_holder_def shop_def unsold_to_def intro!: that)
qed

lemma add_holders_run:
  assumes law: "obliging cfg sv"
  shows "shop cfg sv b c m (length is + k) s \<Longrightarrow>
    \<exists>s'. for_each (\<lambda>i. add_holder cfg c (creator m) m kind (account b ''holder'' (of_nat i) SEED)) is s = Inr s' \<and>
      shop cfg sv b c m k s' \<and>
      (\<forall>a. (\<forall>i. a \<noteq> account b ''holder'' i SEED) \<longrightarrow> unsold_to c a s \<longrightarrow> unsold_to c a s')"
proof (induction "is" arbitrary: s)
  case (Cons i "is")
  let ?who = "account b ''holder'' (of_nat i) SEED"
  have "shop cfg sv b c m (Suc (length is + k)) s" using Cons.prems by simp
  then obtain s1 where s1: "add_holder cfg c (creator m) m kind ?who s = Inr s1"
    "shop cfg sv b c m (length is + k) s1" "\<And>a. a \<noteq> ?who \<Longrightarrow> unsold_to c a s \<Longrightarrow> unsold_to c a s1"
    using add_holder_run [OF law, where kind = kind and who = ?who] by metis
  from Cons.IH [OF s1(2)] s1(1,3) show ?case by auto
qed simp

lemma shop_less:
  assumes "shop cfg sv b c m k s" and "j \<le> k"
  shows "shop cfg sv b c m j s"
proof -
  have "2 * j * item_deposit sv \<le> 2 * k * item_deposit sv" using assms(2) by simp
  with assms show ?thesis unfolding shop_def stocked_def by (elim conjE, intro conjI) (assumption | linarith)+
qed

text \<open>Registration, \<open>h\<close> holders and a funded caller.\<close>

lemma scale_start:
  assumes ready: "bench_ready cfg sv b st" and h: "h \<le> MAX_HOLDERS"
  obtains c m s1 s2 s where
    "register b cfg 100 st = Inr ((c, account b ''creator'' 0 SEED), s1)"
    "add_holders b cfg c (account b ''creator'' 0 SEED) h kind s1 = Inr s2"
    "caller b s2 = (whitelisted_caller b, s)" "shop cfg sv b c m (Suc (Suc 398)) s"
    "unsold_to c (whitelisted_caller b) s" "unsold_to c (account b ''to'' 0 SEED) s"
    "12 * unat PRICE \<le> spendable sv (ext s) (whitelisted_caller b)" "whitelisted_caller b \<noteq> creator m"
proof -
  note laws = bench_readyD(1,2) [OF ready]
  let ?cr = "account b ''creator'' 0 SEED"
  obtain c m s1 where reg: "register b cfg 100 st = Inr ((c, ?cr), s1)"
    "shop cfg sv b c m 2400 s1" "unsold c s1" "creator m = ?cr"
    using register_start [OF ready] by metis
  have "unat h \<le> 2000" using h by (simp add: word_le_nat_alt MAX_HOLDERS_def)
  then have "shop cfg sv b c m (length [0..<unat h] + 400) s1"
    by (intro shop_less [OF reg(2)]) simp
  from add_holders_run [OF laws(2) this, of kind] obtain s2 where s2:
    "for_each (\<lambda>i. add_holder cfg c (creator m) m kind (account b ''holder'' (of_nat i) SEED)) [0..<unat h] s1 = Inr s2"
    "shop cfg sv b c m 400 s2"
    "\<forall>a. (\<forall>i. a \<noteq> account b ''holder'' i SEED) \<longrightarrow> unsold_to c a s1 \<longrightarrow> unsold_to c a s2" by blast
  have add: "add_holders b cfg c ?cr h kind s1 = Inr s2"
    using s2(1) reg(2,4) by (simp add: add_holders_def shop_def on_sale_def)
  obtain x where call: "caller b s2 = (whitelisted_caller b, s2\<lparr>ext := x\<rparr>)" "shop cfg sv b c m 400 (s2\<lparr>ext := x\<rparr>)"
    "12 * unat PRICE \<le> spendable sv x (whitelisted_caller b)" "whitelisted_caller b \<noteq> creator m"
    by (rule caller_start [OF laws(1) s2(2)])
  have "unsold_to c a s1" for a using reg(3) by (simp add: unsold_def unsold_to_def)
  then have "unsold_to c (whitelisted_caller b) s2" "unsold_to c (account b ''to'' 0 SEED) s2"
    using s2(3) bench_accounts [OF laws(1)] by simp_all
  then show thesis
    using that [OF reg(1) add call(1)] call(2-4) by (simp add: unsold_to_def)
qed

lemma scale_ok:
  assumes ready: "bench_ready cfg sv b st" and h: "h \<le> MAX_HOLDERS"
  shows "is_ok (scale_subscribe b cfg h st)" and "is_ok (scale_transfer_ownership b cfg h st)"
proof -
  note laws = bench_readyD(1,2) [OF ready]
  let ?who = "whitelisted_caller b" and ?to = "account b ''to'' 0 SEED"
  obtain c m s1 s2 s where start: "register b cfg 100 st = Inr ((c, account b ''creator'' 0 SEED), s1)"
    "add_holders b cfg c (account b ''creator'' 0 SEED) h Subscription s1 = Inr s2" "caller b s2 = (?who, s)"
    "shop cfg sv b c m (Suc (Suc 398)) s" "unsold_to c ?who s" "unsold_to c ?to s"
    "12 * unat PRICE \<le> spendable sv (ext s) ?who" "?who \<noteq> creator m"
    by (rule scale_start [OF ready h])
  have free: "subscriptions s (c, ?who) = None" using start(5) by (simp add: unsold_to_def)
  have rich: "unat PRICE \<le> spendable sv (ext s) ?who" using start(7) by simp
  show "is_ok (scale_subscribe b cfg h st)"
    by (rule subscribe_run [OF laws start(4) free rich start(8), of "Subscribe c"])
       (use start(1-3) in \<open>auto simp: scale_subscribe_def bench_simps\<close>)
next
  note laws = bench_readyD(1,2) [OF ready]
  let ?who = "whitelisted_caller b" and ?to = "account b ''to'' 0 SEED"
  obtain c m s1 s2 s where start: "register b cfg 100 st = Inr ((c, account b ''creator'' 0 SEED), s1)"
    "add_holders b cfg c (account b ''creator'' 0 SEED) h Ownership s1 = Inr s2" "caller b s2 = (?who, s)"
    "shop cfg sv b c m (Suc (Suc 398)) s" "unsold_to c ?who s" "unsold_to c ?to s"
    "12 * unat PRICE \<le> spendable sv (ext s) ?who" "?who \<noteq> creator m"
    by (rule scale_start [OF ready h])
  have free: "ownership s (c, ?who) = None" "ownership s (c, ?to) = None"
    using start(5,6) by (simp_all add: unsold_to_def)
  have rich: "unat PRICE \<le> spendable sv (ext s) ?who" using start(7) by simp
  obtain w t where buy: "dispatch cfg (Signed ?who) (PurchaseOwnership c) s = Inr (w, t)"
    "shop cfg sv b c m (Suc 398) t" "sold cfg sv m ?who (unat PRICE) s t"
    "ownership t = (ownership s)((c, ?who) \<mapsto> \<lparr>own_child_item_id = next_item_id s (collection_id m)\<rparr>)"
    by (rule ownership_run [OF laws start(4) free(1) rich start(8), of "PurchaseOwnership c"]) simp_all
  show "is_ok (scale_transfer_ownership b cfg h st)"
    by (rule transfer_run [OF laws(2) buy(2), of ?who "next_item_id s (collection_id m)" ?to "TransferOwnership c ?to"])
       (use start(1-3) buy free bench_accounts(2) [OF laws(1)] in
         \<open>auto simp: scale_transfer_ownership_def bench_simps sold_def\<close>)
qed

lemma scale_views_ok:
  assumes ready: "bench_ready cfg sv b st" and h: "h \<le> MAX_HOLDERS"
  shows "is_ok (scale_check_access b cfg h st)" and "is_ok (scale_consume_view b cfg h st)"
proof -
  note laws = bench_readyD(1,2) [OF ready]
  let ?who = "whitelisted_caller b"
  obtain c m s1 s2 s where start: "register b cfg 100 st = Inr ((c, account b ''creator'' 0 SEED), s1)"
    "add_holders b cfg c (account b ''creator'' 0 SEED) h PayPerView s1 = Inr s2" "caller b s2 = (?who, s)"
    "shop cfg sv b c m (Suc (Suc 398)) s" "unsold_to c ?who s" "unsold_to c (account b ''to'' 0 SEED) s"
    "12 * unat PRICE \<le> spendable sv (ext s) ?who" "?who \<noteq> creator m"
    by (rule scale_start [OF ready h])
  have free: "view_packs s (c, ?who) = None" using start(5) by (simp add: unsold_to_def)
  have rich: "unat (1 :: u32) * unat PRICE \<le> spendable sv (ext s) ?who" using start(7) by simp
  obtain w t where views: "dispatch cfg (Signed ?who) (PurchaseViews c 1) s = Inr (w, t)"
    "shop cfg sv b c m (Suc 398) t" "sold cfg sv m ?who (unat (1 :: u32) * unat PRICE) s t"
    "view_packs t = (view_packs s)((c, ?who) \<mapsto>
       \<lparr>views_remaining = 1, pack_child_item_id = next_item_id s (collection_id m)\<rparr>)"
    by (rule views_run [OF laws start(4) free _ _ rich start(8), of "PurchaseViews c 1"]) simp_all
  show "is_ok (scale_check_access b cfg h st)"
    using start(1-3) views(1,2)
    by (simp add: scale_check_access_def bench_simps check_access_def no_post_info_def shop_def on_sale_def)
  show "is_ok (scale_consume_view b cfg h st)"
    by (rule consume_run [OF laws(2) views(2), of ?who "next_item_id s (collection_id m)" "ConsumeView c" ?who])
       (use start(1-3) views in \<open>simp_all add: scale_consume_view_def bench_simps sold_def\<close>)
qed

end
