(* ===== verification/Hook_Benchmarks.thy ===== *)
theory Hook_Benchmarks
  imports Rights_Benchmarks "HOL-Library.Countable"
begin

text \<open>
  The benchmarks of the renewal hook. Their set-up queues \<open>n\<close> due renewals that carry \<open>p\<close> royalty
  splits in total and fills the window in which they would be queued again. The theory shows that
  the block then does the most work the hook can do for these numbers.
\<close>

section \<open>A renewal that is due\<close>

definition due_entry ::
  "('a, 'x) config \<Rightarrow> ('a, 'x) service \<Rightarrow> ('a, 'x) bench_env \<Rightarrow> u32 \<Rightarrow> u32 \<Rightarrow> nat \<Rightarrow> u32 \<times> 'a \<Rightarrow>
     ('a, 'x) state \<Rightarrow> bool" where
  "due_entry cfg sv b block blocks k e s \<longleftrightarrow>
     (\<exists>m sub. on_sale cfg b (fst e) m s \<and> period_length m = blocks \<and>
        length (royalty_splits s (fst e)) = k \<and>
        subscriptions s e = Some sub \<and> expiry_block sub = block \<and> auto_renew sub) \<and>
     auto_renew_index s e \<noteq> None \<and> unat PRICE \<le> spendable sv (ext s) (snd e)"

lemma due_entry_keep:
  assumes "due_entry cfg sv b block blocks k e s"
    and "contents s' (fst e) = contents s (fst e)" "royalty_splits s' (fst e) = royalty_splits s (fst e)"
    and "subscriptions s' e = subscriptions s e" "auto_renew_index s' e = auto_renew_index s e"
    and "splits_inv s'" "spendable sv (ext s) (snd e) \<le> spendable sv (ext s') (snd e)"
  shows "due_entry cfg sv b block blocks k e s'"
  using assms(1-6) by (auto simp: due_entry_def on_sale_def intro: order_trans [OF _ assms(7)])

text \<open>The window in which the entries would be queued again is full of other entries.\<close>

definition window_full :: "u32 \<Rightarrow> (u32 \<times> 'a) set \<Rightarrow> ('a, 'x) state \<Rightarrow> bool" where
  "window_full start es s \<longleftrightarrow>
     (\<forall>i<MAX_RENEWAL_SLOT_SEARCH. length (renewal_queue s (saturating_add start (of_nat i))) \<ge> MAX_RENEWALS_PER_BLOCK \<and>
        es \<inter> set (renewal_queue s (saturating_add start (of_nat i))) = {})"

lemma window_full_enqueue:
  assumes "window_full start es s" and "(c, a) \<in> es"
  shows "enqueue_renewal c a start s = Inl (Pallet RenewalQueueFull)"
proof -
  have "\<not> is_ok (enqueue_renewal c a start s)"
    using rq.enqueue_fails_iff [of "(c, a)" start s] assms by (auto simp: window_full_def)
  then show ?thesis using enqueue_renewal_error by (cases "enqueue_renewal c a start s") auto
qed

lemma renew_full:
  assumes laws: "bench_laws cfg sv b" "obliging cfg sv" and due: "due_entry cfg sv b now blocks k e s"
    and full: "window_full (saturating_add now blocks) es s" "e \<in> es"
  obtains s' where "renew_one cfg now e (s, sp) = (s', saturating_add sp (of_nat k))"
    "auto_renew_index s' = (auto_renew_index s)(e := None)" "renewal_queue s' = renewal_queue s"
    "contents s' = contents s" "royalty_splits s' = royalty_splits s"
    "\<And>e'. e' \<noteq> e \<Longrightarrow> subscriptions s' e' = subscriptions s e'"
    "\<And>a. a \<noteq> snd e \<Longrightarrow> spendable sv (ext s) a \<le> spendable sv (ext s') a"
    "AutoRenewalFailed (fst e) (snd e) RenewalQueueFull_reason \<in> set (events s')"
    "set (events s) \<subseteq> set (events s')"
proof -
  obtain c a where e: "e = (c, a)" by (cases e)
  obtain m sub on where sale: "on_sale cfg b c m s" "period_length m = blocks" "length (royalty_splits s c) = k"
    and sub: "subscriptions s (c, a) = Some sub" "expiry_block sub = now" "auto_renew sub"
    and idx: "auto_renew_index s (c, a) = Some on" and rich: "unat PRICE \<le> spendable sv (ext s) a"
    using due by (auto simp: due_entry_def e)
  have con: "contents s c = Some m" "subscription_price m = PRICE" using sale(1) by (simp_all add: on_sale_def)
  have "unat PRICE = 1 * unat PRICE" "(0 :: nat) < 1" "(1 :: nat) \<le> 10" by simp_all
  from shop_pays [OF laws sale(1) this rich] obtain x evs where
    pay: "pay_with_royalties cfg a (creator m) c PRICE s = Inr (of_nat k, s\<lparr>ext := x, events := evs\<rparr>)"
    and cost: "costs sv a (unat PRICE) (ext s) x" using sale(3) by metis
  have evs: "set (events s) \<subseteq> set evs"
    using pay_with_royalties_frame [OF pay] by (auto simp: only_ext_events_def)
  let ?exp = "saturating_add now blocks"
  let ?s1 = "deposit_event (AutoRenewalProcessed c a ?exp)
    (update_subscription (c, a) (\<lambda>sub. sub\<lparr>expiry_block := ?exp\<rparr>) (s\<lparr>ext := x, events := evs\<rparr>))"
  have "window_full ?exp es ?s1" using full(1) by (simp add: window_full_def)
  then have "enqueue_renewal c a ?exp ?s1 = Inl (Pallet RenewalQueueFull)"
    using full(2) e by (simp add: window_full_enqueue)
  then have run: "renew_one cfg now e (s, sp) =
      (stop_auto_renew c a RenewalQueueFull_reason ?s1, saturating_add sp (of_nat k))"
    using sub idx con pay sale(2) by (simp add: renew_one_def e finish_renewal_def Let_def)
  have "spendable sv (ext s) a' \<le> spendable sv x a'" if "a' \<noteq> a" for a'
    using costsD(1) [OF cost, of a'] that by simp
  with evs show thesis
    by (intro that [OF run])
       (auto simp: e stop_auto_renew_def update_subscription_def deposit_event_def Let_def split: if_splits)
qed

lemma renew_all_full:
  assumes laws: "bench_laws cfg sv b" "obliging cfg sv"
  shows "\<forall>j<length due. due_entry cfg sv b now blocks (ks ! j) (due ! j) s \<Longrightarrow> length ks = length due \<Longrightarrow>
    distinct (map fst due) \<Longrightarrow> distinct (map snd due) \<Longrightarrow> splits_inv s \<Longrightarrow>
    window_full (saturating_add now blocks) (set due) s \<Longrightarrow> unat sp + sum_list ks < 2 ^ 32 \<Longrightarrow>
    \<exists>s'. fold (renew_one cfg now) due (s, sp) = (s', sp + of_nat (sum_list ks)) \<and>
      (\<forall>e\<in>set due. auto_renew_index s' e = None \<and>
         AutoRenewalFailed (fst e) (snd e) RenewalQueueFull_reason \<in> set (events s')) \<and>
      (\<forall>e. auto_renew_index s e = None \<longrightarrow> auto_renew_index s' e = None) \<and>
      set (events s) \<subseteq> set (events s') \<and> renewal_queue s' = renewal_queue s"
proof (induction due arbitrary: s sp ks)
  case (Cons e due)
  obtain k ks' where ks: "ks = k # ks'" "length ks' = length due" using Cons.prems(2) by (cases ks) auto
  have "due_entry cfg sv b now blocks k e s" using Cons.prems(1) ks(1) by auto
  moreover have "e \<in> set (e # due)" by simp
  ultimately obtain s1 where s1: "renew_one cfg now e (s, sp) = (s1, saturating_add sp (of_nat k))"
    "auto_renew_index s1 = (auto_renew_index s)(e := None)" "renewal_queue s1 = renewal_queue s"
    "contents s1 = contents s" "royalty_splits s1 = royalty_splits s"
    "\<And>e'. e' \<noteq> e \<Longrightarrow> subscriptions s1 e' = subscriptions s e'"
    "\<And>a. a \<noteq> snd e \<Longrightarrow> spendable sv (ext s) a \<le> spendable sv (ext s1) a"
    "AutoRenewalFailed (fst e) (snd e) RenewalQueueFull_reason \<in> set (events s1)"
    "set (events s) \<subseteq> set (events s1)"
    using renew_full [OF laws _ Cons.prems(6)] by blast
  have inv1: "splits_inv s1" using Cons.prems(5) s1(5) by (simp add: splits_inv_def)
  have entries: "\<forall>j<length due. due_entry cfg sv b now blocks (ks' ! j) (due ! j) s1"
  proof (intro allI impI)
    fix j assume j: "j < length due"
    then have old: "due_entry cfg sv b now blocks (ks' ! j) (due ! j) s" using Cons.prems(1) ks(1) by auto
    have "fst (due ! j) \<noteq> fst e" "snd (due ! j) \<noteq> snd e"
      using Cons.prems(3,4) nth_mem [OF j] by (auto simp: image_iff)
    moreover from this have "due ! j \<noteq> e" by metis
    ultimately show "due_entry cfg sv b now blocks (ks' ! j) (due ! j) s1"
      using s1(2,4,5) inv1 by (intro due_entry_keep [OF old] s1(6,7)) simp_all
  qed
  have small: "unat sp + k < 2 ^ 32" using Cons.prems(7) ks(1) by simp
  then have kw: "unat (of_nat k :: u32) = k" by (simp add: unat_of_nat)
  have add: "saturating_add sp (of_nat k) = sp + of_nat k" "unat (sp + of_nat k) = unat sp + k"
    using small kw unat_add_no_overflow [of sp "of_nat k"] by (simp_all add: saturating_add_def)
  have "window_full (saturating_add now blocks) (set due) s1"
    using Cons.prems(6) s1(3) by (auto simp: window_full_def)
  then obtain s' where s': "fold (renew_one cfg now) due (s1, sp + of_nat k) = (s', sp + of_nat k + of_nat (sum_list ks'))"
    "\<forall>e\<in>set due. auto_renew_index s' e = None \<and>
       AutoRenewalFailed (fst e) (snd e) RenewalQueueFull_reason \<in> set (events s')"
    "\<forall>e. auto_renew_index s1 e = None \<longrightarrow> auto_renew_index s' e = None"
    "set (events s1) \<subseteq> set (events s')" "renewal_queue s' = renewal_queue s1"
    using Cons.IH [OF entries ks(2) _ _ inv1, of "sp + of_nat k"] Cons.prems(3,4,7) ks(1) add(2)
    by (auto simp: add.assoc)
  moreover have "auto_renew_index s' e = None" using s'(3) [rule_format, of e] s1(2) by simp
  ultimately show ?case
    using s1(1,2,3,8,9) by (auto simp: ks(1) add(1) add.assoc)
qed simp

section \<open>The set-up\<close>

text \<open>How the splits are spread over the renewals.\<close>

definition split_share :: "u32 \<Rightarrow> u32 \<Rightarrow> nat \<Rightarrow> nat" where
  "split_share n p j = unat p div unat n + (if j < unat p mod unat n then 1 else 0)"

lemma split_share_word:
  assumes "unat p \<le> 10 * unat n" and "j < unat n" and "unat n \<le> 10"
  shows "unat (p div n + (if of_nat j < p mod n then 1 else 0) :: u32) = split_share n p j"
    and "split_share n p j \<le> 10"
proof -
  have j: "unat (of_nat j :: u32) = j" using assms(2,3) by (simp add: unat_of_nat)
  have le: "unat p div unat n \<le> 10"
    using div_le_mono [OF assms(1), of "unat n"] assms(2) by simp
  have "unat p div unat n \<le> 9" if "0 < unat p mod unat n"
  proof (rule ccontr)
    assume "\<not> unat p div unat n \<le> 9"
    then have "10 * unat n \<le> unat p div unat n * unat n" by (intro mult_le_mono1) simp
    with that assms(1) show False using div_mult_mod_eq [of "unat p" "unat n"] by linarith
  qed
  with le show "split_share n p j \<le> 10" by (auto simp: split_share_def)
  have less: "of_nat j < p mod n \<longleftrightarrow> j < unat p mod unat n"
    by (simp add: word_less_nat_alt unat_mod j)
  have "unat (p div n) = unat p div unat n" by (simp add: unat_div)
  with le less show "unat (p div n + (if of_nat j < p mod n then 1 else 0) :: u32) = split_share n p j"
    by (simp add: split_share_def unat_word_ariths)
qed

lemma sum_split_share:
  assumes "0 < unat n"
  shows "(\<Sum>j\<leftarrow>[0..<unat n]. split_share n p j) = unat p"
proof -
  let ?q = "unat p div unat n" and ?r = "unat p mod unat n"
  have "(\<Sum>j\<leftarrow>[0..<k]. ?q + (if j < ?r then 1 else 0)) = k * ?q + min k ?r" for k
    by (induction k) auto
  from this [of "unat n"] have "(\<Sum>j\<leftarrow>[0..<unat n]. split_share n p j) = unat n * ?q + ?r"
    using assms by (simp add: split_share_def min_absorb2 less_imp_le)
  then show ?thesis by simp
qed

text \<open>After \<open>i\<close> rounds of the loop.\<close>

definition queued ::
  "('a, 'x) config \<Rightarrow> ('a, 'x) service \<Rightarrow> ('a, 'x) bench_env \<Rightarrow> u32 \<Rightarrow> u32 \<Rightarrow> (nat \<Rightarrow> nat) \<Rightarrow> nat \<Rightarrow>
     (u32 \<times> 'a) list \<Rightarrow> ('a, 'x) state \<Rightarrow> bool" where
  "queued cfg sv b block blocks ks i due s \<longleftrightarrow>
     i \<le> 10 \<and> length due = i \<and> distinct (map fst due) \<and> blank cfg sv (10 - i) s \<and>
     (\<forall>j<i. snd (due ! j) = account b ''renewer'' (of_nat j) SEED \<and> fst (due ! j) < next_content_id s \<and>
        due_entry cfg sv b block blocks (ks j) (due ! j) s)"

lemma subscribe_blank:
  assumes lawful: "lawful cfg" and "blank cfg sv k s" and sold: "sold cfg sv m who n s s'"
    and "c < next_content_id s" "collection_id m < collection_counter cfg (ext s)"
    and "subscriptions s' = (subscriptions s)((c, who) \<mapsto> sub)" "view_packs s' = view_packs s" "ownership s' = ownership s"
  shows "blank cfg sv k s'"
proof -
  have "collection_counter cfg (ext s') = collection_counter cfg (ext s)"
    using ext_calls_counter [OF _ lawful] sold by (auto simp: sold_def)
  moreover have eqs: "royalty_splits s' = royalty_splits s" "next_content_id s' = next_content_id s"
      "collection_owner sv (ext s') = collection_owner sv (ext s)"
      "live_items sv (ext s') = insert (collection_id m, next_item_id s (collection_id m)) (live_items sv (ext s))"
    using sold by (simp_all add: sold_def kept_def)
  moreover have "(c', a) \<noteq> (c, who)" if "next_content_id s \<le> c'" for c' a
    using that assms(4) by auto
  moreover have "(col, i) \<noteq> (collection_id m, next_item_id s (collection_id m))"
    if "collection_counter cfg (ext s) \<le> col" for col i
    using that assms(5) by auto
  ultimately show ?thesis
    using assms(2) by (simp add: blank_def splits_inv_def assms(6-8))
qed

lemma blank_subscription:
  assumes "blank cfg sv k s" and "c < next_content_id s"
  shows "blank cfg sv k (s\<lparr>subscriptions := (subscriptions s)((c, a) := v), auto_renew_index := idx\<rparr>)"
proof -
  have "c' \<noteq> c" if "next_content_id s \<le> c'" for c' using that assms(2) by auto
  with assms(1) show ?thesis by (simp add: blank_def splits_inv_def)
qed

text \<open>The first half of a round: content with its splits and a funded renewer.\<close>

lemma renewer_ready:
  assumes laws: "bench_laws cfg sv b" "obliging cfg sv" "lawful cfg" and blank: "blank cfg sv (Suc k) s"
    and who: "who = account b ''renewer'' i SEED" and share: "share \<le> MAX_ROYALTY_SPLITS"
  obtains s1 s2 s3 m sps where
    "register b cfg blocks s = Inr ((next_content_id s, account b ''creator'' 0 SEED), s1)"
    "set_splits_from b (next_content_id s) share off s1 = Inr s2" "fund b who s2 = s3"
    "shop cfg sv b (next_content_id s) m (Suc 2399) s3" "period_length m = blocks" "who \<noteq> creator m"
    "blank cfg sv k s3" "next_content_id s3 = next_content_id s + 1" "collection_id m < collection_counter cfg (ext s3)"
    "royalty_splits s3 = (royalty_splits s)(next_content_id s := sps)" "length sps = unat share"
    "contents s3 = (contents s)(next_content_id s \<mapsto> m)" "subscriptions s3 = subscriptions s"
    "renewal_queue s3 = renewal_queue s" "auto_renew_index s3 = auto_renew_index s" "block_number s3 = block_number s"
    "12 * unat PRICE \<le> spendable sv (ext s3) who"
    "\<forall>a. a \<noteq> account b ''creator'' 0 SEED \<longrightarrow> a \<noteq> who \<longrightarrow> spendable sv (ext s) a \<le> spendable sv (ext s3) a"
proof -
  let ?cr = "account b ''creator'' 0 SEED" and ?c = "next_content_id s"
  obtain s1 m where reg:
    "register b cfg blocks s = Inr ((?c, ?cr), s1)" "shop cfg sv b ?c m 2400 s1" "period_length m = blocks"
    "contents s1 = (contents s)(?c \<mapsto> m)" "next_content_id s1 = ?c + 1" "kept s s1" "rights_kept s s1"
    "blank cfg sv k s1" "collection_id m < collection_counter cfg (ext s1)"
    "\<forall>a. a \<noteq> ?cr \<longrightarrow> spendable sv (ext s) a \<le> spendable sv (ext s1) a"
    by (rule register_run [OF laws blank, of blocks])
  obtain s2 where s2: "set_splits_from b ?c share off s1 = Inr s2"
    "s2 = s1\<lparr>royalty_splits := (royalty_splits s1)(?c := bench_splits b share off)\<rparr>"
    "shop cfg sv b ?c m 2400 s2" "length (royalty_splits s2 ?c) = unat share"
    by (rule splits_run [OF laws(1) reg(2) share, of off])
  have cr: "who \<noteq> creator m"
    using bench_accounts(1) [OF laws(1)] s2(3) who by (simp add: shop_def on_sale_def)
  obtain x where x: "fund b who s2 = s2\<lparr>ext := x\<rparr>"
    "shop cfg sv b ?c m 2400 (s2\<lparr>ext := x\<rparr>)" "12 * unat PRICE \<le> spendable sv x who"
    "\<forall>a. a \<noteq> who \<longrightarrow> spendable sv x a = spendable sv (ext s2) a" "live_items sv x = live_items sv (ext s2)"
    "collection_counter cfg x = collection_counter cfg (ext s2)" "collection_owner sv x = collection_owner sv (ext s2)"
    by (rule shop_fund [OF laws(1) s2(3) cr])
  have "?c < ?c + 1" using blank by (simp add: blank_def word_less_nat_alt unat_word_ariths)
  then have "next_content_id s1 \<le> c' \<Longrightarrow> c' \<noteq> ?c" for c' using reg(5) by auto
  moreover have "splits_inv (s2\<lparr>ext := x\<rparr>)" using x(2) by (simp add: shop_def on_sale_def)
  ultimately have "blank cfg sv k (s2\<lparr>ext := x\<rparr>)" using reg(8) x(5-7) s2(2) by (simp add: blank_def)
  with x show thesis
    using reg(3-5,9,10) cr s2(4) keptD [OF reg(6)] reg(7)
    by (intro that [OF reg(1) s2(1) x(1)]) (simp_all add: s2(2) rights_kept_def)
qed

text \<open>One round: the new entry is due, and everything else stays as it was.\<close>

lemma setup_renewal_round:
  assumes laws: "bench_laws cfg sv b" "obliging cfg sv" "lawful cfg" and blank: "blank cfg sv (Suc k) s"
    and who: "who = account b ''renewer'' (of_nat i) SEED"
    and share: "share = p div n + (if of_nat i < p mod n then 1 else 0)" "share \<le> MAX_ROYALTY_SPLITS"
  obtains s' where
    "setup_renewal b cfg n p blocks block i (due, s) = Inr (due @ [(next_content_id s, who)], s')"
    "blank cfg sv k s'" "next_content_id s' = next_content_id s + 1"
    "due_entry cfg sv b block blocks (unat share) (next_content_id s, who) s'"
    "\<forall>e. fst e \<noteq> next_content_id s \<longrightarrow> contents s' (fst e) = contents s (fst e) \<and>
       royalty_splits s' (fst e) = royalty_splits s (fst e) \<and> subscriptions s' e = subscriptions s e \<and>
       auto_renew_index s' e = auto_renew_index s e"
    "\<forall>a. a \<noteq> account b ''creator'' 0 SEED \<longrightarrow> a \<noteq> who \<longrightarrow> spendable sv (ext s) a \<le> spendable sv (ext s') a"
    "renewal_queue s' = renewal_queue s" "block_number s' = block_number s"
proof -
  let ?cr = "account b ''creator'' 0 SEED" and ?c = "next_content_id s"
  obtain s1 s2 s3 m sps where r: "register b cfg blocks s = Inr ((?c, ?cr), s1)"
    "set_splits_from b ?c share (of_nat i * MAX_ROYALTY_SPLITS) s1 = Inr s2" "fund b who s2 = s3"
    "shop cfg sv b ?c m (Suc 2399) s3" "period_length m = blocks" "who \<noteq> creator m"
    "blank cfg sv k s3" "next_content_id s3 = ?c + 1" "collection_id m < collection_counter cfg (ext s3)"
    "royalty_splits s3 = (royalty_splits s)(?c := sps)" "length sps = unat share"
    "contents s3 = (contents s)(?c \<mapsto> m)" "subscriptions s3 = subscriptions s"
    "renewal_queue s3 = renewal_queue s" "auto_renew_index s3 = auto_renew_index s" "block_number s3 = block_number s"
    "12 * unat PRICE \<le> spendable sv (ext s3) who"
    "\<forall>a. a \<noteq> ?cr \<longrightarrow> a \<noteq> who \<longrightarrow> spendable sv (ext s) a \<le> spendable sv (ext s3) a"
    by (rule renewer_ready [OF laws blank who share(2)])
  have free: "subscriptions s3 (?c, who) = None" using blank r(13) by (simp add: blank_def)
  have rich: "unat PRICE \<le> spendable sv (ext s3) who" using r(17) by simp
  obtain w s4 where sub: "dispatch cfg (Signed who) (Subscribe ?c) s3 = Inr (w, s4)" "shop cfg sv b ?c m 2399 s4"
    "sold cfg sv m who (unat PRICE) s3 s4"
    "subscriptions s4 = (subscriptions s3)((?c, who) \<mapsto>
       \<lparr>expiry_block = saturating_add (current_block s3) (period_length m), auto_renew = False,
        sub_child_item_id = next_item_id s3 (collection_id m)\<rparr>)"
    "view_packs s4 = view_packs s3" "ownership s4 = ownership s3"
    by (rule subscribe_run [OF laws(1,2) r(4) free rich r(6), of "Subscribe ?c"]) simp_all
  let ?s' = "update_subscription (?c, who) (\<lambda>sub. sub\<lparr>expiry_block := block, auto_renew := True\<rparr>) s4
    \<lparr>auto_renew_index := (auto_renew_index s4)((?c, who) \<mapsto> True)\<rparr>"
  have run: "setup_renewal b cfg n p blocks block i (due, s) = Inr (due @ [(?c, who)], ?s')"
    using r(1-3) sub(1) by (simp add: setup_renewal_def share(1) [symmetric] funded_def who prepare_def Let_def)
  have s4: "royalty_splits s4 = royalty_splits s3" "auto_renew_index s4 = auto_renew_index s3"
      "renewal_queue s4 = renewal_queue s3" "block_number s4 = block_number s3"
      "contents s4 = contents s3" "next_content_id s4 = next_content_id s3"
    using sub(3) by (simp_all add: sold_def kept_def)
  have new: "?c < next_content_id s3"
    using blank r(8) by (simp add: blank_def word_less_nat_alt unat_word_ariths)
  have "blank cfg sv k s4" by (rule subscribe_blank [OF laws(3) r(7) sub(3) new r(9) sub(4-6)])
  then have blank': "blank cfg sv k ?s'"
    using new s4(6) by (simp add: update_subscription_def blank_subscription)
  have spend: "spendable sv (ext s) a \<le> spendable sv (ext s4) a" if "a \<noteq> ?cr" "a \<noteq> who" for a
    using sold_spendable [OF sub(3), of a] r(18) [rule_format, OF that] that r(4)
    by (simp add: shop_def on_sale_def)
  have "unat PRICE \<le> spendable sv (ext s4) who"
    using sold_spendable [OF sub(3), of who] r(6,17) by simp
  then have due: "due_entry cfg sv b block blocks (unat share) (?c, who) ?s'"
    using sub(2,4) r(5,10,11) s4(1)
    by (auto simp: due_entry_def shop_def update_subscription_def)
  show thesis
    by (rule that [OF run blank' _ due])
       (use r(8,10,12-16,18) s4 sub(4) spend in \<open>auto simp: update_subscription_def\<close>)
qed

lemma queued_snoc:
  assumes len: "length due = i" "distinct (map fst due)" "i < 10" and "blank cfg sv (10 - Suc i) s"
    and old: "\<forall>j<i. snd (due ! j) = account b ''renewer'' (of_nat j) SEED \<and> fst (due ! j) < c \<and>
      due_entry cfg sv b block blocks (ks j) (due ! j) s"
    and new: "c < next_content_id s" "due_entry cfg sv b block blocks (ks i) (c, account b ''renewer'' (of_nat i) SEED) s"
  shows "queued cfg sv b block blocks ks (Suc i) (due @ [(c, account b ''renewer'' (of_nat i) SEED)]) s"
proof -
  have "c \<notin> fst ` set due"
  proof
    assume "c \<in> fst ` set due"
    then obtain j where "j < i" "fst (due ! j) = c" using len(1) by (metis (no_types, lifting) imageE in_set_conv_nth)
    with old show False by fastforce
  qed
  moreover have "fst (due ! j) < next_content_id s" if "j < i" for j
    using old that new(1) less_trans by blast
  ultimately show ?thesis
    using assms by (auto simp: queued_def nth_append less_Suc_eq)
qed

lemma setup_renewal_run:
  assumes laws: "bench_laws cfg sv b" "obliging cfg sv" "lawful cfg"
    and q: "queued cfg sv b block blocks (split_share n p) i due s"
    and i: "i < unat n" "unat n \<le> 10" and p: "unat p \<le> 10 * unat n"
  obtains e s' where "setup_renewal b cfg n p blocks block i (due, s) = Inr (due @ [e], s')"
    "queued cfg sv b block blocks (split_share n p) (Suc i) (due @ [e]) s'"
    "renewal_queue s' = renewal_queue s" "block_number s' = block_number s"
proof -
  let ?cr = "account b ''creator'' 0 SEED" and ?who = "account b ''renewer'' (of_nat i) SEED"
    and ?c = "next_content_id s" and ?n = "p div n + (if of_nat i < p mod n then 1 else 0)"
  have ten: "10 - i = Suc (9 - i)" using i by simp
  have blank: "blank cfg sv (Suc (9 - i)) s" using q ten by (simp add: queued_def)
  have share: "unat ?n = split_share n p i" "split_share n p i \<le> 10" by (rule split_share_word [OF p i])+
  then have "unat ?n \<le> unat (10 :: u32)" by simp
  then have le: "?n \<le> MAX_ROYALTY_SPLITS" unfolding MAX_ROYALTY_SPLITS_def word_le_nat_alt .
  obtain s' where s': "setup_renewal b cfg n p blocks block i (due, s) = Inr (due @ [(?c, ?who)], s')"
    "blank cfg sv (9 - i) s'" "next_content_id s' = ?c + 1"
    "due_entry cfg sv b block blocks (unat ?n) (?c, ?who) s'"
    "\<forall>e. fst e \<noteq> ?c \<longrightarrow> contents s' (fst e) = contents s (fst e) \<and>
       royalty_splits s' (fst e) = royalty_splits s (fst e) \<and> subscriptions s' e = subscriptions s e \<and>
       auto_renew_index s' e = auto_renew_index s e"
    "\<forall>a. a \<noteq> ?cr \<longrightarrow> a \<noteq> ?who \<longrightarrow> spendable sv (ext s) a \<le> spendable sv (ext s') a"
    "renewal_queue s' = renewal_queue s" "block_number s' = block_number s"
    by (rule setup_renewal_round [OF laws blank refl refl le])
  have new: "?c < ?c + 1" using blank by (simp add: blank_def word_less_nat_alt unat_word_ariths)
  have old: "due_entry cfg sv b block blocks (split_share n p j) (due ! j) s' \<and> fst (due ! j) < ?c"
    if j: "j < i" for j
  proof -
    have entry: "due_entry cfg sv b block blocks (split_share n p j) (due ! j) s" "fst (due ! j) < ?c"
      "snd (due ! j) = account b ''renewer'' (of_nat j) SEED" using q j by (simp_all add: queued_def)
    have "(of_nat j :: u32) \<noteq> of_nat i"
      using j i by (simp add: word_unat_eq_iff unat_of_nat)
    then have "snd (due ! j) \<noteq> ?who" "snd (due ! j) \<noteq> ?cr"
      using entry(3) bench_accounts(1) [OF laws(1)] by simp_all
    moreover have "fst (due ! j) \<noteq> ?c" using entry(2) by auto
    moreover have "splits_inv s'" using s'(2) by (simp add: blank_def)
    ultimately show ?thesis using s'(5) [rule_format, of "due ! j"] s'(6) entry(2) by (simp add: due_entry_keep [OF entry(1)])
  qed
  have "queued cfg sv b block blocks (split_share n p) (Suc i) (due @ [(?c, ?who)]) s'"
    by (rule queued_snoc) (use q old new s'(2-4) share(1) i in \<open>simp_all add: queued_def\<close>)
  with that [OF s'(1) _ s'(7,8)] show thesis by blast
qed

lemma setup_loop:
  assumes laws: "bench_laws cfg sv b" "obliging cfg sv" "lawful cfg"
    and n: "unat n \<le> 10" and p: "unat p \<le> 10 * unat n"
  shows "queued cfg sv b block blocks (split_share n p) i due s \<Longrightarrow> i \<le> unat n \<Longrightarrow>
    \<exists>due' s'. for_each (setup_renewal b cfg n p blocks block) [i..<unat n] (due, s) = Inr (due', s') \<and>
      queued cfg sv b block blocks (split_share n p) (unat n) due' s' \<and>
      renewal_queue s' = renewal_queue s \<and> block_number s' = block_number s"
proof (induction "unat n - i" arbitrary: i due s)
  case (Suc k)
  then have i: "i < unat n" by simp
  obtain e s1 where s1: "setup_renewal b cfg n p blocks block i (due, s) = Inr (due @ [e], s1)"
    "queued cfg sv b block blocks (split_share n p) (Suc i) (due @ [e]) s1"
    "renewal_queue s1 = renewal_queue s" "block_number s1 = block_number s"
    by (rule setup_renewal_run [OF laws Suc.prems(1) i n p])
  have "k = unat n - Suc i" "Suc i \<le> unat n" using Suc.hyps(2) i by simp_all
  from Suc.hyps(1) [OF this(1) s1(2) this(2)] s1(1,3,4) show ?case
    by (auto simp: upt_conv_Cons [OF i])
qed auto

lemma queued_due:
  assumes laws: "bench_laws cfg sv b" and "queued cfg sv b block blocks ks i due s" and i: "i \<le> 10"
  shows "distinct (map snd due)" and "\<forall>e\<in>set due. fst e \<noteq> - 1" and "splits_inv s"
proof -
  have q: "length due = i" "\<forall>j<i. snd (due ! j) = account b ''renewer'' (of_nat j) SEED \<and> fst (due ! j) < next_content_id s"
    using assms(2) by (simp_all add: queued_def)
  have "(of_nat j :: u32) = of_nat j' \<longleftrightarrow> j = j'" if "j < i" "j' < i" for j j'
    using that i by (simp add: word_unat_eq_iff unat_of_nat)
  then show "distinct (map snd due)"
    using q bench_accounts(1) [OF laws] by (auto simp: distinct_conv_nth)
  show "\<forall>e\<in>set due. fst e \<noteq> - 1"
  proof
    fix e assume "e \<in> set due"
    then obtain j where "j < i" "e = due ! j" using q(1) by (metis in_set_conv_nth)
    with q(2) have "fst e < next_content_id s" by simp
    then show "fst e \<noteq> - 1" using word_order.extremum_strict by fastforce
  qed
  show "splits_inv s" using assms(2) by (simp add: queued_def blank_def)
qed

lemma setup_renewals_run:
  assumes ready: "bench_ready cfg sv b st" and n: "unat n \<le> 10" and p: "unat p \<le> 10 * unat n"
    and blocks: "blocks = max (min_auto_renew_period cfg) 1" and block: "block = saturating_add (current_block st) 1"
  obtains due s where "setup_renewals b cfg n p st = Inr (block, s)" "current_block s = block"
    "renewal_queue s block = due" "block < saturating_add block blocks"
    "length due = unat n" "distinct (map fst due)" "distinct (map snd due)" "splits_inv s"
    "\<forall>j<unat n. due_entry cfg sv b block blocks (split_share n p j) (due ! j) s"
    "window_full (saturating_add block blocks) (set due) s"
proof -
  note laws = bench_readyD(1-3) [OF ready]
  have small: "unat block + unat blocks + 200 < 2 ^ 32"
    using bench_readyD(6) [OF ready] by (auto simp: block blocks max_def machine_arith)
  have pos: "0 < unat blocks" by (simp add: blocks max_def word_le_nat_alt word_less_nat_alt)
  let ?start = "saturating_add block blocks"
  have start: "unat ?start = unat block + unat blocks" using small by (simp add: machine_arith)
  have "queued cfg sv b block blocks (split_share n p) 0 [] st"
    using bench_readyD(4) [OF ready] by (simp add: queued_def)
  from setup_loop [OF laws n p this] obtain due s1 where
    loop: "for_each (setup_renewal b cfg n p blocks block) [0..<unat n] ([], st) = Inr (due, s1)"
    and q: "queued cfg sv b block blocks (split_share n p) (unat n) due s1" by auto
  note due = queued_due [OF laws(1) q n]
  let ?s2 = "s1\<lparr>renewal_queue := (renewal_queue s1)(block := due)\<rparr>"
  let ?s = "set_block block (fill_buckets b (- 1) ?start (of_nat MAX_RENEWAL_SLOT_SEARCH) ?s2)"
  have len: "length due = unat n" "distinct (map fst due)" using q by (simp_all add: queued_def)
  have run: "setup_renewals b cfg n p st = Inr (block, ?s)"
    using loop len n by (simp add: setup_renewals_def block [symmetric] blocks [symmetric] MAX_RENEWALS_PER_BLOCK_def)
  have ahead: "block < ?start" using start pos by (simp add: word_less_nat_alt)
  have bucket: "renewal_queue ?s block = due"
    using ahead by (auto simp: set_block_def fill_buckets_eq)
  have entries: "\<forall>j<unat n. due_entry cfg sv b block blocks (split_share n p j) (due ! j) ?s"
    using q by (auto simp: queued_def set_block_def fill_buckets_eq splits_inv_def due_entry_def on_sale_def)
  have "window_full ?start (set due) ?s"
    unfolding window_full_def
  proof (intro allI impI)
    fix i assume i: "i < MAX_RENEWAL_SLOT_SEARCH"
    then have "unat (of_nat i :: u32) = i" by (simp add: MAX_RENEWAL_SLOT_SEARCH_def unat_of_nat)
    then have "?start \<le> saturating_add ?start (of_nat i)"
      "saturating_add ?start (of_nat i) < saturating_add ?start (of_nat MAX_RENEWAL_SLOT_SEARCH)"
      using i start small by (simp_all add: word_le_nat_alt word_less_nat_alt machine_arith MAX_RENEWAL_SLOT_SEARCH_def)
    then have "renewal_queue ?s (saturating_add ?start (of_nat i)) = filler_bucket b (- 1) (saturating_add ?start (of_nat i))"
      by (simp add: set_block_def fill_buckets_eq)
    with due(2) show "MAX_RENEWALS_PER_BLOCK \<le> length (renewal_queue ?s (saturating_add ?start (of_nat i))) \<and>
        set due \<inter> set (renewal_queue ?s (saturating_add ?start (of_nat i))) = {}"
      by (auto simp: filler_bucket_def)
  qed
  then show thesis
    using that [OF run set_block_now bucket ahead len due(1) _ entries] due(3)
    by (simp add: set_block_def fill_buckets_eq splits_inv_def)
qed

lemma hook_worst_case:
  assumes ready: "bench_ready cfg sv b st" and n: "unat n \<le> 10" and p: "unat p \<le> 10 * unat n"
  shows "\<exists>block s s'. setup_renewals b cfg n p st = Inr (block, s) \<and> current_block s = block \<and>
    length (renewal_queue s block) = unat n \<and> on_initialize cfg s = (renewals_weight (weights cfg) n p, s') \<and>
    renewal_queue s' block = [] \<and>
    (\<forall>(c, a)\<in>set (renewal_queue s block). auto_renew_index s' (c, a) = None \<and>
       AutoRenewalFailed c a RenewalQueueFull_reason \<in> set (events s'))"
proof -
  note laws = bench_readyD(1-2) [OF ready]
  let ?blocks = "max (min_auto_renew_period cfg) 1" and ?block = "saturating_add (current_block st) 1"
  let ?ks = "map (split_share n p) [0..<unat n]"
  obtain due s where s: "setup_renewals b cfg n p st = Inr (?block, s)" "current_block s = ?block"
    "renewal_queue s ?block = due" "?block < saturating_add ?block ?blocks"
    "length due = unat n" "distinct (map fst due)" "distinct (map snd due)" "splits_inv s"
    "\<forall>j<unat n. due_entry cfg sv b ?block ?blocks (split_share n p j) (due ! j) s"
    "window_full (saturating_add ?block ?blocks) (set due) s"
    by (rule setup_renewals_run [OF ready n p refl refl])
  let ?t = "s\<lparr>renewal_queue := (renewal_queue s)(?block := [])\<rparr>"
  have sum: "sum_list ?ks = unat p"
    using sum_split_share [of n p] p by (cases "unat n = 0") simp_all
  have "?block \<noteq> saturating_add (saturating_add ?block ?blocks) j" for j
    using less_le_trans [OF s(4) saturating_add_ge] by (metis less_irrefl)
  then have full: "window_full (saturating_add ?block ?blocks) (set due) ?t"
    using s(10) by (simp add: window_full_def) metis
  have entries: "\<forall>j<length due. due_entry cfg sv b ?block ?blocks (?ks ! j) (due ! j) ?t"
    using s(5,9) by (simp add: due_entry_def)
  have inv: "splits_inv ?t" using s(8) by (simp add: splits_inv_def)
  have "unat (0 :: u32) + sum_list ?ks < 2 ^ 32" using sum unat_less_pow [of p] by simp
  from renew_all_full [OF laws entries _ s(6,7) inv full this] s(5) sum obtain s' where
    fold: "fold (renew_one cfg ?block) due (?t, 0) = (s', of_nat (unat p))"
    "\<forall>e\<in>set due. auto_renew_index s' e = None \<and>
       AutoRenewalFailed (fst e) (snd e) RenewalQueueFull_reason \<in> set (events s')"
    "renewal_queue s' = renewal_queue ?t" by auto
  have "on_initialize cfg s = (renewals_weight (weights cfg) n p, s')"
    using fold(1) s(2,3,5) by (simp add: on_initialize_def Let_def)
  with s(1-3,5) fold(2,3) show ?thesis by auto
qed

section \<open>The mock chain as a benchmark environment\<close>

definition mock_code :: "string \<Rightarrow> nat" where
  "mock_code name = list_encode (map of_char name)"

definition mock_bench :: "(nat, mock_ext) bench_env" where
  "mock_bench =
     \<lparr>account = (\<lambda>name i seed. Suc (prod_encode (mock_code name, unat i))), whitelisted_caller = 0,
      encode_account = (\<lambda>who. replicate 32 (of_nat who)), max_balance = - 1, max_nft_balance = - 1,
      set_balance = (\<lambda>who v x. x\<lparr>balance := (balance x)(who := unat v)\<rparr>),
      make_free_balance_be = (\<lambda>who v x. x\<lparr>balance := (balance x)(who := unat v)\<rparr>)\<rparr>"

lemma mock_bench_laws: "bench_laws mock mock_service mock_bench"
proof -
  have "mock_code n = mock_code n' \<longleftrightarrow> n = n'" for n n'
    by (simp add: mock_code_def list_encode_eq inj_map_eq_map [OF inj_of_char])
  moreover have "decode_account mock (as_bytes32 mock_bench who) \<noteq> None" for who
  proof -
    have "as_bytes32 mock_bench who = of_nat who # replicate 31 (of_nat who)"
      by (simp add: as_bytes32_def mock_bench_def replicate_Suc [symmetric] del: replicate_Suc)
    then show ?thesis by (simp add: mock_def mock_decode_account_def)
  qed
  moreover have "nfts_collection_deposit mock = 0" by (simp add: mock_def)
  ultimately show ?thesis
    by (auto simp: bench_laws_def mock_bench_def mock_service_def mock_counter word_unat_eq_iff
        unat_PRICE unat_div unat_minus_one_word)
qed

lemma mock_bench_ready: "bench_ready mock mock_service mock_bench mock_s0"
proof -
  have "blank mock mock_service 10 mock_s0"
    by (simp add: blank_def splits_inv_def valid_splits_def total_basis_points_def mock_s0_def genesis_def
        mock_ext0_def mock_service_def mock_counter)
  moreover have "min_auto_renew_period mock = 100" by (simp add: mock_def)
  ultimately show ?thesis
    using mock_bench_laws mock_obliging mock_lawful by (simp add: bench_ready_def mock_s0_def genesis_def)
qed

section \<open>Properties\<close>

text \<open>The suite, with the components \<open>s\<close> (splits), \<open>h\<close> (holders), \<open>n\<close> (renewals) and \<open>p\<close> (split payments).\<close>

definition benchmark_suite ::
  "('a, 'x) bench_env \<Rightarrow> ('a, 'x) config \<Rightarrow> u32 \<Rightarrow> u32 \<Rightarrow> u32 \<Rightarrow> u32 \<Rightarrow>
     (('a, 'x) state \<Rightarrow> bench_error + ('a, 'x) state) list" where
  "benchmark_suite b cfg s h n p =
     [bench_register_content b cfg, bench_subscribe b cfg s, bench_renew_subscription b cfg s,
      bench_purchase_views b cfg s, bench_consume_view b cfg, bench_purchase_ownership b cfg s,
      bench_check_access b cfg, bench_xcm_subscribe b cfg s, bench_xcm_renew_subscription b cfg s,
      bench_xcm_purchase_views b cfg s, bench_xcm_purchase_ownership b cfg s, bench_transfer_ownership b cfg,
      bench_xcm_transfer_ownership b cfg, bench_set_royalty_splits b cfg s, bench_enable_auto_renew b cfg,
      bench_disable_auto_renew b cfg, bench_query_rights_metadata b cfg s, bench_set_meter b cfg,
      bench_consume_view_for b cfg, bench_on_initialize_renewals b cfg n,
      bench_on_initialize_split_payments b cfg p, scale_subscribe b cfg h, scale_check_access b cfg h,
      scale_consume_view b cfg h, scale_transfer_ownership b cfg h]"

lemma bench_hook_ok:
  assumes ready: "bench_ready cfg sv b st"
  shows "n \<le> of_nat MAX_RENEWALS_PER_BLOCK \<Longrightarrow> is_ok (bench_on_initialize_renewals b cfg n st)"
    and "p \<le> MAX_SPLIT_PAYMENTS \<Longrightarrow> is_ok (bench_on_initialize_split_payments b cfg p st)"
proof -
  assume "n \<le> of_nat MAX_RENEWALS_PER_BLOCK"
  then have "unat n \<le> 10" by (simp add: MAX_RENEWALS_PER_BLOCK_def word_le_nat_alt)
  then show "is_ok (bench_on_initialize_renewals b cfg n st)"
    using hook_worst_case [OF ready, of n 0] by (auto simp: bench_on_initialize_renewals_def bench_simps)
next
  assume "p \<le> MAX_SPLIT_PAYMENTS"
  then have "unat p \<le> 10 * unat (10 :: u32)"
    by (simp add: MAX_SPLIT_PAYMENTS_def MAX_RENEWALS_PER_BLOCK_def MAX_ROYALTY_SPLITS_def word_le_nat_alt)
  then show "is_ok (bench_on_initialize_split_payments b cfg p st)"
    using hook_worst_case [OF ready, of 10 p]
    by (auto simp: bench_on_initialize_split_payments_def bench_simps MAX_RENEWALS_PER_BLOCK_def)
qed

text \<open>
  C15: Every benchmark from which the weights are measured runs to the end: on a chain whose pallets
  oblige, with contents still to register, no \<open>expect\<close> of the set-up panics, the measured call or
  block succeeds and the assertions hold, for all values of the components. So the suite measures
  successful calls with up to ten royalty transfers, the burn of the last view, and the last of the
  hundred slots, not an early failure.
\<close>

theorem benchmarks_pass:
  assumes "bench_ready cfg sv b st" and "s \<le> MAX_ROYALTY_SPLITS" and "h \<le> MAX_HOLDERS"
    and "n \<le> of_nat MAX_RENEWALS_PER_BLOCK" and "p \<le> MAX_SPLIT_PAYMENTS"
  shows "\<forall>bench\<in>set (benchmark_suite b cfg s h n p). is_ok (bench st)"
  using bench_register_content_ok [OF assms(1)] bench_subscribe_ok [OF assms(1,2)] bench_renew_ok [OF assms(1,2)]
    bench_views_ok [OF assms(1,2)] bench_consume_view_ok [OF assms(1)] bench_ownership_ok [OF assms(1,2)]
    bench_check_access_ok [OF assms(1)] bench_transfer_ok [OF assms(1)] bench_settings_ok [OF assms(1,2)]
    bench_enable_ok [OF assms(1)] bench_consume_view_for_ok [OF assms(1)] bench_hook_ok(1) [OF assms(1,4)]
    bench_hook_ok(2) [OF assms(1,5)] scale_ok [OF assms(1,3)] scale_views_ok [OF assms(1,3)]
  by (simp add: benchmark_suite_def)

theorem benchmarks_pass_witness:
  "is_ok (bench_enable_auto_renew mock_bench mock mock_s0) \<and>
   is_ok (bench_subscribe mock_bench mock 10 mock_s0) \<and> is_ok (scale_subscribe mock_bench mock 2000 mock_s0)"
  using benchmarks_pass [OF mock_bench_ready, of 10 2000 10 100]
  by (simp add: benchmark_suite_def MAX_ROYALTY_SPLITS_def MAX_HOLDERS_def MAX_RENEWALS_PER_BLOCK_def
      MAX_SPLIT_PAYMENTS_def)

text \<open>
  C14: The benchmarks of the hook measure what the hook charges for: after their set-up the block
  finds \<open>n\<close> renewals due, pays all of them with exactly \<open>p\<close> royalty transfers, and reports the weight
  of \<open>n\<close> renewals with \<open>p\<close> split payments; and each renewal takes the longest way, searching the
  whole window and losing auto-renewal because no slot is free.
\<close>

theorem hook_benchmark_worst_case:
  assumes "bench_ready cfg sv b st" and "unat n \<le> 10" and "unat p \<le> 10 * unat n"
  shows "\<exists>block s s'. setup_renewals b cfg n p st = Inr (block, s) \<and> current_block s = block \<and>
    length (renewal_queue s block) = unat n \<and> on_initialize cfg s = (renewals_weight (weights cfg) n p, s') \<and>
    renewal_queue s' block = [] \<and>
    (\<forall>(c, a)\<in>set (renewal_queue s block). auto_renew_index s' (c, a) = None \<and>
       AutoRenewalFailed c a RenewalQueueFull_reason \<in> set (events s'))"
  by (rule hook_worst_case [OF assms])

theorem hook_benchmark_worst_case_witness:
  "\<exists>block s s'. setup_renewals mock_bench mock 10 73 mock_s0 = Inr (block, s) \<and>
     length (renewal_queue s block) = 10 \<and>
     on_initialize mock s = (renewals_weight (weights mock) 10 73, s')"
  using hook_benchmark_worst_case [OF mock_bench_ready, of 10 73] by auto

end
