(* ===== verification/Verifier_Completeness.thy ===== *)
theory Verifier_Completeness
  imports Rights_Verifier
begin

text \<open>
  Verification succeeds when it should, the converse of its soundness: proofs that a full node of
  the relay chain and of CCRMS can build are accepted, if they fit the byte limit, and report the
  right as the ledger of CCRMS has it.
\<close>

section \<open>Honest proofs are accepted\<close>

text \<open>
  \<open>prove root key\<close> are the trie nodes on the path of a key below a root. A node list that has them,
  and perhaps others, yields the stored value, or that there is none.
\<close>

definition proofs_complete ::
  "('a, 'h) verifier_config \<Rightarrow> ('h \<Rightarrow> u8 list \<Rightarrow> u8 list option) \<Rightarrow> ('h \<Rightarrow> u8 list \<Rightarrow> u8 list list) \<Rightarrow> bool" where
  "proofs_complete cfg stored prove \<longleftrightarrow>
     (\<forall>root key nodes. set (prove root key) \<subseteq> set nodes \<longrightarrow> read_trie_value cfg root nodes key = Inr (stored root key))"

text \<open>
  The two proofs of a call: the nodes of the CCRMS head below the recorded relay root, and the nodes
  of the entry below the state root of that head, within the byte limit.
\<close>

definition honest_proofs ::
  "('a, 'h) verifier_config \<Rightarrow> ('h \<Rightarrow> u8 list \<Rightarrow> u8 list option) \<Rightarrow> ('h \<Rightarrow> u8 list \<Rightarrow> u8 list list) \<Rightarrow>
     ('a, 'h) verifier_state \<Rightarrow> u32 \<Rightarrow> string \<Rightarrow> u32 \<Rightarrow> 'a \<Rightarrow> u8 list list \<Rightarrow> u8 list list \<Rightarrow> bool" where
  "honest_proofs cfg stored prove s relay_block name c who rp cp \<longleftrightarrow>
     (\<exists>relay_root rights_root n.
        map_of (relay_roots s) relay_block = Some relay_root \<and>
        includes_head cfg (stored relay_root) rights_root n \<and>
        set (prove relay_root (para_head_key cfg (rights_para_id cfg))) \<subseteq> set rp \<and>
        set (prove rights_root (content_rights_key cfg name c who)) \<subseteq> set cp) \<and>
     proof_bytes cfg rp cp \<le> MAX_PROOF_BYTES"

lemma find_number: "map_option snd (find (\<lambda>(n, _). n = b) roots) = map_of roots b"
  by (induction roots) auto

lemma rights_state_complete:
  assumes "map_of (relay_roots s) b = Some relay_root"
    and "read_trie_value cfg relay_root rp (para_head_key cfg (rights_para_id cfg)) = Inr (relay_storage (para_head_key cfg (rights_para_id cfg)))"
    and "includes_head cfg relay_storage rights_root n"
  shows "rights_state cfg b rp s = Inr (rights_root, n)"
  using assms
  by (auto simp: rights_state_def find_number read_proof_value_def includes_head_def split: option.splits)

lemma read_rights_entry_complete:
  assumes "proof_bytes cfg rp cp \<le> MAX_PROOF_BYTES" and "rights_state cfg b rp s = Inr (rights_root, n)"
    and "read_trie_value cfg rights_root cp (content_rights_key cfg name c who) = Inr v"
  shows "read_rights_entry cfg b rp cp name c who s = Inr (v, n)"
  using assms by (simp add: read_rights_entry_def Let_def read_proof_value_def)

lemma honest_entry:
  assumes world: "proves_state cfg stored s b cs n" and complete: "proofs_complete cfg stored prove"
    and honest: "honest_proofs cfg stored prove s b name c who rp cp"
  obtains storage where "stores_rights cfg storage cs"
    and "read_rights_entry cfg b rp cp name c who s = Inr (storage (content_rights_key cfg name c who), n)"
proof -
  from honest obtain relay_root rights_root m where
    root: "map_of (relay_roots s) b = Some relay_root"
    and head: "includes_head cfg (stored relay_root) rights_root m"
    and nodes: "set (prove relay_root (para_head_key cfg (rights_para_id cfg))) \<subseteq> set rp"
      "set (prove rights_root (content_rights_key cfg name c who)) \<subseteq> set cp"
    and size: "proof_bytes cfg rp cp \<le> MAX_PROOF_BYTES"
    by (auto simp: honest_proofs_def)
  have read: "set (prove r k) \<subseteq> set ns \<Longrightarrow> read_trie_value cfg r ns k = Inr (stored r k)" for r k ns
    using complete by (simp add: proofs_complete_def)
  obtain r where r: "includes_head cfg (stored relay_root) r n" "stores_rights cfg (stored r) cs"
    using world map_of_SomeD [OF root] by (auto simp: proves_state_def)
  have "r = rights_root" "m = n" using r(1) head by (auto simp: includes_head_def split: option.splits)
  with rights_state_complete [OF root read [OF nodes(1)] head]
  have "rights_state cfg b rp s = Inr (r, n)" by simp
  from read_rights_entry_complete [OF size this read [OF nodes(2) [folded \<open>r = rights_root\<close>]]] r(2)
  show thesis by (intro that)
qed

lemma honest_calls_succeed:
  assumes world: "proves_state cfg stored s b cs n" and complete: "proofs_complete cfg stored prove"
  shows "honest_proofs cfg stored prove s b ''Ownership'' c who rp cp \<Longrightarrow>
      is_ok (verify_ownership cfg (Signed a) b rp cp c who s)"
    and "honest_proofs cfg stored prove s b ''Subscriptions'' c who rp cp \<Longrightarrow>
      is_ok (verify_subscription cfg (Signed a) b rp cp c who s)"
    and "honest_proofs cfg stored prove s b ''ViewPacks'' c who rp cp \<Longrightarrow>
      is_ok (verify_view_pack cfg (Signed a) b rp cp c who s)"
proof -
  note honest = honest_entry [OF world complete]
  show "is_ok (verify_ownership cfg (Signed a) b rp cp c who s)"
    if proofs: "honest_proofs cfg stored prove s b ''Ownership'' c who rp cp"
  proof -
    obtain storage where "stores_rights cfg storage cs" "read_rights_entry cfg b rp cp ''Ownership'' c who s =
        Inr (storage (content_rights_key cfg ''Ownership'' c who), n)"
      by (rule honest [OF proofs])
    then show ?thesis
      by (cases "ownership cs (c, who)")
         (auto simp: verify_ownership_def verifier_signed_def lift_error_def stores_rights_def)
  qed
  show "is_ok (verify_subscription cfg (Signed a) b rp cp c who s)"
    if proofs: "honest_proofs cfg stored prove s b ''Subscriptions'' c who rp cp"
  proof -
    obtain storage where "stores_rights cfg storage cs" "read_rights_entry cfg b rp cp ''Subscriptions'' c who s =
        Inr (storage (content_rights_key cfg ''Subscriptions'' c who), n)"
      by (rule honest [OF proofs])
    then show ?thesis
      by (cases "subscriptions cs (c, who)")
         (auto simp: verify_subscription_def verifier_signed_def lift_error_def stores_rights_def)
  qed
  show "is_ok (verify_view_pack cfg (Signed a) b rp cp c who s)"
    if proofs: "honest_proofs cfg stored prove s b ''ViewPacks'' c who rp cp"
  proof -
    obtain storage where "stores_rights cfg storage cs" "read_rights_entry cfg b rp cp ''ViewPacks'' c who s =
        Inr (storage (content_rights_key cfg ''ViewPacks'' c who), n)"
      by (rule honest [OF proofs])
    then show ?thesis
      by (cases "view_packs cs (c, who)")
         (auto simp: verify_view_pack_def verifier_signed_def lift_error_def stores_rights_def)
  qed
qed

text \<open>
  C36: A right can always be shown: whoever has the trie nodes of the CCRMS head below a relay root
  that is still recorded, and of the entry below the state root of that head, passes verification
  when they fit the byte limit, and the event reports the right as the CCRMS ledger has it. This
  holds for holders and for accounts without the right alike, so a denial can be shown as well.
\<close>

theorem honest_proof_verifies:
  assumes "proves_state cfg stored s b cs n" and "proofs_complete cfg stored prove"
  shows "(honest_proofs cfg stored prove s b ''Ownership'' c who rp cp \<longrightarrow>
      (\<exists>s'. verify_ownership cfg (Signed a) b rp cp c who s = Inr s' \<and> verifier_events s' = verifier_events s @
         [OwnershipVerified c who (Ownership \<in> rights_held n c who (ledger_of cs)) b n])) \<and>
    (honest_proofs cfg stored prove s b ''Subscriptions'' c who rp cp \<longrightarrow>
      (\<exists>s'. verify_subscription cfg (Signed a) b rp cp c who s = Inr s' \<and> verifier_events s' = verifier_events s @
         [SubscriptionVerified c who (Subscription \<in> rights_held n c who (ledger_of cs))
            (unwrap_or (paid_until (ledger_of cs) (c, who)) 0) b n])) \<and>
    (honest_proofs cfg stored prove s b ''ViewPacks'' c who rp cp \<longrightarrow>
      (\<exists>s'. verify_view_pack cfg (Signed a) b rp cp c who s = Inr s' \<and> verifier_events s' = verifier_events s @
         [ViewPackVerified c who (PayPerView \<in> rights_held n c who (ledger_of cs))
            (of_nat (views (ledger_of cs) (c, who))) b n]))"
  using honest_calls_succeed [OF assms] verify_ownership_correct [OF assms(1)]
    verify_subscription_correct [OF assms(1)] verify_view_pack_correct [OF assms(1)]
  unfolding is_ok_iff by meson

text \<open>Account 2 shows its view pack, account 9 that it has no ownership, with the nodes and an extra one.\<close>

definition mock_prove :: "nat \<Rightarrow> u8 list \<Rightarrow> u8 list list" where
  "mock_prove root key = [of_nat root # key]"

lemma mock_honest:
  assumes "set (mock_prove 1 (content_rights_key mock_keys name c a)) \<subseteq> set cp"
    and "proof_bytes mock_verifier (mock_prove 0 (para_head_key mock_keys 2000)) cp \<le> MAX_PROOF_BYTES"
  shows "honest_proofs mock_verifier mock_stored mock_prove mock_vs 77 name c a
    (mock_prove 0 (para_head_key mock_keys 2000)) cp"
  using assms by (auto simp: honest_proofs_def mock_vs_def includes_head_def mock_stored_def)

theorem honest_proof_verifies_witness:
  "\<exists>s' t'. verify_view_pack mock_verifier (Signed 1) 77 (mock_prove 0 (para_head_key mock_keys 2000))
       ([42] # mock_prove 1 (content_rights_key mock_keys ''ViewPacks'' 0 2)) 0 2 mock_vs = Inr s' \<and>
     verifier_events s' = [ViewPackVerified 0 2 True 3 77 5] \<and>
     verify_ownership mock_verifier (Signed 1) 77 (mock_prove 0 (para_head_key mock_keys 2000))
       (mock_prove 1 (content_rights_key mock_keys ''Ownership'' 0 9)) 0 9 mock_vs = Inr t' \<and>
     verifier_events t' = [OwnershipVerified 0 9 False 77 5]"
proof -
  have complete: "proofs_complete mock_verifier mock_stored mock_prove" by (simp add: proofs_complete_def)
  have v: "views (ledger_of mock_s1) (0, 2) = 3" by (simp add: ledger_of_def mock_s1_def)
  have size: "proof_bytes mock_verifier (mock_prove 0 (para_head_key mock_keys 2000))
        ([42] # mock_prove 1 (content_rights_key mock_keys ''ViewPacks'' 0 2)) \<le> MAX_PROOF_BYTES"
      "proof_bytes mock_verifier (mock_prove 0 (para_head_key mock_keys 2000))
        (mock_prove 1 (content_rights_key mock_keys ''Ownership'' 0 9)) \<le> MAX_PROOF_BYTES"
    by (simp_all add: word_le_nat_alt unat_proof_bytes mock_verifier_def mock_keys_def mock_prove_def
        para_head_key_def PARA_HEAD_PREFIX_def content_rights_key_def blake2_128_concat_def MAX_PROOF_BYTES_def)
  note complete_calls = honest_proof_verifies [OF mock_proves_state complete, of _ _ _ _ 1]
  have "\<exists>s'. verify_view_pack mock_verifier (Signed 1) 77 (mock_prove 0 (para_head_key mock_keys 2000))
       ([42] # mock_prove 1 (content_rights_key mock_keys ''ViewPacks'' 0 2)) 0 2 mock_vs = Inr s' \<and>
     verifier_events s' = [ViewPackVerified 0 2 True 3 77 5]"
    using complete_calls [of 0 2] mock_honest [OF _ size(1), of "''ViewPacks''" 0 2] v
    by (auto simp: mock_vs_def rights_held_def)
  moreover have "\<exists>t'. verify_ownership mock_verifier (Signed 1) 77 (mock_prove 0 (para_head_key mock_keys 2000))
       (mock_prove 1 (content_rights_key mock_keys ''Ownership'' 0 9)) 0 9 mock_vs = Inr t' \<and>
     verifier_events t' = [OwnershipVerified 0 9 False 77 5]"
    using complete_calls [of 0 9] mock_honest [OF _ size(2), of "''Ownership''" 0 9]
    by (auto simp: mock_vs_def rights_held_def mock_s1_def)
  ultimately show ?thesis by blast
qed

end
