(* ===== verification/Verifier_Benchmarks.thy ===== *)
theory Verifier_Benchmarks
  imports Verifier_Completeness Call_Codec
begin

text \<open>
  The benchmarks of the verifier, \<open>src/pallets/rights-verifier/src/benchmarking.rs\<close>. They build a
  relay trie with the CCRMS head and a CCRMS trie with the entry, pad the proof to the measured
  number of bytes and put the relay root at the end of a full window. Substrate's trie builder and
  the header encoder are parameters, fields of \<open>verifier_bench_env\<close>. Every benchmark runs to the end,
  and the measured call reports the right it was given a proof of.
\<close>

section \<open>Environment\<close>

datatype verifier_bench_error =
    VerifierExpect
  | VerifierCallFailed verifier_dispatch_error
  | VerifierAssertFailed
  | VerifierPanic

text \<open>
  \<open>trie_insert\<close> and \<open>trie_commit\<close> stand for \<open>TrieDBMutBuilderV1\<close> over a \<open>MemoryDB\<close>: committing gives
  the root and the nodes of the database with their reference counts. \<open>encode_header n root\<close> is the
  encoding of the header with that number and state root and default values otherwise.
\<close>

record ('a, 'h, 't) verifier_bench_env =
  bench_account :: "string \<Rightarrow> u32 \<Rightarrow> u32 \<Rightarrow> 'a"
  bench_caller :: 'a
  encode_header :: "u32 \<Rightarrow> 'h \<Rightarrow> u8 list"
  repeat_byte :: "u8 \<Rightarrow> 'h"
  trie_empty :: 't
  trie_insert :: "u8 list \<Rightarrow> u8 list \<Rightarrow> 't \<Rightarrow> 't option"
  trie_commit :: "'t \<Rightarrow> 'h \<times> (u8 list \<times> int) list"

definition RELAY_BLOCK :: u32 where
  "RELAY_BLOCK = 1000000"

definition RIGHTS_BLOCK :: u32 where
  "RIGHTS_BLOCK = 50"

definition MAX_PADDING :: u32 where
  "MAX_PADDING = 15000"

definition PAD_NODE :: nat where
  "PAD_NODE = 512"

section \<open>Set-up code\<close>

definition trie ::
  "('a, 'h, 't) verifier_bench_env \<Rightarrow> (u8 list \<times> u8 list) list \<Rightarrow> verifier_bench_error + 'h \<times> u8 list list" where
  "trie env entries =
     and_then (for_each (\<lambda>(k, v) t. ok_or (trie_insert env k v t) VerifierExpect) entries (trie_empty env)) (\<lambda>t.
     let (root, db) = trie_commit env t
     in Inr (root, map fst (filter (\<lambda>(_, rc). 0 < rc) db)))"

text \<open>The loop of \<open>padding\<close>: \<open>left\<close> bytes remain, the next node gets number \<open>i\<close>.\<close>

definition pad_node :: "nat \<Rightarrow> u32 \<Rightarrow> u8 list" where
  "pad_node n i = take (min 4 n) (encode_u32 i) @ drop (min 4 n) (replicate n 0xAB)"

function padding_loop :: "nat \<Rightarrow> u32 \<Rightarrow> u8 list list \<Rightarrow> u8 list list" where
  "padding_loop left i out =
     (if 0 < left
      then let n = min left PAD_NODE in padding_loop (left - n) (i + 1) (out @ [pad_node n i])
      else out)"
  by pat_completeness auto
termination
  by (relation "measure (\<lambda>(left, _, _). left)") (auto simp: PAD_NODE_def)

definition padding :: "u32 \<Rightarrow> u8 list list" where
  "padding b = padding_loop (unat b) 0 []"

definition encode_bytes :: "u8 list \<Rightarrow> u8 list" where
  "encode_bytes bs = encode_vec encode_u8 bs"

text \<open>The entries of the two tries, and the full window with the target relay block last.\<close>

definition rights_entries ::
  "('a, 'h) verifier_config \<Rightarrow> string \<Rightarrow> 'a \<Rightarrow> u8 list \<Rightarrow> (u8 list \<times> u8 list) list" where
  "rights_entries cfg storage_name who value =
     [(content_rights_key cfg storage_name 0 who, value), (ascii ''other-entry'', replicate 32 1)]"

definition relay_entries ::
  "('a, 'h, 't) verifier_bench_env \<Rightarrow> ('a, 'h) verifier_config \<Rightarrow> 'h \<Rightarrow> (u8 list \<times> u8 list) list" where
  "relay_entries env cfg state_root =
     [(para_head_key cfg (rights_para_id cfg), encode_bytes (encode_header env RIGHTS_BLOCK state_root)),
      (ascii ''other-relay-entry'', replicate 32 2)]"

definition full_window ::
  "('a, 'h, 't) verifier_bench_env \<Rightarrow> ('a, 'h) verifier_config \<Rightarrow> 'h \<Rightarrow> (u32 \<times> 'h) list" where
  "full_window env cfg relay_root =
     map (\<lambda>i. (RELAY_BLOCK - of_nat (max_relay_roots cfg) + of_nat i, repeat_byte env (of_nat i)))
       [1..<max_relay_roots cfg] @ [(RELAY_BLOCK, relay_root)]"

definition put_roots ::
  "('a, 'h) verifier_config \<Rightarrow> (u32 \<times> 'h) list \<Rightarrow> ('a, 'h) verifier_state \<Rightarrow>
     verifier_bench_error + ('a, 'h) verifier_state" where
  "put_roots cfg roots s =
     and_then (ensure (length roots \<le> max_relay_roots cfg) VerifierExpect) (\<lambda>_. Inr (s\<lparr>relay_roots := roots\<rparr>))"

definition setup_proofs ::
  "('a, 'h, 't) verifier_bench_env \<Rightarrow> ('a, 'h) verifier_config \<Rightarrow> string \<Rightarrow> 'a \<Rightarrow> u8 list \<Rightarrow> u32 \<Rightarrow>
     ('a, 'h) verifier_state \<Rightarrow> verifier_bench_error + u8 list list \<times> u8 list list \<times> ('a, 'h) verifier_state" where
  "setup_proofs env cfg storage_name who value b s =
     and_then (trie env (rights_entries cfg storage_name who value)) (\<lambda>(state_root, rights_proof).
     let rights_proof = rights_proof @ padding b in
     and_then (trie env (relay_entries env cfg state_root)) (\<lambda>(relay_root, relay_proof).
     and_then (put_roots cfg (full_window env cfg relay_root) s) (\<lambda>s.
     Inr (relay_proof, rights_proof, s))))"

section \<open>Benchmarks\<close>

text \<open>The derived encoders of the remote types.\<close>

definition encode_remote_ownership_info :: "remote_ownership_info \<Rightarrow> u8 list" where
  "encode_remote_ownership_info i = encode_u32 (ro_child_item_id i)"

definition encode_remote_subscription_info :: "remote_subscription_info \<Rightarrow> u8 list" where
  "encode_remote_subscription_info i =
     encode_u32 (rs_expiry_block i) @ encode_bool (rs_auto_renew i) @ encode_u32 (rs_child_item_id i)"

definition encode_remote_view_pack_info :: "remote_view_pack_info \<Rightarrow> u8 list" where
  "encode_remote_view_pack_info i = encode_u32 (rv_views_remaining i) @ encode_u32 (rv_child_item_id i)"

definition bench_verify_ownership ::
  "('a, 'h, 't) verifier_bench_env \<Rightarrow> ('a, 'h) verifier_config \<Rightarrow> u32 \<Rightarrow> ('a, 'h) verifier_state \<Rightarrow>
     verifier_bench_error + ('a, 'h) verifier_state" where
  "bench_verify_ownership env cfg b s =
     (let who = bench_account env ''who'' 0 0;
          value = encode_remote_ownership_info \<lparr>ro_child_item_id = 1\<rparr>
      in and_then (setup_proofs env cfg ''Ownership'' who value b s) (\<lambda>(relay_proof, rights_proof, s).
         map_err VerifierCallFailed
           (verify_ownership cfg (Signed (bench_caller env)) RELAY_BLOCK relay_proof rights_proof 0 who s)))"

definition bench_verify_subscription ::
  "('a, 'h, 't) verifier_bench_env \<Rightarrow> ('a, 'h) verifier_config \<Rightarrow> u32 \<Rightarrow> ('a, 'h) verifier_state \<Rightarrow>
     verifier_bench_error + ('a, 'h) verifier_state" where
  "bench_verify_subscription env cfg b s =
     (let who = bench_account env ''who'' 0 0;
          value = encode_remote_subscription_info
            \<lparr>rs_expiry_block = 100, rs_auto_renew = True, rs_child_item_id = 1\<rparr>
      in and_then (setup_proofs env cfg ''Subscriptions'' who value b s) (\<lambda>(relay_proof, rights_proof, s).
         map_err VerifierCallFailed
           (verify_subscription cfg (Signed (bench_caller env)) RELAY_BLOCK relay_proof rights_proof 0 who s)))"

definition bench_verify_view_pack ::
  "('a, 'h, 't) verifier_bench_env \<Rightarrow> ('a, 'h) verifier_config \<Rightarrow> u32 \<Rightarrow> ('a, 'h) verifier_state \<Rightarrow>
     verifier_bench_error + ('a, 'h) verifier_state" where
  "bench_verify_view_pack env cfg b s =
     (let who = bench_account env ''who'' 0 0;
          value = encode_remote_view_pack_info \<lparr>rv_views_remaining = 3, rv_child_item_id = 1\<rparr>
      in and_then (setup_proofs env cfg ''ViewPacks'' who value b s) (\<lambda>(relay_proof, rights_proof, s).
         map_err VerifierCallFailed
           (verify_view_pack cfg (Signed (bench_caller env)) RELAY_BLOCK relay_proof rights_proof 0 who s)))"

text \<open>\<open>set_for_benchmarks\<close> makes \<open>current\<close> answer with the given relay parent.\<close>

definition bench_record_relay_root ::
  "('a, 'h, 't) verifier_bench_env \<Rightarrow> ('a, 'h) verifier_config \<Rightarrow> ('a, 'h) verifier_state \<Rightarrow>
     verifier_bench_error + ('a, 'h) verifier_state" where
  "bench_record_relay_root env cfg s =
     (let max_roots = of_nat (max_relay_roots cfg) :: u32;
          roots = map (\<lambda>i. (of_nat i, repeat_byte env (of_nat i))) [0..<max_relay_roots cfg];
          current = Some (max_roots + 1, repeat_byte env 0xEE)
      in and_then (put_roots cfg roots s) (\<lambda>s.
         and_then (ok_or (record_relay_root cfg current s) VerifierPanic) (\<lambda>s.
         and_then (ensure (relay_roots s \<noteq> [] \<and> fst (last (relay_roots s)) = max_roots + 1) VerifierAssertFailed) (\<lambda>_.
         Inr s))))"

section \<open>Padding\<close>

lemma length_pad_node: "length (pad_node n i) = n"
  by (simp add: pad_node_def)

declare padding_loop.simps [simp del]

lemma padding_loop_bytes:
  "(\<Sum>node\<leftarrow>padding_loop left i out. length node) = (\<Sum>node\<leftarrow>out. length node) + left"
proof (induction left i out rule: padding_loop.induct)
  case (1 left i out)
  then show ?case
    by (subst padding_loop.simps) (auto simp: Let_def length_pad_node)
qed

lemma padding_bytes: "(\<Sum>node\<leftarrow>padding b. length node) = unat b"
  by (simp add: padding_def padding_loop_bytes)

section \<open>Every benchmark runs\<close>

text \<open>
  The trie of \<open>es\<close> can be built and has the root \<open>root\<close>; reading a key below that root from its nodes
  followed by padding gives the last value inserted for the key, or that there is none; and the
  nodes take at most the bytes of the entries and 160 bytes more per entry (a leaf and its share of
  the branches above it).
\<close>

definition commits ::
  "('a, 'h, 't) verifier_bench_env \<Rightarrow> ('a, 'h) verifier_config \<Rightarrow> (u8 list \<times> u8 list) list \<Rightarrow> 'h \<Rightarrow> bool" where
  "commits env cfg es root \<longleftrightarrow>
     (\<exists>nodes. trie env es = Inr (root, nodes) \<and>
        (\<forall>b key. b \<le> MAX_PADDING \<longrightarrow> read_trie_value cfg root (nodes @ padding b) key = Inr (map_of (rev es) key)) \<and>
        (\<Sum>node\<leftarrow>nodes. length node) \<le> (\<Sum>(k, v)\<leftarrow>es. length k + length v) + 160 * length es)"

definition bench_values :: "(string \<times> u8 list) list" where
  "bench_values =
     [(''Ownership'', encode_remote_ownership_info \<lparr>ro_child_item_id = 1\<rparr>),
      (''Subscriptions'', encode_remote_subscription_info
         \<lparr>rs_expiry_block = 100, rs_auto_renew = True, rs_child_item_id = 1\<rparr>),
      (''ViewPacks'', encode_remote_view_pack_info \<lparr>rv_views_remaining = 3, rv_child_item_id = 1\<rparr>)]"

text \<open>
  What the benchmarks rely on: the lengths of the hashes, of an account and of a header with an
  empty digest, the decoders as inverses of the encoders, the tries of the six proofs, and a bound
  on the window that is positive and leaves room for one more \<open>u32\<close>.
\<close>

definition verifier_bench_laws ::
  "('a, 'h, 't) verifier_bench_env \<Rightarrow> ('a, 'h) verifier_config \<Rightarrow> bool" where
  "verifier_bench_laws env cfg \<longleftrightarrow>
     0 < max_relay_roots cfg \<and> max_relay_roots cfg < 2 ^ 32 - 1 \<and> 2 ^ 32 - 1 \<le> usize_max cfg \<and>
     (\<forall>x. length (twox_64 cfg x) = 8 \<and> length (twox_128 cfg x) = 16 \<and> length (blake2_128 cfg x) = 16) \<and>
     length (encode_account cfg (bench_account env ''who'' 0 0)) \<le> 32 \<and>
     (\<forall>n root. length (encode_header env n root) \<le> 102 \<and>
        decode_header cfg (encode_header env n root) = Some (root, n)) \<and>
     (\<forall>bs. length bs \<le> 102 \<longrightarrow> decode_bytes cfg (encode_bytes bs) = Some bs) \<and>
     (\<forall>(name, value)\<in>set bench_values. \<exists>state_root relay_root.
        commits env cfg (rights_entries cfg name (bench_account env ''who'' 0 0) value) state_root \<and>
        commits env cfg (relay_entries env cfg state_root) relay_root)"

lemma verifier_bench_lawsD:
  assumes "verifier_bench_laws env cfg"
  shows "0 < max_relay_roots cfg" and "max_relay_roots cfg < 2 ^ 32 - 1" and "2 ^ 32 - 1 \<le> usize_max cfg"
    and "length (twox_64 cfg x) = 8" and "length (twox_128 cfg x) = 16" and "length (blake2_128 cfg x) = 16"
    and "length (encode_account cfg (bench_account env ''who'' 0 0)) \<le> 32"
    and "length (encode_header env n root) \<le> 102" and "decode_header cfg (encode_header env n root) = Some (root, n)"
    and "length bs \<le> 102 \<Longrightarrow> decode_bytes cfg (encode_bytes bs) = Some bs"
  using assms unfolding verifier_bench_laws_def by blast+

lemma bench_tries:
  assumes "verifier_bench_laws env cfg" and "(name, value) \<in> set bench_values"
  obtains state_root relay_root
  where "commits env cfg (rights_entries cfg name (bench_account env ''who'' 0 0) value) state_root"
    and "commits env cfg (relay_entries env cfg state_root) relay_root"
  using assms unfolding verifier_bench_laws_def by fast

lemma length_concat_encode_u8: "length (concat (map encode_u8 bs)) = length bs"
  by (induction bs) (simp_all add: encode_u8_def)

lemma length_encode_bytes: "length (encode_bytes bs) \<le> length bs + 4"
  by (simp add: encode_bytes_def encode_vec_def length_concat_encode_u8 encode_compact_def)

lemma length_keys:
  assumes "verifier_bench_laws env cfg"
  shows "length (para_head_key cfg p) = 44"
    and "length (content_rights_key cfg name c a) = 68 + length (encode_account cfg a)"
  using verifier_bench_lawsD(4-6) [OF assms]
  by (simp_all add: para_head_key_def Let_def PARA_HEAD_PREFIX_def content_rights_key_def blake2_128_concat_def)

lemma bench_values_size: "(name, value) \<in> set bench_values \<Longrightarrow> length value \<le> 9"
  by (auto simp: bench_values_def encode_remote_ownership_info_def encode_remote_subscription_info_def
      encode_remote_view_pack_info_def encode_bool_def)

text \<open>The entries are found below the roots, and the nodes leave room for the padding.\<close>

lemma bench_entries:
  assumes laws: "verifier_bench_laws env cfg" and val: "(name, value) \<in> set bench_values"
    and who: "who = bench_account env ''who'' 0 0"
  shows "map_of (rev (rights_entries cfg name who value)) (content_rights_key cfg name 0 who) = Some value"
    and "map_of (rev (relay_entries env cfg root)) (para_head_key cfg (rights_para_id cfg)) =
      Some (encode_bytes (encode_header env RIGHTS_BLOCK root))"
    and "(\<Sum>(k, v)\<leftarrow>rights_entries cfg name who value. length k + length v) \<le> 152"
    and "(\<Sum>(k, v)\<leftarrow>relay_entries env cfg root. length k + length v) \<le> 199"
proof -
  note len = length_keys [OF laws] bench_values_size [OF val] verifier_bench_lawsD(7,8) [OF laws]
  have differ: "content_rights_key cfg name 0 who \<noteq> ascii ''other-entry''"
    "para_head_key cfg (rights_para_id cfg) \<noteq> ascii ''other-relay-entry''"
    by (auto simp: len dest: arg_cong [where f = length])
  show "map_of (rev (rights_entries cfg name who value)) (content_rights_key cfg name 0 who) = Some value"
    "map_of (rev (relay_entries env cfg root)) (para_head_key cfg (rights_para_id cfg)) =
      Some (encode_bytes (encode_header env RIGHTS_BLOCK root))"
    using differ by (simp_all add: rights_entries_def relay_entries_def)
  show "(\<Sum>(k, v)\<leftarrow>rights_entries cfg name who value. length k + length v) \<le> 152"
    using len(3,4) by (simp add: rights_entries_def len(2) who)
  show "(\<Sum>(k, v)\<leftarrow>relay_entries env cfg root. length k + length v) \<le> 199"
    using length_encode_bytes [of "encode_header env RIGHTS_BLOCK root"] len(5) [of RIGHTS_BLOCK root]
    by (simp add: relay_entries_def len(1))
qed

lemma full_window_root:
  assumes "0 < max_relay_roots cfg" and "max_relay_roots cfg < 2 ^ 32 - 1"
  shows "length (full_window env cfg root) = max_relay_roots cfg"
    and "map_of (full_window env cfg root) RELAY_BLOCK = Some root"
proof -
  show "length (full_window env cfg root) = max_relay_roots cfg" using assms(1) by (simp add: full_window_def)
  have "RELAY_BLOCK - of_nat (max_relay_roots cfg) + of_nat i \<noteq> RELAY_BLOCK" if "i < max_relay_roots cfg" for i
  proof
    assume "RELAY_BLOCK - of_nat (max_relay_roots cfg) + of_nat i = RELAY_BLOCK"
    then have "(of_nat i :: u32) = of_nat (max_relay_roots cfg)" by (simp add: algebra_simps)
    then have "unat (of_nat i :: u32) = unat (of_nat (max_relay_roots cfg) :: u32)" by simp
    with that assms(2) show False by (simp add: unat_of_nat)
  qed
  then show "map_of (full_window env cfg root) RELAY_BLOCK = Some root"
    by (auto simp: full_window_def map_add_def map_of_eq_None_iff split: option.splits dest!: map_of_SomeD)
qed

lemma setup_proofs_run:
  assumes laws: "verifier_bench_laws env cfg" and val: "(name, value) \<in> set bench_values"
    and b: "b \<le> MAX_PADDING" and who: "who = bench_account env ''who'' 0 0"
  obtains rp cp s' where "setup_proofs env cfg name who value b s = Inr (rp, cp, s')"
    and "verifier_events s' = verifier_events s" and "length (relay_roots s') = max_relay_roots cfg"
    and "b \<le> proof_bytes cfg rp cp" and "proof_bytes cfg rp cp \<le> MAX_PROOF_BYTES"
    and "read_rights_entry cfg RELAY_BLOCK rp cp name 0 who s' = Inr (Some value, RIGHTS_BLOCK)"
proof -
  note law = verifier_bench_lawsD [OF laws] and entries = bench_entries [OF laws val who]
  obtain state_root relay_root where
    rights: "commits env cfg (rights_entries cfg name who value) state_root"
    and relay: "commits env cfg (relay_entries env cfg state_root) relay_root"
    unfolding who by (rule bench_tries [OF laws val])
  from rights obtain ns where ns: "trie env (rights_entries cfg name who value) = Inr (state_root, ns)"
      "\<And>key. read_trie_value cfg state_root (ns @ padding b) key = Inr (map_of (rev (rights_entries cfg name who value)) key)"
      "(\<Sum>node\<leftarrow>ns. length node) \<le> 472"
    using entries(3) b unfolding commits_def by (auto simp: rights_entries_def)
  from relay obtain rp where rp: "trie env (relay_entries env cfg state_root) = Inr (relay_root, rp)"
      "\<And>b key. b \<le> MAX_PADDING \<Longrightarrow>
         read_trie_value cfg relay_root (rp @ padding b) key = Inr (map_of (rev (relay_entries env cfg state_root)) key)"
      "(\<Sum>node\<leftarrow>rp. length node) \<le> 519"
    using entries(4) [of state_root] unfolding commits_def by (auto simp: relay_entries_def)
  have "padding 0 = []" by (simp add: padding_def padding_loop.simps)
  with rp(2) [of 0] entries(2) have head: "read_trie_value cfg relay_root rp (para_head_key cfg (rights_para_id cfg)) =
      Inr (Some (encode_bytes (encode_header env RIGHTS_BLOCK state_root)))"
    by (simp add: MAX_PADDING_def)
  let ?s = "s\<lparr>relay_roots := full_window env cfg relay_root\<rparr>" and ?cp = "ns @ padding b"
  have run: "setup_proofs env cfg name who value b s = Inr (rp, ?cp, ?s)"
    by (simp add: setup_proofs_def ns(1) rp(1) put_roots_def full_window_root(1) [OF law(1,2)])
  have "unat b \<le> 15000" using b by (simp add: MAX_PADDING_def word_le_nat_alt)
  then have size: "b \<le> proof_bytes cfg rp ?cp" "proof_bytes cfg rp ?cp \<le> MAX_PROOF_BYTES"
    using ns(3) rp(3)
    by (simp_all add: word_le_nat_alt unat_proof_bytes [OF law(3)] padding_bytes MAX_PROOF_BYTES_def)
  let ?relay = "[para_head_key cfg (rights_para_id cfg) \<mapsto> encode_bytes (encode_header env RIGHTS_BLOCK state_root)]"
  have "includes_head cfg ?relay state_root RIGHTS_BLOCK" using law(8-10) by (simp add: includes_head_def)
  then have "rights_state cfg RELAY_BLOCK rp ?s = Inr (state_root, RIGHTS_BLOCK)"
    using head by (intro rights_state_complete [where relay_storage = ?relay and relay_root = relay_root])
      (simp_all add: full_window_root(2) [OF law(1,2)])
  from read_rights_entry_complete [OF size(2) this] ns(2) entries(1)
  have "read_rights_entry cfg RELAY_BLOCK rp ?cp name 0 who ?s = Inr (Some value, RIGHTS_BLOCK)" by simp
  with run size show thesis by (intro that [of rp ?cp ?s]) (simp_all add: full_window_root(1) [OF law(1,2)])
qed

lemma remote_roundtrip:
  "decode_remote_ownership_info (encode_remote_ownership_info i) = Some i"
  "decode_remote_subscription_info (encode_remote_subscription_info j) = Some j"
  "decode_remote_view_pack_info (encode_remote_view_pack_info k) = Some k"
  by (simp_all add: decode_remote_ownership_info_def encode_remote_ownership_info_def
      decode_remote_subscription_info_def encode_remote_subscription_info_def
      decode_remote_view_pack_info_def encode_remote_view_pack_info_def
      u32_codec.decode_encode u32_codec.decode_encode_self bool_codec.decode_encode)

lemma bench_verify_run:
  assumes laws: "verifier_bench_laws env cfg" and b: "b \<le> MAX_PADDING"
    and who: "who = bench_account env ''who'' 0 0"
  shows "\<exists>s'. bench_verify_ownership env cfg b s = Inr s' \<and>
      verifier_events s' = verifier_events s @ [OwnershipVerified 0 who True RELAY_BLOCK RIGHTS_BLOCK]"
    and "\<exists>s'. bench_verify_subscription env cfg b s = Inr s' \<and>
      verifier_events s' = verifier_events s @ [SubscriptionVerified 0 who True 100 RELAY_BLOCK RIGHTS_BLOCK]"
    and "\<exists>s'. bench_verify_view_pack env cfg b s = Inr s' \<and>
      verifier_events s' = verifier_events s @ [ViewPackVerified 0 who True 3 RELAY_BLOCK RIGHTS_BLOCK]"
proof -
  note run = setup_proofs_run [OF laws _ b who]
  note calls = verifier_signed_def lift_error_def remote_roundtrip who [symmetric] RIGHTS_BLOCK_def
  let ?o = "encode_remote_ownership_info \<lparr>ro_child_item_id = 1\<rparr>"
  let ?u = "encode_remote_subscription_info \<lparr>rs_expiry_block = 100, rs_auto_renew = True, rs_child_item_id = 1\<rparr>"
  let ?v = "encode_remote_view_pack_info \<lparr>rv_views_remaining = 3, rv_child_item_id = 1\<rparr>"
  obtain rp cp s' where "setup_proofs env cfg ''Ownership'' who ?o b s = Inr (rp, cp, s')"
      "verifier_events s' = verifier_events s"
      "read_rights_entry cfg RELAY_BLOCK rp cp ''Ownership'' 0 who s' = Inr (Some ?o, RIGHTS_BLOCK)"
    by (rule run [of "''Ownership''" ?o]) (simp add: bench_values_def)
  then show "\<exists>s'. bench_verify_ownership env cfg b s = Inr s' \<and>
      verifier_events s' = verifier_events s @ [OwnershipVerified 0 who True RELAY_BLOCK RIGHTS_BLOCK]"
    by (simp add: bench_verify_ownership_def verify_ownership_def calls)
  obtain rp cp s' where "setup_proofs env cfg ''Subscriptions'' who ?u b s = Inr (rp, cp, s')"
      "verifier_events s' = verifier_events s"
      "read_rights_entry cfg RELAY_BLOCK rp cp ''Subscriptions'' 0 who s' = Inr (Some ?u, RIGHTS_BLOCK)"
    by (rule run [of "''Subscriptions''" ?u]) (simp add: bench_values_def)
  then show "\<exists>s'. bench_verify_subscription env cfg b s = Inr s' \<and>
      verifier_events s' = verifier_events s @ [SubscriptionVerified 0 who True 100 RELAY_BLOCK RIGHTS_BLOCK]"
    by (simp add: bench_verify_subscription_def verify_subscription_def calls)
  obtain rp cp s' where "setup_proofs env cfg ''ViewPacks'' who ?v b s = Inr (rp, cp, s')"
      "verifier_events s' = verifier_events s"
      "read_rights_entry cfg RELAY_BLOCK rp cp ''ViewPacks'' 0 who s' = Inr (Some ?v, RIGHTS_BLOCK)"
    by (rule run [of "''ViewPacks''" ?v]) (simp add: bench_values_def)
  then show "\<exists>s'. bench_verify_view_pack env cfg b s = Inr s' \<and>
      verifier_events s' = verifier_events s @ [ViewPackVerified 0 who True 3 RELAY_BLOCK RIGHTS_BLOCK]"
    by (simp add: bench_verify_view_pack_def verify_view_pack_def calls)
qed

lemma bench_record_run:
  assumes "0 < max_relay_roots cfg" and "max_relay_roots cfg < 2 ^ 32 - 1"
  shows "\<exists>s'. bench_record_relay_root env cfg s = Inr s' \<and> length (relay_roots s') = max_relay_roots cfg \<and>
    fst ` set (relay_roots s') = insert (of_nat (max_relay_roots cfg) + 1) (of_nat ` {1..<max_relay_roots cfg})"
proof -
  let ?m = "max_relay_roots cfg" and ?w = "\<lambda>i. (of_nat i :: u32, repeat_byte env (of_nat i))"
  have new: "(of_nat i :: u32) \<noteq> of_nat ?m + 1" if "i < ?m" for i
  proof
    assume "(of_nat i :: u32) = of_nat ?m + 1"
    then have "unat (of_nat i :: u32) = unat (of_nat (Suc ?m) :: u32)" by (simp add: add.commute)
    moreover have "unat (of_nat (Suc ?m) :: u32) = Suc ?m" "unat (of_nat i :: u32) = i"
      using that assms(2) by (simp_all add: unat_of_nat del: of_nat_Suc)
    ultimately show False using that by simp
  qed
  have split: "map ?w [0..<?m] = ?w 0 # map ?w [1..<?m]" using assms(1) by (simp add: upt_rec [of 0])
  have "\<not> list_ex (\<lambda>(n, _). n = of_nat ?m + 1) (map ?w [0..<?m])" using new by (auto simp: list_ex_iff)
  then have "record_relay_root cfg (Some (of_nat ?m + 1, repeat_byte env 0xEE)) (s\<lparr>relay_roots := map ?w [0..<?m]\<rparr>) =
      Some (s\<lparr>relay_roots := map ?w [1..<?m] @ [(of_nat ?m + 1, repeat_byte env 0xEE)]\<rparr>)"
    using assms(1) by (simp add: record_relay_root_def split)
  then show ?thesis
    using assms(1) by (simp add: bench_record_relay_root_def Let_def put_roots_def image_image)
qed

section \<open>A concrete trie\<close>

text \<open>
  A trie of one node, the encoded list of entries; the root is a checksum of it. Reading looks for
  the first node with the checksum.
\<close>

definition decode_bytes1000 :: "u8 list \<Rightarrow> (u8 list \<times> u8 list) option" where
  "decode_bytes1000 = decode_bounded_vec 1000 decode_u8"

definition encode_entry :: "u8 list \<times> u8 list \<Rightarrow> u8 list" where
  "encode_entry = (\<lambda>(k, v). encode_bytes k @ encode_bytes v)"

definition decode_entry :: "u8 list \<Rightarrow> ((u8 list \<times> u8 list) \<times> u8 list) option" where
  "decode_entry bs =
     Option.bind (decode_bytes1000 bs) (\<lambda>(k, bs).
     Option.bind (decode_bytes1000 bs) (\<lambda>(v, bs). Some ((k, v), bs)))"

definition checksum :: "u8 list \<Rightarrow> u32" where
  "checksum bs = fold (\<lambda>b h. 31 * h + ucast b) bs 0"

definition node_of :: "(u8 list \<times> u8 list) list \<Rightarrow> u8 list" where
  "node_of es = encode_vec encode_entry es"

definition mock_verifier_bench :: "(nat, u32, (u8 list \<times> u8 list) list) verifier_bench_env" where
  "mock_verifier_bench =
     \<lparr>bench_account = (\<lambda>_ i _. unat i + 7), bench_caller = 1,
      encode_header = (\<lambda>n root. encode_u32 root @ encode_u32 n), repeat_byte = (\<lambda>b. ucast b * 0x01010101),
      trie_empty = [], trie_insert = (\<lambda>k v t. Some (t @ [(k, v)])),
      trie_commit = (\<lambda>t. (checksum (node_of t), [([0], 0), (node_of t, 1)]))\<rparr>"

definition mock_bench_verifier :: "(nat, u32) verifier_config" where
  "mock_bench_verifier =
     \<lparr>rights_para_id = 100, max_relay_roots = 100, usize_max = 2 ^ 32 - 1,
      twox_64 = (\<lambda>_. replicate 8 0), twox_128 = (\<lambda>_. replicate 16 0), blake2_128 = (\<lambda>_. replicate 16 0),
      encode_account = (\<lambda>a. encode_u32 (of_nat a)),
      read_trie_value = (\<lambda>root nodes key.
        case find (\<lambda>n. checksum n = root) nodes of None \<Rightarrow> Inl ()
        | Some n \<Rightarrow> (case decode_bounded_vec 10 decode_entry n of None \<Rightarrow> Inl ()
            | Some (es, _) \<Rightarrow> Inr (map_of (rev es) key))),
      decode_bytes = (\<lambda>bs. map_option fst (decode_bytes1000 bs)),
      decode_header = (\<lambda>bs. Option.bind (decode_u32 bs) (\<lambda>(root, bs). map_option (\<lambda>(n, _). (root, n)) (decode_u32 bs)))\<rparr>"

interpretation bytes_codec: checked_codec encode_bytes decode_bytes1000 "\<lambda>bs. length bs \<le> 1000"
  by unfold_locales (simp add: decode_bytes1000_def encode_bytes_def u8_codec.checked.decode_bounded_vec_iff)

interpretation entry_codec: checked_codec encode_entry decode_entry "\<lambda>(k, v). length k \<le> 1000 \<and> length v \<le> 1000"
proof
  fix bs rest and e :: "u8 list \<times> u8 list"
  show "decode_entry bs = Some (e, rest) \<longleftrightarrow>
      (case e of (k, v) \<Rightarrow> length k \<le> 1000 \<and> length v \<le> 1000) \<and> bs = encode_entry e @ rest"
    by (cases e) (auto simp: decode_entry_def encode_entry_def bind_eq_Some_conv bytes_codec.decode_iff)
qed

lemma length_encode_entry: "length (encode_entry (k, v)) \<le> length k + length v + 8"
  using length_encode_bytes [of k] length_encode_bytes [of v] by (simp add: encode_entry_def)

lemma mock_commits:
  assumes "length k1 \<le> 1000" "length v1 \<le> 1000" "length k2 \<le> 1000" "length v2 \<le> 1000"
  shows "\<exists>root. commits mock_verifier_bench mock_bench_verifier [(k1, v1), (k2, v2)] root"
proof -
  let ?es = "[(k1, v1), (k2, v2)]"
  have run: "trie mock_verifier_bench ?es = Inr (checksum (node_of ?es), [node_of ?es])"
    by (simp add: trie_def mock_verifier_bench_def)
  have "decode_bounded_vec 10 decode_entry (node_of ?es) = Some (?es, [])"
    using assms by (simp add: node_of_def entry_codec.decode_bounded_vec_iff)
  then have "read_trie_value mock_bench_verifier (checksum (node_of ?es)) (node_of ?es # extra) key =
      Inr (map_of (rev ?es) key)" for extra key
    by (simp add: mock_bench_verifier_def)
  moreover have "length (node_of ?es) \<le> length k1 + length v1 + (length k2 + length v2) + 320"
    using length_encode_entry [of k1 v1] length_encode_entry [of k2 v2]
    by (simp add: node_of_def encode_vec_def encode_compact_def)
  ultimately show ?thesis unfolding commits_def run by auto
qed

lemma mock_verifier_bench_laws: "verifier_bench_laws mock_verifier_bench mock_bench_verifier"
proof -
  let ?env = mock_verifier_bench and ?cfg = mock_bench_verifier
  have keys: "length (content_rights_key ?cfg name c a) = 72" "length (para_head_key ?cfg p) = 44" for name c a p
    by (simp_all add: content_rights_key_def blake2_128_concat_def para_head_key_def PARA_HEAD_PREFIX_def mock_bench_verifier_def)
  have header: "length (encode_header ?env n root) = 8"
    "decode_header ?cfg (encode_header ?env n root) = Some (root, n)" for n root
    by (simp_all add: mock_verifier_bench_def mock_bench_verifier_def u32_codec.decode_encode u32_codec.decode_encode_self)
  have bytes: "decode_bytes ?cfg (encode_bytes bs) = Some bs" if "length bs \<le> 102" for bs
    using that bytes_codec.decode_encode [of bs "[]"] by (simp add: mock_bench_verifier_def)
  have tries: "\<exists>state_root relay_root. commits ?env ?cfg (rights_entries ?cfg name a v) state_root \<and>
      commits ?env ?cfg (relay_entries ?env ?cfg state_root) relay_root"
    if val: "(name, v) \<in> set bench_values" for name v a
  proof -
    have "\<exists>root. commits ?env ?cfg (rights_entries ?cfg name a v) root"
      unfolding rights_entries_def using bench_values_size [OF val] by (intro mock_commits) (simp_all add: keys)
    moreover have "\<exists>root. commits ?env ?cfg (relay_entries ?env ?cfg state_root) root" for state_root
      unfolding relay_entries_def using length_encode_bytes [of "encode_header ?env RIGHTS_BLOCK state_root"]
      by (intro mock_commits) (simp_all add: keys header)
    ultimately show ?thesis by blast
  qed
  have "\<forall>(name, v)\<in>set bench_values. \<exists>state_root relay_root.
      commits ?env ?cfg (rights_entries ?cfg name (bench_account ?env ''who'' 0 0) v) state_root \<and>
      commits ?env ?cfg (relay_entries ?env ?cfg state_root) relay_root"
    using tries by blast
  moreover have "max_relay_roots ?cfg = 100" "usize_max ?cfg = 2 ^ 32 - 1" "length (twox_64 ?cfg x) = 8"
      "length (twox_128 ?cfg x) = 16" "length (blake2_128 ?cfg x) = 16" "length (encode_account ?cfg a) \<le> 32" for x a
    by (simp_all add: mock_bench_verifier_def)
  ultimately show ?thesis using bytes by (simp add: verifier_bench_laws_def header)
qed

section \<open>All benchmarks\<close>

text \<open>
  C38: Every benchmark of the verifier runs to the end, for every amount of padding it may be asked
  for. The set-up fills the window of relay roots and gives the measured call proofs of at least the
  padded number of bytes, still within the limit; the call accepts them and reports the right; and
  recording into a full window keeps its size and drops the oldest root only.
\<close>

theorem verifier_benchmarks_pass:
  assumes "verifier_bench_laws env cfg" and "b \<le> MAX_PADDING" and "who = bench_account env ''who'' 0 0"
  shows "(\<forall>(name, value)\<in>set bench_values. \<exists>rp cp s'.
        setup_proofs env cfg name who value b s = Inr (rp, cp, s') \<and>
        length (relay_roots s') = max_relay_roots cfg \<and>
        b \<le> proof_bytes cfg rp cp \<and> proof_bytes cfg rp cp \<le> MAX_PROOF_BYTES) \<and>
    (\<exists>s'. bench_verify_ownership env cfg b s = Inr s' \<and>
       verifier_events s' = verifier_events s @ [OwnershipVerified 0 who True RELAY_BLOCK RIGHTS_BLOCK]) \<and>
    (\<exists>s'. bench_verify_subscription env cfg b s = Inr s' \<and>
       verifier_events s' = verifier_events s @ [SubscriptionVerified 0 who True 100 RELAY_BLOCK RIGHTS_BLOCK]) \<and>
    (\<exists>s'. bench_verify_view_pack env cfg b s = Inr s' \<and>
       verifier_events s' = verifier_events s @ [ViewPackVerified 0 who True 3 RELAY_BLOCK RIGHTS_BLOCK]) \<and>
    (\<exists>s'. bench_record_relay_root env cfg s = Inr s' \<and> length (relay_roots s') = max_relay_roots cfg \<and>
       fst ` set (relay_roots s') = insert (of_nat (max_relay_roots cfg) + 1) (of_nat ` {1..<max_relay_roots cfg}))"
proof -
  have "\<exists>rp cp s'. setup_proofs env cfg name who v b s = Inr (rp, cp, s') \<and>
      length (relay_roots s') = max_relay_roots cfg \<and>
      b \<le> proof_bytes cfg rp cp \<and> proof_bytes cfg rp cp \<le> MAX_PROOF_BYTES"
    if "(name, v) \<in> set bench_values" for name v
    by (rule setup_proofs_run [OF assms(1) that assms(2,3)]) blast
  then show ?thesis
    using bench_verify_run [OF assms, of s] bench_record_run [OF verifier_bench_lawsD(1,2) [OF assms(1)]] by blast
qed

theorem verifier_benchmarks_pass_witness:
  "\<exists>s'. bench_verify_subscription mock_verifier_bench mock_bench_verifier 15000
       \<lparr>relay_roots = [], verifier_events = []\<rparr> = Inr s' \<and>
     verifier_events s' = [SubscriptionVerified 0 7 True 100 1000000 50]"
proof -
  have "7 = bench_account mock_verifier_bench ''who'' 0 0" by (simp add: mock_verifier_bench_def)
  from verifier_benchmarks_pass [OF mock_verifier_bench_laws _ this, of 15000 "\<lparr>relay_roots = [], verifier_events = []\<rparr>"]
  show ?thesis by (simp add: MAX_PADDING_def RELAY_BLOCK_def RIGHTS_BLOCK_def)
qed

end
