(* ===== verification/Client_Benchmarks.thy ===== *)
theory Client_Benchmarks
  imports Rights_Client
begin

text \<open>
  When a request of the client is accepted, and the benchmarks of the client,
  \<open>src/pallets/rights-client/src/benchmarking.rs\<close>: a funded account sends the largest request, and a
  failure report refunds it. Both run to the end on a chain where the currency and the transport
  keep the laws below. The harness, the balance setter and the benchmark helper of the configuration
  are parameters, fields of \<open>client_bench_env\<close>.
\<close>

section \<open>Programs\<close>

datatype client_bench_error = ClientExpect | ClientCallFailed client_dispatch_error | ClientAssertFailed

text \<open>
  \<open>iter_keys\<close> is the iteration over the keys of a storage map, \<open>signed_by\<close> is \<open>RawOrigin::Signed\<close>, and
  \<open>response_from\<close> is \<open>BenchmarkHelper::response_origin\<close>.
\<close>

record ('a, 'l, 'o, 'x) client_bench_env =
  cb_caller :: 'a
  cb_minimum_balance :: u128
  cb_max_balance :: u128
  cb_set_balance :: "'a \<Rightarrow> u128 \<Rightarrow> 'x \<Rightarrow> 'x"
  prepare_delivery :: "'x \<Rightarrow> 'x"
  signed_by :: "'a \<Rightarrow> 'o"
  response_from :: "'l \<Rightarrow> 'o"
  iter_keys :: "(u64 \<rightharpoonup> 'a pending_request) \<Rightarrow> u64 list"

definition bench_escrow :: "('a, 'l, 'o, 'x) client_bench_env \<Rightarrow> u128" where
  "bench_escrow env = saturating_mul (cb_minimum_balance env) 1000"

definition funded_caller ::
  "('a, 'l, 'o, 'x) client_bench_env \<Rightarrow> ('a, 'h, 'x) client_state \<Rightarrow> 'a \<times> ('a, 'h, 'x) client_state" where
  "funded_caller env s =
     (let who = cb_caller env;
          amount = cb_max_balance env div 100000
      in (who, s\<lparr>client_ext := cb_set_balance env who amount (client_ext s)\<rparr>))"

definition bench_request ::
  "('a, 'l, 'o, 'x) client_bench_env \<Rightarrow> ('a, 'l, 'b, 'h, 'o, 'x) client_config \<Rightarrow>
     ('a, 'h, 'x) client_state \<Rightarrow> client_bench_error + ('a, 'h, 'x) client_state" where
  "bench_request env cfg s =
     (let (who, s) = funded_caller env s;
          s = s\<lparr>client_ext := prepare_delivery env (client_ext s)\<rparr>
      in and_then (map_err ClientCallFailed
           (request cfg (signed_by env who) (Req_PurchaseViews 1 10) (bench_escrow env) s)) (\<lambda>s.
         and_then (ensure (length (iter_keys env (pending s)) = 1) ClientAssertFailed) (\<lambda>_. Inr s)))"

definition bench_on_outcome ::
  "('a, 'l, 'o, 'x) client_bench_env \<Rightarrow> ('a, 'l, 'b, 'h, 'o, 'x) client_config \<Rightarrow>
     ('a, 'h, 'x) client_state \<Rightarrow> client_bench_error + ('a, 'h, 'x) client_state" where
  "bench_on_outcome env cfg s =
     (let (who, s) = funded_caller env s;
          s = s\<lparr>client_ext := prepare_delivery env (client_ext s)\<rparr>
      in and_then (map_err (\<lambda>_. ClientExpect)
           (request cfg (signed_by env who) (Req_Subscribe 1) (bench_escrow env) s)) (\<lambda>s.
         case iter_keys env (pending s) of [] \<Rightarrow> Inl ClientExpect
         | query_id # _ \<Rightarrow>
             and_then (map_err ClientCallFailed
               (on_outcome cfg (response_from env (rights_chain cfg)) query_id (DispatchResult (ErrorCode [])) s)) (\<lambda>s.
             and_then (ensure (pending s query_id = None) ClientAssertFailed) (\<lambda>_. Inr s))))"

section \<open>Accepted requests\<close>

text \<open>
  A transfer between two accounts succeeds when the sender has the amount, and keeps its existential
  deposit unless it may be reaped, and the receiver ends between the existential deposit and the
  largest balance. Transfers and queries keep an open channel open, and a program of the client can
  be sent over an open channel. Neither a query nor sending a message credits an account.
\<close>

definition pays ::
  "('a, 'l, 'b, 'h, 'o, 'x) client_config \<Rightarrow> ('x \<Rightarrow> 'a \<Rightarrow> nat) \<Rightarrow> nat \<Rightarrow> bool" where
  "pays cfg bal ed \<longleftrightarrow>
     (\<forall>payer to v p x. payer \<noteq> to \<longrightarrow> (if p = Expendable then 0 else ed) + unat v \<le> bal x payer \<longrightarrow>
        ed \<le> bal x to + unat v \<longrightarrow> bal x to + unat v < 2 ^ 128 \<longrightarrow> is_ok (escrow_transfer cfg payer to v p x))"

definition delivers ::
  "('a, 'l, 'b, 'h, 'o, 'x) client_config \<Rightarrow> ('x \<Rightarrow> 'a \<Rightarrow> nat) \<Rightarrow> ('x \<Rightarrow> bool) \<Rightarrow> bool" where
  "delivers cfg bal channel_open \<longleftrightarrow>
     (\<forall>payer to v p x x'. channel_open x \<longrightarrow> escrow_transfer cfg payer to v p x = Inr x' \<longrightarrow> channel_open x') \<and>
     (\<forall>l n t x q x'. new_notify_query cfg l n t x = (q, x') \<longrightarrow>
        (channel_open x \<longrightarrow> channel_open x') \<and> (\<forall>a. bal x' a \<le> bal x a)) \<and>
     (\<forall>req bs q x. channel_open x \<longrightarrow> length bs = 32 \<longrightarrow>
        is_ok (send_xcm cfg (rights_chain cfg) (rights_message cfg (remote_call cfg req bs) q) x)) \<and>
     (\<forall>l msg x h x'. send_xcm cfg l msg x = Inr (h, x') \<longrightarrow> (\<forall>a. bal x' a \<le> bal x a))"

lemma deliversD:
  assumes "delivers cfg bal channel_open"
  shows "channel_open x \<Longrightarrow> escrow_transfer cfg payer to v p x = Inr x' \<Longrightarrow> channel_open x'"
    and "new_notify_query cfg l n t x = (q, x') \<Longrightarrow> channel_open x \<Longrightarrow> channel_open x'"
    and "new_notify_query cfg l n t x = (q, x') \<Longrightarrow> bal x' a \<le> bal x a"
    and "channel_open x \<Longrightarrow> length bs = 32 \<Longrightarrow>
      is_ok (send_xcm cfg (rights_chain cfg) (rights_message cfg (remote_call cfg req bs) q) x)"
    and "send_xcm cfg l msg x = Inr (h, x') \<Longrightarrow> bal x' a \<le> bal x a"
proof -
  note law = assms [unfolded delivers_def, THEN conjunct1] assms [unfolded delivers_def, THEN conjunct2]
  note query = law(2) [THEN conjunct1] and send = law(2) [THEN conjunct2, THEN conjunct1]
    and kept = law(2) [THEN conjunct2, THEN conjunct2]
  show "channel_open x \<Longrightarrow> escrow_transfer cfg payer to v p x = Inr x' \<Longrightarrow> channel_open x'" using law(1) by blast
  show "new_notify_query cfg l n t x = (q, x') \<Longrightarrow> channel_open x \<Longrightarrow> channel_open x'"
    "new_notify_query cfg l n t x = (q, x') \<Longrightarrow> bal x' a \<le> bal x a" using query by blast+
  show "channel_open x \<Longrightarrow> length bs = 32 \<Longrightarrow>
      is_ok (send_xcm cfg (rights_chain cfg) (rights_message cfg (remote_call cfg req bs) q) x)" using send by blast
  show "send_xcm cfg l msg x = Inr (h, x') \<Longrightarrow> bal x' a \<le> bal x a" using kept by blast
qed

lemma paysD:
  assumes "pays cfg bal ed" and "payer \<noteq> to" and "ed \<le> bal x to + unat v" and "bal x to + unat v < 2 ^ 128"
  shows "ed + unat v \<le> bal x payer \<Longrightarrow> is_ok (escrow_transfer cfg payer to v Preserve x)"
    and "unat v \<le> bal x payer \<Longrightarrow> is_ok (escrow_transfer cfg payer to v Expendable x)"
  using assms by (simp_all add: pays_def)

text \<open>A request of a signed caller who can afford the escrow is accepted while the channel is open.\<close>

lemma request_total:
  assumes pays: "pays cfg bal ed" and delivers: "delivers cfg bal channel_open"
    and caller: "client_signed cfg og = Inr a" "a \<noteq> escrow_account cfg" "length (encode_account_id cfg a) = 32"
    and funds: "ed + unat amount \<le> bal (client_ext s) a" "ed \<le> bal (client_ext s) (escrow_account cfg) + unat amount"
      "bal (client_ext s) (escrow_account cfg) + unat amount < 2 ^ 128"
    and "channel_open (client_ext s)"
  shows "is_ok (request cfg og req amount s)"
proof -
  obtain x where x: "escrow_transfer cfg a (escrow_account cfg) amount Preserve (client_ext s) = Inr x"
    using paysD(1) [OF pays caller(2) funds(2,3,1)] unfolding is_ok_iff ..
  obtain q x' where q: "new_notify_query cfg (rights_chain cfg) (On_Outcome 0 Null)
      (saturating_add (client_block s) (query_timeout cfg)) x = (q, x')" by fastforce
  have "channel_open x'"
    by (rule deliversD(2) [OF delivers q deliversD(1) [OF delivers assms(9) x]])
  from deliversD(4) [OF delivers this caller(3)] obtain r where
    "send_xcm cfg (rights_chain cfg) (rights_message cfg (remote_call cfg req (encode_account_id cfg a)) q) x' = Inr r"
    unfolding is_ok_iff by blast
  with x q caller show ?thesis by (cases r) (simp add: request_def)
qed

section \<open>Every benchmark runs\<close>

text \<open>
  What the benchmarks rely on: the laws of the other pallets, a largest balance that covers the
  escrow a hundred thousand times and the existential deposit besides, a caller with a 32-byte
  account, an origin for it and for a response, and a helper that opens the channel.
\<close>

definition client_bench_laws ::
  "('a, 'l, 'o, 'x) client_bench_env \<Rightarrow> ('a, 'l, 'b, 'h, 'o, 'x) client_config \<Rightarrow> ('x \<Rightarrow> 'a \<Rightarrow> nat) \<Rightarrow>
     ('x \<Rightarrow> nat) \<Rightarrow> nat \<Rightarrow> ('x \<Rightarrow> bool) \<Rightarrow> bool" where
  "client_bench_laws env cfg bal next_query ed channel_open \<longleftrightarrow>
     client_laws cfg bal next_query ed \<and> pays cfg bal ed \<and> delivers cfg bal channel_open \<and>
     0 < ed \<and> unat (cb_minimum_balance env) = ed \<and> 1001 * ed \<le> unat (cb_max_balance env) div 100000 \<and>
     cb_caller env \<noteq> escrow_account cfg \<and> length (encode_account_id cfg (cb_caller env)) = 32 \<and>
     (\<forall>a. client_signed cfg (signed_by env a) = Inr a) \<and>
     (\<forall>l. response_origin cfg (response_from env l) = Inr l) \<and>
     (\<forall>a v x. ed \<le> unat v \<longrightarrow> bal (cb_set_balance env a v x) = (bal x)(a := unat v)) \<and>
     (\<forall>x. bal (prepare_delivery env x) = bal x \<and> channel_open (prepare_delivery env x)) \<and>
     (\<forall>m. finite (dom m) \<longrightarrow> distinct (iter_keys env m) \<and> set (iter_keys env m) = dom m)"

lemma client_bench_lawsD:
  assumes "client_bench_laws env cfg bal next_query ed channel_open"
  shows "client_laws cfg bal next_query ed" and "pays cfg bal ed" and "delivers cfg bal channel_open"
    and "0 < ed" and "unat (cb_minimum_balance env) = ed" and "1001 * ed \<le> unat (cb_max_balance env) div 100000"
    and "cb_caller env \<noteq> escrow_account cfg" and "length (encode_account_id cfg (cb_caller env)) = 32"
    and "client_signed cfg (signed_by env a) = Inr a" and "response_origin cfg (response_from env l) = Inr l"
    and "ed \<le> unat v \<Longrightarrow> bal (cb_set_balance env a v x) = (bal x)(a := unat v)"
    and "bal (prepare_delivery env x) = bal x" and "channel_open (prepare_delivery env x)"
    and "finite (dom m) \<Longrightarrow> distinct (iter_keys env m)" and "finite (dom m) \<Longrightarrow> set (iter_keys env m) = dom m"
  using assms unfolding client_bench_laws_def by blast+

lemma iter_keys_single:
  assumes "client_bench_laws env cfg bal next_query ed channel_open"
  shows "iter_keys env [q \<mapsto> p] = [q]"
proof -
  have "distinct (iter_keys env [q \<mapsto> p])" "set (iter_keys env [q \<mapsto> p]) = {q}"
    using client_bench_lawsD(14,15) [OF assms, of "[q \<mapsto> p]"] by simp_all
  moreover from this have "length (iter_keys env [q \<mapsto> p]) = 1" by (metis card.empty card_insert_disjoint distinct_card empty_iff finite.emptyI One_nat_def)
  ultimately show ?thesis by (auto simp: length_Suc_conv)
qed

lemma bench_escrow_value:
  assumes "client_bench_laws env cfg bal next_query ed channel_open"
  shows "unat (bench_escrow env) = 1000 * ed"
proof -
  have "1001 * ed \<le> unat (cb_max_balance env)"
    using client_bench_lawsD(6) [OF assms] div_le_dividend [of "unat (cb_max_balance env)" 100000] by linarith
  then have "1001 * ed < 2 ^ 128" using unat_less_pow [of "cb_max_balance env"] by simp
  then show ?thesis
    using client_bench_lawsD(5) [OF assms] by (simp add: bench_escrow_def machine_arith mult.commute)
qed

text \<open>The request of the benchmarks, in the prepared state.\<close>

lemma bench_request_accepted:
  assumes laws: "client_bench_laws env cfg bal next_query ed channel_open"
    and fresh: "pending s = Map.empty" and room: "bal (client_ext s) (escrow_account cfg) + 1000 * ed < 2 ^ 128"
    and prep: "prep = s\<lparr>client_ext := prepare_delivery env
      (cb_set_balance env (cb_caller env) (cb_max_balance env div 100000) (client_ext s))\<rparr>"
  obtains q h s' where "request cfg (signed_by env (cb_caller env)) req (bench_escrow env) prep = Inr s'"
    and "pending s' = [q \<mapsto> \<lparr>who = cb_caller env, escrow = bench_escrow env, request_of = req,
      sent_at = client_block s\<rparr>]"
    and "client_events s' = client_events s @ [RequestSent q (cb_caller env) req (bench_escrow env) h]"
    and "unat (bench_escrow env) \<le> bal (client_ext s') (escrow_account cfg)"
    and "bal (client_ext s') (cb_caller env) + unat (bench_escrow env) < 2 ^ 128"
proof -
  note law = client_bench_lawsD [OF laws]
  let ?a = "cb_caller env" and ?esc = "escrow_account cfg" and ?v = "bench_escrow env"
  have v: "unat ?v = 1000 * ed" by (rule bench_escrow_value [OF laws])
  have max: "unat (cb_max_balance env div 100000) = unat (cb_max_balance env) div 100000"
    by (simp add: unat_div)
  then have bal: "bal (client_ext prep) = (bal (client_ext s))(?a := unat (cb_max_balance env) div 100000)"
    using law(4,6) by (simp add: prep law(11,12))
  have ok: "is_ok (request cfg (signed_by env ?a) req ?v prep)"
    by (rule request_total [OF law(2,3) law(9) law(7,8)])
       (use v law(4,6,7) room in \<open>simp_all add: bal, simp add: prep law(13)\<close>)
  then obtain s' where run: "request cfg (signed_by env ?a) req ?v prep = Inr s'" by (auto simp: is_ok_iff)
  then obtain x1 q x2 h x3 where st:
      "escrow_transfer cfg ?a ?esc ?v Preserve (client_ext prep) = Inr x1"
      "new_notify_query cfg (rights_chain cfg) (On_Outcome 0 Null)
         (saturating_add (client_block prep) (query_timeout cfg)) x1 = (q, x2)"
      "send_xcm cfg (rights_chain cfg)
         (rights_message cfg (remote_call cfg req (encode_account_id cfg ?a)) q) x2 = Inr (h, x3)"
      "s' = client_deposit (RequestSent q ?a req ?v h)
         (prep\<lparr>pending := (pending prep)(q \<mapsto>
              \<lparr>who = ?a, escrow = ?v, request_of = req, sent_at = client_block prep\<rparr>),
            client_ext := x3\<rparr>)"
    by (rule request_cases) (simp add: law(9))
  note moved = moves_escrowD [OF client_lawsD(1) [OF law(1)] st(1) law(7)]
  note qs = issues_queriesD [OF client_lawsD(2) [OF law(1)]]
  have esc: "bal x3 ?esc = bal (client_ext prep) ?esc + unat ?v"
    using qs(2) [OF st(3)] qs(1) [OF st(2)] moved(2) by simp
  have "bal x3 ?a \<le> bal x1 ?a"
    using deliversD(5) [OF law(3) st(3), of ?a] deliversD(3) [OF law(3) st(2), of ?a] by simp
  with moved(4) have "bal x3 ?a + unat ?v \<le> unat (cb_max_balance env) div 100000"
    using moved(1) bal by simp
  also have "\<dots> < 2 ^ 128" using unat_less_pow [of "cb_max_balance env"] div_le_dividend [of "unat (cb_max_balance env)" 100000] by simp
  finally show thesis using esc run by (intro that [of s' q h]) (simp_all add: st(4) prep fresh client_deposit_def)
qed

lemma bench_request_run:
  assumes laws: "client_bench_laws env cfg bal next_query ed channel_open"
    and fresh: "pending s = Map.empty" and room: "bal (client_ext s) (escrow_account cfg) + 1000 * ed < 2 ^ 128"
  shows "\<exists>q s'. bench_request env cfg s = Inr s' \<and>
    pending s' = [q \<mapsto> \<lparr>who = cb_caller env, escrow = bench_escrow env, request_of = Req_PurchaseViews 1 10,
      sent_at = client_block s\<rparr>]"
  by (rule bench_request_accepted [OF laws fresh room refl, of "Req_PurchaseViews 1 10"])
     (simp add: bench_request_def funded_caller_def Let_def iter_keys_single [OF laws], rule exI, rule refl)

lemma bench_on_outcome_run:
  assumes laws: "client_bench_laws env cfg bal next_query ed channel_open"
    and fresh: "pending s = Map.empty" and room: "bal (client_ext s) (escrow_account cfg) + 1000 * ed < 2 ^ 128"
  shows "\<exists>q h s'. bench_on_outcome env cfg s = Inr s' \<and> pending s' = Map.empty \<and>
    client_events s' = client_events s @
      [RequestSent q (cb_caller env) (Req_Subscribe 1) (bench_escrow env) h, OutcomeReported q (cb_caller env) False]"
proof -
  note law = client_bench_lawsD [OF laws]
  let ?esc = "escrow_account cfg" and ?v = "bench_escrow env"
  let ?prep = "s\<lparr>client_ext := prepare_delivery env
      (cb_set_balance env (cb_caller env) (cb_max_balance env div 100000) (client_ext s))\<rparr>"
  obtain q h s1 where req: "request cfg (signed_by env (cb_caller env)) (Req_Subscribe 1) ?v ?prep = Inr s1"
      "pending s1 = [q \<mapsto> \<lparr>who = cb_caller env, escrow = ?v, request_of = Req_Subscribe 1, sent_at = client_block s\<rparr>]"
      "client_events s1 = client_events s @ [RequestSent q (cb_caller env) (Req_Subscribe 1) ?v h]"
      "unat ?v \<le> bal (client_ext s1) ?esc" "bal (client_ext s1) (cb_caller env) + unat ?v < 2 ^ 128"
    by (rule bench_request_accepted [OF laws fresh room refl])
  have "ed \<le> bal (client_ext s1) (cb_caller env) + unat ?v" by (simp add: bench_escrow_value [OF laws])
  from paysD(2) [OF law(2) law(7) [symmetric] this req(5,4)] obtain x where
    refund: "escrow_transfer cfg ?esc (cb_caller env) ?v Expendable (client_ext s1) = Inr x"
    unfolding is_ok_iff by blast
  let ?s' = "client_deposit (OutcomeReported q (cb_caller env) False) (s1\<lparr>pending := Map.empty, client_ext := x\<rparr>)"
  have out: "on_outcome cfg (response_from env (rights_chain cfg)) q (DispatchResult (ErrorCode [])) s1 = Inr ?s'"
    using refund by (simp add: on_outcome_def law(10) req(2))
  then have "bench_on_outcome env cfg s = Inr ?s'"
    using req(1,2) by (simp add: bench_on_outcome_def funded_caller_def Let_def iter_keys_single [OF laws])
  moreover have "client_events ?s' = client_events s @
      [RequestSent q (cb_caller env) (Req_Subscribe 1) ?v h, OutcomeReported q (cb_caller env) False]"
    by (simp add: client_deposit_def req(3))
  ultimately show ?thesis by fastforce
qed

section \<open>A concrete environment\<close>

definition mock_client_bench :: "(nat, nat, nat + nat, mock_client_ext) client_bench_env" where
  "mock_client_bench =
     \<lparr>cb_caller = 5, cb_minimum_balance = 10, cb_max_balance = - 1,
      cb_set_balance = (\<lambda>a v x. x\<lparr>cm_balance := (cm_balance x)(a := unat v)\<rparr>),
      prepare_delivery = (\<lambda>x. x), signed_by = Inl, response_from = Inr,
      iter_keys = (\<lambda>m. sorted_list_of_set (dom m))\<rparr>"

lemma mock_pays: "pays mock_client cm_balance 10"
  by (auto simp: pays_def mock_client_def mock_escrow_transfer_def Let_def split: if_splits)

lemma mock_delivers: "delivers mock_client cm_balance (\<lambda>_. True)"
  by (auto simp: delivers_def mock_client_def)

lemma mock_client_bench_laws:
  "client_bench_laws mock_client_bench mock_client cm_balance mock_next_query 10 (\<lambda>_. True)"
proof -
  have "1001 * 10 \<le> unat (cb_max_balance mock_client_bench) div 100000"
    by (simp add: mock_client_bench_def unat_minus_one_word)
  then show ?thesis
    by (simp add: client_bench_laws_def mock_client_laws mock_pays mock_delivers)
       (simp add: mock_client_bench_def)
qed

section \<open>Property\<close>

text \<open>
  C37: The client accepts what it should and refunds what fails. A request of a signed caller with a
  32-byte account who keeps the existential deposit beside the escrow is accepted while the channel
  to the rights chain is open. And both benchmarks of the client run to the end: the measured
  request is the only one pending afterwards, with its escrow, and the measured failure report
  settles the request that was made before.
\<close>

theorem client_accepts_and_refunds:
  assumes "client_bench_laws env cfg bal next_query ed channel_open"
  shows "(client_signed cfg og = Inr a \<and> a \<noteq> escrow_account cfg \<and> length (encode_account_id cfg a) = 32 \<and>
      ed + unat amount \<le> bal (client_ext s) a \<and> ed \<le> bal (client_ext s) (escrow_account cfg) + unat amount \<and>
      bal (client_ext s) (escrow_account cfg) + unat amount < 2 ^ 128 \<and> channel_open (client_ext s) \<longrightarrow>
      is_ok (request cfg og req amount s)) \<and>
    (pending s = Map.empty \<and> bal (client_ext s) (escrow_account cfg) + 1000 * ed < 2 ^ 128 \<longrightarrow>
      (\<exists>q s'. bench_request env cfg s = Inr s' \<and>
         pending s' = [q \<mapsto> \<lparr>who = cb_caller env, escrow = bench_escrow env, request_of = Req_PurchaseViews 1 10,
           sent_at = client_block s\<rparr>]) \<and>
      (\<exists>q h s'. bench_on_outcome env cfg s = Inr s' \<and> pending s' = Map.empty \<and>
         client_events s' = client_events s @
           [RequestSent q (cb_caller env) (Req_Subscribe 1) (bench_escrow env) h, OutcomeReported q (cb_caller env) False]))"
  using request_total [OF client_bench_lawsD(2,3) [OF assms]] bench_request_run [OF assms] bench_on_outcome_run [OF assms]
  by blast

theorem client_accepts_and_refunds_witness:
  "is_ok (request mock_client (Inl 1) (Req_Subscribe 0) 100 (mock_client_state 10)) \<and>
   is_ok (bench_request mock_client_bench mock_client (mock_client_state 10)) \<and>
   is_ok (bench_on_outcome mock_client_bench mock_client (mock_client_state 10))"
  using client_accepts_and_refunds [OF mock_client_bench_laws, of "Inl 1" 1 100 "mock_client_state 10" "Req_Subscribe 0"]
  by (auto simp: mock_client_state_def)

end
