(* ===== verification/Cross_Chain.thy ===== *)
theory Cross_Chain
  imports Rights_Client
begin

text \<open>
  The two chains together: a consumer chain with \<open>pallet_rights_client\<close>, the rights chain with
  \<open>pallet_content_rights\<close>, the programs on their way to the rights chain and the reports on their way
  back. The network between them is an abstraction, wider than the simulator with which
  \<open>src/integration-tests\<close> connects the chains: programs arrive at most once, and messages in any order,
  or never. The XCM executor of the rights chain is not part of this repository; it is a relation
  with the law \<open>executor_law\<close>. The result is that the purchase of a right across chains
  is atomic: the operator is paid only for a right that was granted, and a refunded user got none.
\<close>

section \<open>What a request entitles to\<close>

text \<open>What a request entitles its user to, on the ledger before and after.\<close>

fun entitles :: "rights_request \<Rightarrow> 'a \<Rightarrow> u32 \<Rightarrow> 'a ledger \<Rightarrow> 'a ledger \<Rightarrow> bool" where
  "entitles (Req_Subscribe c) a now L L' \<longleftrightarrow>
     paid_until L (c, a) = None \<and> paid_until L' (c, a) = Some (saturating_add now (period (work c L)))"
| "entitles (Req_RenewSubscription c) a now L L' \<longleftrightarrow>
     lapsed now (c, a) L \<and> paid_until L' (c, a) = Some (saturating_add now (period (work c L)))"
| "entitles (Req_PurchaseViews c n) a now L L' \<longleftrightarrow>
     views L' (c, a) = min (views L (c, a) + unat n) (2 ^ 32 - 1)"
| "entitles (Req_PurchaseOwnership c) a now L L' \<longleftrightarrow>
     (c, a) \<notin> owners L \<and> (c, a) \<in> owners L'"

lemma requested_call_entitles:
  assumes "rights_inv rc s" and "dispatch rc (Signed sov) (requested_call req a) s = Inr (w, s')"
  shows "entitles req a (current_block s) (ledger_of s) (ledger_of s')"
  using effect_refines [OF dispatch_effect [OF assms(2) decodable_requested_call] assms(1)]
  by (cases req) (simp_all add: Rights_Ledger.extend_def add_views_def)

section \<open>The network\<close>

text \<open>
  \<open>executed\<close> is the history of the programs that the rights chain has processed, with its states
  before and after.
\<close>

record ('a, 'l, 'b, 'h, 'x, 'y) network =
  consumer :: "('a, 'h, 'x) client_state"
  ccrms :: "('a, 'y) state"
  programs :: "('l, 'b) instruction list list"
  reports :: "(u64 \<times> response) list"
  executed :: "(('l, 'b) instruction list \<times> ('a, 'y) state \<times> ('a, 'y) state) list"

definition asked_program ::
  "('a, 'l, 'b, 'h, 'o, 'x) client_config \<Rightarrow> rights_request \<Rightarrow> 'a \<Rightarrow> u64 \<Rightarrow> ('l, 'b) instruction list" where
  "asked_program cl req a q = rights_message cl (remote_call cl req (encode_account_id cl a)) q"

text \<open>
  The executor, for a program of the client: either nothing of the pallet changes (the fees were not
  paid, or the call did not decode or failed and was rolled back) and no success is reported; or the
  call in \<open>Transact\<close> decoded and was dispatched successfully by the sovereign account, and what is
  reported, if anything, is success. A report goes out under the query of \<open>ReportTransactStatus\<close>.
  Fees and delivery act on the other pallets. \<open>dec\<close> is the decoder of calls of the rights chain.
\<close>

type_synonym ('a, 'l, 'b, 'y) executor =
  "('l, 'b) instruction list \<Rightarrow> ('a, 'y) state \<Rightarrow> ('a, 'y) state \<Rightarrow> (u64 \<times> response) list \<Rightarrow> bool"

definition executor_law ::
  "('a, 'y) config \<Rightarrow> ('y \<Rightarrow> 'y \<Rightarrow> bool) \<Rightarrow> (u8 list \<Rightarrow> 'a call option) \<Rightarrow> 'a \<Rightarrow>
     ('a, 'l, 'b, 'h, 'o, 'x) client_config \<Rightarrow> ('a, 'l, 'b, 'y) executor \<Rightarrow> bool" where
  "executor_law rc env dec sov cl executor \<longleftrightarrow>
     (\<forall>bytes q r r' out. executor (rights_message cl bytes q) r r' out \<longrightarrow>
        (\<exists>x. env (ext r) x \<and> r' = r\<lparr>ext := x\<rparr> \<and>
           (\<forall>(k, resp)\<in>set out. k = q \<and> resp \<noteq> DispatchResult Success)) \<or>
        (\<exists>x act w r1 x'. env (ext r) x \<and> dec bytes = Some act \<and>
           dispatch rc (Signed sov) act (r\<lparr>ext := x\<rparr>) = Inr (w, r1) \<and>
           env (ext r1) x' \<and> r' = r1\<lparr>ext := x'\<rparr> \<and> set out \<subseteq> {(q, DispatchResult Success)}))"

text \<open>
  The steps: a successful request sends its program, the rights chain processes a program that has
  arrived, a report is delivered to the client, a message is lost, and either chain goes on by itself.
\<close>

inductive net_step ::
  "('a, 'l, 'b, 'h, 'o, 'x) client_config \<Rightarrow> ('x \<Rightarrow> 'a \<Rightarrow> nat) \<Rightarrow> ('x \<Rightarrow> nat) \<Rightarrow> ('a, 'y) config \<Rightarrow>
     ('y \<Rightarrow> 'y \<Rightarrow> bool) \<Rightarrow> ('a, 'l, 'b, 'y) executor \<Rightarrow>
     ('a, 'l, 'b, 'h, 'x, 'y) network \<Rightarrow> ('a, 'l, 'b, 'h, 'x, 'y) network \<Rightarrow> bool"
  for cl :: "('a, 'l, 'b, 'h, 'o, 'x) client_config" and bal :: "'x \<Rightarrow> 'a \<Rightarrow> nat" and next_query :: "'x \<Rightarrow> nat"
    and rc :: "('a, 'y) config" and env :: "'y \<Rightarrow> 'y \<Rightarrow> bool" and executor :: "('a, 'l, 'b, 'y) executor" where
  ask: "request cl og req amount (consumer n) = Inr c \<Longrightarrow> client_signed cl og = Inr a \<Longrightarrow>
    a \<noteq> escrow_account cl \<Longrightarrow> next_query (client_ext (consumer n)) < max_query \<Longrightarrow>
    client_events c = client_events (consumer n) @ [RequestSent q a req amount h] \<Longrightarrow>
    net_step cl bal next_query rc env executor n
      (n\<lparr>consumer := c, programs := programs n @ [asked_program cl req a q]\<rparr>)"
| execute: "programs n = ps @ m # qs \<Longrightarrow> executor m (ccrms n) r out \<Longrightarrow>
    net_step cl bal next_query rc env executor n
      (n\<lparr>ccrms := r, programs := ps @ qs, reports := reports n @ out, executed := executed n @ [(m, ccrms n, r)]\<rparr>)"
| deliver: "reports n = rs @ (q, resp) # ts \<Longrightarrow> response_origin cl og = Inr (rights_chain cl) \<Longrightarrow>
    net_step cl bal next_query rc env executor n
      (n\<lparr>consumer := applied (on_outcome cl og q resp (consumer n)) (consumer n), reports := rs @ ts\<rparr>)"
| lose: "set ms \<subseteq> set (programs n) \<Longrightarrow> distinct ms \<Longrightarrow> set rs \<subseteq> set (reports n) \<Longrightarrow>
    net_step cl bal next_query rc env executor n (n\<lparr>programs := ms, reports := rs\<rparr>)"
| rights: "chain_step rc env (ccrms n) r \<Longrightarrow> net_step cl bal next_query rc env executor n (n\<lparr>ccrms := r\<rparr>)"
| consume: "bal (client_ext (consumer n)) (escrow_account cl) \<le> bal x (escrow_account cl) \<Longrightarrow>
    next_query (client_ext (consumer n)) \<le> next_query x \<Longrightarrow>
    net_step cl bal next_query rc env executor n (n\<lparr>consumer := (consumer n)\<lparr>client_ext := x, client_block := b\<rparr>\<rparr>)"

definition net_initial ::
  "('a, 'l, 'b, 'h, 'o, 'x) client_config \<Rightarrow> ('x \<Rightarrow> 'a \<Rightarrow> nat) \<Rightarrow> nat \<Rightarrow> ('a, 'y) config \<Rightarrow> ('y \<Rightarrow> 'y \<Rightarrow> bool) \<Rightarrow>
     ('a, 'l, 'b, 'h, 'x, 'y) network \<Rightarrow> bool" where
  "net_initial cl bal ed rc env n \<longleftrightarrow>
     client_initial cl bal ed (consumer n) \<and> reachable initial_state (chain_step rc env) (ccrms n) \<and>
     programs n = [] \<and> reports n = [] \<and> executed n = []"

text \<open>What the two chains rely on, of each other and of the other pallets.\<close>

definition net_laws ::
  "('a, 'l, 'b, 'h, 'o, 'x) client_config \<Rightarrow> ('x \<Rightarrow> 'a \<Rightarrow> nat) \<Rightarrow> ('x \<Rightarrow> nat) \<Rightarrow> nat \<Rightarrow> ('a, 'y) config \<Rightarrow>
     ('y \<Rightarrow> 'y \<Rightarrow> bool) \<Rightarrow> 'a \<Rightarrow> ('a, 'l, 'b, 'y) executor \<Rightarrow> bool" where
  "net_laws cl bal next_query ed rc env sov executor \<longleftrightarrow>
     client_laws cl bal next_query ed \<and> lawful_env rc env \<and>
     (\<exists>dec. call_decoder (rights_pallet_index cl) (decode_account rc) dec \<and> executor_law rc env dec sov cl executor) \<and>
     (\<forall>og a. client_signed cl og = Inr a \<longrightarrow> decode_account rc (encode_account_id cl a) = Some a)"

lemma net_lawsD:
  assumes "net_laws cl bal next_query ed rc env sov executor"
  shows "client_laws cl bal next_query ed" and "lawful_env rc env"
    and "\<exists>dec. call_decoder (rights_pallet_index cl) (decode_account rc) dec \<and> executor_law rc env dec sov cl executor"
    and "client_signed cl og = Inr a \<Longrightarrow> decode_account rc (encode_account_id cl a) = Some a"
  using assms unfolding net_laws_def by blast+

section \<open>Programs and their queries\<close>

fun program_query :: "('l, 'b) instruction list \<Rightarrow> u64 option" where
  "program_query [] = None"
| "program_query (ReportTransactStatus info # rest) = Some (response_query_id info)"
| "program_query (_ # rest) = program_query rest"

lemma program_query_asked [simp]: "program_query (asked_program cl req a q) = Some q"
  by (simp add: asked_program_def rights_message_def Let_def)

text \<open>A program of the client settles its request one way or the other.\<close>

definition outcome ::
  "bool \<Rightarrow> rights_request \<Rightarrow> 'a \<Rightarrow> ('a, 'y) state \<Rightarrow> ('a, 'y) state \<Rightarrow> bool" where
  "outcome ok req a r r' \<longleftrightarrow>
     (if ok then entitles req a (current_block r) (ledger_of r) (ledger_of r') else ledger_of r' = ledger_of r)"

lemma ledger_of_ext [simp]: "ledger_of (r\<lparr>ext := x\<rparr>) = ledger_of r"
  by (simp add: ledger_of_def)

lemma chain_other: "reachable initial_state (chain_step rc env) r \<Longrightarrow> env (ext r) x \<Longrightarrow>
    reachable initial_state (chain_step rc env) (r\<lparr>ext := x\<rparr>)"
  by (rule reachable.reach_step, assumption, rule chain_step.other)

lemma executor_settles:
  assumes law: "\<exists>dec. call_decoder (rights_pallet_index cl) (decode_account rc) dec \<and> executor_law rc env dec sov cl executor"
    and lawful: "lawful_env rc env"
    and run: "executor (asked_program cl req a q) r r' out"
    and acct: "decode_account rc (encode_account_id cl a) = Some a" "length (encode_account_id cl a) = 32"
    and reach: "reachable initial_state (chain_step rc env) r"
  obtains ok where "outcome ok req a r r'" and "\<forall>(k, resp)\<in>set out. k = q \<and> (resp = DispatchResult Success) = ok"
    and "reachable initial_state (chain_step rc env) r'"
proof -
  let ?bytes = "remote_call cl req (encode_account_id cl a)"
  from law obtain dec where dec: "call_decoder (rights_pallet_index cl) (decode_account rc) dec"
    and law': "executor_law rc env dec sov cl executor" by blast
  from law' run consider
    (kept) x where "env (ext r) x" "r' = r\<lparr>ext := x\<rparr>" "\<forall>(k, resp)\<in>set out. k = q \<and> resp \<noteq> DispatchResult Success"
  | (granted) x act w r1 x' where "env (ext r) x"
      "dec ?bytes = Some act"
      "dispatch rc (Signed sov) act (r\<lparr>ext := x\<rparr>) = Inr (w, r1)" "env (ext r1) x'" "r' = r1\<lparr>ext := x'\<rparr>"
      "set out \<subseteq> {(q, DispatchResult Success)}"
    unfolding executor_law_def asked_program_def by blast
  then show thesis
  proof cases
    case kept
    then show thesis by (intro that [of False]) (auto simp: outcome_def chain_other [OF reach])
  next
    case granted
    have act: "act = requested_call req a"
      using granted(2) decode_remote_call [OF dec acct, of req] by simp
    have before: "reachable initial_state (chain_step rc env) (r\<lparr>ext := x\<rparr>)"
      by (rule chain_other [OF reach granted(1)])
    have "r1 = apply_call rc (Signed sov) act (r\<lparr>ext := x\<rparr>)" by (simp add: apply_call_def granted(3))
    moreover have "decodable act" by (simp add: act decodable_requested_call)
    ultimately have "reachable initial_state (chain_step rc env) r1"
      using reachable.reach_step [OF before chain_step.call] by simp
    moreover have "outcome True req a r r'"
      using requested_call_entitles [OF reachable_rights_inv [OF before lawful] granted(3) [unfolded act]]
      by (simp add: outcome_def granted(5))
    ultimately show thesis
      using granted(4-6) by (intro that [of True]) (auto intro: chain_other)
  qed
qed

section \<open>The invariant\<close>

definition asked ::
  "('a, 'l, 'b, 'h, 'o, 'x) client_config \<Rightarrow> ('a, 'y) config \<Rightarrow> ('a, 'h, 'x) client_state \<Rightarrow> u64 \<Rightarrow> 'a \<Rightarrow>
     rights_request \<Rightarrow> bool" where
  "asked cl rc c q a req \<longleftrightarrow>
     (\<exists>amount h. RequestSent q a req amount h \<in> set (client_events c)) \<and>
     decode_account rc (encode_account_id cl a) = Some a \<and> length (encode_account_id cl a) = 32"

definition settled ::
  "('a, 'l, 'b, 'h, 'o, 'x) client_config \<Rightarrow> ('a, 'h, 'x) client_state \<Rightarrow>
     (('l, 'b) instruction list \<times> ('a, 'y) state \<times> ('a, 'y) state) list \<Rightarrow> u64 \<Rightarrow> 'a \<Rightarrow> bool \<Rightarrow> bool" where
  "settled cl c hist q a ok \<longleftrightarrow>
     (\<exists>req amount h r r'. RequestSent q a req amount h \<in> set (client_events c) \<and>
        (asked_program cl req a q, r, r') \<in> set hist \<and> outcome ok req a r r')"

definition net_inv ::
  "('a, 'l, 'b, 'h, 'o, 'x) client_config \<Rightarrow> ('x \<Rightarrow> 'a \<Rightarrow> nat) \<Rightarrow> ('x \<Rightarrow> nat) \<Rightarrow> nat \<Rightarrow> ('a, 'y) config \<Rightarrow>
     ('y \<Rightarrow> 'y \<Rightarrow> bool) \<Rightarrow> ('a, 'l, 'b, 'h, 'x, 'y) network \<Rightarrow> bool" where
  "net_inv cl bal next_query ed rc env n \<longleftrightarrow>
     reachable (client_initial cl bal ed) (client_step cl bal next_query) (consumer n) \<and>
     reachable initial_state (chain_step rc env) (ccrms n) \<and>
     distinct (map program_query (programs n @ map fst (executed n))) \<and>
     (\<forall>m\<in>set (programs n) \<union> fst ` set (executed n). \<exists>q a req. asked cl rc (consumer n) q a req \<and> m = asked_program cl req a q) \<and>
     (\<forall>(q, resp)\<in>set (reports n). \<exists>a. settled cl (consumer n) (executed n) q a (resp = DispatchResult Success)) \<and>
     (\<forall>q a ok. OutcomeReported q a ok \<in> set (client_events (consumer n)) \<longrightarrow>
        settled cl (consumer n) (executed n) q a ok)"

lemma net_invD:
  assumes "net_inv cl bal next_query ed rc env n"
  shows "reachable (client_initial cl bal ed) (client_step cl bal next_query) (consumer n)"
    and "reachable initial_state (chain_step rc env) (ccrms n)"
    and "distinct (map program_query (programs n @ map fst (executed n)))"
    and "m \<in> set (programs n) \<union> fst ` set (executed n) \<Longrightarrow>
      \<exists>q a req. asked cl rc (consumer n) q a req \<and> m = asked_program cl req a q"
    and "(q, resp) \<in> set (reports n) \<Longrightarrow> \<exists>a. settled cl (consumer n) (executed n) q a (resp = DispatchResult Success)"
    and "OutcomeReported q a ok \<in> set (client_events (consumer n)) \<Longrightarrow> settled cl (consumer n) (executed n) q a ok"
  using assms unfolding net_inv_def by blast+

lemma asked_mono:
  "asked cl rc c q a req \<Longrightarrow> set (client_events c) \<subseteq> set (client_events c') \<Longrightarrow> asked cl rc c' q a req"
  unfolding asked_def by blast

lemma settled_mono:
  "settled cl c hist q a ok \<Longrightarrow> set (client_events c) \<subseteq> set (client_events c') \<Longrightarrow> set hist \<subseteq> set hist' \<Longrightarrow>
    settled cl c' hist' q a ok"
  unfolding settled_def by blast

lemma sent_logI: "RequestSent q a req amount h \<in> set es \<Longrightarrow> (q, a) \<in> set (sent_log es)"
  by (induction es rule: sent_log.induct) auto

lemma reachable_log_agrees:
  assumes "reachable (client_initial cl bal ed) (client_step cl bal next_query) c" and "client_laws cl bal next_query ed"
  shows "log_agrees next_query c"
  using client_log.inv_reachable [OF assms(1)] assms(2) by blast

text \<open>The client makes its own steps in the network.\<close>

lemma reachable_request:
  assumes "reachable (client_initial cl bal ed) (client_step cl bal next_query) c"
    and "request cl og req amount c = Inr c'" and "client_signed cl og = Inr a" and "a \<noteq> escrow_account cl"
    and "next_query (client_ext c) < max_query"
  shows "reachable (client_initial cl bal ed) (client_step cl bal next_query) c'"
proof -
  have "client_step cl bal next_query c (applied (request cl og req amount c) c)"
    by (rule client_step.requested) (use assms(3-5) in auto)
  then show ?thesis using reachable.reach_step [OF assms(1)] by (simp add: assms(2) applied_def)
qed

lemma reachable_outcome:
  assumes "reachable (client_initial cl bal ed) (client_step cl bal next_query) c"
  shows "reachable (client_initial cl bal ed) (client_step cl bal next_query) (applied (on_outcome cl og q resp c) c)"
  by (rule reachable.reach_step [OF assms client_step.reported])

lemma ask_net_inv:
  assumes laws: "net_laws cl bal next_query ed rc env sov executor" and inv: "net_inv cl bal next_query ed rc env n"
    and run: "request cl og req amount (consumer n) = Inr c" and signed: "client_signed cl og = Inr a"
    and a: "a \<noteq> escrow_account cl" and room: "next_query (client_ext (consumer n)) < max_query"
    and ev: "client_events c = client_events (consumer n) @ [RequestSent q a req amount h]"
  shows "net_inv cl bal next_query ed rc env (n\<lparr>consumer := c, programs := programs n @ [asked_program cl req a q]\<rparr>)"
proof -
  note old = net_invD [OF inv]
  have sub: "set (client_events (consumer n)) \<subseteq> set (client_events c)" by (auto simp: ev)
  have reach: "reachable (client_initial cl bal ed) (client_step cl bal next_query) c"
    by (rule reachable_request [OF old(1) run signed a room])
  have "distinct (map fst (sent_log (client_events c)))"
    by (rule log_agreesD(1) [OF reachable_log_agrees [OF reach net_lawsD(1) [OF laws]]])
  then have fresh: "q \<notin> fst ` set (sent_log (client_events (consumer n)))" by (simp add: ev)
  have "Some q \<notin> program_query ` (set (programs n) \<union> fst ` set (executed n))"
  proof
    assume "Some q \<in> program_query ` (set (programs n) \<union> fst ` set (executed n))"
    then obtain m where m: "m \<in> set (programs n) \<union> fst ` set (executed n)" "Some q = program_query m" by (rule imageE)
    from old(4) [OF m(1)] m(2) fresh show False by (auto simp: asked_def dest!: sent_logI intro: rev_image_eqI)
  qed
  then have "distinct (map program_query ((programs n @ [asked_program cl req a q]) @ map fst (executed n)))"
    using old(3) by (auto simp: image_Un image_image)
  moreover have "asked cl rc c q a req"
    using run net_lawsD(4) [OF laws signed] signed
    by (auto simp: asked_def ev elim!: request_cases)
  moreover have "\<exists>k b rq. asked cl rc c k b rq \<and> m = asked_program cl rq b k"
    if m: "m \<in> set (programs n) \<union> fst ` set (executed n)" for m
    using old(4) [OF m] asked_mono [OF _ sub] by blast
  moreover have "\<exists>b. settled cl c (executed n) k b (resp = DispatchResult Success)" if "(k, resp) \<in> set (reports n)" for k resp
    using old(5) [OF that] settled_mono [OF _ sub order_refl] by blast
  moreover have "settled cl c (executed n) k b ok" if "OutcomeReported k b ok \<in> set (client_events c)" for k b ok
  proof -
    have "OutcomeReported k b ok \<in> set (client_events (consumer n))" using that by (simp add: ev)
    from settled_mono [OF old(6) [OF this] sub order_refl] show ?thesis .
  qed
  ultimately show ?thesis using reach old(2) by (auto simp: net_inv_def)
qed

lemma execute_net_inv:
  assumes laws: "net_laws cl bal next_query ed rc env sov executor" and inv: "net_inv cl bal next_query ed rc env n"
    and prog: "programs n = ps @ m # qs" and run: "executor m (ccrms n) r out"
  shows "net_inv cl bal next_query ed rc env
    (n\<lparr>ccrms := r, programs := ps @ qs, reports := reports n @ out, executed := executed n @ [(m, ccrms n, r)]\<rparr>)"
proof -
  note old = net_invD [OF inv]
  let ?hist = "executed n @ [(m, ccrms n, r)]"
  from old(4) [of m] obtain q a req where m: "m = asked_program cl req a q"
    and ask: "asked cl rc (consumer n) q a req" by (auto simp: prog)
  then have acct: "decode_account rc (encode_account_id cl a) = Some a" "length (encode_account_id cl a) = 32"
    by (simp_all add: asked_def)
  obtain ok where out: "outcome ok req a (ccrms n) r"
      "\<forall>(k, resp)\<in>set out. k = q \<and> (resp = DispatchResult Success) = ok"
    and reach: "reachable initial_state (chain_step rc env) r"
    by (rule executor_settles [OF net_lawsD(3,2) [OF laws] run [unfolded m] acct old(2)])
  have new: "settled cl (consumer n) ?hist q a ok" using ask out(1) by (auto simp: settled_def asked_def m)
  have "\<exists>b. settled cl (consumer n) ?hist k b (resp = DispatchResult Success)"
    if "(k, resp) \<in> set (reports n @ out)" for k resp
  proof (cases "(k, resp) \<in> set out")
    case True
    with out(2) have "k = q" "(resp = DispatchResult Success) = ok" by auto
    with new show ?thesis by auto
  next
    case False
    with that old(5) [of k resp] settled_mono [of cl "consumer n" "executed n" k _ _ "consumer n" ?hist]
    show ?thesis by auto
  qed
  moreover have "settled cl (consumer n) ?hist k b good" if "OutcomeReported k b good \<in> set (client_events (consumer n))" for k b good
    by (rule settled_mono [OF old(6) [OF that]]) auto
  moreover have "distinct (map program_query ((ps @ qs) @ map fst ?hist))" using old(3) by (auto simp: prog)
  moreover have "\<exists>k b rq. asked cl rc (consumer n) k b rq \<and> p = asked_program cl rq b k"
    if "p \<in> set (ps @ qs) \<union> fst ` set ?hist" for p
    using that by (intro old(4)) (auto simp: prog)
  ultimately show ?thesis using reach old(1) by (auto simp: net_inv_def)
qed

lemma deliver_net_inv:
  assumes laws: "net_laws cl bal next_query ed rc env sov executor" and inv: "net_inv cl bal next_query ed rc env n"
    and rep: "reports n = rs @ (q, resp) # ts"
  shows "net_inv cl bal next_query ed rc env
    (n\<lparr>consumer := applied (on_outcome cl og q resp (consumer n)) (consumer n), reports := rs @ ts\<rparr>)"
proof (cases "on_outcome cl og q resp (consumer n)")
  case (Inl e)
  with inv rep show ?thesis by (auto simp: net_inv_def applied_def)
next
  case (Inr c)
  note old = net_invD [OF inv]
  let ?ok = "resp = DispatchResult Success"
  from Inr obtain p x where p: "pending (consumer n) q = Some p"
    and c: "c = client_deposit (OutcomeReported q (who p) ?ok) ((consumer n)\<lparr>pending := (pending (consumer n))(q := None), client_ext := x\<rparr>)"
    by (rule on_outcome_cases)
  then have ev: "client_events c = client_events (consumer n) @ [OutcomeReported q (who p) ?ok]"
    by (simp add: client_deposit_def)
  have sub: "set (client_events (consumer n)) \<subseteq> set (client_events c)" by (auto simp: ev)
  note log = reachable_log_agrees [OF old(1) net_lawsD(1) [OF laws]]
  from old(5) [of q resp] obtain a where a: "settled cl (consumer n) (executed n) q a ?ok" by (auto simp: rep)
  then have "(q, a) \<in> set (sent_log (client_events (consumer n)))" by (auto simp: settled_def dest: sent_logI)
  with log_agreesD(5) [OF log p] log_agreesD(1) [OF log] have "a = who p" by (rule eq_key_imp_eq_value [rotated 2])
  with a have new: "settled cl c (executed n) q (who p) ?ok" using settled_mono [OF _ sub order_refl] by simp
  have grow: "settled cl c (executed n) k b good" if "settled cl (consumer n) (executed n) k b good" for k b good
    by (rule settled_mono [OF that sub order_refl])
  have "settled cl c (executed n) k b good" if "OutcomeReported k b good \<in> set (client_events c)" for k b good
    using that new grow [OF old(6), of k b good] by (auto simp: ev)
  moreover have "\<exists>b. settled cl c (executed n) k b (res = DispatchResult Success)" if "(k, res) \<in> set (rs @ ts)" for k res
  proof -
    from that have "(k, res) \<in> set (reports n)" by (auto simp: rep)
    from old(5) [OF this] grow show ?thesis by blast
  qed
  moreover have "\<exists>k b rq. asked cl rc c k b rq \<and> m = asked_program cl rq b k"
    if m: "m \<in> set (programs n) \<union> fst ` set (executed n)" for m
    using old(4) [OF m] asked_mono [OF _ sub] by blast
  moreover have "reachable (client_initial cl bal ed) (client_step cl bal next_query) c"
    using reachable_outcome [OF old(1), of og q resp] by (simp add: Inr applied_def)
  ultimately show ?thesis using old(2,3) by (auto simp: net_inv_def Inr applied_def)
qed

lemma lose_net_inv:
  assumes inv: "net_inv cl bal next_query ed rc env n" and "set ms \<subseteq> set (programs n)" and "distinct ms"
    and "set rs \<subseteq> set (reports n)"
  shows "net_inv cl bal next_query ed rc env (n\<lparr>programs := ms, reports := rs\<rparr>)"
proof -
  note old = net_invD [OF inv]
  have "inj_on program_query (set (programs n))" using old(3) by (simp add: distinct_map)
  then have "distinct (map program_query ms)" using assms(2,3) by (simp add: distinct_map inj_on_subset)
  moreover have "program_query ` set ms \<subseteq> program_query ` set (programs n)" using assms(2) by blast
  ultimately have "distinct (map program_query (ms @ map fst (executed n)))" using old(3) by auto
  moreover have "\<exists>q a req. asked cl rc (consumer n) q a req \<and> m = asked_program cl req a q"
    if "m \<in> set ms \<union> fst ` set (executed n)" for m
    by (rule old(4)) (use that assms(2) in auto)
  moreover have "\<exists>a. settled cl (consumer n) (executed n) q a (resp = DispatchResult Success)"
    if "(q, resp) \<in> set rs" for q resp
    by (rule old(5)) (use that assms(4) in auto)
  ultimately show ?thesis using old(1,2,6) by (auto simp: net_inv_def)
qed

lemma net_step_inv:
  assumes "net_step cl bal next_query rc env executor n n'" and laws: "net_laws cl bal next_query ed rc env sov executor"
    and inv: "net_inv cl bal next_query ed rc env n"
  shows "net_inv cl bal next_query ed rc env n'"
  using assms(1)
proof cases
  case (ask og req amount c a q h)
  with ask_net_inv [OF laws inv] show ?thesis by simp
next
  case (execute ps m qs r out)
  with execute_net_inv [OF laws inv] show ?thesis by simp
next
  case (deliver rs q resp ts og)
  with deliver_net_inv [OF laws inv] show ?thesis by simp
next
  case (lose ms rs)
  with lose_net_inv [OF inv] show ?thesis by simp
next
  case (rights r)
  with net_invD(2) [OF inv] have "reachable initial_state (chain_step rc env) r" by (auto intro: reachable.reach_step)
  with inv rights(1) show ?thesis by (simp add: net_inv_def)
next
  case (consume x b)
  then have "reachable (client_initial cl bal ed) (client_step cl bal next_query) (consumer n\<lparr>client_ext := x, client_block := b\<rparr>)"
    by (intro reachable.reach_step [OF net_invD(1) [OF inv]] client_step.elsewhere)
  with inv consume(1) show ?thesis by (simp add: net_inv_def asked_def settled_def)
qed

interpretation net: invariant_system "net_initial cl bal ed rc env" "net_step cl bal next_query rc env executor"
  "\<lambda>n. net_laws cl bal next_query ed rc env sov executor \<longrightarrow> net_inv cl bal next_query ed rc env n"
  for cl :: "('a, 'l, 'b, 'h, 'o, 'x) client_config" and bal next_query ed and rc :: "('a, 'y) config"
    and env executor sov
proof
  fix n :: "('a, 'l, 'b, 'h, 'x, 'y) network"
  assume "net_initial cl bal ed rc env n"
  then show "net_laws cl bal next_query ed rc env sov executor \<longrightarrow> net_inv cl bal next_query ed rc env n"
    by (auto simp: net_inv_def net_initial_def client_initial_def intro: reachable.reach_start)
qed (auto intro: net_step_inv)

lemma executed_once:
  assumes "distinct (map program_query (map fst hist))" and "(m, r, r') \<in> set hist" and "program_query m = Some q"
  shows "filter (\<lambda>(p, _). program_query p = Some q) hist = [(m, r, r')]"
  using assms
proof (induction hist)
  case (Cons e hist)
  obtain p s where e: "e = (p, s)" by (cases e)
  show ?case
  proof (cases "e = (m, r, r')")
    case True
    with Cons.prems have "Some q \<notin> program_query ` fst ` set hist" by (simp add: e image_image)
    then have "filter (\<lambda>(p, _). program_query p = Some q) hist = []"
      unfolding filter_empty_conv by (auto intro: rev_image_eqI [OF imageI])
    with True Cons.prems(3) show ?thesis by simp
  next
    case False
    with Cons.prems have "(m, r, r') \<in> set hist" "program_query p \<noteq> Some q" by (auto simp: e image_iff dest!: bspec)
    with Cons False show ?thesis by (simp add: e)
  qed
qed simp

section \<open>Property\<close>

text \<open>
  C4: Buying a right across chains is atomic. In every reachable state of the two chains, whatever
  was lost, reordered or done by others, each reported outcome has a request of the same user, the
  rights chain has processed the program of that request exactly once, and what it did fits the
  report: after a success, which pays the operator, the user was granted the requested right on the
  ledger by that program; after a failure, which refunds the user, the program left the ledger as
  it was.
\<close>

theorem cross_chain_atomic:
  assumes "reachable (net_initial cl bal ed rc env) (net_step cl bal next_query rc env executor) n"
    and "net_laws cl bal next_query ed rc env sov executor"
    and "OutcomeReported q a ok \<in> set (client_events (consumer n))"
  shows "\<exists>req amount h r r'. RequestSent q a req amount h \<in> set (client_events (consumer n)) \<and>
    filter (\<lambda>(m, _). program_query m = Some q) (executed n) = [(asked_program cl req a q, r, r')] \<and>
    (if ok then entitles req a (current_block r) (ledger_of r) (ledger_of r') else ledger_of r' = ledger_of r)"
proof -
  have inv: "net_inv cl bal next_query ed rc env n"
    using net.inv_reachable [OF assms(1)] assms(2) by blast
  from net_invD(6) [OF inv assms(3)] obtain req amount h r r' where
    sent: "RequestSent q a req amount h \<in> set (client_events (consumer n))"
    and done': "(asked_program cl req a q, r, r') \<in> set (executed n)" and "outcome ok req a r r'"
    by (auto simp: settled_def)
  moreover have "distinct (map program_query (map fst (executed n)))" using net_invD(3) [OF inv] by simp
  ultimately show ?thesis using executed_once [OF _ done' program_query_asked] unfolding outcome_def by blast
qed

text \<open>
  Account 1 of the consumer chain asks for a subscription to content 0, which account 4 pays on the
  rights chain in state \<open>mock_s1\<close>. Only accounts that fit a byte can sign.
\<close>

definition mock_gate :: "(nat, nat, nat, nat, nat + nat, mock_client_ext) client_config" where
  "mock_gate = mock_client\<lparr>client_signed := \<lambda>og. case og of Inl a \<Rightarrow> if a < 256 then Inr a else Inl BadOrigin | Inr _ \<Rightarrow> Inl BadOrigin\<rparr>"

lemma mock_gate_message: "rights_message mock_gate = rights_message mock_client" "remote_call mock_gate = remote_call mock_client"
  by (simp_all add: fun_eq_iff rights_message_def remote_call_def mock_gate_def)

lemma mock_gate_fields:
  "rights_chain mock_gate = rights_chain mock_client" "operator mock_gate = operator mock_client"
  "escrow_account mock_gate = escrow_account mock_client" "query_timeout mock_gate = query_timeout mock_client"
  "encode_account_id mock_gate = encode_account_id mock_client" "escrow_transfer mock_gate = escrow_transfer mock_client"
  "new_notify_query mock_gate = new_notify_query mock_client" "send_xcm mock_gate = send_xcm mock_client"
  "response_origin mock_gate = response_origin mock_client" "client_signed mock_gate (Inl 1) = Inr 1"
  by (simp_all add: mock_gate_def)

lemma mock_gate_calls:
  "request mock_gate (Inl 1) = request mock_client (Inl 1)" "on_outcome mock_gate = on_outcome mock_client"
  unfolding fun_eq_iff request_def on_outcome_def mock_gate_message mock_gate_fields mock_client_fields(6) by simp_all

definition mock_executor :: "(nat, nat, nat, mock_ext) executor" where
  "mock_executor m r r' out \<longleftrightarrow>
     (case m of [_, _, _, Transact _ _ bytes, ReportTransactStatus info] \<Rightarrow>
        (case decode_call (decode_account mock) 51 bytes of None \<Rightarrow> r' = r \<and> out = []
         | Some act \<Rightarrow>
             (case dispatch mock (Signed 4) act r of
                Inl e \<Rightarrow> r' = r \<and> out = [(response_query_id info, DispatchResult (ErrorCode []))]
              | Inr (w, r1) \<Rightarrow> r' = r1 \<and> out = [(response_query_id info, DispatchResult Success)]))
      | _ \<Rightarrow> False)"

lemma mock_net_laws:
  "net_laws mock_gate cm_balance mock_next_query 10 mock (\<lambda>x x'. counter x' = counter x) 4 mock_executor"
proof -
  have "client_laws mock_gate cm_balance mock_next_query 10"
    using mock_client_laws
    by (simp add: client_laws_def moves_escrow_def issues_queries_def mock_gate_def)
  moreover have "\<exists>x. counter x = counter (ext r) \<and> (\<exists>w r1. dispatch mock (Signed 4) act (r\<lparr>ext := x\<rparr>) = Inr (w, r1) \<and>
      (\<exists>x'. counter x' = counter (ext r1) \<and> r' = r1\<lparr>ext := x'\<rparr>))"
    if "dispatch mock (Signed 4) act r = Inr (w, r')" for act w and r r' :: "(nat, mock_ext) state"
    using that by (intro exI [of _ "ext r"] conjI refl exI [of _ w] exI [of _ r'] exI [of _ "ext r'"]) simp_all
  then have "executor_law mock (\<lambda>x x'. counter x' = counter x) (decode_call (decode_account mock) 51) 4 mock_gate mock_executor"
    unfolding executor_law_def
    by (auto simp: mock_executor_def rights_message_def Let_def intro: exI [of _ "ext _"]
        split: option.splits sum.splits prod.splits)
  moreover have "decode_account mock (encode_account_id mock_gate a) = Some a" if "client_signed mock_gate og = Inr a" for og a
    using that by (auto simp: mock_gate_def mock_def mock_decode_account_def unat_of_nat split: sum.splits if_splits)
  moreover have "rights_pallet_index mock_gate = 51" by (simp add: mock_gate_def)
  ultimately show ?thesis
    using decode_call_decoder [of 51 "decode_account mock"] by (auto simp: net_laws_def mock_lawful_env)
qed

definition mock_net :: "(nat, nat, nat, nat, mock_client_ext, mock_ext) network" where
  "mock_net = \<lparr>consumer = mock_client_state 10, ccrms = mock_s1, programs = [], reports = [], executed = []\<rparr>"

theorem cross_chain_atomic_witness:
  "\<exists>n r'. reachable (net_initial mock_gate cm_balance 10 mock (\<lambda>x x'. counter x' = counter x))
       (net_step mock_gate cm_balance mock_next_query mock (\<lambda>x x'. counter x' = counter x) mock_executor) n \<and>
     OutcomeReported 0 1 True \<in> set (client_events (consumer n)) \<and>
     map snd (executed n) = [(mock_s1, r')] \<and>
     paid_until (ledger_of mock_s1) (0, 1) = None \<and> paid_until (ledger_of r') (0, 1) = Some 205"
proof -
  let ?env = "\<lambda>x x'. counter x' = counter x"
  let ?step = "net_step mock_gate cm_balance mock_next_query mock ?env mock_executor"
  let ?reach = "reachable (net_initial mock_gate cm_balance 10 mock ?env) ?step"
  let ?m = "asked_program mock_gate (Req_Subscribe 0) 1 0"
  let ?n1 = "mock_net\<lparr>consumer := mock_requested 10, programs := [?m]\<rparr>"
  have "?reach mock_net"
    by (rule reachable.reach_start)
       (simp add: net_initial_def mock_net_def client_initial_def mock_client_state_def mock_gate_def mock_s1_reachable)
  moreover have "?step mock_net ?n1"
  proof -
    have req: "request mock_gate (Inl 1) (Req_Subscribe 0) 100 (consumer mock_net) = Inr (mock_requested 10)"
      unfolding mock_gate_calls by (simp add: mock_net_def client_run_simps)
    have ev: "client_events (mock_requested 10) = client_events (consumer mock_net) @ [RequestSent 0 1 (Req_Subscribe 0) 100 0]"
      by (simp add: mock_net_def client_run_simps)
    have "?step mock_net (mock_net\<lparr>consumer := mock_requested 10, programs := programs mock_net @ [?m]\<rparr>)"
      by (rule net_step.ask [OF req mock_gate_fields(10) _ _ ev])
         (simp_all add: mock_gate_fields mock_net_def mock_client_state_def max_query_def)
    then show ?thesis by (simp add: mock_net_def)
  qed
  ultimately have r1: "?reach ?n1" by (rule reachable.reach_step)
  obtain w r where run: "dispatch mock (Signed 4) (XcmSubscribe 0 1) mock_s1 = Inr (w, r)"
    by (simp add: mock_s1_def mock_work_def run_simps)
  have "decode_call (decode_account mock) 51 (remote_call mock_gate (Req_Subscribe 0) (encode_account_id mock_gate 1)) = Some (XcmSubscribe 0 1)"
    using decode_remote_call [OF decode_call_decoder, of "decode_account mock" "encode_account_id mock_gate 1" 1 mock_gate "Req_Subscribe 0"]
    by (simp add: mock_gate_def mock_def mock_decode_account_def)
  with run have exec: "mock_executor ?m mock_s1 r [(0, DispatchResult Success)]"
    by (simp add: mock_executor_def asked_program_def rights_message_def Let_def)
  let ?n2 = "?n1\<lparr>ccrms := r, programs := [], reports := [(0, DispatchResult Success)], executed := [(?m, mock_s1, r)]\<rparr>"
  have "?step ?n1 ?n2"
    using net_step.execute [where n = ?n1 and ps = "[]" and qs = "[]" and m = ?m and executor = mock_executor and r = r and
      out = "[(0, DispatchResult Success)]"] exec by (simp add: mock_net_def)
  with r1 have r2: "?reach ?n2" by (rule reachable.reach_step)
  obtain c where out: "on_outcome mock_gate (Inr 100) 0 (DispatchResult Success) (mock_requested 10) = Inr c"
      "client_events c = [RequestSent 0 1 (Req_Subscribe 0) 100 0, OutcomeReported 0 1 True]"
    unfolding mock_gate_calls by (simp add: client_run_simps)
  let ?n3 = "?n2\<lparr>consumer := c, reports := []\<rparr>"
  have "?step ?n2 ?n3"
    using net_step.deliver [where n = ?n2 and cl = mock_gate and rs = "[]" and ts = "[]" and q = 0 and og = "Inr 100" and
      resp = "DispatchResult Success"] out(1) by (simp add: mock_net_def mock_gate_def applied_def)
  with r2 have r3: "?reach ?n3" by (rule reachable.reach_step)
  from cross_chain_atomic [OF r3 mock_net_laws, of 0 1 True] out(2)
  have "entitles (Req_Subscribe 0) 1 (current_block mock_s1) (ledger_of mock_s1) (ledger_of r)" by (auto simp: mock_net_def)
  then have "paid_until (ledger_of mock_s1) (0, 1) = None \<and> paid_until (ledger_of r) (0, 1) = Some 205"
    by (simp add: ledger_of_def work_def work_of_def mock_s1_def mock_work_def current_block_def try_into_u32_def saturating_add_def)
  with r3 out(2) show ?thesis by (intro exI [of _ ?n3] exI [of _ r]) (simp add: mock_net_def)
qed

end
