(* ===== verification/Runtime_Genesis.thy ===== *)
theory Runtime_Genesis
  imports Runtime_Config
begin

text \<open>
  The presets from which a chain starts, \<open>src/runtime/src/genesis_config_presets.rs\<close>, and the chain
  specifications of the node that name them, \<open>src/node/src/chain_spec.rs\<close> with \<open>load_spec\<close> of
  \<open>src/node/src/command.rs\<close>. The key ring, the names of the presets and the serialiser belong to the
  Polkadot SDK and are parameters. The lemmas say that every listed preset exists, that the
  specification and its preset agree on the para id, and that the chain starts with accounts that
  can act.
\<close>

section \<open>Presets\<close>

text \<open>
  \<open>Sr25519Keyring\<close>: the accounts and public keys of Alice and Bob, and the accounts of all well-known
  keys, these two among them.
\<close>

record ('a, 'k) keyring =
  alice :: 'a
  bob :: 'a
  alice_public :: 'k
  bob_public :: 'k
  well_known :: "'a list"

definition keyring_laws :: "('a, 'k) keyring \<Rightarrow> bool" where
  "keyring_laws kr \<longleftrightarrow> alice kr \<noteq> bob kr \<and> {alice kr, bob kr} \<subseteq> set (well_known kr)"

definition local_testnet_genesis :: "('a, 'k) keyring \<Rightarrow> u32 \<Rightarrow> ('a, 'k) runtime_genesis" where
  "local_testnet_genesis kr xcm_version =
     testnet_genesis xcm_version [(alice kr, alice_public kr), (bob kr, bob_public kr)] (well_known kr) (alice kr)
       PARACHAIN_ID"

definition development_config_genesis :: "('a, 'k) keyring \<Rightarrow> u32 \<Rightarrow> ('a, 'k) runtime_genesis" where
  "development_config_genesis kr xcm_version =
     testnet_genesis xcm_version [(alice kr, alice_public kr), (bob kr, bob_public kr)] (well_known kr) (alice kr)
       PARACHAIN_ID"

text \<open>The names of the two presets and the serialiser, as \<open>sp_genesis_builder\<close> and \<open>serde_json\<close> have them.\<close>

record ('a, 'k) preset_env =
  dev_preset :: string
  local_preset :: string
  to_json :: "('a, 'k) runtime_genesis \<Rightarrow> u8 list"

definition get_preset ::
  "('a, 'k) preset_env \<Rightarrow> ('a, 'k) keyring \<Rightarrow> u32 \<Rightarrow> string \<Rightarrow> u8 list option" where
  "get_preset pe kr xcm_version name =
     (if name = local_preset pe then Some (to_json pe (local_testnet_genesis kr xcm_version))
      else if name = dev_preset pe then Some (to_json pe (development_config_genesis kr xcm_version))
      else None)"

definition preset_names :: "('a, 'k) preset_env \<Rightarrow> string list" where
  "preset_names pe = [dev_preset pe, local_preset pe]"

section \<open>Chain specifications\<close>

datatype chain_type = Development | Local

record chain_spec =
  relay_chain :: string
  spec_para_id :: u32
  spec_name :: string
  spec_id :: string
  chain_type_of :: chain_type
  preset_name :: string
  protocol_id :: "string option"
  token_symbol :: string
  token_decimals :: nat
  ss58_format :: nat

definition development_chain_spec :: "('a, 'k) preset_env \<Rightarrow> chain_spec" where
  "development_chain_spec pe =
     \<lparr>relay_chain = ''rococo-local'', spec_para_id = PARACHAIN_ID, spec_name = ''Development'', spec_id = ''dev'',
      chain_type_of = Development, preset_name = dev_preset pe, protocol_id = None,
      token_symbol = ''UNIT'', token_decimals = 12, ss58_format = 42\<rparr>"

definition local_chain_spec :: "('a, 'k) preset_env \<Rightarrow> chain_spec" where
  "local_chain_spec pe =
     \<lparr>relay_chain = ''rococo-local'', spec_para_id = PARACHAIN_ID, spec_name = ''Local Testnet'',
      spec_id = ''local_testnet'', chain_type_of = Local, preset_name = local_preset pe,
      protocol_id = Some ''template-local'', token_symbol = ''UNIT'', token_decimals = 12, ss58_format = 42\<rparr>"

text \<open>\<open>from_json_file\<close> reads a specification from a file.\<close>

definition load_spec ::
  "('a, 'k) preset_env \<Rightarrow> (string \<Rightarrow> string + chain_spec) \<Rightarrow> string \<Rightarrow> string + chain_spec" where
  "load_spec pe from_json_file name =
     (if name = ''dev'' then Inr (development_chain_spec pe)
      else if name = ''template-rococo'' then Inr (local_chain_spec pe)
      else if name = '''' \<or> name = ''local'' then Inr (local_chain_spec pe)
      else from_json_file name)"

section \<open>What a started chain has\<close>

lemma get_preset_listed: "get_preset pe kr v name \<noteq> None \<longleftrightarrow> name \<in> set (preset_names pe)"
  by (simp add: get_preset_def preset_names_def)

lemma built_in_spec:
  assumes "name \<in> {''dev'', ''template-rococo'', '''', ''local''}"
  obtains spec where "load_spec pe from_json_file name = Inr spec" and "preset_name spec \<in> set (preset_names pe)"
    and "spec_para_id spec = PARACHAIN_ID"
  using assms by (auto simp: load_spec_def development_chain_spec_def local_chain_spec_def preset_names_def)

lemma testnet_genesis_start:
  assumes "keyring_laws kr" and "g = local_testnet_genesis kr v \<or> g = development_config_genesis kr v"
  shows "genesis_parachain_id g = PARACHAIN_ID"
    and "distinct (genesis_invulnerables g)" and "map fst (session_keys g) = genesis_invulnerables g"
    and "the (genesis_sudo g) \<in> fst ` set (genesis_balances g)"
    and "set (genesis_invulnerables g) \<subseteq> fst ` set (genesis_balances g)"
    and "(a, b) \<in> set (genesis_balances g) \<Longrightarrow> candidacy_bond g + NftsCollectionDeposit + EXISTENTIAL_DEPOSIT \<le> b"
proof -
  have g: "g = testnet_genesis v [(alice kr, alice_public kr), (bob kr, bob_public kr)] (well_known kr) (alice kr)
      PARACHAIN_ID"
    using assms(2) by (auto simp: local_testnet_genesis_def development_config_genesis_def)
  note laws = assms(1) [unfolded keyring_laws_def]
  show "genesis_parachain_id g = PARACHAIN_ID" "distinct (genesis_invulnerables g)"
    "the (genesis_sudo g) \<in> fst ` set (genesis_balances g)"
    "set (genesis_invulnerables g) \<subseteq> fst ` set (genesis_balances g)"
    using laws by (auto simp: g testnet_genesis_def image_image)
  show "map fst (session_keys g) = genesis_invulnerables g"
    "(a, b) \<in> set (genesis_balances g) \<Longrightarrow> candidacy_bond g + NftsCollectionDeposit + EXISTENTIAL_DEPOSIT \<le> b"
    using testnet_genesis_consistent [OF g] by blast+
qed

text \<open>
  A chain started from a preset keeps para id 1000 unless the specification is edited, while the
  verifier and the client of this runtime look for the rights chain at para id 100.
\<close>

lemma preset_is_not_rights_chain:
  assumes "keyring_laws kr" and "g = local_testnet_genesis kr v \<or> g = development_config_genesis kr v"
  shows "genesis_parachain_id g \<noteq> VerifierRightsParaId"
    and "rights_chain (rights_client_config p op cfg) \<noteq> Location 1 [Parachain (genesis_parachain_id g)]"
  using testnet_genesis_start(1) [OF assms]
  by (simp_all add: PARACHAIN_ID_def VerifierRightsParaId_def rights_client_config_def)

end
