(* ===== verification/Xcm_Config.thy ===== *)
theory Xcm_Config
  imports Cross_Chain Xcm_Fees "HOL-Library.Countable"
begin

text \<open>
  The XCM configuration of the runtime, \<open>src/runtime/src/configs/xcm_config.rs\<close>: which messages may
  execute (\<open>Barrier\<close>), which account and which origin a sender gets (\<open>LocationToAccountId\<close>,
  \<open>XcmOriginToTransactDispatchOrigin\<close>) and how messages leave (\<open>XcmRouter\<close>). The configuration composes
  filters and converters of the polkadot-sdk. These are parameters, fields of library records whose
  laws state what their documentation says; the composition is the code that is verified. The
  results are the policy of the barrier, the policy of the origins, and that the messages of
  \<open>pallet_rights_client\<close> pass in both directions.
\<close>

section \<open>Locations\<close>

definition RelayLocation :: location where
  "RelayLocation = Location 1 []"

text \<open>\<open>relay_genesis\<close> stands for the network that \<open>ByGenesis(ROCOCO_GENESIS_HASH)\<close> names.\<close>

definition RelayNetwork :: "nat \<Rightarrow> nat option" where
  "RelayNetwork relay_genesis = Some relay_genesis"

definition UniversalLocation :: "nat \<Rightarrow> u32 \<Rightarrow> junction list" where
  "UniversalLocation relay_genesis parachain_id = [GlobalConsensus relay_genesis, Parachain parachain_id]"

section \<open>The barrier\<close>

text \<open>
  A barrier decides whether a program of an origin may execute, given the largest weight of the
  program and the credit that its carrier grants; a deny filter decides whether it is refused.
\<close>

type_synonym 'b program = "(location, 'b) instruction list"

type_synonym 'b barrier = "location \<Rightarrow> 'b program \<Rightarrow> weight \<Rightarrow> weight \<Rightarrow> bool"

text \<open>
  The filters of the library. A list of barriers is a tuple of them. \<open>computed_origin\<close> is the origin
  and the remaining program behind a prefix of at most \<open>n\<close> instructions that change the origin; it is
  missing when the origin gets too long. \<open>expects\<close> tells whether \<open>pallet_xcm\<close> waits for a response to a
  query from a location, for the querier that the response names.
\<close>

type_synonym expected = "location \<Rightarrow> u64 \<Rightarrow> location option \<Rightarrow> bool"

record 'b barrier_library =
  TrailingSetTopicAsId :: "'b barrier \<Rightarrow> 'b barrier"
  DenyThenTry :: "'b barrier \<Rightarrow> 'b barrier \<Rightarrow> 'b barrier"
  DenyRecursively :: "'b barrier \<Rightarrow> 'b barrier"
  DenyReserveTransferToRelayChain :: "'b barrier"
  allow_tuple :: "'b barrier list \<Rightarrow> 'b barrier"
  TakeWeightCredit :: "'b barrier"
  AllowKnownQueryResponses :: "expected \<Rightarrow> 'b barrier"
  WithComputedOrigin :: "'b barrier \<Rightarrow> junction list \<Rightarrow> nat \<Rightarrow> 'b barrier"
  AllowTopLevelPaidExecutionFrom :: "(location \<Rightarrow> bool) \<Rightarrow> 'b barrier"
  AllowExplicitUnpaidExecutionFrom :: "(location \<Rightarrow> bool) \<Rightarrow> 'b barrier"
  computed_origin :: "junction list \<Rightarrow> nat \<Rightarrow> location \<Rightarrow> 'b program \<Rightarrow> (location \<times> 'b program) option"
  recursion_limit :: nat

definition Barrier ::
  "'b barrier_library \<Rightarrow> expected \<Rightarrow> nat \<Rightarrow> u32 \<Rightarrow> 'b barrier" where
  "Barrier lib expects relay_genesis parachain_id =
     TrailingSetTopicAsId lib
       (DenyThenTry lib
         (DenyRecursively lib (DenyReserveTransferToRelayChain lib))
         (allow_tuple lib
           [TakeWeightCredit lib,
            AllowKnownQueryResponses lib expects,
            WithComputedOrigin lib
              (allow_tuple lib
                [AllowTopLevelPaidExecutionFrom lib (\<lambda>_. True),
                 AllowExplicitUnpaidExecutionFrom lib parent_or_executive])
              (UniversalLocation relay_genesis parachain_id) 8]))"

text \<open>Vocabulary of the laws: programs without their topic, nested programs, and kinds of instructions.\<close>

fun is_topic :: "('l, 'b) instruction \<Rightarrow> bool" where
  "is_topic (SetTopic _) = True"
| "is_topic _ = False"

definition strip_topic :: "('l, 'b) instruction list \<Rightarrow> ('l, 'b) instruction list" where
  "strip_topic p = (if p \<noteq> [] \<and> is_topic (last p) then butlast p else p)"

fun nested_programs :: "('l, 'b) instruction list \<Rightarrow> ('l, 'b) instruction list list" where
  "nested_programs [] = []"
| "nested_programs (SetAppendix q # p) = q # nested_programs q @ nested_programs p"
| "nested_programs (SetErrorHandler q # p) = q # nested_programs q @ nested_programs p"
| "nested_programs (ExecuteWithOrigin _ q # p) = q # nested_programs q @ nested_programs p"
| "nested_programs (_ # p) = nested_programs p"

fun nesting_depth :: "('l, 'b) instruction list \<Rightarrow> nat" where
  "nesting_depth [] = 0"
| "nesting_depth (SetAppendix q # p) = max (Suc (nesting_depth q)) (nesting_depth p)"
| "nesting_depth (SetErrorHandler q # p) = max (Suc (nesting_depth q)) (nesting_depth p)"
| "nesting_depth (ExecuteWithOrigin _ q # p) = max (Suc (nesting_depth q)) (nesting_depth p)"
| "nesting_depth (_ # p) = nesting_depth p"

fun reserve_to_relay :: "(location, 'b) instruction \<Rightarrow> bool" where
  "reserve_to_relay (TransferReserveAsset _ dest _) \<longleftrightarrow> dest = RelayLocation"
| "reserve_to_relay (DepositReserveAsset _ dest _) \<longleftrightarrow> dest = RelayLocation"
| "reserve_to_relay (InitiateReserveWithdraw _ reserve _) \<longleftrightarrow> reserve = RelayLocation"
| "reserve_to_relay _ \<longleftrightarrow> False"

fun changes_origin :: "('l, 'b) instruction \<Rightarrow> bool" where
  "changes_origin (DescendOrigin _) = True"
| "changes_origin (UniversalOrigin _) = True"
| "changes_origin _ = False"

fun pays_for_execution :: "('l, 'b) instruction \<Rightarrow> bool" where
  "pays_for_execution (BuyExecution _ _) = True"
| "pays_for_execution (PayFees _) = True"
| "pays_for_execution _ = False"

text \<open>
  What the documentation of the filters says. The topic at the end of a program does not count. A
  denied program is not tried. A deny filter applied recursively also sees the programs that are
  executed later on this chain. A tuple allows what one of its parts allows. Credit has to cover the
  whole weight. A response is known when it is expected and the program consists of nothing else. A
  prefix that changes the origin is evaluated first: without a claim of a universal origin it only
  descends from the sender, and a location has at most eight junctions. Top level execution is paid
  when the program takes at most two assets and buys execution with them at once, and no program
  without buying counts as paid. Unpaid execution has to be announced, by a location that the filter
  allows, itself or after descending further.
\<close>

definition combinator_laws :: "'b barrier_library \<Rightarrow> bool" where
  "combinator_laws lib \<longleftrightarrow>
     (\<forall>B og p w c. TrailingSetTopicAsId lib B og p w c \<longleftrightarrow> B og (strip_topic p) w c) \<and>
     (\<forall>D B og p w c. DenyThenTry lib D B og p w c \<longleftrightarrow> \<not> D og p w c \<and> B og p w c) \<and>
     (\<forall>Bs og p w c. allow_tuple lib Bs og p w c \<longleftrightarrow> (\<exists>B\<in>set Bs. B og p w c)) \<and>
     (\<forall>B u n og p w c. WithComputedOrigin lib B u n og p w c \<longleftrightarrow>
        (\<exists>og' p'. computed_origin lib u n og p = Some (og', p') \<and> B og' p' w c))"

definition prefix_laws :: "'b barrier_library \<Rightarrow> bool" where
  "prefix_laws lib \<longleftrightarrow>
     (\<forall>u n og p. p = [] \<or> \<not> changes_origin (hd p) \<longrightarrow> computed_origin lib u n og p = Some (og, p)) \<and>
     (\<forall>u n k js ks is. length (js @ ks) \<le> 8 \<longrightarrow>
        computed_origin lib u (Suc n) (Location k js) (DescendOrigin (Location 0 ks) # is) =
          computed_origin lib u n (Location k (js @ ks)) is) \<and>
     (\<forall>u n k js p og' p'. computed_origin lib u n (Location k js) p = Some (og', p') \<longrightarrow>
        set p' \<subseteq> set p \<and> ((\<nexists>j. UniversalOrigin j \<in> set p) \<longrightarrow> (\<exists>ks. og' = Location k (js @ ks))))"

definition deny_laws :: "'b barrier_library \<Rightarrow> bool" where
  "deny_laws lib \<longleftrightarrow>
     (\<forall>D og p w c. (\<exists>q\<in>set (p # nested_programs p). D og q w c) \<longrightarrow> DenyRecursively lib D og p w c) \<and>
     (\<forall>D og p w c. DenyRecursively lib D og p w c \<longrightarrow>
        recursion_limit lib < nesting_depth p \<or> (\<exists>q\<in>set (p # nested_programs p). D og q w c)) \<and>
     1 \<le> recursion_limit lib \<and>
     (\<forall>og p w c. DenyReserveTransferToRelayChain lib og p w c \<longleftrightarrow> (\<exists>i\<in>set p. reserve_to_relay i))"

definition allow_laws :: "'b barrier_library \<Rightarrow> bool" where
  "allow_laws lib \<longleftrightarrow>
     (\<forall>og p w c. TakeWeightCredit lib og p w c \<longleftrightarrow> w \<le> c) \<and>
     (\<forall>expects og p w c. AllowKnownQueryResponses lib expects og p w c \<longleftrightarrow>
        (\<exists>q resp mw querier. p = [QueryResponse q resp mw querier] \<and> expects og q querier)) \<and>
     (\<forall>T og as a p w c. T og \<longrightarrow> length as \<le> 2 \<longrightarrow>
        AllowTopLevelPaidExecutionFrom lib T og (WithdrawAsset as # BuyExecution a Unlimited # p) w c) \<and>
     (\<forall>T og p w c. AllowTopLevelPaidExecutionFrom lib T og p w c \<longrightarrow> (\<exists>i\<in>set p. pays_for_execution i)) \<and>
     (\<forall>T k js p w c. AllowExplicitUnpaidExecutionFrom lib T (Location k js) p w c \<longrightarrow>
        (\<exists>ks. T (Location k (js @ ks))) \<and> (\<exists>l. UnpaidExecution l \<in> set p))"

definition barrier_laws :: "'b barrier_library \<Rightarrow> bool" where
  "barrier_laws lib \<longleftrightarrow> combinator_laws lib \<and> prefix_laws lib \<and> deny_laws lib \<and> allow_laws lib"

lemma barrier_lawsD:
  assumes "barrier_laws lib"
  shows "TrailingSetTopicAsId lib B og p w c \<longleftrightarrow> B og (strip_topic p) w c"
    and "DenyThenTry lib D B og p w c \<longleftrightarrow> \<not> D og p w c \<and> B og p w c"
    and "allow_tuple lib Bs og p w c \<longleftrightarrow> (\<exists>B\<in>set Bs. B og p w c)"
    and "WithComputedOrigin lib B u n og p w c \<longleftrightarrow>
      (\<exists>og' p'. computed_origin lib u n og p = Some (og', p') \<and> B og' p' w c)"
    and "TakeWeightCredit lib og p w c \<longleftrightarrow> w \<le> c"
    and "AllowKnownQueryResponses lib expects og p w c \<longleftrightarrow>
      (\<exists>q resp mw querier. p = [QueryResponse q resp mw querier] \<and> expects og q querier)"
    and "T og \<Longrightarrow> length as \<le> 2 \<Longrightarrow>
      AllowTopLevelPaidExecutionFrom lib T og (WithdrawAsset as # BuyExecution a Unlimited # p) w c"
    and "AllowTopLevelPaidExecutionFrom lib T og p w c \<Longrightarrow> \<exists>i\<in>set p. pays_for_execution i"
    and "AllowExplicitUnpaidExecutionFrom lib T (Location k js) p w c \<Longrightarrow>
      (\<exists>ks. T (Location k (js @ ks))) \<and> (\<exists>l. UnpaidExecution l \<in> set p)"
proof -
  have laws: "combinator_laws lib" "allow_laws lib" using assms by (simp_all add: barrier_laws_def)
  show "TrailingSetTopicAsId lib B og p w c \<longleftrightarrow> B og (strip_topic p) w c"
    "DenyThenTry lib D B og p w c \<longleftrightarrow> \<not> D og p w c \<and> B og p w c"
    "allow_tuple lib Bs og p w c \<longleftrightarrow> (\<exists>B\<in>set Bs. B og p w c)"
    "WithComputedOrigin lib B u n og p w c \<longleftrightarrow>
      (\<exists>og' p'. computed_origin lib u n og p = Some (og', p') \<and> B og' p' w c)"
    using laws(1) by (simp_all add: combinator_laws_def)
  note allow = laws(2) [unfolded allow_laws_def]
  note paid = allow [THEN conjunct2, THEN conjunct2]
  show "TakeWeightCredit lib og p w c \<longleftrightarrow> w \<le> c" using allow by simp
  show "AllowKnownQueryResponses lib expects og p w c \<longleftrightarrow>
      (\<exists>q resp mw querier. p = [QueryResponse q resp mw querier] \<and> expects og q querier)"
    using allow by simp
  show "T og \<Longrightarrow> length as \<le> 2 \<Longrightarrow>
      AllowTopLevelPaidExecutionFrom lib T og (WithdrawAsset as # BuyExecution a Unlimited # p) w c"
    by (rule paid [THEN conjunct1, rule_format])
  show "AllowTopLevelPaidExecutionFrom lib T og p w c \<Longrightarrow> \<exists>i\<in>set p. pays_for_execution i"
    by (rule paid [THEN conjunct2, THEN conjunct1, rule_format])
  show "AllowExplicitUnpaidExecutionFrom lib T (Location k js) p w c \<Longrightarrow>
      (\<exists>ks. T (Location k (js @ ks))) \<and> (\<exists>l. UnpaidExecution l \<in> set p)"
    by (rule paid [THEN conjunct2, THEN conjunct2, rule_format])
qed

lemma computed_originD:
  assumes "barrier_laws lib"
  shows "p = [] \<or> \<not> changes_origin (hd p) \<Longrightarrow> computed_origin lib u n og p = Some (og, p)"
    and "length (js @ ks) \<le> 8 \<Longrightarrow> computed_origin lib u (Suc n) (Location k js) (DescendOrigin (Location 0 ks) # is) =
      computed_origin lib u n (Location k (js @ ks)) is"
    and "computed_origin lib u n (Location k js) p = Some (og', p') \<Longrightarrow> set p' \<subseteq> set p"
    and "computed_origin lib u n (Location k js) p = Some (og', p') \<Longrightarrow> \<nexists>j. UniversalOrigin j \<in> set p \<Longrightarrow>
      \<exists>ks. og' = Location k (js @ ks)"
proof -
  have laws: "prefix_laws lib" using assms by (simp add: barrier_laws_def)
  note rules = laws [unfolded prefix_laws_def]
  show "p = [] \<or> \<not> changes_origin (hd p) \<Longrightarrow> computed_origin lib u n og p = Some (og, p)"
    by (rule rules [THEN conjunct1, rule_format])
  show "length (js @ ks) \<le> 8 \<Longrightarrow> computed_origin lib u (Suc n) (Location k js) (DescendOrigin (Location 0 ks) # is) =
      computed_origin lib u n (Location k (js @ ks)) is"
    by (rule rules [THEN conjunct2, THEN conjunct1, rule_format])
  assume "computed_origin lib u n (Location k js) p = Some (og', p')"
  note last = rules [THEN conjunct2, THEN conjunct2, rule_format, OF this]
  show "set p' \<subseteq> set p" by (rule last [THEN conjunct1])
  show "\<nexists>j. UniversalOrigin j \<in> set p \<Longrightarrow> \<exists>ks. og' = Location k (js @ ks)" using last by blast
qed

lemma barrier_denies:
  assumes "barrier_laws lib" and "q \<in> set (p # nested_programs p)" and "i \<in> set q" and "reserve_to_relay i"
  shows "DenyRecursively lib (DenyReserveTransferToRelayChain lib) og p w c"
proof -
  have "deny_laws lib" using assms(1) by (simp add: barrier_laws_def)
  moreover from this assms(3,4) have "DenyReserveTransferToRelayChain lib og q w c"
    by (auto simp: deny_laws_def)
  ultimately show ?thesis using assms(2) unfolding deny_laws_def by metis
qed

lemma barrier_denies_not:
  assumes "barrier_laws lib" and "\<forall>q\<in>set (p # nested_programs p). \<forall>i\<in>set q. \<not> reserve_to_relay i"
    and "nesting_depth p \<le> 1"
  shows "\<not> DenyRecursively lib (DenyReserveTransferToRelayChain lib) og p w c"
proof
  have laws: "deny_laws lib" using assms(1) by (simp add: barrier_laws_def)
  then have limit: "\<not> recursion_limit lib < nesting_depth p" using assms(3) by (simp add: deny_laws_def)
  assume "DenyRecursively lib (DenyReserveTransferToRelayChain lib) og p w c"
  with laws limit obtain q where "q \<in> set (p # nested_programs p)" "DenyReserveTransferToRelayChain lib og q w c"
    unfolding deny_laws_def by metis
  with laws assms(2) show False by (auto simp: deny_laws_def)
qed

text \<open>The barrier of the runtime, with the laws applied.\<close>

lemma Barrier_iff:
  assumes "barrier_laws lib"
  shows "Barrier lib expects relay_genesis parachain_id og p w c \<longleftrightarrow>
    \<not> DenyRecursively lib (DenyReserveTransferToRelayChain lib) og (strip_topic p) w c \<and>
    (w \<le> c \<or>
     (\<exists>q resp mw querier. strip_topic p = [QueryResponse q resp mw querier] \<and> expects og q querier) \<or>
     (\<exists>og' p'. computed_origin lib (UniversalLocation relay_genesis parachain_id) 8 og (strip_topic p) = Some (og', p') \<and>
        (AllowTopLevelPaidExecutionFrom lib (\<lambda>_. True) og' p' w c \<or>
         AllowExplicitUnpaidExecutionFrom lib parent_or_executive og' p' w c)))"
  by (auto simp: Barrier_def barrier_lawsD [OF assms])

lemma parent_or_executive_above: "parent_or_executive (Location k (js @ ks)) \<Longrightarrow> parent_or_executive (Location k js)"
  by (cases js) (auto simp: parent_or_executive_def split: list.splits junction.splits)

section \<open>Accounts and origins\<close>

text \<open>
  The converters of the library: from a location to an account, and from a location and a kind of
  origin to an origin of the runtime. \<open>sibling_account\<close> and \<open>parent_account\<close> are the sovereign accounts of
  a sibling chain and of the relay chain.
\<close>

datatype 'a runtime_origin = System_Origin "'a origin" | Relay_Origin | SiblingPara u32 | Xcm_Origin location

type_synonym 'a location_converter = "location \<Rightarrow> 'a option"

type_synonym 'a origin_converter = "location \<Rightarrow> origin_kind \<Rightarrow> 'a runtime_origin option"

record 'a converter_library =
  ParentIsPreset :: "'a location_converter"
  SiblingParachainConvertsVia :: "'a location_converter"
  AccountId32Aliases :: "nat option \<Rightarrow> 'a location_converter"
  HashedDescription :: "'a location_converter"
  GlobalConsensusParachainConvertsFor :: "junction list \<Rightarrow> 'a location_converter"
  account_tuple :: "'a location_converter list \<Rightarrow> 'a location_converter"
  SovereignSignedViaLocation :: "'a location_converter \<Rightarrow> 'a origin_converter"
  RelayChainAsNative :: "'a runtime_origin \<Rightarrow> 'a origin_converter"
  SiblingParachainAsNative :: "'a origin_converter"
  SignedAccountId32AsNative :: "nat option \<Rightarrow> 'a origin_converter"
  XcmPassthrough :: "'a origin_converter"
  origin_tuple :: "'a origin_converter list \<Rightarrow> 'a origin_converter"
  parent_account :: 'a
  sibling_account :: "u32 \<Rightarrow> 'a"

definition RelayChainOrigin :: "'a runtime_origin" where
  "RelayChainOrigin = Relay_Origin"

definition LocationToAccountId :: "'a converter_library \<Rightarrow> nat \<Rightarrow> u32 \<Rightarrow> 'a location_converter" where
  "LocationToAccountId lib relay_genesis parachain_id =
     account_tuple lib
       [ParentIsPreset lib,
        SiblingParachainConvertsVia lib,
        AccountId32Aliases lib (RelayNetwork relay_genesis),
        HashedDescription lib,
        GlobalConsensusParachainConvertsFor lib (UniversalLocation relay_genesis parachain_id)]"

definition XcmOriginToTransactDispatchOrigin ::
  "'a converter_library \<Rightarrow> nat \<Rightarrow> u32 \<Rightarrow> 'a origin_converter" where
  "XcmOriginToTransactDispatchOrigin lib relay_genesis parachain_id =
     origin_tuple lib
       [SovereignSignedViaLocation lib (LocationToAccountId lib relay_genesis parachain_id),
        RelayChainAsNative lib RelayChainOrigin,
        SiblingParachainAsNative lib,
        SignedAccountId32AsNative lib (RelayNetwork relay_genesis),
        XcmPassthrough lib]"

text \<open>The first converter of a tuple that succeeds decides.\<close>

fun first_some :: "('i \<Rightarrow> 'o option) list \<Rightarrow> 'i \<Rightarrow> 'o option" where
  "first_some [] x = None"
| "first_some (f # fs) x = (case f x of None \<Rightarrow> first_some fs x | Some y \<Rightarrow> Some y)"

lemma first_some_mem: "first_some fs x = Some y \<Longrightarrow> \<exists>f\<in>set fs. f x = Some y"
  by (induction fs) (auto split: option.splits)

text \<open>
  What the documentation says. Presets and siblings have accounts of a fixed form, which differ;
  accounts derived by hashing a description do not meet them. Only local locations are aliases of
  accounts. Each converter of origins looks at one kind of origin and yields one kind of result.
\<close>

definition account_laws :: "'a converter_library \<Rightarrow> bool" where
  "account_laws lib \<longleftrightarrow>
     (\<forall>fs l. account_tuple lib fs l = first_some fs l) \<and>
     inj (sibling_account lib) \<and> (\<forall>n. parent_account lib \<noteq> sibling_account lib n) \<and>
     (\<forall>l. ParentIsPreset lib l = (if l = RelayLocation then Some (parent_account lib) else None)) \<and>
     (\<forall>l. SiblingParachainConvertsVia lib l =
        (case l of Location p js \<Rightarrow>
           (case js of [Parachain n] \<Rightarrow> if p = 1 then Some (sibling_account lib n) else None | _ \<Rightarrow> None))) \<and>
     (\<forall>net l a. AccountId32Aliases lib net l = Some a \<longrightarrow> (\<exists>js. l = Location 0 js)) \<and>
     (\<forall>l n. HashedDescription lib l \<noteq> Some (sibling_account lib n)) \<and>
     (\<forall>u l n. GlobalConsensusParachainConvertsFor lib u l \<noteq> Some (sibling_account lib n))"

definition origin_laws :: "'a converter_library \<Rightarrow> bool" where
  "origin_laws lib \<longleftrightarrow>
     (\<forall>fs l k. origin_tuple lib fs l k = first_some (map (\<lambda>f (l, k). f l k) fs) (l, k)) \<and>
     (\<forall>conv l k. SovereignSignedViaLocation lib conv l k =
        (if k = SovereignAccount then map_option (\<lambda>a. System_Origin (Signed a)) (conv l) else None)) \<and>
     (\<forall>og l k. RelayChainAsNative lib og l k = (if k = Native \<and> l = RelayLocation then Some og else None)) \<and>
     (\<forall>l k og. SiblingParachainAsNative lib l k = Some og \<longrightarrow> k = Native \<and> (\<exists>n. og = SiblingPara n)) \<and>
     (\<forall>net l k og. SignedAccountId32AsNative lib net l k = Some og \<longrightarrow>
        k = Native \<and> (\<exists>js. l = Location 0 js) \<and> (\<exists>a. og = System_Origin (Signed a))) \<and>
     (\<forall>l k. XcmPassthrough lib l k = (if k = Xcm then Some (Xcm_Origin l) else None))"

definition converter_laws :: "'a converter_library \<Rightarrow> bool" where
  "converter_laws lib \<longleftrightarrow> account_laws lib \<and> origin_laws lib"

lemma account_lawsD:
  assumes "account_laws lib"
  shows "account_tuple lib fs l = first_some fs l"
    and "ParentIsPreset lib l = (if l = RelayLocation then Some (parent_account lib) else None)"
    and "SiblingParachainConvertsVia lib l =
      (case l of Location p js \<Rightarrow>
         (case js of [Parachain n] \<Rightarrow> if p = 1 then Some (sibling_account lib n) else None | _ \<Rightarrow> None))"
    and "sibling_account lib n = sibling_account lib m \<longleftrightarrow> n = m"
    and "parent_account lib \<noteq> sibling_account lib n"
    and "HashedDescription lib l \<noteq> Some (sibling_account lib n)"
    and "GlobalConsensusParachainConvertsFor lib u l \<noteq> Some (sibling_account lib n)"
    and "p \<noteq> 0 \<Longrightarrow> AccountId32Aliases lib net (Location p js) = None"
  using assms unfolding account_laws_def
  by (simp_all add: inj_eq) (metis location.inject option.exhaust)

lemma origin_lawsD:
  assumes "origin_laws lib"
  shows "origin_tuple lib gs l k = first_some (map (\<lambda>f (l, k). f l k) gs) (l, k)"
    and "SovereignSignedViaLocation lib conv l k =
      (if k = SovereignAccount then map_option (\<lambda>a. System_Origin (Signed a)) (conv l) else None)"
    and "RelayChainAsNative lib og l k = (if k = Native \<and> l = RelayLocation then Some og else None)"
    and "XcmPassthrough lib l k = (if k = Xcm then Some (Xcm_Origin l) else None)"
    and "SiblingParachainAsNative lib l k = Some og \<Longrightarrow> k = Native \<and> (\<exists>n. og = SiblingPara n)"
    and "SignedAccountId32AsNative lib net l k = Some og \<Longrightarrow>
      k = Native \<and> (\<exists>js. l = Location 0 js) \<and> (\<exists>a. og = System_Origin (Signed a))"
  using assms unfolding origin_laws_def by simp_all

text \<open>The account of a location that is not local is the sovereign account of a sibling only for that sibling.\<close>

lemma sovereign_account_iff:
  assumes "account_laws lib" and "p \<noteq> 0"
  shows "LocationToAccountId lib relay_genesis parachain_id (Location p js) = Some (sibling_account lib n) \<longleftrightarrow>
    p = 1 \<and> js = [Parachain n]"
  using account_lawsD(6,7) [OF assms(1)] account_lawsD(5) [OF assms(1), of n]
  by (auto simp: LocationToAccountId_def RelayLocation_def account_lawsD(1-4) [OF assms(1)] account_lawsD(8) [OF assms]
      split: option.splits if_splits list.splits junction.splits)

section \<open>The router\<close>

text \<open>
  A router delivers a program to a location, or says that it is not applicable, or fails. \<open>unique_topic\<close>
  is the topic that \<open>WithUniqueTopic\<close> makes up for a program without one.
\<close>

datatype send_error = NotApplicable | OtherSendError nat

type_synonym ('b, 'x) router = "location \<Rightarrow> 'b program \<Rightarrow> 'x \<Rightarrow> send_error + 'x"

record ('b, 'x) router_library =
  WithUniqueTopic :: "('b, 'x) router \<Rightarrow> ('b, 'x) router"
  router_tuple :: "('b, 'x) router list \<Rightarrow> ('b, 'x) router"
  ParentAsUmp :: "('b, 'x) router"
  XcmpQueue_router :: "('b, 'x) router"
  unique_topic :: "'b program \<Rightarrow> 'x \<Rightarrow> u8 list"

definition XcmRouter :: "('b, 'x) router_library \<Rightarrow> ('b, 'x) router" where
  "XcmRouter lib = WithUniqueTopic lib (router_tuple lib [ParentAsUmp lib, XcmpQueue_router lib])"

fun first_applicable :: "('b, 'x) router list \<Rightarrow> ('b, 'x) router" where
  "first_applicable [] dest p x = Inl NotApplicable"
| "first_applicable (r # rs) dest p x =
     (if r dest p x = Inl NotApplicable then first_applicable rs dest p x else r dest p x)"

definition router_laws :: "('b, 'x) router_library \<Rightarrow> bool" where
  "router_laws lib \<longleftrightarrow>
     (\<forall>r dest p x. WithUniqueTopic lib r dest p x =
        r dest (if p \<noteq> [] \<and> is_topic (last p) then p else p @ [SetTopic (unique_topic lib p x)]) x) \<and>
     (\<forall>rs dest p x. router_tuple lib rs dest p x = first_applicable rs dest p x) \<and>
     (\<forall>dest p x. dest \<noteq> RelayLocation \<longrightarrow> ParentAsUmp lib dest p x = Inl NotApplicable)"

lemma router_to_sibling:
  assumes "router_laws lib" and "dest \<noteq> RelayLocation" and "p \<noteq> []" and "\<not> is_topic (last p)"
  shows "XcmRouter lib dest p x = XcmpQueue_router lib dest (p @ [SetTopic (unique_topic lib p x)]) x"
  using assms by (auto simp: router_laws_def XcmRouter_def)

section \<open>A concrete library\<close>

fun mock_computed :: "nat \<Rightarrow> location \<Rightarrow> 'b program \<Rightarrow> (location \<times> 'b program) option" where
  "mock_computed (Suc n) (Location k js) (DescendOrigin (Location _ ks) # is) =
     (if length (js @ ks) \<le> 8 then mock_computed n (Location k (js @ ks)) is else None)"
| "mock_computed (Suc n) og (UniversalOrigin og' # is) = mock_computed n og' is"
| "mock_computed n og p = Some (og, p)"

lemma mock_computed_no_prefix: "p = [] \<or> \<not> changes_origin (hd p) \<Longrightarrow> mock_computed n og p = Some (og, p)"
  by (cases "(n, og, p)" rule: mock_computed.cases) auto

lemma mock_computed_set: "mock_computed n og p = Some (og', p') \<Longrightarrow> set p' \<subseteq> set p"
  by (induction n og p rule: mock_computed.induct) (auto split: if_splits)

lemma mock_computed_descends:
  "mock_computed n (Location k js) p = Some (og', p') \<Longrightarrow> \<nexists>j. UniversalOrigin j \<in> set p \<Longrightarrow>
     \<exists>ks. og' = Location k (js @ ks)"
  by (induction n "Location k js" p arbitrary: js rule: mock_computed.induct) (fastforce split: if_splits)+

lemma mock_prefix_laws: "(\<And>u. computed_origin lib u = mock_computed) \<Longrightarrow> prefix_laws lib"
  by (auto simp: prefix_laws_def mock_computed_no_prefix dest: mock_computed_set [THEN subsetD] intro: mock_computed_descends)

fun mock_answers :: "expected \<Rightarrow> location \<Rightarrow> 'b program \<Rightarrow> bool" where
  "mock_answers expects og [QueryResponse q _ _ querier] = expects og q querier"
| "mock_answers _ _ _ = False"

fun mock_pays :: "'b program \<Rightarrow> bool" where
  "mock_pays (WithdrawAsset as # BuyExecution _ _ # _) = (length as \<le> 2)"
| "mock_pays _ = False"

fun mock_announces :: "'b program \<Rightarrow> bool" where
  "mock_announces (UnpaidExecution _ # _) = True"
| "mock_announces _ = False"

lemma mock_filters:
  "mock_answers expects og p \<longleftrightarrow> (\<exists>q resp mw querier. p = [QueryResponse q resp mw querier] \<and> expects og q querier)"
  "mock_pays p' \<Longrightarrow> \<exists>i\<in>set p'. pays_for_execution i"
  "mock_announces p' \<Longrightarrow> \<exists>l. UnpaidExecution l \<in> set p'"
proof -
  show "mock_answers expects og p \<longleftrightarrow> (\<exists>q resp mw querier. p = [QueryResponse q resp mw querier] \<and> expects og q querier)"
    by (cases "(expects, og, p)" rule: mock_answers.cases) simp_all
  show "mock_pays p' \<Longrightarrow> \<exists>i\<in>set p'. pays_for_execution i" by (cases p' rule: mock_pays.cases) simp_all
  show "mock_announces p' \<Longrightarrow> \<exists>l. UnpaidExecution l \<in> set p'" by (cases p' rule: mock_announces.cases) auto
qed

definition mock_barriers :: "'b barrier_library" where
  "mock_barriers =
     \<lparr>TrailingSetTopicAsId = (\<lambda>B og p. B og (strip_topic p)),
      DenyThenTry = (\<lambda>D B og p w c. \<not> D og p w c \<and> B og p w c),
      DenyRecursively = (\<lambda>D og p w c. \<exists>q\<in>set (p # nested_programs p). D og q w c),
      DenyReserveTransferToRelayChain = (\<lambda>og p w c. \<exists>i\<in>set p. reserve_to_relay i),
      allow_tuple = (\<lambda>Bs og p w c. \<exists>B\<in>set Bs. B og p w c),
      TakeWeightCredit = (\<lambda>og p w c. w \<le> c),
      AllowKnownQueryResponses = (\<lambda>expects og p w c. mock_answers expects og p),
      WithComputedOrigin = (\<lambda>B u n og p w c. case mock_computed n og p of None \<Rightarrow> False | Some (og', p') \<Rightarrow> B og' p' w c),
      AllowTopLevelPaidExecutionFrom = (\<lambda>T og p w c. T og \<and> mock_pays p),
      AllowExplicitUnpaidExecutionFrom = (\<lambda>T og p w c. T og \<and> mock_announces p),
      computed_origin = (\<lambda>u. mock_computed), recursion_limit = 10\<rparr>"

lemma mock_barrier_laws: "barrier_laws mock_barriers"
proof -
  have "combinator_laws mock_barriers"
    by (auto simp: combinator_laws_def mock_barriers_def split: option.splits)
  moreover have "prefix_laws mock_barriers" by (rule mock_prefix_laws) (simp add: mock_barriers_def)
  moreover have "deny_laws mock_barriers" by (simp add: deny_laws_def mock_barriers_def)
  moreover have "allow_laws mock_barriers"
    unfolding allow_laws_def
    by (intro conjI allI)
       (auto simp: mock_barriers_def mock_filters intro: exI [of _ "[]"])
  ultimately show ?thesis by (simp add: barrier_laws_def)
qed

text \<open>Accounts are numbers: the relay chain is 0, siblings are even, hashed and local accounts odd.\<close>

definition mock_converters :: "nat converter_library" where
  "mock_converters =
     \<lparr>ParentIsPreset = (\<lambda>l. if l = RelayLocation then Some 0 else None),
      SiblingParachainConvertsVia = (\<lambda>l. case l of Location p js \<Rightarrow>
        (case js of [Parachain n] \<Rightarrow> if p = 1 then Some (2 * unat n + 2) else None | _ \<Rightarrow> None)),
      AccountId32Aliases = (\<lambda>net l. case l of Location p js \<Rightarrow>
        (case js of [AccountId32 net' bs] \<Rightarrow> if p = 0 then Some (2 * length bs + 1) else None | _ \<Rightarrow> None)),
      HashedDescription = (\<lambda>l. case l of Location p js \<Rightarrow>
        (case js of [Parachain n, AccountId32 _ bs] \<Rightarrow>
           if p = 1 then Some (2 * to_nat (unat n, map unat bs) + 1) else None | _ \<Rightarrow> None)),
      GlobalConsensusParachainConvertsFor = (\<lambda>u l. None),
      account_tuple = first_some,
      SovereignSignedViaLocation = (\<lambda>conv l k.
        if k = SovereignAccount then map_option (\<lambda>a. System_Origin (Signed a)) (conv l) else None),
      RelayChainAsNative = (\<lambda>og l k. if k = Native \<and> l = RelayLocation then Some og else None),
      SiblingParachainAsNative = (\<lambda>l k. case l of Location p js \<Rightarrow>
        (case js of [Parachain n] \<Rightarrow> if k = Native \<and> p = 1 then Some (SiblingPara n) else None | _ \<Rightarrow> None)),
      SignedAccountId32AsNative = (\<lambda>net l k. None),
      XcmPassthrough = (\<lambda>l k. if k = Xcm then Some (Xcm_Origin l) else None),
      origin_tuple = (\<lambda>fs l k. first_some (map (\<lambda>f (l, k). f l k) fs) (l, k)),
      parent_account = 0, sibling_account = (\<lambda>n. 2 * unat n + 2)\<rparr>"

lemma mock_account_laws: "account_laws mock_converters"
proof -
  have "2 * k \<noteq> Suc (2 * j)" for k j :: nat by presburger
  then show ?thesis
    unfolding account_laws_def
    by (intro conjI allI)
       (auto simp: mock_converters_def inj_def word_unat_eq_iff split: location.splits list.splits junction.splits if_splits)
qed

lemma mock_converter_laws: "converter_laws mock_converters"
proof -
  have "origin_laws mock_converters"
    by (simp add: origin_laws_def mock_converters_def split: location.splits list.splits junction.splits)
  with mock_account_laws show ?thesis by (simp add: converter_laws_def)
qed

definition mock_routers :: "(location \<times> u128, (location \<times> (location \<times> u128) program) list) router_library" where
  "mock_routers =
     \<lparr>WithUniqueTopic = (\<lambda>r dest p x. r dest (if p \<noteq> [] \<and> is_topic (last p) then p else p @ [SetTopic [7]]) x),
      router_tuple = first_applicable,
      ParentAsUmp = (\<lambda>dest p x. if dest = RelayLocation then Inr (x @ [(dest, p)]) else Inl NotApplicable),
      XcmpQueue_router = (\<lambda>dest p x. Inr (x @ [(dest, p)])),
      unique_topic = (\<lambda>p x. [7])\<rparr>"

lemma mock_router_laws: "router_laws mock_routers"
  by (simp add: router_laws_def mock_routers_def)

section \<open>Properties\<close>

text \<open>
  C25: Nothing executes for free: a message whose carrier grants no credit for its weight passes the
  barrier only if it is the answer to a query that this chain sent to its sender and nothing else, or
  pays for its execution, or announces unpaid execution and either comes from the relay chain or its
  executive body or claims a universal origin, which the barrier leaves to the executor to check. No
  message passes that moves reserves to the relay chain, in its program or in a program that it
  nests.
\<close>

theorem barrier_policy:
  assumes "barrier_laws lib" and "Barrier lib expects relay_genesis parachain_id og p w c"
    and "\<not> w \<le> c"
  shows "(\<forall>q\<in>set (strip_topic p # nested_programs (strip_topic p)). \<forall>i\<in>set q. \<not> reserve_to_relay i) \<and>
    ((\<exists>q resp mw querier. strip_topic p = [QueryResponse q resp mw querier] \<and> expects og q querier) \<or>
     (\<exists>i\<in>set p. pays_for_execution i) \<or>
     (\<exists>l. UnpaidExecution l \<in> set p) \<and> (parent_or_executive og \<or> (\<exists>j. UniversalOrigin j \<in> set p)))"
proof
  note passes = assms(2) [unfolded Barrier_iff [OF assms(1)]]
  then show "\<forall>q\<in>set (strip_topic p # nested_programs (strip_topic p)). \<forall>i\<in>set q. \<not> reserve_to_relay i"
    using barrier_denies [OF assms(1)] by blast
  obtain k js where og: "og = Location k js" by (cases og)
  have sub: "set (strip_topic p) \<subseteq> set p" by (auto simp: strip_topic_def dest: in_set_butlastD)
  from passes assms(3) consider
      "\<exists>q resp mw querier. strip_topic p = [QueryResponse q resp mw querier] \<and> expects og q querier"
    | og' p' where "computed_origin lib (UniversalLocation relay_genesis parachain_id) 8 og (strip_topic p) = Some (og', p')"
        "AllowTopLevelPaidExecutionFrom lib (\<lambda>_. True) og' p' w c"
    | og' p' where "computed_origin lib (UniversalLocation relay_genesis parachain_id) 8 og (strip_topic p) = Some (og', p')"
        "AllowExplicitUnpaidExecutionFrom lib parent_or_executive og' p' w c"
    by blast
  then show "(\<exists>q resp mw querier. strip_topic p = [QueryResponse q resp mw querier] \<and> expects og q querier) \<or>
     (\<exists>i\<in>set p. pays_for_execution i) \<or>
     (\<exists>l. UnpaidExecution l \<in> set p) \<and> (parent_or_executive og \<or> (\<exists>j. UniversalOrigin j \<in> set p))"
  proof cases
    case (2 og' p')
    with barrier_lawsD(8) [OF assms(1) 2(2)] computed_originD(3) [OF assms(1)] sub show ?thesis unfolding og by blast
  next
    case (3 og' p')
    note prefix = computed_originD(3,4) [OF assms(1) 3(1) [unfolded og]]
    obtain k' js' where og': "og' = Location k' js'" by (cases og')
    from barrier_lawsD(9) [OF assms(1) 3(2) [unfolded og']] obtain ks l where
      allowed: "parent_or_executive (Location k' (js' @ ks))" and "UnpaidExecution l \<in> set p'" by blast
    with prefix(1) sub have "UnpaidExecution l \<in> set p" by blast
    moreover have "parent_or_executive og" if "\<nexists>j. UniversalOrigin j \<in> set p"
    proof -
      from that sub prefix(2) obtain ks' where "k' = k" "js' = js @ ks'" unfolding og' by blast
      with allowed parent_or_executive_above [of k js "ks' @ ks"] show ?thesis by (simp add: og)
    qed
    ultimately show ?thesis by blast
  qed blast
qed

theorem barrier_policy_witness:
  "Barrier mock_barriers (\<lambda>_ _ _. False) 1 100 (Location 1 []) [UnpaidExecution Unlimited :: (location, nat) instruction] UnitWeightCost bot \<and>
   parent_or_executive (Location 1 [])"
proof -
  let ?p = "[UnpaidExecution Unlimited :: (location, nat) instruction]"
  have pass: "Barrier mock_barriers (\<lambda>_ _ _. False) 1 100 (Location 1 []) ?p UnitWeightCost bot"
    by (simp add: Barrier_def mock_barriers_def strip_topic_def parent_or_executive_def)
  have heavy: "\<not> UnitWeightCost \<le> bot" by (simp add: UnitWeightCost_def bot_weight_def less_eq_weight_def)
  from barrier_policy [OF mock_barrier_laws pass heavy] pass show ?thesis by (simp add: strip_topic_def)
qed

text \<open>
  C24: Who a message may act as: no message dispatches as root, and no message that asks for
  superuser rights dispatches at all. A message from outside dispatches as a signed account only
  when it asks for the account of its sender, and as the sovereign account of a sibling chain only
  when that chain itself is the sender, so neither another chain nor a user of that chain can spend
  what the chain holds here.
\<close>

theorem xcm_origin_policy:
  assumes "converter_laws lib" and "l = Location p js"
    and "XcmOriginToTransactDispatchOrigin lib relay_genesis parachain_id l k = Some og"
  shows "og \<noteq> System_Origin Root \<and> k \<noteq> Superuser \<and>
    (p \<noteq> 0 \<longrightarrow> (\<exists>a. og = System_Origin (Signed a)) \<longrightarrow> k = SovereignAccount) \<and>
    (p \<noteq> 0 \<longrightarrow> og = System_Origin (Signed (sibling_account lib n)) \<longrightarrow> l = Location 1 [Parachain n])"
proof -
  have accounts: "account_laws lib" and origins: "origin_laws lib"
    using assms(1) by (simp_all add: converter_laws_def)
  note laws = origin_lawsD [OF origins]
  from first_some_mem [OF assms(3) [unfolded XcmOriginToTransactDispatchOrigin_def laws(1)]]
  consider
      (sovereign) a where "k = SovereignAccount" "og = System_Origin (Signed a)"
        "LocationToAccountId lib relay_genesis parachain_id l = Some a"
    | (native) "k = Native" "og = Relay_Origin \<or> (\<exists>n. og = SiblingPara n)"
    | (local) "k = Native" "p = 0" "\<exists>a. og = System_Origin (Signed a)"
    | (passed) "k = Xcm" "og = Xcm_Origin l"
    using assms(2) by (auto simp: laws(2-4) RelayChainOrigin_def RelayLocation_def dest!: laws(5,6) split: if_splits)
  then show ?thesis
  proof cases
    case sovereign
    then show ?thesis using sovereign_account_iff [OF accounts] assms(2) by auto
  qed auto
qed

theorem xcm_origin_policy_witness:
  "XcmOriginToTransactDispatchOrigin mock_converters 1 100 (Location 1 [Parachain 200]) SovereignAccount =
     Some (System_Origin (Signed 402)) \<and> 402 \<noteq> sibling_account mock_converters 300"
proof -
  have run: "XcmOriginToTransactDispatchOrigin mock_converters 1 100 (Location 1 [Parachain 200]) SovereignAccount =
      Some (System_Origin (Signed 402))"
    by (simp add: XcmOriginToTransactDispatchOrigin_def LocationToAccountId_def mock_converters_def RelayLocation_def)
  from xcm_origin_policy [OF mock_converter_laws refl run, of 300] run show ?thesis by auto
qed

text \<open>
  The calls of a program, and what the executor of the rights chain sends for a
  \<open>ReportTransactStatus\<close>: one response with the data of the instruction, with the topic of the router.
\<close>

definition transacts :: "('l, 'b) instruction list \<Rightarrow> (origin_kind \<times> u8 list) list" where
  "transacts p = concat (map (\<lambda>i. case i of Transact k f bytes \<Rightarrow> [(k, bytes)] | _ \<Rightarrow> []) p)"

definition report_program ::
  "location query_response_info \<Rightarrow> response \<Rightarrow> location option \<Rightarrow> u8 list \<Rightarrow> (location, 'b) instruction list" where
  "report_program info resp querier topic =
     [QueryResponse (response_query_id info) resp (max_weight info) querier, SetTopic topic]"

lemma strip_asked_program:
  "strip_topic (asked_program cl req a q @ [SetTopic t]) = asked_program cl req a q"
  "nesting_depth (asked_program cl req a q) = 1"
  "\<not> is_topic (last (asked_program cl req a q))" "asked_program cl req a q \<noteq> []"
  by (simp_all add: strip_topic_def asked_program_def rights_message_def Let_def)

lemma asked_program_keeps_reserves:
  "\<forall>p\<in>set (asked_program cl req a q # nested_programs (asked_program cl req a q)). \<forall>i\<in>set p. \<not> reserve_to_relay i"
  by (simp add: asked_program_def rights_message_def Let_def)

lemma asked_program_admitted:
  assumes "barrier_laws lib"
  shows "Barrier lib expects relay_genesis parachain_id og (asked_program cl req a q @ [SetTopic t]) w c"
proof -
  have "computed_origin lib u n og (asked_program cl req a q) = Some (og, asked_program cl req a q)" for u n
    by (rule computed_originD(1) [OF assms]) (simp add: asked_program_def rights_message_def Let_def)
  moreover have "AllowTopLevelPaidExecutionFrom lib (\<lambda>_. True) og (asked_program cl req a q) w c"
    unfolding asked_program_def rights_message_def Let_def by (rule barrier_lawsD(7) [OF assms]) simp_all
  moreover have "\<not> DenyRecursively lib (DenyReserveTransferToRelayChain lib) og (asked_program cl req a q) w c"
    by (rule barrier_denies_not [OF assms asked_program_keeps_reserves]) (simp add: strip_asked_program)
  ultimately show ?thesis by (simp add: Barrier_iff [OF assms] strip_asked_program)
qed

lemma report_admitted:
  assumes "barrier_laws lib" and "expects og (response_query_id info) querier"
  shows "Barrier lib expects relay_genesis parachain_id og (report_program info resp querier t) w c"
proof -
  let ?r = "QueryResponse (response_query_id info) resp (max_weight info) querier"
  have strip: "strip_topic (report_program info resp querier t) = [?r]"
    by (simp add: strip_topic_def report_program_def)
  have "\<not> DenyRecursively lib (DenyReserveTransferToRelayChain lib) og [?r] w c"
    by (rule barrier_denies_not [OF assms(1)]) simp_all
  with assms(2) show ?thesis by (auto simp: Barrier_iff [OF assms(1)] strip)
qed

text \<open>
  C23: The way of a request through XCM, between two chains with this runtime: the router hands the
  program with its topic to the queue for the rights chain, the barrier of the rights chain lets it
  in, and the fee is named in the asset that the chain takes fees in. The program has one call, which
  the rights chain decodes as the requested extrinsic and, under the kind of origin that the program
  asks for, dispatches as signed by the sovereign account of the consumer chain. The program asks for
  a report to the consumer chain under the query of the request, and the barrier of the consumer chain
  lets in that report when it comes from the rights chain and is expected.
\<close>

theorem request_passes_xcm:
  assumes "barrier_laws bl" and "converter_laws cl_lib" and "router_laws rl"
    and "cl = rights_client_config para_id oper base"
    and "call_decoder (pallet_index ContentRights) dec_acc dec"
    and "dec_acc (encode_account_id cl a) = Some a" and "length (encode_account_id cl a) = 32"
    and "expects (rights_chain cl) q querier" and "p = asked_program cl req a q"
  shows "XcmRouter rl (rights_chain cl) p x =
      XcmpQueue_router rl (Location 1 [Parachain VerifierRightsParaId]) (p @ [SetTopic (unique_topic rl p x)]) x \<and>
    Barrier bl expects' relay_genesis VerifierRightsParaId (self_location cl) (p @ [SetTopic t]) w c \<and>
    fst (execution_fee cl) = RelayLocation \<and>
    (\<exists>kind bytes. transacts p = [(kind, bytes)] \<and> dec bytes = Some (requested_call req a) \<and>
       XcmOriginToTransactDispatchOrigin cl_lib relay_genesis VerifierRightsParaId (self_location cl) kind =
         Some (System_Origin (Signed (sibling_account cl_lib para_id)))) \<and>
    (\<exists>info. ReportTransactStatus info \<in> set p \<and> destination info = self_location cl \<and> response_query_id info = q \<and>
       Barrier bl expects relay_genesis para_id (rights_chain cl) (report_program info resp querier t') w c)"
proof (intro conjI)
  have places: "rights_chain cl = Location 1 [Parachain VerifierRightsParaId]" "self_location cl = Location 1 [Parachain para_id]"
    "fst (execution_fee cl) = RelayLocation" "rights_pallet_index cl = pallet_index ContentRights"
    by (simp_all add: assms(4) rights_client_config_def VerifierRightsParaId_def RelayLocation_def RightsPalletIndex_def)
  show "fst (execution_fee cl) = RelayLocation" by (rule places(3))
  show "XcmRouter rl (rights_chain cl) p x =
      XcmpQueue_router rl (Location 1 [Parachain VerifierRightsParaId]) (p @ [SetTopic (unique_topic rl p x)]) x"
    unfolding places(1) assms(9)
    by (rule router_to_sibling [OF assms(3)]) (simp_all add: RelayLocation_def strip_asked_program)
  show "Barrier bl expects' relay_genesis VerifierRightsParaId (self_location cl) (p @ [SetTopic t]) w c"
    unfolding assms(9) by (rule asked_program_admitted [OF assms(1)])
  let ?bytes = "remote_call cl req (encode_account_id cl a)"
  have calls: "transacts p = [(SovereignAccount, ?bytes)]"
    by (simp add: assms(9) asked_program_def rights_message_def Let_def transacts_def)
  have decoded: "dec ?bytes = Some (requested_call req a)"
    by (rule decode_remote_call [OF assms(5) [folded places(4)] assms(6,7)])
  have laws: "account_laws cl_lib" "origin_laws cl_lib" using assms(2) by (simp_all add: converter_laws_def)
  have "LocationToAccountId cl_lib relay_genesis VerifierRightsParaId (Location 1 [Parachain para_id]) =
      Some (sibling_account cl_lib para_id)"
    using sovereign_account_iff [OF laws(1), of 1] by simp
  then have "XcmOriginToTransactDispatchOrigin cl_lib relay_genesis VerifierRightsParaId (self_location cl) SovereignAccount =
      Some (System_Origin (Signed (sibling_account cl_lib para_id)))"
    by (simp add: places(2) XcmOriginToTransactDispatchOrigin_def origin_lawsD(1-4) [OF laws(2)])
  with calls decoded show "\<exists>kind bytes. transacts p = [(kind, bytes)] \<and> dec bytes = Some (requested_call req a) \<and>
      XcmOriginToTransactDispatchOrigin cl_lib relay_genesis VerifierRightsParaId (self_location cl) kind =
        Some (System_Origin (Signed (sibling_account cl_lib para_id)))" by blast
  let ?info = "\<lparr>destination = self_location cl, response_query_id = q, max_weight = wi_on_outcome (client_weights cl)\<rparr>"
  have "ReportTransactStatus ?info \<in> set p" by (simp add: assms(9) asked_program_def rights_message_def Let_def)
  moreover have "Barrier bl expects relay_genesis para_id (rights_chain cl) (report_program ?info resp querier t') w c"
    by (rule report_admitted [OF assms(1)]) (simp add: assms(8))
  ultimately show "\<exists>info. ReportTransactStatus info \<in> set p \<and> destination info = self_location cl \<and> response_query_id info = q \<and>
      Barrier bl expects relay_genesis para_id (rights_chain cl) (report_program info resp querier t') w c"
    by (intro exI [of _ ?info]) simp
qed

theorem request_passes_xcm_witness:
  "\<exists>p bytes. XcmRouter mock_routers (Location 1 [Parachain 100]) (asked_program mock_consumer (Req_Subscribe 0) 1 5) [] =
     Inr [(Location 1 [Parachain 100], p)] \<and>
   Barrier mock_barriers (\<lambda>_ _ _. False) 1 100 (Location 1 [Parachain 200]) p UnitWeightCost bot \<and>
   decode_call mock_decode_account 51 bytes = Some (XcmSubscribe 0 1) \<and>
   transacts (asked_program mock_consumer (Req_Subscribe 0) 1 5) = [(SovereignAccount, bytes)]"
proof -
  have places: "rights_chain mock_consumer = Location 1 [Parachain 100]" "self_location mock_consumer = Location 1 [Parachain 200]"
    "VerifierRightsParaId = 100"
    by (simp_all add: mock_consumer_def rights_client_config_def VerifierRightsParaId_def)
  have mocks: "unique_topic mock_routers p x = [7]" "XcmpQueue_router mock_routers d p x = Inr (x @ [(d, p)])" for p x d
    by (simp_all add: mock_routers_def)
  have acc: "mock_decode_account (encode_account_id mock_consumer 1) = Some 1" "length (encode_account_id mock_consumer 1) = 32"
    by (simp_all add: mock_consumer_def rights_client_config_def mock_decode_account_def)
  have kinds: "kind = SovereignAccount" if "transacts (asked_program mock_consumer (Req_Subscribe 0) 1 5) = [(kind, bytes)]" for kind bytes
    using that by (simp add: transacts_def asked_program_def rights_message_def Let_def)
  note passes = request_passes_xcm [where expects = "\<lambda>_ _ _. True" and q = 5 and req = "Req_Subscribe 0" and x = "[]" and querier = None and
      expects' = "\<lambda>_ _ _. False" and relay_genesis = 1 and t = "[7]" and w = UnitWeightCost and c = bot and
      dec_acc = mock_decode_account and dec = "decode_call mock_decode_account (pallet_index ContentRights)" and a = 1,
      OF mock_barrier_laws mock_converter_laws mock_router_laws mock_consumer_def decode_call_decoder acc TrueI refl,
      unfolded places mocks]
  from passes obtain kind bytes where
    "transacts (asked_program mock_consumer (Req_Subscribe 0) 1 5) = [(kind, bytes)]"
    "decode_call mock_decode_account (pallet_index ContentRights) bytes = Some (requested_call (Req_Subscribe 0) 1)"
    by blast
  with passes [THEN conjunct1] passes [THEN conjunct2, THEN conjunct1] kinds show ?thesis by auto
qed

end
