(* ===== verification/Remote_Users.thy ===== *)
theory Remote_Users
  imports Xcm_Config
begin

text \<open>
  Users of a sibling chain who send messages themselves, as \<open>signed_send_from_para_b\<close> of
  \<open>src/integration-tests/src/lib.rs\<close> does: \<open>pallet_xcm\<close> puts the sender in front of the program, the
  barrier evaluates that prefix, and the call is dispatched as signed by an account that is derived
  from the chain and the user, \<open>derived_account_on_para_a\<close>. The theory also compares the XCM
  configuration of the test chains, \<open>src/integration-tests/src/parachain.rs\<close>, with the one of the
  runtime, which its comments say it matches.
\<close>

section \<open>Messages of users\<close>

definition user_location :: "nat option \<Rightarrow> u32 \<Rightarrow> u8 list \<Rightarrow> location" where
  "user_location net para_id user = Location 1 [Parachain para_id, AccountId32 net user]"

text \<open>The message that the user sends, and the program that the receiving chain gets from \<open>pallet_xcm\<close>.\<close>

definition user_message :: "'b \<Rightarrow> u8 list \<Rightarrow> (location, 'b) instruction list" where
  "user_message fee call = [WithdrawAsset [fee], BuyExecution fee Unlimited, Transact SovereignAccount None call]"

definition user_program :: "nat option \<Rightarrow> u8 list \<Rightarrow> 'b \<Rightarrow> u8 list \<Rightarrow> (location, 'b) instruction list" where
  "user_program net user fee call = DescendOrigin (Location 0 [AccountId32 net user]) # user_message fee call"

text \<open>
  More of the documentation: the description of a user names the chain and the account but not the
  network, and different users have different accounts (the hash has no collisions).
\<close>

definition user_laws :: "'a converter_library \<Rightarrow> (u32 \<Rightarrow> u8 list \<Rightarrow> 'a) \<Rightarrow> bool" where
  "user_laws lib derived \<longleftrightarrow>
     (\<forall>net n user. HashedDescription lib (user_location net n user) = Some (derived n user)) \<and>
     (\<forall>n user m other. derived n user = derived m other \<longrightarrow> n = m \<and> user = other)"

definition derived_account :: "'a converter_library \<Rightarrow> u32 \<Rightarrow> u8 list \<Rightarrow> 'a" where
  "derived_account lib para_id user = the (HashedDescription lib (user_location None para_id user))"

lemma user_program_admitted:
  assumes laws: "barrier_laws lib"
  shows "computed_origin lib u 8 (Location 1 [Parachain n]) (user_program net user fee call) =
      Some (user_location net n user, user_message fee call)"
    and "Barrier lib expects relay_genesis parachain_id (Location 1 [Parachain n]) (user_program net user fee call @ [SetTopic t]) w c"
proof -
  let ?p = "user_program net user fee call" and ?m = "user_message fee call"
  have "computed_origin lib u (Suc 7) (Location 1 [Parachain n]) ?p = computed_origin lib u 7 (user_location net n user) ?m" for u
    using computed_originD(2) [OF laws, of "[Parachain n]" "[AccountId32 net user]" u 7 1 ?m]
    by (simp add: user_program_def user_location_def del: One_nat_def)
  moreover have "computed_origin lib u 7 (user_location net n user) ?m = Some (user_location net n user, ?m)" for u
    by (rule computed_originD(1) [OF laws]) (simp add: user_message_def)
  ultimately show comp: "computed_origin lib u 8 (Location 1 [Parachain n]) ?p = Some (user_location net n user, ?m)" for u
    by simp
  have strip: "strip_topic (?p @ [SetTopic t]) = ?p" by (simp add: strip_topic_def)
  have "AllowTopLevelPaidExecutionFrom lib (\<lambda>_. True) (user_location net n user) ?m w c"
    unfolding user_message_def by (rule barrier_lawsD(7) [OF laws]) simp_all
  moreover have "\<not> DenyRecursively lib (DenyReserveTransferToRelayChain lib) (Location 1 [Parachain n]) ?p w c"
    by (rule barrier_denies_not [OF laws]) (simp_all add: user_program_def user_message_def)
  ultimately show "Barrier lib expects relay_genesis parachain_id (Location 1 [Parachain n]) (?p @ [SetTopic t]) w c"
    unfolding Barrier_iff [OF laws] strip by (simp add: comp)
qed

lemma user_origin:
  assumes "converter_laws lib" and "user_laws lib derived"
  shows "XcmOriginToTransactDispatchOrigin lib relay_genesis parachain_id (user_location net n user) SovereignAccount =
      Some (System_Origin (Signed (derived n user)))"
    and "derived_account lib n user = derived n user"
proof -
  have laws: "account_laws lib" "origin_laws lib" using assms(1) by (simp_all add: converter_laws_def)
  have hash: "HashedDescription lib (user_location net n user) = Some (derived n user)" for net
    using assms(2) by (simp add: user_laws_def)
  have "AccountId32Aliases lib (RelayNetwork relay_genesis) (user_location net n user) = None"
    unfolding user_location_def by (rule account_lawsD(8) [OF laws(1)]) simp
  then have "LocationToAccountId lib relay_genesis parachain_id (user_location net n user) = Some (derived n user)"
    unfolding LocationToAccountId_def account_lawsD(1) [OF laws(1)]
    by (simp add: hash account_lawsD(2,3) [OF laws(1)] user_location_def [of net] RelayLocation_def)
      (simp add: hash [unfolded user_location_def])
  then show "XcmOriginToTransactDispatchOrigin lib relay_genesis parachain_id (user_location net n user) SovereignAccount =
      Some (System_Origin (Signed (derived n user)))"
    by (simp add: XcmOriginToTransactDispatchOrigin_def origin_lawsD(1-4) [OF laws(2)])
  show "derived_account lib n user = derived n user" by (simp add: derived_account_def hash)
qed

section \<open>A configuration for tests\<close>

text \<open>\<open>Barrier\<close> of the test chains: no deny filter and no unpaid execution.\<close>

definition test_Barrier ::
  "'b barrier_library \<Rightarrow> expected \<Rightarrow> nat \<Rightarrow> u32 \<Rightarrow> 'b barrier" where
  "test_Barrier lib expects relay_genesis parachain_id =
     TrailingSetTopicAsId lib
       (allow_tuple lib
         [TakeWeightCredit lib,
          AllowKnownQueryResponses lib expects,
          WithComputedOrigin lib (AllowTopLevelPaidExecutionFrom lib (\<lambda>_. True))
            (UniversalLocation relay_genesis parachain_id) 8])"

text \<open>The converters of the test chains, whose network is not named.\<close>

definition test_LocationToAccountId :: "'a converter_library \<Rightarrow> 'a location_converter" where
  "test_LocationToAccountId lib =
     account_tuple lib
       [ParentIsPreset lib, SiblingParachainConvertsVia lib, AccountId32Aliases lib None, HashedDescription lib]"

definition test_XcmOriginToCallOrigin :: "'a converter_library \<Rightarrow> 'a origin_converter" where
  "test_XcmOriginToCallOrigin lib =
     origin_tuple lib
       [SovereignSignedViaLocation lib (test_LocationToAccountId lib), SignedAccountId32AsNative lib None]"

text \<open>
  The tests are evidence about the runtime: for a program that moves no reserves to the relay chain,
  does not nest deeply and does not ask for unpaid execution, both barriers decide alike.
\<close>

lemma test_barrier_matches:
  assumes laws: "barrier_laws lib"
    and keeps: "\<forall>q\<in>set (strip_topic p # nested_programs (strip_topic p)). \<forall>i\<in>set q. \<not> reserve_to_relay i"
    and depth: "nesting_depth (strip_topic p) \<le> 1"
    and paid: "\<nexists>l. UnpaidExecution l \<in> set (strip_topic p)"
  shows "test_Barrier lib expects relay_genesis parachain_id og p w c \<longleftrightarrow>
    Barrier lib expects relay_genesis parachain_id og p w c"
proof -
  obtain k js where og: "og = Location k js" by (cases og)
  have "\<not> AllowExplicitUnpaidExecutionFrom lib parent_or_executive og' p' w c"
    if "computed_origin lib (UniversalLocation relay_genesis parachain_id) 8 og (strip_topic p) = Some (og', p')" for og' p'
    using barrier_lawsD(9) [OF laws] paid computed_originD(3) [OF laws that [unfolded og]] by (cases og') blast
  then show ?thesis
    unfolding Barrier_iff [OF laws] test_Barrier_def
    by (auto simp: barrier_lawsD(1-6) [OF laws] barrier_denies_not [OF laws keeps depth])
qed

text \<open>Senders from other chains that the test chains know get the same account and the same origin.\<close>

lemma test_accounts_match:
  assumes "account_laws lib" and "p \<noteq> 0" and "test_LocationToAccountId lib (Location p js) = Some a"
  shows "LocationToAccountId lib relay_genesis parachain_id (Location p js) = Some a"
  using assms(3)
  unfolding test_LocationToAccountId_def LocationToAccountId_def account_lawsD(1) [OF assms(1)]
  by (simp add: account_lawsD(8) [OF assms(1,2)] split: option.splits)

lemma test_origins_match:
  assumes "converter_laws lib" and "p \<noteq> 0"
    and "test_XcmOriginToCallOrigin lib (Location p js) k = Some og"
  shows "XcmOriginToTransactDispatchOrigin lib relay_genesis parachain_id (Location p js) k = Some og"
proof -
  have laws: "account_laws lib" "origin_laws lib" using assms(1) by (simp_all add: converter_laws_def)
  have "SignedAccountId32AsNative lib None (Location p js) k = None"
    using origin_lawsD(6) [OF laws(2)] assms(2) by (metis location.inject option.exhaust)
  with assms(3) obtain a where "k = SovereignAccount" "test_LocationToAccountId lib (Location p js) = Some a"
      "og = System_Origin (Signed a)"
    unfolding test_XcmOriginToCallOrigin_def origin_lawsD(1,2) [OF laws(2)]
    by (auto simp: origin_lawsD(2) [OF laws(2)] split: if_splits option.splits)
  with test_accounts_match [OF laws(1) assms(2)] show ?thesis
    by (simp add: XcmOriginToTransactDispatchOrigin_def origin_lawsD(1-4) [OF laws(2)])
qed

section \<open>Accounts of users\<close>

lemma mock_user_laws: "user_laws mock_converters (\<lambda>n bs. 2 * to_nat (unat n, map unat bs) + 1)"
proof -
  have "inj (unat :: 'a::len word \<Rightarrow> nat)" by (simp add: inj_def word_unat_eq_iff)
  note inj = this [THEN inj_mapI, THEN inj_eq]
  show ?thesis
    unfolding user_laws_def user_location_def mock_converters_def by (simp add: inj word_unat_eq_iff)
qed

text \<open>The other parties that chains and their users are on the rights chain.\<close>

definition other_parties :: "'a converter_library \<Rightarrow> u32 \<Rightarrow> u8 list \<Rightarrow> 'a set" where
  "other_parties lib n user =
     range (sibling_account lib) \<union> {derived_account lib m other |m other. (m, other) \<noteq> (n, user)}"

lemma other_parties_differ:
  assumes "converter_laws lib" and "user_laws lib derived" and "a \<in> other_parties lib n user"
  shows "a \<noteq> derived_account lib n user"
proof -
  note derived = user_origin(2) [OF assms(1,2)]
  have "account_laws lib" using assms(1) by (simp add: converter_laws_def)
  from account_lawsD(6) [OF this, of "user_location None n user"] assms(2)
  have chains: "sibling_account lib k \<noteq> derived n user" for k by (metis user_laws_def)
  have users: "derived m other \<noteq> derived n user" if "(m, other) \<noteq> (n, user)" for m other
    using assms(2) [unfolded user_laws_def, THEN conjunct2, rule_format, of m other n user] that by auto
  from assms(3) consider k where "a = sibling_account lib k"
    | m other where "a = derived m other" "(m, other) \<noteq> (n, user)"
    unfolding other_parties_def derived by auto
  then show ?thesis unfolding derived by cases (simp_all only: chains users not_False_eq_True)
qed

text \<open>
  A call of a remote user is signed by the derived account and by no other party, so that what holds
  of the acts of other accounts holds of it: no sovereign account and no other remote user loses an
  ownership by it.
\<close>

lemma remote_user_acts_alone:
  assumes "converter_laws lib" and "user_laws lib derived"
    and "me = derived_account lib n user" and "a \<in> other_parties lib n user" and "decodable act"
    and "ownership s (i, a) = Some info"
  shows "XcmOriginToTransactDispatchOrigin lib relay_genesis parachain_id (user_location net n user) SovereignAccount =
      Some (System_Origin (Signed me))"
    and "ownership (apply_call rc (Signed me) act s) (i, a) = Some info"
proof -
  show "XcmOriginToTransactDispatchOrigin lib relay_genesis parachain_id (user_location net n user) SovereignAccount =
      Some (System_Origin (Signed me))"
    unfolding assms(3) user_origin(2) [OF assms(1,2)] by (rule user_origin(1) [OF assms(1,2)])
  have "a \<noteq> me" unfolding assms(3) by (rule other_parties_differ [OF assms(1,2,4)])
  then show "ownership (apply_call rc (Signed me) act s) (i, a) = Some info"
    by (cases rule: apply_call_cases [OF assms(5), where cfg = rc and og = "Signed me" and s = s])
       (use assms(6) effect_keeps_ownership in \<open>fastforce+\<close>)
qed

end
