(* ===== verification/Node_Service.thy ===== *)
theory Node_Service
  imports Runtime_Genesis "HOL-Library.Sublist"
begin

text \<open>
  The start of a collator node, \<open>src/node/src/service.rs\<close> with \<open>src/node/src/rpc.rs\<close>. The code builds
  a client, a transaction pool, a network and a consensus engine with functions of the polkadot-sdk.
  A call of such a function is recorded with its arguments, and the library answers it with a
  handle or an error, depending on all calls so far; this is the parameter \<open>lib\<close>. Accessors of a handle
  and clones are written as terms over the handle. The model keeps the order of the calls, the flow of
  the handles, every \<open>?\<close> and every decision. The lemmas on \<open>follows\<close> give the calls that a start makes
  and the ways it can fail, those on \<open>calls_ok\<close> the arguments of the calls.
\<close>

section \<open>Calls of the library\<close>

text \<open>Values: handles of the library, literals, options, tuples, and the name of a task or a type.\<close>

datatype val = Handle nat | Str string | Num nat | Flag bool | Opt "val option" | Tup "val list" | Nth nat val

fun field :: "nat \<Rightarrow> val \<Rightarrow> val" where
  "field n (Tup vs) = (if n < length vs then vs ! n else Nth n (Tup vs))"
| "field n v = Nth n v"

type_synonym call_record = "string \<times> val list"

text \<open>
  \<open>Library\<close> is an error of the sdk, which \<open>?\<close> passes on; \<open>Application\<close> is such an error wrapped by
  \<open>sc_service::Error::Application\<close>, and \<open>RelayArgument\<close> one that is reported as an error of the relay
  chain arguments; \<open>Message\<close> is an error that this code states; \<open>Panic\<close> is a failed
  \<open>expect\<close>.
\<close>

datatype node_error = Library val | Application val | RelayArgument val | Message string | Panic string

type_synonym library = "call_record list \<Rightarrow> val + val"

type_synonym 'a node = "call_record list \<Rightarrow> (node_error + 'a) \<times> call_record list"

definition return_ok :: "'a \<Rightarrow> 'a node" where
  "return_ok v h = (Inr v, h)"

definition fail_with :: "node_error \<Rightarrow> 'a node" where
  "fail_with e h = (Inl e, h)"

definition bind_node :: "'a node \<Rightarrow> ('a \<Rightarrow> 'b node) \<Rightarrow> 'b node" where
  "bind_node m f h = (case m h of (Inl e, h') \<Rightarrow> (Inl e, h') | (Inr v, h') \<Rightarrow> f v h')"

definition call :: "(val \<Rightarrow> node_error) \<Rightarrow> library \<Rightarrow> string \<Rightarrow> val list \<Rightarrow> val node" where
  "call wrap lib name args h =
     (let h' = h @ [(name, args)] in case lib h' of Inl e \<Rightarrow> (Inl (wrap e), h') | Inr v \<Rightarrow> (Inr v, h'))"

text \<open>A call that cannot fail: the handle it gives.\<close>

definition invoke :: "library \<Rightarrow> string \<Rightarrow> val list \<Rightarrow> val node" where
  "invoke lib name args h =
     (let h' = h @ [(name, args)] in (Inr (case lib h' of Inl e \<Rightarrow> e | Inr v \<Rightarrow> v), h'))"

definition when_ok :: "bool \<Rightarrow> unit node \<Rightarrow> unit node" where
  "when_ok b m = (if b then m else return_ok ())"

section \<open>The configuration\<close>

text \<open>
  The parts of \<open>sc_service::Configuration\<close> that the code looks at. \<open>config_value\<close> is the whole
  configuration, as it is handed to the library.
\<close>

record node_config =
  config_value :: val
  telemetry_endpoints :: "val list option"
  default_heap_pages :: "nat option"
  executor_options :: "val list"
  is_authority :: bool
  pool_options :: val
  prometheus_registry :: val
  network_config :: val
  offchain_worker_enabled :: bool
  node_spec :: chain_spec
  node_base_path :: string
  database_path :: "val option"

text \<open>\<open>HeapAllocStrategy::Static\<close> with the configured pages, or the default of the executor.\<close>

definition heap_strategy :: "nat option \<Rightarrow> val" where
  "heap_strategy pages = (case pages of None \<Rightarrow> Str ''DEFAULT_HEAP_ALLOC_STRATEGY'' | Some h \<Rightarrow> Tup [Str ''Static'', Num h])"

record partial_components =
  p_client :: val
  p_backend :: val
  p_keystore :: val
  p_task_manager :: val
  p_pool :: val
  p_import_queue :: val
  p_block_import :: val
  p_telemetry :: "val option"
  p_telemetry_worker :: "val option"

section \<open>Building the components\<close>

definition build_import_queue ::
  "library \<Rightarrow> val \<Rightarrow> val \<Rightarrow> node_config \<Rightarrow> val option \<Rightarrow> val \<Rightarrow> val node" where
  "build_import_queue lib client block_import config telemetry task_manager =
     invoke lib ''fully_verifying_import_queue''
       [client, block_import, Str ''timestamp::from_system_time'', task_manager, prometheus_registry config, Opt telemetry]"

text \<open>\<open>new_partial\<close>: telemetry is set up only for a list of endpoints that is not empty.\<close>

definition telemetry_wanted :: "node_config \<Rightarrow> val list option" where
  "telemetry_wanted config =
     (case telemetry_endpoints config of None \<Rightarrow> None | Some es \<Rightarrow> if es = [] then None else Some es)"

definition new_telemetry :: "library \<Rightarrow> node_config \<Rightarrow> (val \<times> val) option node" where
  "new_telemetry lib config =
     (case telemetry_wanted config of
        None \<Rightarrow> return_ok None
      | Some endpoints \<Rightarrow>
          bind_node (call Library lib ''TelemetryWorker::new'' [Num 16]) (\<lambda>worker.
          bind_node (invoke lib ''new_telemetry'' [worker, Tup endpoints]) (\<lambda>telemetry.
          return_ok (Some (worker, telemetry)))))"

definition spawn_telemetry :: "library \<Rightarrow> val \<Rightarrow> (val \<times> val) option \<Rightarrow> val option node" where
  "spawn_telemetry lib task_manager telemetry =
     (case telemetry of None \<Rightarrow> return_ok None
      | Some (worker, t) \<Rightarrow>
          bind_node (invoke lib ''spawn'' [task_manager, Str ''telemetry'', worker]) (\<lambda>_. return_ok (Some t)))"

definition new_partial :: "library \<Rightarrow> node_config \<Rightarrow> partial_components node" where
  "new_partial lib config =
     bind_node (new_telemetry lib config) (\<lambda>telemetry.
     let heap_pages = heap_strategy (default_heap_pages config) in
     bind_node (invoke lib ''ParachainExecutor::build'' ([heap_pages, heap_pages] @ executor_options config)) (\<lambda>executor.
     bind_node (call Library lib ''new_full_parts_record_import''
        [config_value config, Opt (map_option snd telemetry), executor, Flag True]) (\<lambda>parts.
     let client = field 0 parts; backend = field 1 parts; keystore = field 2 parts; task_manager = field 3 parts in
     bind_node (spawn_telemetry lib task_manager telemetry) (\<lambda>telemetry'.
     bind_node (invoke lib ''transaction_pool'' [task_manager, client, Flag (is_authority config), pool_options config,
        prometheus_registry config]) (\<lambda>pool.
     bind_node (invoke lib ''ParachainBlockImport::new'' [client, backend]) (\<lambda>block_import.
     bind_node (build_import_queue lib client block_import config telemetry' task_manager) (\<lambda>import_queue.
     return_ok \<lparr>p_client = client, p_backend = backend, p_keystore = keystore, p_task_manager = task_manager,
       p_pool = pool, p_import_queue = import_queue, p_block_import = block_import, p_telemetry = telemetry',
       p_telemetry_worker = map_option fst telemetry\<rparr>)))))))"

text \<open>\<open>create_full\<close> of \<open>rpc.rs\<close>: the RPC methods of the system and of the transaction payment.\<close>

definition create_full :: "library \<Rightarrow> val \<Rightarrow> val \<Rightarrow> val node" where
  "create_full lib client pool =
     bind_node (invoke lib ''RpcModule::new'' []) (\<lambda>module.
     bind_node (call Library lib ''merge System'' [module, client, pool]) (\<lambda>_.
     bind_node (call Library lib ''merge TransactionPayment'' [module, client]) (\<lambda>_.
     return_ok module)))"

text \<open>The time to author a block, in milliseconds, and the slot of the relay chain, in seconds.\<close>

definition authoring_duration :: nat where
  "authoring_duration = 2000"

definition relay_chain_slot_duration :: nat where
  "relay_chain_slot_duration = 6"

definition start_consensus ::
  "library \<Rightarrow> partial_components \<Rightarrow> node_config \<Rightarrow> val \<Rightarrow> u32 \<Rightarrow> val \<Rightarrow> val \<Rightarrow> val \<Rightarrow> val \<Rightarrow> val \<Rightarrow> unit node" where
  "start_consensus lib params config relay_chain_interface para_id collator_key collator_peer_id overseer_handle
       announce_block slot_duration =
     bind_node (invoke lib ''ProposerFactory::new'' [p_task_manager params, p_client params, p_pool params,
        prometheus_registry config, Opt (p_telemetry params)]) (\<lambda>proposer.
     bind_node (invoke lib ''CollatorService::new'' [p_client params, p_task_manager params, announce_block,
        p_client params]) (\<lambda>collator_service.
     bind_node (invoke lib ''aura::run'' [p_block_import params, p_client params, p_backend params, relay_chain_interface,
        p_keystore params, collator_key, collator_peer_id, Num (unat para_id), overseer_handle, slot_duration, proposer,
        collator_service, Num authoring_duration, Flag False, Opt None]) (\<lambda>fut.
     bind_node (invoke lib ''spawn_essential'' [p_task_manager params, Str ''aura'', fut]) (\<lambda>_.
     return_ok ()))))"

definition unwrap_key :: "val \<Rightarrow> val node" where
  "unwrap_key v =
     (case v of Opt None \<Rightarrow> fail_with (Panic ''Command line arguments do not allow this. qed'')
      | Opt (Some k) \<Rightarrow> return_ok k | v \<Rightarrow> return_ok v)"

section \<open>Starting the node\<close>

definition start_offchain_workers :: "library \<Rightarrow> node_config \<Rightarrow> partial_components \<Rightarrow> val \<Rightarrow> unit node" where
  "start_offchain_workers lib config params network =
     bind_node (call Library lib ''OffchainWorkers::new'' [p_client params, p_keystore params,
        Tup [Str ''offchain_storage'', p_backend params], p_pool params, network, Flag (is_authority config), Flag False]) (\<lambda>workers.
     bind_node (invoke lib ''spawn'' [p_task_manager params, Str ''offchain-workers-runner'', workers, p_client params]) (\<lambda>_.
     return_ok ()))"

text \<open>The hardware check only warns: its answer is logged for an authority and ignored otherwise.\<close>

definition report_hwbench :: "library \<Rightarrow> node_config \<Rightarrow> partial_components \<Rightarrow> val \<Rightarrow> unit node" where
  "report_hwbench lib config params hwbench =
     bind_node (invoke lib ''print_hwbench'' [hwbench]) (\<lambda>_.
     bind_node (invoke lib ''check_hardware'' [hwbench, Flag False]) (\<lambda>_.
     (case p_telemetry params of None \<Rightarrow> return_ok ()
      | Some t \<Rightarrow> bind_node (invoke lib ''spawn'' [p_task_manager params, Str ''telemetry_hwbench'', t, hwbench]) (\<lambda>_.
          return_ok ()))))"

text \<open>An authority authors blocks, under the collator key that came with the relay chain interface.\<close>

definition start_authoring ::
  "library \<Rightarrow> node_config \<Rightarrow> partial_components \<Rightarrow> val \<Rightarrow> val \<Rightarrow> u32 \<Rightarrow> val \<Rightarrow> val \<Rightarrow> val \<Rightarrow> val \<Rightarrow> unit node" where
  "start_authoring lib config params relay_chain_interface collator_key para_id collator_peer_id overseer_handle announce_block
       slot_duration =
     when_ok (is_authority config)
       (bind_node (unwrap_key collator_key) (\<lambda>key.
        start_consensus lib params config relay_chain_interface para_id key collator_peer_id
          overseer_handle announce_block slot_duration))"

text \<open>
  \<open>prepare\<close> is \<open>prepare_node_config\<close>. The node hands the RPC builder to \<open>spawn_tasks\<close>, which runs it.
  \<open>relay_config\<close> and \<open>collator_options\<close> are passed to the library as they are.
\<close>

definition start_parachain_node ::
  "library \<Rightarrow> (node_config \<Rightarrow> node_config) \<Rightarrow> node_config \<Rightarrow> val \<Rightarrow> val \<Rightarrow> u32 \<Rightarrow> val option \<Rightarrow> (val \<times> val) node" where
  "start_parachain_node lib prepare parachain_config relay_config collator_options para_id hwbench =
     (let config = prepare parachain_config in
      bind_node (new_partial lib config) (\<lambda>params.
      bind_node (invoke lib ''FullNetworkConfiguration::new'' [network_config config, prometheus_registry config]) (\<lambda>net_config.
      bind_node (call Application lib ''build_relay_chain_interface'' [relay_config, config_value config,
         Opt (p_telemetry_worker params), p_task_manager params, collator_options, Opt hwbench]) (\<lambda>relay.
      let relay_chain_interface = field 0 relay; collator_key = field 1 relay; validator = is_authority config in
      bind_node (invoke lib ''register_notification_metrics'' [prometheus_registry config]) (\<lambda>metrics.
      bind_node (call Library lib ''build_network'' [config_value config, net_config, p_client params, p_pool params,
         Num (unat para_id), p_task_manager params, relay_chain_interface, p_import_queue params,
         Str ''CollatorSybilResistance::Resistant'', metrics]) (\<lambda>net.
      let network = field 0 net; sync_service = field 3 net in
      bind_node (invoke lib ''local_peer_id'' [network]) (\<lambda>collator_peer_id.
      bind_node (when_ok (offchain_worker_enabled config) (start_offchain_workers lib config params network)) (\<lambda>_.
      bind_node (call Library lib ''spawn_tasks'' [p_client params, p_pool params, p_task_manager params,
         config_value config, p_keystore params, p_backend params, network, sync_service, field 1 net, field 2 net,
         Opt (p_telemetry params), Tup [Str ''ParachainTracingExecuteBlock'', p_client params]]) (\<lambda>_.
      bind_node (create_full lib (p_client params) (p_pool params)) (\<lambda>_.
      bind_node (case hwbench of None \<Rightarrow> return_ok () | Some b \<Rightarrow> report_hwbench lib config params b) (\<lambda>_.
      let announce_block = Tup [Str ''announce_block'', sync_service]; slot_duration = Num relay_chain_slot_duration in
      bind_node (call Application lib ''overseer_handle'' [relay_chain_interface]) (\<lambda>overseer_handle.
      bind_node (call Library lib ''start_relay_chain_tasks'' [p_client params, announce_block, Num (unat para_id),
         relay_chain_interface, p_task_manager params,
         Str (if validator then ''DARecoveryProfile::Collator'' else ''DARecoveryProfile::FullNode''),
         Tup [Str ''service'', p_import_queue params], slot_duration, overseer_handle, sync_service,
         prometheus_registry config]) (\<lambda>_.
      bind_node (start_authoring lib config params relay_chain_interface collator_key para_id collator_peer_id
         overseer_handle announce_block slot_duration) (\<lambda>_.
      return_ok (p_task_manager params, p_client params)))))))))))))))"

section \<open>The plan of a start\<close>

text \<open>The library functions that a start calls, in this order, given the configuration.\<close>

definition partial_plan :: "node_config \<Rightarrow> string list" where
  "partial_plan config =
     (if telemetry_wanted config = None then [] else [''TelemetryWorker::new'', ''new_telemetry'']) @
     [''ParachainExecutor::build'', ''new_full_parts_record_import''] @
     (if telemetry_wanted config = None then [] else [''spawn'']) @
     [''transaction_pool'', ''ParachainBlockImport::new'', ''fully_verifying_import_queue'']"

definition rpc_plan :: "string list" where
  "rpc_plan = [''RpcModule::new'', ''merge System'', ''merge TransactionPayment'']"

definition consensus_plan :: "string list" where
  "consensus_plan = [''ProposerFactory::new'', ''CollatorService::new'', ''aura::run'', ''spawn_essential'']"

definition start_plan :: "node_config \<Rightarrow> bool \<Rightarrow> string list" where
  "start_plan config measured =
     partial_plan config @
     [''FullNetworkConfiguration::new'', ''build_relay_chain_interface'', ''register_notification_metrics'', ''build_network'',
      ''local_peer_id''] @
     (if offchain_worker_enabled config then [''OffchainWorkers::new'', ''spawn''] else []) @
     [''spawn_tasks''] @ rpc_plan @
     (if measured then [''print_hwbench'', ''check_hardware''] @
        (if telemetry_wanted config = None then [] else [''spawn'']) else []) @
     [''overseer_handle'', ''start_relay_chain_tasks''] @
     (if is_authority config then consensus_plan else [])"

text \<open>
  A program follows a plan when it calls the functions of the plan, all of them when it succeeds,
  with a result that satisfies \<open>Q\<close>, and an initial part when it fails. It fails with the error of its
  last call (\<open>fail_stop\<close>), so that nothing is called behind a failure, or with an error that satisfies
  \<open>E\<close>.
\<close>

fun fail_stop :: "library \<Rightarrow> node_error \<Rightarrow> call_record list \<Rightarrow> bool" where
  "fail_stop lib (Library v) h \<longleftrightarrow> lib h = Inl v"
| "fail_stop lib (Application v) h \<longleftrightarrow> lib h = Inl v"
| "fail_stop lib (RelayArgument v) h \<longleftrightarrow> lib h = Inl v"
| "fail_stop lib _ h \<longleftrightarrow> False"

definition follows :: "library \<Rightarrow> (node_error \<Rightarrow> bool) \<Rightarrow> 'a node \<Rightarrow> string list \<Rightarrow> ('a \<Rightarrow> bool) \<Rightarrow> bool" where
  "follows lib E m ps Q \<longleftrightarrow>
     (\<forall>h. case m h of
        (Inl e, h') \<Rightarrow> (fail_stop lib e h' \<or> E e) \<and> (\<exists>qs. prefix qs ps \<and> map fst h' = map fst h @ qs)
      | (Inr v, h') \<Rightarrow> map fst h' = map fst h @ ps \<and> Q v)"

lemma followsI:
  assumes "\<And>h e h'. m h = (Inl e, h') \<Longrightarrow>
      (fail_stop lib e h' \<or> E e) \<and> (\<exists>qs. prefix qs ps \<and> map fst h' = map fst h @ qs)"
    and "\<And>h v h'. m h = (Inr v, h') \<Longrightarrow> map fst h' = map fst h @ ps \<and> Q v"
  shows "follows lib E m ps Q"
  using assms unfolding follows_def by (auto split: prod.splits sum.splits)

lemma followsD:
  assumes "follows lib E m ps Q"
  shows "m h = (Inl e, h') \<Longrightarrow> (fail_stop lib e h' \<or> E e) \<and> (\<exists>qs. prefix qs ps \<and> map fst h' = map fst h @ qs)"
    and "m h = (Inr v, h') \<Longrightarrow> map fst h' = map fst h @ ps" and "m h = (Inr v, h') \<Longrightarrow> Q v"
  using assms [unfolded follows_def, THEN spec, of h] by simp_all

named_theorems follows_intros

lemma follows_return [follows_intros]: "Q v \<Longrightarrow> follows lib E (return_ok v) [] Q"
  by (simp add: follows_def return_ok_def)

lemma follows_fail [follows_intros]: "E e \<Longrightarrow> follows lib E (fail_with e) ps Q"
  by (simp add: follows_def fail_with_def)

lemma follows_mono: "follows lib E m ps P \<Longrightarrow> (\<And>v. P v \<Longrightarrow> Q v) \<Longrightarrow> follows lib E m ps Q"
  by (rule followsI) (auto dest: followsD)

lemma follows_bind:
  assumes "follows lib E m ps P" and "\<And>v. P v \<Longrightarrow> follows lib E (f v) qs Q"
  shows "follows lib E (bind_node m f) (ps @ qs) Q"
proof (rule followsI)
  fix h e h'
  assume "bind_node m f h = (Inl e, h')"
  then consider "m h = (Inl e, h')" | v h1 where "m h = (Inr v, h1)" "f v h1 = (Inl e, h')"
    by (auto simp: bind_node_def split: prod.splits sum.splits)
  then show "(fail_stop lib e h' \<or> E e) \<and> (\<exists>rs. prefix rs (ps @ qs) \<and> map fst h' = map fst h @ rs)"
  proof cases
    case 1
    then show ?thesis using followsD(1) [OF assms(1)] by (blast intro: prefix_prefix)
  next
    case 2
    from followsD(1) [OF assms(2) 2(2)] followsD(3) [OF assms(1) 2(1)]
    obtain rs where "fail_stop lib e h' \<or> E e" "prefix rs qs" "map fst h' = map fst h1 @ rs" by blast
    with followsD(2) [OF assms(1) 2(1)] show ?thesis by (intro conjI exI [of _ "ps @ rs"]) simp_all
  qed
next
  fix h v h'
  assume "bind_node m f h = (Inr v, h')"
  then obtain u h1 where run: "m h = (Inr u, h1)" "f u h1 = (Inr v, h')"
    by (auto simp: bind_node_def split: prod.splits sum.splits)
  with followsD(2,3) [OF assms(1) run(1)] followsD(2,3) [OF assms(2) run(2)]
  show "map fst h' = map fst h @ ps @ qs \<and> Q v" by simp
qed

lemma follows_call_result:
  assumes "wrap \<in> {Library, Application, RelayArgument}" and "\<And>h v. lib (h @ [(name, args)]) = Inr v \<Longrightarrow> P v"
    and "\<And>v. P v \<Longrightarrow> follows lib E (f v) qs Q"
  shows "follows lib E (bind_node (call wrap lib name args) f) (name # qs) Q"
proof -
  have "follows lib E (call wrap lib name args) [name] P"
    using assms(1,2) by (intro followsI) (auto simp: call_def Let_def split: sum.splits)
  from follows_bind [OF this assms(3)] show ?thesis by simp
qed

lemma follows_call [follows_intros]:
  assumes "\<And>v. follows lib E (f v) qs Q"
  shows "follows lib E (bind_node (call Library lib name args) f) (name # qs) Q"
    and "follows lib E (bind_node (call Application lib name args) f) (name # qs) Q"
  by (rule follows_call_result [where P = "\<lambda>_. True"]; simp add: assms)+

lemma follows_invoke [follows_intros]:
  assumes "\<And>v. follows lib E (f v) qs Q"
  shows "follows lib E (bind_node (invoke lib name args) f) (name # qs) Q"
proof -
  have "follows lib E (invoke lib name args) [name] (\<lambda>_. True)"
    by (rule followsI) (auto simp: invoke_def Let_def)
  from follows_bind [OF this assms] show ?thesis by simp
qed

lemma follows_bind_return:
  assumes "follows lib E m ps P" and "\<And>v. P v \<Longrightarrow> Q (g v)"
  shows "follows lib E (bind_node m (\<lambda>v. return_ok (g v))) ps Q"
  using follows_bind [OF assms(1) follows_return [where Q = Q], OF assms(2)] by simp

lemma follows_when:
  "(b \<Longrightarrow> follows lib E m ps (\<lambda>_. True)) \<Longrightarrow> follows lib E (when_ok b m) (if b then ps else []) (\<lambda>_. True)"
  by (simp add: when_ok_def follows_return)

lemma follows_new_telemetry:
  "follows lib E (new_telemetry lib config)
     (if telemetry_wanted config = None then [] else [''TelemetryWorker::new'', ''new_telemetry''])
     (\<lambda>t. t = None \<longleftrightarrow> telemetry_wanted config = None)"
  unfolding new_telemetry_def
  by (cases "telemetry_wanted config") (auto intro!: follows_intros)

lemma follows_spawn_telemetry:
  assumes "t = None \<longleftrightarrow> telemetry_wanted config = None"
  shows "follows lib E (spawn_telemetry lib task_manager t) (if telemetry_wanted config = None then [] else [''spawn''])
     (\<lambda>t. t = None \<longleftrightarrow> telemetry_wanted config = None)"
  using assms unfolding spawn_telemetry_def by (auto intro!: follows_intros split: option.splits)

lemma follows_new_partial:
  "follows lib E (new_partial lib config) (partial_plan config)
     (\<lambda>params. p_telemetry params = None \<longleftrightarrow> telemetry_wanted config = None)"
  unfolding new_partial_def partial_plan_def Let_def append.simps
  by (intro follows_bind [OF follows_new_telemetry] follows_call follows_invoke follows_bind [OF follows_spawn_telemetry])
     (simp_all add: build_import_queue_def follows_call follows_invoke follows_return)

lemma follows_create_full:
  "follows lib E (create_full lib client pool) rpc_plan (\<lambda>_. True)"
  unfolding create_full_def rpc_plan_def by (intro follows_intros) simp

lemma follows_start_consensus:
  "follows lib E (start_consensus lib params config relay para_id key peer overseer announce slot) consensus_plan (\<lambda>_. True)"
  unfolding start_consensus_def consensus_plan_def by (intro follows_intros) simp

lemma follows_start_offchain_workers:
  "follows lib E (start_offchain_workers lib config params network) [''OffchainWorkers::new'', ''spawn''] (\<lambda>_. True)"
  unfolding start_offchain_workers_def by (intro follows_intros) simp

lemma follows_report_hwbench:
  assumes "p_telemetry params = None \<longleftrightarrow> telemetry_wanted config = None"
  shows "follows lib E (case hwbench of None \<Rightarrow> return_ok () | Some b \<Rightarrow> report_hwbench lib config params b)
    (if hwbench \<noteq> None then ''print_hwbench'' # ''check_hardware'' #
       (if telemetry_wanted config = None then [] else [''spawn'']) else []) (\<lambda>_. True)"
  using assms unfolding report_hwbench_def by (auto intro!: follows_intros split: option.splits)

lemma follows_start_authoring:
  assumes "is_authority config \<Longrightarrow> key = Opt None \<Longrightarrow> E (Panic ''Command line arguments do not allow this. qed'')"
  shows "follows lib E (start_authoring lib config params relay key para_id peer overseer announce slot)
     (if is_authority config then consensus_plan else []) (\<lambda>_. True)"
  unfolding start_authoring_def
proof (rule follows_when)
  assume "is_authority config"
  with assms have "follows lib E (unwrap_key key) [] (\<lambda>_. True)"
    unfolding unwrap_key_def by (auto intro!: follows_intros split: val.splits option.splits)
  from follows_bind [OF this follows_start_consensus]
  show "follows lib E (bind_node (unwrap_key key) (\<lambda>key. start_consensus lib params config relay para_id key
      peer overseer announce slot)) consensus_plan (\<lambda>_. True)" by simp
qed

text \<open>
  The relay chain interface comes with a collator key when the node is an authority. Without it the
  \<open>expect\<close> on the key panics; no other failure does.
\<close>

definition gives_collator_key :: "library \<Rightarrow> node_config \<Rightarrow> bool" where
  "gives_collator_key lib config \<longleftrightarrow>
     (\<forall>h args v. is_authority config \<longrightarrow> lib (h @ [(''build_relay_chain_interface'', args)]) = Inr v \<longrightarrow>
        field 1 v \<noteq> Opt None)"

lemma follows_start_parachain_node:
  assumes "\<And>msg. \<not> gives_collator_key lib (prepare config) \<Longrightarrow> E (Panic msg)"
  shows "follows lib E (start_parachain_node lib prepare config relay_config options para_id hwbench)
     (start_plan (prepare config) (hwbench \<noteq> None)) (\<lambda>_. True)"
  unfolding start_parachain_node_def start_plan_def Let_def append.simps
proof (rule follows_bind [OF follows_new_partial], rule follows_invoke,
    rule follows_call_result [where P = "\<lambda>v. is_authority (prepare config) \<longrightarrow> field 1 v = Opt None \<longrightarrow>
      E (Panic ''Command line arguments do not allow this. qed'')"])
  show "is_authority (prepare config) \<longrightarrow> field 1 v = Opt None \<longrightarrow> E (Panic ''Command line arguments do not allow this. qed'')"
    if "lib (h @ [(''build_relay_chain_interface'', args)]) = Inr v" for h args v
    using assms that unfolding gives_collator_key_def by blast
qed ((simp; fail) | (intro follows_call follows_invoke
      follows_bind [OF follows_when [OF follows_start_offchain_workers]] follows_bind [OF follows_create_full]
      follows_bind [OF follows_report_hwbench] follows_bind_return [OF follows_start_authoring]; simp))+

section \<open>The arguments of the calls\<close>

text \<open>Every call that a program makes satisfies \<open>R\<close>.\<close>

definition calls_ok :: "(call_record \<Rightarrow> bool) \<Rightarrow> 'a node \<Rightarrow> bool" where
  "calls_ok R m \<longleftrightarrow> (\<forall>h. \<exists>new. snd (m h) = h @ new \<and> list_all R new)"

named_theorems calls_ok_intros

lemma calls_ok_return [calls_ok_intros]: "calls_ok R (return_ok v)" "calls_ok R (fail_with e)"
  by (simp_all add: calls_ok_def return_ok_def fail_with_def)

lemma calls_ok_call [calls_ok_intros]:
  "R (name, args) \<Longrightarrow> calls_ok R (call wrap lib name args)" "R (name, args) \<Longrightarrow> calls_ok R (invoke lib name args)"
  by (auto simp: calls_ok_def call_def invoke_def Let_def split: sum.splits)

lemma calls_ok_bind [calls_ok_intros]:
  assumes "calls_ok R m" and "\<And>v. calls_ok R (f v)"
  shows "calls_ok R (bind_node m f)"
  unfolding calls_ok_def
proof
  fix h
  obtain new where new: "snd (m h) = h @ new" "list_all R new" using assms(1) unfolding calls_ok_def by blast
  show "\<exists>new. snd (bind_node m f h) = h @ new \<and> list_all R new"
  proof (cases "m h")
    case (Pair r h')
    show ?thesis
    proof (cases r)
      case (Inr v)
      obtain new' where "snd (f v h') = h' @ new'" "list_all R new'" using assms(2) unfolding calls_ok_def by blast
      with Pair Inr new show ?thesis by (intro exI [of _ "new @ new'"]) (simp add: bind_node_def)
    qed (use Pair new in \<open>auto simp: bind_node_def\<close>)
  qed
qed

text \<open>
  The calls that run the parachain name its id: the network joins it, the relay chain tasks follow
  it and the consensus engine authors for it, with the slot duration of the relay chain.
\<close>

fun names_para :: "u32 \<Rightarrow> call_record \<Rightarrow> bool" where
  "names_para para_id (name, args) \<longleftrightarrow>
     (name = ''build_network'' \<longrightarrow> args ! 4 = Num (unat para_id)) \<and>
     (name = ''start_relay_chain_tasks'' \<longrightarrow> args ! 2 = Num (unat para_id) \<and> args ! 7 = Num relay_chain_slot_duration) \<and>
     (name = ''aura::run'' \<longrightarrow> args ! 7 = Num (unat para_id) \<and> args ! 9 = Num relay_chain_slot_duration)"

lemmas service_defs =
  new_telemetry_def spawn_telemetry_def build_import_queue_def new_partial_def create_full_def
  start_consensus_def unwrap_key_def start_offchain_workers_def report_hwbench_def

lemma new_partial_names_para: "calls_ok (names_para para_id) (new_partial lib config)"
  unfolding service_defs Let_def
  by (auto intro!: calls_ok_intros split: option.splits)

lemma start_names_para:
  "calls_ok (names_para para_id) (start_parachain_node lib prepare config relay_config options para_id hwbench)"
  unfolding start_parachain_node_def start_authoring_def when_ok_def create_full_def start_consensus_def unwrap_key_def
    start_offchain_workers_def report_hwbench_def Let_def
  by (auto intro!: calls_ok_intros new_partial_names_para split: option.splits val.splits)

end
