(* ===== verification/Node_Command.thy ===== *)
theory Node_Command
  imports Node_Service
begin

text \<open>
  The command line of the node: \<open>src/node/src/cli.rs\<close> and \<open>src/node/src/command.rs\<close>. The parser, the
  runners and the commands themselves are functions of the polkadot-sdk, recorded as calls like those
  of \<open>Node_Service\<close>. The model has the sub-commands, the configuration of the embedded relay chain
  node with its defaults, and \<open>run\<close>.
\<close>

section \<open>The command line\<close>

datatype benchmark_cmd = Bench_Pallet val | Bench_Block val | Bench_Storage val | Bench_Machine val | Bench_Other val

text \<open>\<open>ExportGenesisWasm\<close> also has the chain of its shared parameters.\<close>

datatype subcommand =
    BuildSpec val
  | CheckBlock val
  | ExportBlocks val
  | ExportState val
  | ImportBlocks val
  | Revert val
  | PurgeChain val
  | ExportGenesisHead val
  | ExportGenesisWasm val "string option"
  | Benchmark val benchmark_cmd

record cli =
  sub_command :: "subcommand option"
  run_cmd :: val
  no_hardware_benchmarks :: bool
  relay_chain_args :: "string list"

section \<open>The relay chain node\<close>

text \<open>
  What the parsed \<open>polkadot_cli::RunCmd\<close> answers: its base path and its chain id, both possibly
  missing. The chain id depends on whether the node runs a development chain.
\<close>

record relay_cmd =
  cmd_base_path :: "val + string option"
  cmd_chain_id :: "bool \<Rightarrow> val + string"

record relay_chain_cli =
  base :: relay_cmd
  chain_id_default :: "string option"
  base_path_default :: "string option"

text \<open>
  The extension of a specification, when it has one: the relay chain and the para id. \<open>join\<close> appends
  a component to a path, \<open>parse\<close> is the parser of the relay chain arguments.
\<close>

record node_env =
  get_extension :: "chain_spec \<Rightarrow> (string \<times> u32) option"
  join :: "string \<Rightarrow> string \<Rightarrow> string"
  parse :: "string list \<Rightarrow> relay_cmd"
  executable_name :: string
  config_of :: "val \<Rightarrow> node_config"
  prepare_node_config :: "node_config \<Rightarrow> node_config"
  preset_env_of :: "(val, val) preset_env"
  from_json_file :: "string \<Rightarrow> string + chain_spec"
  relay_value :: "relay_chain_cli \<Rightarrow> val"
  spec_value :: "chain_spec \<Rightarrow> val"

definition try_get :: "node_env \<Rightarrow> chain_spec \<Rightarrow> (string \<times> u32) option" where
  "try_get env spec = get_extension env spec"

definition RelayChainCli_new :: "node_env \<Rightarrow> node_config \<Rightarrow> string list \<Rightarrow> relay_chain_cli" where
  "RelayChainCli_new env para_config args =
     (let extension = try_get env (node_spec para_config);
          chain_id = map_option fst extension;
          base_path = join env (node_base_path para_config) ''polkadot''
      in \<lparr>base = parse env args, chain_id_default = chain_id, base_path_default = Some base_path\<rparr>)"

definition relay_base_path :: "relay_chain_cli \<Rightarrow> val + string option" where
  "relay_base_path rc =
     and_then (cmd_base_path (base rc)) (\<lambda>p. Inr (case p of None \<Rightarrow> base_path_default rc | Some p \<Rightarrow> Some p))"

definition relay_chain_id :: "relay_chain_cli \<Rightarrow> bool \<Rightarrow> val + string" where
  "relay_chain_id rc is_dev =
     and_then (cmd_chain_id (base rc) is_dev) (\<lambda>chain_id.
     Inr (if chain_id = '''' then unwrap_or (chain_id_default rc) '''' else chain_id))"

definition p2p_listen_port :: "16 word" where "p2p_listen_port = 30334"
definition rpc_listen_port :: "16 word" where "rpc_listen_port = 9945"
definition prometheus_listen_port :: "16 word" where "prometheus_listen_port = 9616"

section \<open>Running a command\<close>

definition as_message :: "string + 'a \<Rightarrow> 'a node" where
  "as_message r = (case r of Inl e \<Rightarrow> fail_with (Message e) | Inr v \<Rightarrow> return_ok v)"

text \<open>
  \<open>with_runner\<close> is \<open>create_runner\<close> and the configuration that the runner hands to its closure;
  \<open>sync_run\<close> and \<open>async_run\<close> do no more than run that closure and have no record of their own.
\<close>

definition with_runner :: "library \<Rightarrow> node_env \<Rightarrow> val \<Rightarrow> (node_config \<Rightarrow> 'a node) \<Rightarrow> 'a node" where
  "with_runner lib env cmd k = bind_node (call Library lib ''create_runner'' [cmd]) (\<lambda>runner. k (config_of env runner))"

definition finish :: "library \<Rightarrow> string \<Rightarrow> val list \<Rightarrow> unit node" where
  "finish lib name args = bind_node (call Library lib name args) (\<lambda>_. return_ok ())"

text \<open>The macro \<open>construct_async_run!\<close>.\<close>

definition construct_async_run ::
  "library \<Rightarrow> node_env \<Rightarrow> val \<Rightarrow> (partial_components \<Rightarrow> node_config \<Rightarrow> unit node) \<Rightarrow> unit node" where
  "construct_async_run lib env cmd k =
     with_runner lib env cmd (\<lambda>config. bind_node (new_partial lib config) (\<lambda>components. k components config))"

definition relay_cli :: "node_env \<Rightarrow> cli \<Rightarrow> node_config \<Rightarrow> relay_chain_cli" where
  "relay_cli env c config = RelayChainCli_new env config (executable_name env # relay_chain_args c)"

definition relay_configuration :: "library \<Rightarrow> node_env \<Rightarrow> cli \<Rightarrow> node_config \<Rightarrow> val node" where
  "relay_configuration lib env c config =
     call RelayArgument lib ''create_configuration'' [relay_value env (relay_cli env c config)]"

definition run_benchmark :: "bool \<Rightarrow> library \<Rightarrow> node_config \<Rightarrow> benchmark_cmd \<Rightarrow> unit node" where
  "run_benchmark runtime_benchmarks lib config b =
     (case b of
        Bench_Pallet cmd \<Rightarrow>
          if runtime_benchmarks then finish lib ''PalletCmd::run_with_spec'' [cmd, config_value config]
          else fail_with (Message ''Benchmarking wasn't enabled when building the node. You can enable it with `--features runtime-benchmarks`.'')
      | Bench_Block cmd \<Rightarrow>
          bind_node (new_partial lib config) (\<lambda>partials. finish lib ''BlockCmd::run'' [cmd, p_client partials])
      | Bench_Storage cmd \<Rightarrow>
          if runtime_benchmarks then
            bind_node (new_partial lib config) (\<lambda>partials.
            finish lib ''StorageCmd::run'' [cmd, config_value config, p_client partials, p_backend partials])
          else fail_with (Message ''Compile with --features=runtime-benchmarks to enable storage benchmarks.'')
      | Bench_Machine cmd \<Rightarrow> finish lib ''MachineCmd::run'' [cmd, config_value config]
      | Bench_Other _ \<Rightarrow> fail_with (Message ''Benchmarking sub-command unsupported''))"

text \<open>The hardware is measured unless the user declines or the database has no path.\<close>

definition measure_hardware :: "library \<Rightarrow> cli \<Rightarrow> node_config \<Rightarrow> val option node" where
  "measure_hardware lib c config =
     (if no_hardware_benchmarks c then return_ok None
      else case database_path config of
             None \<Rightarrow> return_ok None
           | Some path \<Rightarrow>
               bind_node (invoke lib ''create_dir_all'' [path]) (\<lambda>_.
               bind_node (invoke lib ''gather_hwbench'' [path]) (\<lambda>b. return_ok (Some b))))"

text \<open>The closure that \<open>run\<close> hands to \<open>run_node_until_exit\<close>.\<close>

definition run_node :: "library \<Rightarrow> node_env \<Rightarrow> cli \<Rightarrow> val \<Rightarrow> node_config \<Rightarrow> val node" where
  "run_node lib env c collator_options config =
     bind_node (measure_hardware lib c config) (\<lambda>hwbench.
     bind_node (as_message (ok_or (map_option snd (try_get env (node_spec config)))
        ''Could not find parachain ID in chain-spec.'')) (\<lambda>para_id.
     bind_node (relay_configuration lib env c config) (\<lambda>relay_config.
     bind_node (start_parachain_node lib (prepare_node_config env) config relay_config collator_options para_id
        hwbench) (\<lambda>(task_manager, _).
     return_ok task_manager))))"

text \<open>
  \<open>run_node_until_exit\<close> is called with the runner, runs the closure and then waits for the task manager
  that the closure returns. The call and the waiting are two records, with those of the closure
  between them; the waiting can fail like any call.
\<close>

definition run :: "bool \<Rightarrow> library \<Rightarrow> node_env \<Rightarrow> cli \<Rightarrow> unit node" where
  "run runtime_benchmarks lib env c =
     (case sub_command c of
        Some (BuildSpec cmd) \<Rightarrow> with_runner lib env cmd (\<lambda>config.
          finish lib ''BuildSpecCmd::run'' [cmd, spec_value env (node_spec config), network_config config])
      | Some (CheckBlock cmd) \<Rightarrow> construct_async_run lib env cmd (\<lambda>components config.
          finish lib ''CheckBlockCmd::run'' [cmd, p_client components, p_import_queue components])
      | Some (ExportBlocks cmd) \<Rightarrow> construct_async_run lib env cmd (\<lambda>components config.
          finish lib ''ExportBlocksCmd::run'' [cmd, p_client components, Opt (database_path config)])
      | Some (ExportState cmd) \<Rightarrow> construct_async_run lib env cmd (\<lambda>components config.
          finish lib ''ExportStateCmd::run'' [cmd, p_client components, spec_value env (node_spec config)])
      | Some (ImportBlocks cmd) \<Rightarrow> construct_async_run lib env cmd (\<lambda>components config.
          finish lib ''ImportBlocksCmd::run'' [cmd, p_client components, p_import_queue components])
      | Some (Revert cmd) \<Rightarrow> construct_async_run lib env cmd (\<lambda>components config.
          finish lib ''RevertCmd::run'' [cmd, p_client components, p_backend components, Opt None])
      | Some (PurgeChain cmd) \<Rightarrow> with_runner lib env cmd (\<lambda>config.
          bind_node (relay_configuration lib env c config) (\<lambda>relay_config.
          finish lib ''PurgeChainCmd::run'' [cmd, config_value config, relay_config]))
      | Some (ExportGenesisHead cmd) \<Rightarrow> with_runner lib env cmd (\<lambda>config.
          bind_node (new_partial lib config) (\<lambda>partials.
          finish lib ''ExportGenesisHeadCommand::run'' [cmd, p_client partials]))
      | Some (ExportGenesisWasm cmd chain) \<Rightarrow> with_runner lib env cmd (\<lambda>_.
          bind_node (as_message (load_spec (preset_env_of env) (from_json_file env) (unwrap_or chain ''''))) (\<lambda>spec.
          finish lib ''ExportGenesisWasmCommand::run'' [cmd, spec_value env spec]))
      | Some (Benchmark cmd b) \<Rightarrow> with_runner lib env cmd (\<lambda>config. run_benchmark runtime_benchmarks lib config b)
      | None \<Rightarrow>
          bind_node (invoke lib ''normalize'' [run_cmd c]) (\<lambda>normalized.
          bind_node (call Library lib ''create_runner'' [normalized]) (\<lambda>runner.
          bind_node (invoke lib ''collator_options'' [run_cmd c]) (\<lambda>collator_options.
          bind_node (invoke lib ''run_node_until_exit'' [runner]) (\<lambda>_.
          bind_node (run_node lib env c collator_options (config_of env runner)) (\<lambda>task_manager.
          finish lib ''run_node_until_exit: wait'' [runner, task_manager]))))))"

section \<open>The relay chain of a built-in specification\<close>

text \<open>\<open>sc_chain_spec::get_extension\<close> finds the extension with which a specification was built.\<close>

definition finds_extensions :: "node_env \<Rightarrow> bool" where
  "finds_extensions env \<longleftrightarrow> (\<forall>spec. get_extension env spec = Some (relay_chain spec, spec_para_id spec))"

text \<open>
  A node of a built-in specification connects to \<open>rococo-local\<close> unless the relay chain arguments
  name another chain, keeps the data of the relay chain in the directory \<open>polkadot\<close> below its own
  unless they name another place, and its para id is the one in the genesis of the preset.
\<close>

lemma built_in_node:
  assumes env: "finds_extensions env" and "keyring_laws kr"
    and name: "name \<in> {''dev'', ''template-rococo'', '''', ''local''}"
    and spec: "load_spec (preset_env_of env) (from_json_file env) name = Inr (node_spec config)"
    and g: "g = local_testnet_genesis kr v \<or> g = development_config_genesis kr v"
  shows "try_get env (node_spec config) = Some (''rococo-local'', genesis_parachain_id g)"
    and "cmd_chain_id (base (relay_cli env c config)) is_dev = Inr chain \<Longrightarrow>
      relay_chain_id (relay_cli env c config) is_dev = Inr (if chain = '''' then ''rococo-local'' else chain)"
    and "cmd_base_path (base (relay_cli env c config)) = Inr path \<Longrightarrow>
      relay_base_path (relay_cli env c config) =
        Inr (Some (case path of None \<Rightarrow> join env (node_base_path config) ''polkadot'' | Some p \<Rightarrow> p))"
proof -
  have "node_spec config \<in> {development_chain_spec (preset_env_of env), local_chain_spec (preset_env_of env)}"
    using name spec by (auto simp: load_spec_def)
  then have "relay_chain (node_spec config) = ''rococo-local''" "spec_para_id (node_spec config) = PARACHAIN_ID"
    by (auto simp: development_chain_spec_def local_chain_spec_def)
  moreover have "genesis_parachain_id g = PARACHAIN_ID" by (rule testnet_genesis_start(1) [OF assms(2) g])
  ultimately show ext: "try_get env (node_spec config) = Some (''rococo-local'', genesis_parachain_id g)"
    using env by (simp add: try_get_def finds_extensions_def)
  show "relay_chain_id (relay_cli env c config) is_dev = Inr (if chain = '''' then ''rococo-local'' else chain)"
    if "cmd_chain_id (base (relay_cli env c config)) is_dev = Inr chain"
    using that ext
    by (simp add: relay_chain_id_def relay_cli_def RelayChainCli_new_def and_then_def unwrap_or_def)
  show "relay_base_path (relay_cli env c config) =
        Inr (Some (case path of None \<Rightarrow> join env (node_base_path config) ''polkadot'' | Some p \<Rightarrow> p))"
    if "cmd_base_path (base (relay_cli env c config)) = Inr path"
    using that
    by (simp add: relay_base_path_def relay_cli_def RelayChainCli_new_def and_then_def Let_def split: option.splits)
qed

section \<open>The plan of a run\<close>

definition hardware_measured :: "cli \<Rightarrow> node_config \<Rightarrow> bool" where
  "hardware_measured c config \<longleftrightarrow> \<not> no_hardware_benchmarks c \<and> database_path config \<noteq> None"

text \<open>What happens whatever the specification says, and what happens once it has a para id.\<close>

definition prepare_plan :: "cli \<Rightarrow> node_config \<Rightarrow> string list" where
  "prepare_plan c config =
     [''normalize'', ''create_runner'', ''collator_options'', ''run_node_until_exit''] @
     (if hardware_measured c config then [''create_dir_all'', ''gather_hwbench''] else [])"

definition node_plan :: "node_env \<Rightarrow> cli \<Rightarrow> node_config \<Rightarrow> string list" where
  "node_plan env c config =
     (if try_get env (node_spec config) = None then []
      else ''create_configuration'' # start_plan (prepare_node_config env config) (hardware_measured c config))"

definition run_plan :: "node_env \<Rightarrow> cli \<Rightarrow> node_config \<Rightarrow> string list" where
  "run_plan env c config =
     prepare_plan c config @ node_plan env c config @
     (if try_get env (node_spec config) = None then [] else [''run_node_until_exit: wait''])"

text \<open>The errors that are not the answer of a call: a missing collator key and a missing para id.\<close>

definition own_error :: "library \<Rightarrow> node_env \<Rightarrow> node_config \<Rightarrow> node_error \<Rightarrow> bool" where
  "own_error lib env config e \<longleftrightarrow>
     (case e of
        Panic _ \<Rightarrow> \<not> gives_collator_key lib (prepare_node_config env config)
      | Message _ \<Rightarrow> try_get env (node_spec config) = None
      | _ \<Rightarrow> False)"

lemma own_error_simps:
  "own_error lib env config (Panic m) \<longleftrightarrow> \<not> gives_collator_key lib (prepare_node_config env config)"
  "own_error lib env config (Message m) \<longleftrightarrow> try_get env (node_spec config) = None"
  by (simp_all add: own_error_def)

lemma follows_measure_hardware:
  "follows lib E (measure_hardware lib c config)
     (if hardware_measured c config then [''create_dir_all'', ''gather_hwbench''] else [])
     (\<lambda>b. b \<noteq> None \<longleftrightarrow> hardware_measured c config)"
  unfolding measure_hardware_def hardware_measured_def
  by (auto intro!: follows_intros split: option.splits)

lemma follows_finish: "Q () \<Longrightarrow> follows lib E (finish lib name args) [name] Q"
  unfolding finish_def by (rule follows_call) (simp add: follows_return)

lemma follows_relay_configuration:
  assumes "\<And>v. follows lib E (f v) qs Q"
  shows "follows lib E (bind_node (relay_configuration lib env c config) f) (''create_configuration'' # qs) Q"
  unfolding relay_configuration_def
  by (rule follows_call_result [where P = "\<lambda>_. True"]) (simp_all add: assms)

lemma bind_node_return [simp]: "bind_node (return_ok v) f = f v" "bind_node (fail_with e) g = fail_with e"
  by (simp_all add: fun_eq_iff bind_node_def return_ok_def fail_with_def)

lemma follows_run_node:
  "follows lib (own_error lib env config) (run_node lib env c options config)
    ((if hardware_measured c config then [''create_dir_all'', ''gather_hwbench''] else []) @ node_plan env c config)
    (\<lambda>_. try_get env (node_spec config) \<noteq> None)"
  unfolding run_node_def
proof (rule follows_bind [OF follows_measure_hardware])
  fix hwbench :: "val option"
  assume measured: "hwbench \<noteq> None \<longleftrightarrow> hardware_measured c config"
  have start: "follows lib (own_error lib env config)
      (start_parachain_node lib (prepare_node_config env) config relay_config options para_id hwbench)
      (start_plan (prepare_node_config env config) (hardware_measured c config)) (\<lambda>_. True)" for relay_config para_id
    using follows_start_parachain_node [where lib = lib and prepare = "prepare_node_config env" and config = config
        and hwbench = hwbench and E = "own_error lib env config"]
    unfolding measured own_error_simps by blast
  show "follows lib (own_error lib env config)
    (bind_node (as_message (ok_or (map_option snd (try_get env (node_spec config)))
        ''Could not find parachain ID in chain-spec.'')) (\<lambda>para_id.
     bind_node (relay_configuration lib env c config) (\<lambda>relay_config.
     bind_node (start_parachain_node lib (prepare_node_config env) config relay_config options para_id
        hwbench) (\<lambda>(task_manager, _).
     return_ok task_manager))))
    (node_plan env c config) (\<lambda>_. try_get env (node_spec config) \<noteq> None)"
  proof (cases "try_get env (node_spec config)")
    case None
    then show ?thesis by (simp add: as_message_def ok_or_def follows_fail own_error_simps)
  next
    case (Some ext)
    then show ?thesis
      by (auto simp: node_plan_def as_message_def ok_or_def case_prod_beta'
          intro!: follows_relay_configuration follows_bind_return [OF start])
  qed
qed

text \<open>Every runner that the library creates carries the configuration \<open>config\<close>.\<close>

definition runs_config :: "library \<Rightarrow> node_env \<Rightarrow> node_config \<Rightarrow> bool" where
  "runs_config lib env config \<longleftrightarrow>
     (\<forall>h args v. lib (h @ [(''create_runner'', args)]) = Inr v \<longrightarrow> config_of env v = config)"

lemma follows_run:
  assumes "sub_command c = None" and "runs_config lib env config"
  shows "follows lib (own_error lib env config) (run features lib env c) (run_plan env c config)
    (\<lambda>_. try_get env (node_spec config) \<noteq> None)"
proof -
  let ?ext = "try_get env (node_spec config)"
  let ?wait = "if ?ext = None then [] else [''run_node_until_exit: wait'']"
  let ?measure = "if hardware_measured c config then [''create_dir_all'', ''gather_hwbench''] else []"
  have body: "follows lib (own_error lib env config)
      (bind_node (run_node lib env c options config) (\<lambda>tm. finish lib ''run_node_until_exit: wait'' [runner, tm]))
      ((?measure @ node_plan env c config) @ ?wait) (\<lambda>_. ?ext \<noteq> None)" for options runner
    by (rule follows_bind [OF follows_run_node], subst if_not_P, assumption) (simp add: follows_finish)
  have "follows lib (own_error lib env config) (run features lib env c)
      (''normalize'' # ''create_runner'' # ''collator_options'' # ''run_node_until_exit'' #
       ((?measure @ node_plan env c config) @ ?wait)) (\<lambda>_. ?ext \<noteq> None)"
    unfolding run_def assms(1) option.case
  proof (intro follows_invoke follows_call_result [where P = "\<lambda>v. config_of env v = config"])
    show "config_of env v = config" if "lib (h @ [(''create_runner'', args)]) = Inr v" for h args v
      using assms(2) that unfolding runs_config_def by blast
  qed (simp_all add: body [simplified])
  then show ?thesis by (simp add: run_plan_def prepare_plan_def)
qed

lemma run_names_para:
  assumes "sub_command c = None" and "runs_config lib env config"
    and "try_get env (node_spec config) = Some (relay, para_id)" and "run features lib env c [] = (r, h)"
  shows "list_all (names_para para_id) h"
proof -
  let ?rest = "\<lambda>runner. bind_node (invoke lib ''collator_options'' [run_cmd c]) (\<lambda>options.
      bind_node (invoke lib ''run_node_until_exit'' [runner]) (\<lambda>_.
      bind_node (run_node lib env c options config) (\<lambda>tm. finish lib ''run_node_until_exit: wait'' [runner, tm])))"
  have rest: "calls_ok (names_para para_id) (?rest runner)" for runner
    unfolding run_node_def measure_hardware_def finish_def relay_configuration_def
    by (auto simp: assms(3) as_message_def ok_or_def intro!: calls_ok_intros start_names_para
        split: option.splits prod.splits)
  obtain n h0 where n: "invoke lib ''normalize'' [run_cmd c] [] = (Inr n, h0)" "h0 = [(''normalize'', [run_cmd c])]"
    by (simp add: invoke_def Let_def)
  let ?h = "h0 @ [(''create_runner'', [n])]"
  show ?thesis
  proof (cases "lib ?h")
    case (Inl e)
    with assms(1,4) n show ?thesis by (auto simp: run_def bind_node_def call_def Let_def)
  next
    case (Inr v)
    with assms(2) have "config_of env v = config" unfolding runs_config_def by blast
    with assms(1,4) n Inr have "snd (?rest v ?h) = h"
      by (simp add: run_def bind_node_def [of "call _ _ _ _"] bind_node_def [of "invoke _ ''normalize'' _"] call_def Let_def)
    with rest [of v] n(2) show ?thesis by (auto simp: calls_ok_def dest!: spec [of _ ?h])
  qed
qed

section \<open>Property\<close>

text \<open>Blocks are authored by authorities only, after the tasks that follow the relay chain have started.\<close>

lemma prefix_reaches: "prefix ns (xs @ ys) \<Longrightarrow> x \<in> set ns \<Longrightarrow> x \<notin> set xs \<Longrightarrow> prefix xs ns"
  by (auto simp: prefix_append dest: set_mono_prefix)

lemma prefix_before: "prefix xs (ys @ x # zs) \<Longrightarrow> x \<notin> set xs \<Longrightarrow> prefix xs ys"
  by (auto simp: prefix_append prefix_Cons)

lemma run_plan_authority:
  "''aura::run'' \<in> set (run_plan env c config) \<longleftrightarrow>
     try_get env (node_spec config) \<noteq> None \<and> is_authority (prepare_node_config env config)"
  by (simp add: run_plan_def prepare_plan_def node_plan_def start_plan_def partial_plan_def rpc_plan_def consensus_plan_def)

lemma run_plan_authors:
  assumes "prefix (map fst h) (run_plan env c config)" and h: "h = h1 @ (''aura::run'', args) # h2"
  shows "is_authority (prepare_node_config env config) \<and> ''start_relay_chain_tasks'' \<in> set (map fst h1)"
proof -
  let ?before = "prepare_plan c config @ ''create_configuration'' #
    start_plan ((prepare_node_config env config)\<lparr>is_authority := False\<rparr>) (hardware_measured c config)"
  have before: "''aura::run'' \<notin> set ?before" "''start_relay_chain_tasks'' \<in> set ?before"
    by (simp_all add: prepare_plan_def start_plan_def partial_plan_def rpc_plan_def)
  have "''aura::run'' \<in> set (run_plan env c config)"
    using set_mono_prefix [OF assms(1)] h by auto
  then have run: "try_get env (node_spec config) \<noteq> None" "is_authority (prepare_node_config env config)"
    by (simp_all add: run_plan_authority)
  then have "run_plan env c config = ?before @ consensus_plan @ [''run_node_until_exit: wait'']"
    by (simp add: run_plan_def node_plan_def start_plan_def partial_plan_def telemetry_wanted_def)
  with assms(1) have "prefix ?before (map fst h)"
    by (intro prefix_reaches [OF _ _ before(1)]) (auto simp: h)
  then have "prefix ?before (map fst h1 @ ''aura::run'' # map fst h2)" by (simp add: h)
  from set_mono_prefix [OF prefix_before [OF this before(1)]] before(2) run(2) show ?thesis by blast
qed

text \<open>
  C32: How a node starts, when the binary runs without a sub-command. When the run fails, the last
  call it made is the call that failed, so nothing starts behind a failure; there are two exceptions:
  a panic, which needs an authority to which the library gives no collator key, and the error for a
  specification without a para id. When the run ends well, the specification has a para id, and blocks
  were authored exactly if the node is an authority. Blocks are never authored by a node that is not
  an authority or before the tasks that follow the relay chain have started. Without a para id the
  run fails before it builds anything: it only reads the command line and measures the hardware. With
  one, the network, the relay chain tasks and the authoring all use it.
\<close>

theorem node_start_up:
  assumes "sub_command c = None" and "runs_config lib env config"
    and "run features lib env c [] = (r, h)"
  shows "(case r of
        Inl e \<Rightarrow> fail_stop lib e h \<or>
          (case e of
             Panic _ \<Rightarrow> is_authority (prepare_node_config env config) \<and>
               \<not> gives_collator_key lib (prepare_node_config env config)
           | Message _ \<Rightarrow> try_get env (node_spec config) = None
           | _ \<Rightarrow> False)
      | Inr _ \<Rightarrow> try_get env (node_spec config) \<noteq> None \<and>
          (''aura::run'' \<in> set (map fst h) \<longleftrightarrow> is_authority (prepare_node_config env config))) \<and>
    (\<forall>h1 args h2. h = h1 @ (''aura::run'', args) # h2 \<longrightarrow>
       is_authority (prepare_node_config env config) \<and> ''start_relay_chain_tasks'' \<in> set (map fst h1)) \<and>
    (try_get env (node_spec config) = None \<longrightarrow>
       set (map fst h) \<subseteq> {''normalize'', ''create_runner'', ''collator_options'', ''run_node_until_exit'',
         ''create_dir_all'', ''gather_hwbench''}) \<and>
    (\<forall>relay para_id. try_get env (node_spec config) = Some (relay, para_id) \<longrightarrow> list_all (names_para para_id) h)"
proof -
  note follows = followsD [OF follows_run [OF assms(1,2)], where h = "[]"]
  have plan: "prefix (map fst h) (run_plan env c config)"
    using assms(3) follows(1,2) by (cases r) auto
  have key: "is_authority (prepare_node_config env config)"
    if "\<not> gives_collator_key lib (prepare_node_config env config)"
    using that unfolding gives_collator_key_def by blast
  have outcome: "case r of
        Inl e \<Rightarrow> fail_stop lib e h \<or>
          (case e of
             Panic _ \<Rightarrow> is_authority (prepare_node_config env config) \<and>
               \<not> gives_collator_key lib (prepare_node_config env config)
           | Message _ \<Rightarrow> try_get env (node_spec config) = None
           | _ \<Rightarrow> False)
      | Inr _ \<Rightarrow> try_get env (node_spec config) \<noteq> None \<and>
          (''aura::run'' \<in> set (map fst h) \<longleftrightarrow> is_authority (prepare_node_config env config))"
  proof (cases r)
    case (Inl e)
    with assms(3) follows(1) have "fail_stop lib e h \<or> own_error lib env config e" by blast
    with Inl key show ?thesis by (auto simp: own_error_def split: node_error.splits)
  next
    case (Inr u)
    with follows(2,3) [OF assms(3) [unfolded Inr]]
    have "map fst h = run_plan env c config" "try_get env (node_spec config) \<noteq> None" by simp_all
    with Inr show ?thesis by (simp add: run_plan_authority del: set_map)
  qed
  have prepared: "try_get env (node_spec config) = None \<longrightarrow>
       set (map fst h) \<subseteq> {''normalize'', ''create_runner'', ''collator_options'', ''run_node_until_exit'',
         ''create_dir_all'', ''gather_hwbench''}"
    using set_mono_prefix [OF plan] by (auto simp: run_plan_def prepare_plan_def node_plan_def split: if_splits)
  show ?thesis
    using outcome prepared run_plan_authors [OF plan] run_names_para [OF assms(1,2) _ assms(3)] by blast
qed

text \<open>An authority on the development specification, with telemetry and offchain workers.\<close>

definition mock_presets :: "(val, val) preset_env" where
  "mock_presets = \<lparr>dev_preset = ''development'', local_preset = ''local_testnet'', to_json = (\<lambda>_. [])\<rparr>"

definition mock_node_config :: node_config where
  "mock_node_config =
     \<lparr>config_value = Handle 0, telemetry_endpoints = Some [Str ''telemetry''], default_heap_pages = None,
      executor_options = [], is_authority = True, pool_options = Handle 1, prometheus_registry = Handle 2,
      network_config = Handle 3, offchain_worker_enabled = True,
      node_spec = development_chain_spec mock_presets,
      node_base_path = ''data'', database_path = None\<rparr>"

definition mock_node_env :: node_env where
  "mock_node_env =
     \<lparr>get_extension = (\<lambda>spec. Some (relay_chain spec, spec_para_id spec)), join = (@),
      parse = (\<lambda>_. \<lparr>cmd_base_path = Inr None, cmd_chain_id = (\<lambda>_. Inr '''')\<rparr>), executable_name = ''node'',
      config_of = (\<lambda>_. mock_node_config), prepare_node_config = (\<lambda>config. config),
      preset_env_of = mock_presets,
      from_json_file = (\<lambda>_. Inl ''no file''), relay_value = (\<lambda>_. Handle 4), spec_value = (\<lambda>_. Handle 5)\<rparr>"

definition mock_library :: library where
  "mock_library h =
     (if fst (last h) = ''build_relay_chain_interface'' then Inr (Tup [Handle 6, Opt (Some (Handle 7))])
      else Inr (Handle (length h)))"

definition mock_cli :: cli where
  "mock_cli = \<lparr>sub_command = None, run_cmd = Handle 8, no_hardware_benchmarks = False, relay_chain_args = []\<rparr>"

text \<open>
  The run of this authority ends well and authors blocks for parachain 1000; with a library that
  gives it no collator key it panics.
\<close>

definition keyless_library :: library where
  "keyless_library h =
     (if fst (last h) = ''build_relay_chain_interface'' then Inr (Tup [Handle 6, Opt None])
      else Inr (Handle (length h)))"

theorem node_start_up_witness:
  "(\<exists>h h1 args h2. run False mock_library mock_node_env mock_cli [] = (Inr (), h) \<and>
      h = h1 @ (''aura::run'', args) # h2 \<and> ''start_relay_chain_tasks'' \<in> set (map fst h1) \<and>
      list_all (names_para 1000) h) \<and>
   (\<exists>h msg. run False keyless_library mock_node_env mock_cli [] = (Inl (Panic msg), h) \<and>
      \<not> gives_collator_key keyless_library mock_node_config)"
proof -
  have start: "sub_command mock_cli = None" "runs_config lib mock_node_env mock_node_config" for lib
    by (simp_all add: mock_cli_def mock_node_env_def runs_config_def)
  have ext: "try_get mock_node_env (node_spec mock_node_config) = Some (''rococo-local'', 1000)"
    by (simp add: try_get_def mock_node_env_def mock_node_config_def development_chain_spec_def PARACHAIN_ID_def)
  have config: "prepare_node_config mock_node_env mock_node_config = mock_node_config" "is_authority mock_node_config"
    by (simp_all add: mock_node_env_def mock_node_config_def)
  obtain r h where run: "run False mock_library mock_node_env mock_cli [] = (r, h)"
    by (cases "run False mock_library mock_node_env mock_cli []")
  have "fst (run False mock_library mock_node_env mock_cli []) = Inr ()" by code_simp
  with run have ok: "r = Inr ()" by simp
  note laws = node_start_up [OF start run, unfolded ok sum.case config]
  then have "''aura::run'' \<in> set (map fst h)" using config by blast
  then obtain args where "(''aura::run'', args) \<in> set h" by auto
  then obtain h1 h2 where h: "h = h1 @ (''aura::run'', args) # h2" by (auto simp: in_set_conv_decomp)
  have "list_all (names_para 1000) h" "''start_relay_chain_tasks'' \<in> set (map fst h1)"
    using laws ext h by blast+
  with run ok h have good: "\<exists>h h1 args h2. run False mock_library mock_node_env mock_cli [] = (Inr (), h) \<and>
      h = h1 @ (''aura::run'', args) # h2 \<and> ''start_relay_chain_tasks'' \<in> set (map fst h1) \<and>
      list_all (names_para 1000) h" by blast
  obtain r' h' where run': "run False keyless_library mock_node_env mock_cli [] = (r', h')"
    by (cases "run False keyless_library mock_node_env mock_cli []")
  have "fst (run False keyless_library mock_node_env mock_cli []) =
      Inl (Panic ''Command line arguments do not allow this. qed'')" by code_simp
  with run' have panic: "r' = Inl (Panic ''Command line arguments do not allow this. qed'')" by simp
  from node_start_up [OF start run', unfolded panic config] have "\<not> gives_collator_key keyless_library mock_node_config"
    by simp
  with good run' panic show ?thesis by blast
qed

end
