(* ===== verification/Runtime_Api.thy ===== *)
theory Runtime_Api
  imports Xcm_Config Node_Command Bench_Programs
begin

text \<open>
  The rest of what the runtime itself defines: the constants of consensus, sessions, fees and
  deposits of \<open>src/runtime/src/lib.rs\<close> and \<open>src/runtime/src/configs/mod.rs\<close>, its version, the extensions
  of a transaction, and of \<open>src/runtime/src/apis.rs\<close> the functions that do more than forward, with the
  list of \<open>src/runtime/src/benchmarks.rs\<close>. The lemmas say that the numbers chosen in different places
  agree: the node with the runtime, the sessions with each other, and the benchmarks with the
  deposits.
\<close>

section \<open>Consensus and sessions\<close>

definition SLOT_DURATION :: u64 where
  "SLOT_DURATION = MILLI_SECS_PER_BLOCK"

definition UNINCLUDED_SEGMENT_CAPACITY :: u32 where
  "UNINCLUDED_SEGMENT_CAPACITY = 3"

definition BLOCK_PROCESSING_VELOCITY :: u32 where
  "BLOCK_PROCESSING_VELOCITY = 1"

definition RELAY_CHAIN_SLOT_DURATION_MILLIS :: u32 where
  "RELAY_CHAIN_SLOT_DURATION_MILLIS = 6000"

definition impl_slot_duration :: u64 where
  "impl_slot_duration = SLOT_DURATION"

text \<open>\<open>can_build\<close> is \<open>FixedVelocityConsensusHook::can_build_upon\<close> with its three constants.\<close>

definition impl_can_build_upon ::
  "(u32 \<Rightarrow> u32 \<Rightarrow> u32 \<Rightarrow> 'hash \<Rightarrow> 'slot \<Rightarrow> bool) \<Rightarrow> 'hash \<Rightarrow> 'slot \<Rightarrow> bool" where
  "impl_can_build_upon can_build included_hash slot =
     can_build RELAY_CHAIN_SLOT_DURATION_MILLIS BLOCK_PROCESSING_VELOCITY UNINCLUDED_SEGMENT_CAPACITY included_hash slot"

definition Period :: u32 where
  "Period = 6 * HOURS"

definition Offset :: u32 where
  "Offset = 0"

definition SessionLength :: u32 where
  "SessionLength = 6 * HOURS"

definition KickThreshold :: u32 where
  "KickThreshold = Period"

text \<open>
  One slot of the parachain is one slot of the relay chain per block that the relay chain accepts,
  the node assumes the same slot, and it authors for as long as the reference time of the largest
  block. A picosecond is a unit of reference time.
\<close>

lemma timing_agrees:
  "unat impl_slot_duration = unat BLOCK_PROCESSING_VELOCITY * unat RELAY_CHAIN_SLOT_DURATION_MILLIS"
  "unat RELAY_CHAIN_SLOT_DURATION_MILLIS = relay_chain_slot_duration * 1000"
  "unat (ref_time (MAXIMUM_BLOCK_WEIGHT max_pov)) = authoring_duration * 1000000000"
  "authoring_duration \<le> unat impl_slot_duration"
  by (simp_all add: impl_slot_duration_def SLOT_DURATION_def MILLI_SECS_PER_BLOCK_def BLOCK_PROCESSING_VELOCITY_def
      RELAY_CHAIN_SLOT_DURATION_MILLIS_def relay_chain_slot_duration_def authoring_duration_def
      MAXIMUM_BLOCK_WEIGHT_def saturating_mul_def)

text \<open>
  The threshold after which an idle collator is removed is a multiple of the session, as its
  comment asks, and a session is six hours without overflow.
\<close>

lemma sessions_agree:
  "Period dvd KickThreshold" "SessionLength = Period"
  "unat Period * unat MILLI_SECS_PER_BLOCK = 6 * 60 * 60 * 1000"
  by (simp_all add: KickThreshold_def SessionLength_def Period_def HOURS_def MINUTES_def MILLI_SECS_PER_BLOCK_def)

section \<open>Fees and deposits\<close>

definition UNIT :: u128 where
  "UNIT = 1000000000000"

definition MICRO_UNIT :: u128 where
  "MICRO_UNIT = 1000000"

definition TransactionByteFee :: u128 where
  "TransactionByteFee = 10 * MICRO_UNIT"

text \<open>\<open>LengthToFee\<close>, a \<open>ConstantMultiplier\<close>, as the runtime API returns it.\<close>

definition query_length_to_fee :: "u32 \<Rightarrow> u128" where
  "query_length_to_fee len = saturating_mul (ucast len) TransactionByteFee"

definition NftsItemDeposit :: u128 where
  "NftsItemDeposit = EXISTENTIAL_DEPOSIT"

definition NftsMetadataDepositBase :: u128 where
  "NftsMetadataDepositBase = EXISTENTIAL_DEPOSIT"

definition NftsAttributeDepositBase :: u128 where
  "NftsAttributeDepositBase = EXISTENTIAL_DEPOSIT"

definition NftsDepositPerByte :: u128 where
  "NftsDepositPerByte = MICRO_UNIT"

definition DepositPerItem :: u128 where
  "DepositPerItem = 100 * MICRO_UNIT"

definition DepositPerByte :: u128 where
  "DepositPerByte = MICRO_UNIT"

lemmas fee_constants =
  UNIT_def MICRO_UNIT_def TransactionByteFee_def NftsItemDeposit_def NftsMetadataDepositBase_def
  NftsAttributeDepositBase_def NftsDepositPerByte_def NftsCollectionDeposit_def EXISTENTIAL_DEPOSIT_def MILLI_UNIT_def

text \<open>The length fee is exact for every length.\<close>

lemma length_fee_exact: "unat (query_length_to_fee len) = unat len * 10000000"
proof -
  have "unat len < 2 ^ 32" using unat_less_pow [of len] by simp
  then have "unat (ucast len :: u128) = unat len" and "unat len * 10000000 < 2 ^ 128"
    by (simp_all add: unsigned_ucast_eq take_bit_nat_eq_self)
  then show ?thesis
    by (simp add: query_length_to_fee_def saturating_mul_def fee_constants unat_word_ariths)
qed

text \<open>
  The comment on the price of the benchmarks: the existential deposit is a thousandth of a unit, the
  price is ten units, and each of ten shares of ten per cent exceeds the existential deposit.
\<close>

lemma benchmark_price:
  "EXISTENTIAL_DEPOSIT * 1000 = UNIT" "PRICE = 10 * UNIT" "EXISTENTIAL_DEPOSIT < royalty_share PRICE 1000"
  by (simp_all add: fee_constants PRICE_def royalty_share_def saturating_mul_def word_less_nat_alt)

text \<open>
  The balance that the benchmarks give to an account covers twelve prices, and the deposits of a
  collection and of 5,000 items with their attribute of at most twelve bytes, beside the existential
  deposit.
\<close>

lemma benchmark_funds:
  "12 * unat PRICE + unat EXISTENTIAL_DEPOSIT \<le> (2 ^ 128 - 1) div 100000"
  "unat NftsCollectionDeposit + 5000 * (unat NftsItemDeposit + unat NftsAttributeDepositBase + 12 * unat NftsDepositPerByte)
     + unat EXISTENTIAL_DEPOSIT \<le> (2 ^ 128 - 1) div 100000"
  by (simp_all add: fee_constants PRICE_def)

section \<open>Version and transaction extensions\<close>

record runtime_version =
  spec_name_of :: string
  impl_name_of :: string
  authoring_version :: u32
  spec_version :: u32
  impl_version :: u32
  transaction_version :: u32
  system_version :: u8

definition VERSION :: runtime_version where
  "VERSION =
     \<lparr>spec_name_of = ''parachain-template-runtime'', impl_name_of = ''parachain-template-runtime'',
      authoring_version = 1, spec_version = 1, impl_version = 0, transaction_version = 1, system_version = 1\<rparr>"

datatype era = Immortal | Mortal u64 u64

datatype extension =
    CheckNonZeroSender
  | CheckSpecVersion
  | CheckTxVersion
  | CheckGenesis
  | CheckEra era
  | CheckNonce u32
  | CheckWeight
  | ChargeTransactionPayment u128
  | CheckMetadataHash bool
  | ReviveSetOrigin bool

text \<open>\<open>TxExtension\<close>: the shape of the tuple, as the position at which each extension stands.\<close>

fun tx_extension_position :: "extension \<Rightarrow> nat" where
  "tx_extension_position CheckNonZeroSender = 0"
| "tx_extension_position CheckSpecVersion = 1"
| "tx_extension_position CheckTxVersion = 2"
| "tx_extension_position CheckGenesis = 3"
| "tx_extension_position (CheckEra _) = 4"
| "tx_extension_position (CheckNonce _) = 5"
| "tx_extension_position CheckWeight = 6"
| "tx_extension_position (ChargeTransactionPayment _) = 7"
| "tx_extension_position (CheckMetadataHash _) = 8"
| "tx_extension_position (ReviveSetOrigin _) = 9"

definition get_eth_extension :: "u32 \<Rightarrow> u128 \<Rightarrow> extension list" where
  "get_eth_extension nonce tip =
     [CheckNonZeroSender, CheckSpecVersion, CheckTxVersion, CheckGenesis, CheckEra Immortal, CheckNonce nonce,
      CheckWeight, ChargeTransactionPayment tip, CheckMetadataHash False, ReviveSetOrigin True]"

text \<open>
  A transaction signed for Ethereum passes the same checks as any other, in the same order: none is
  left out, and the nonce and the tip are those of the transaction.
\<close>

lemma eth_extension_complete:
  "map tx_extension_position (get_eth_extension nonce tip) = [0..<10]"
  "\<exists>!n. CheckNonce n \<in> set (get_eth_extension nonce tip)" "CheckNonce n \<in> set (get_eth_extension nonce tip) \<Longrightarrow> n = nonce"
  "ChargeTransactionPayment t \<in> set (get_eth_extension nonce tip) \<Longrightarrow> t = tip"
  by (auto simp: get_eth_extension_def upt_rec)

section \<open>Benchmarks of the runtime\<close>

text \<open>\<open>define_benchmarks!\<close>: the pallets in their order.\<close>

definition benchmarks :: "(string \<times> runtime_pallet) list" where
  "benchmarks =
     [(''frame_system'', System), (''pallet_balances'', Balances), (''pallet_session'', Session),
      (''pallet_timestamp'', Timestamp), (''pallet_message_queue'', MessageQueue), (''pallet_sudo'', Sudo),
      (''pallet_collator_selection'', CollatorSelection), (''cumulus_pallet_parachain_system'', ParachainSystem),
      (''cumulus_pallet_xcmp_queue'', XcmpQueue), (''cumulus_pallet_weight_reclaim'', WeightReclaim),
      (''pallet_content_rights'', ContentRights), (''pallet_rights_verifier'', RightsVerifier),
      (''pallet_rights_client'', RightsClient)]"

text \<open>\<open>add_benchmark\<close> runs the selected benchmarks of one pallet and returns their batches.\<close>

definition dispatch_benchmark :: "('cfg \<Rightarrow> string \<times> runtime_pallet \<Rightarrow> string + 'batch list) \<Rightarrow> 'cfg \<Rightarrow> string + 'batch list" where
  "dispatch_benchmark add_benchmark config =
     and_then (for_each (\<lambda>p batches. and_then (add_benchmark config p) (\<lambda>new. Inr (batches @ new))) benchmarks [])
       (\<lambda>batches. if batches = [] then Inl ''Benchmark not found for this pallet.'' else Inr batches)"

lemma for_each_append:
  assumes "\<And>p. p \<in> set ps \<Longrightarrow> f p = Inr (out p)"
  shows "for_each (\<lambda>p acc. and_then (f p) (\<lambda>new. Inr (acc @ new))) ps acc = Inr (acc @ concat (map out ps))"
  using assms by (induction ps arbitrary: acc) (simp_all add: and_then_def)

text \<open>
  When the benchmarks run, the result is their batches in the order of the list, and the request is
  refused exactly when none of the pallets was selected. The three pallets of this repository are listed.
\<close>

lemma dispatch_benchmark_runs:
  assumes "\<And>p. p \<in> set benchmarks \<Longrightarrow> add_benchmark config p = Inr (out p)"
  shows "dispatch_benchmark add_benchmark config =
      (if \<forall>p\<in>set benchmarks. out p = [] then Inl ''Benchmark not found for this pallet.''
       else Inr (concat (map out benchmarks)))"
    and "{ContentRights, RightsVerifier, RightsClient} \<subseteq> snd ` set benchmarks" and "distinct (map snd benchmarks)"
proof -
  have "for_each (\<lambda>p batches. and_then (add_benchmark config p) (\<lambda>new. Inr (batches @ new))) benchmarks [] =
      Inr (concat (map out benchmarks))"
    using for_each_append [where f = "add_benchmark config" and out = out and acc = "[]", OF assms] by simp
  then show "dispatch_benchmark add_benchmark config =
      (if \<forall>p\<in>set benchmarks. out p = [] then Inl ''Benchmark not found for this pallet.''
       else Inr (concat (map out benchmarks)))"
    unfolding dispatch_benchmark_def by (simp add: and_then_def)
qed (simp_all add: benchmarks_def)

end
