(* ===== verification/Spec2Isabelle.thy ===== *)
theory Spec2Isabelle
  imports Rights_Properties Rights_Termination Rights_Availability Rights_Verifier Rights_Client Precompile Rights_Storage Xcm_Fees
    Hook_Benchmarks Verifier_Benchmarks Client_Benchmarks Cross_Chain Runtime_Genesis Xcm_Config Remote_Users Node_Command Runtime_Api
begin

text \<open>
  Verification of the content rights parachain.

  \<^bold>\<open>The program.\<close> A parachain (CCRMS) on which creators register content and sell three kinds of
  rights to it: subscriptions, packs of views and permanent ownership. Every right is a child item
  of the NFT of its content, minted with \<open>pallet_nfts\<close>. Three pallets carry the logic.
  \<open>pallet_content_rights\<close> keeps the rights, takes the payments with their royalty splits, and renews
  subscriptions in a hook at the start of each block. \<open>pallet_rights_verifier\<close> runs on another chain
  and checks, by a storage proof against a relay root and a second one against the state of CCRMS,
  what an account holds there. \<open>pallet_rights_client\<close> runs on another chain as well: its users pay
  into an escrow, it sends an XCM program that buys the right on CCRMS, and the outcome that CCRMS
  reports releases or refunds the escrow. The runtime adds the constants, a precompile through which
  contracts read the rights, and the configuration of the pallets and of XCM. The node loads a chain
  specification, answers its command line and starts a collator.

  \<^bold>\<open>Theories.\<close> File names are relative to \<open>src/\<close>.
  \<^item> \<open>Prelude\<close>: machine integers, the error combinators, transition systems with an invariant
    (locale \<open>invariant_system\<close>).
  \<^item> \<open>Weights\<close>, \<open>Content_Weights\<close>, \<open>Cross_Chain_Weights\<close>: \<open>weights.rs\<close> of the three pallets, both
    implementations of each \<open>WeightInfo\<close>, one definition per generated function. The locales
    \<open>split_weights\<close> and \<open>proof_weights\<close> are what the pallets rely on, interpreted for
    \<open>SubstrateWeight\<close> with every database weight.
  \<^item> \<open>Scale_Codec\<close>: the encodings the sources use, with the interface \<open>scale_codec\<close>.
  \<^item> \<open>Rights_Types\<close>: \<open>pallets/content-rights/src/types.rs\<close> and the storage, events, errors and
    \<open>Config\<close> of \<open>pallets/content-rights/src/lib.rs\<close>. The storage is the record \<open>state\<close>, one field per
    storage item; \<open>ext\<close> is the state of the other pallets.
  \<^item> \<open>Rights_Payment\<close>: \<open>transfer_amount\<close>, \<open>pay_with_royalties\<close>. \<open>Rights_Renewal\<close>: \<open>enqueue_renewal\<close>,
    \<open>stop_auto_renew\<close>, \<open>on_initialize\<close>, with the queue behind the locale \<open>renewal_slots\<close>.
    \<open>Rights_Calls\<close>: the helpers on child items, the access query, the nineteen extrinsics, \<open>dispatch\<close>.
  \<^item> \<open>Rights_Effects\<close>: the relation \<open>effect\<close>, what a successful call may change; every call is shown to
    be one of its rules. \<open>Rights_Invariant\<close>: the invariant \<open>rights_inv\<close>, the step relation
    \<open>chain_step\<close> (calls of any origin, blocks, activity of other pallets), and its preservation.
    \<open>Rights_Ledger\<close>: the abstract ledger that the pallet refines. \<open>Rights_Safety\<close>: who can change what.
    \<open>Rights_Charges\<close>: what calls and blocks may charge, in money and in weight. \<open>Rights_Bucket\<close>: the
    outcomes of the entries of a renewal bucket, as the inductive predicate \<open>renewal_outcome\<close>.
    \<open>Rights_Behaviour\<close>: sequences of calls, in closed form for the consumption of views.
    \<open>Rights_Storage\<close>: when a block extends a subscription.
    \<open>Rights_Termination\<close>: unpaid renewals end. \<open>Rights_Availability\<close>: a call that the ledger allows
    succeeds. \<open>Rights_Properties\<close>: the properties of the pallet, with their concrete runs.
  \<^item> \<open>Call_Codec\<close>: the indices of the nineteen calls and the order of their arguments. The decoder
    that the call macro derives is a parameter with the law \<open>call_decoder\<close>, and \<open>decode_call\<close> is an
    instance of it, built with the interface \<open>checked_codec\<close> for decoders that consume exactly what
    their encoder wrote.
  \<^item> \<open>Bench_Programs\<close>: \<open>pallets/content-rights/src/benchmarking.rs\<close>, one definition per helper and
    benchmark. \<open>Bench_Steps\<close>, \<open>Rights_Benchmarks\<close>, \<open>Hook_Benchmarks\<close>: they run to the end, and those of
    the hook reach its worst case.
  \<^item> \<open>Mock_Chain\<close>: a concrete currency and NFT pallet on which the model evaluates.
  \<^item> \<open>Rights_Verifier\<close>: \<open>pallets/rights-verifier/src/lib.rs\<close>. \<open>Rights_Client\<close>:
    \<open>pallets/rights-client/src/lib.rs\<close>. \<open>Precompile\<close>: \<open>runtime/src/precompiles.rs\<close>.
    \<open>Verifier_Completeness\<close>: honest proofs are accepted. \<open>Verifier_Benchmarks\<close>, \<open>Client_Benchmarks\<close>:
    \<open>benchmarking.rs\<close> of the two pallets, and when a request is accepted.
  \<^item> \<open>Cross_Chain\<close>: the consumer chain and the rights chain as one transition system, with the
    messages between them lost, delayed or reordered. The network between the chains is an
    abstraction of this development and not a translation of the simulator of the tests.
  \<^item> \<open>Runtime_Config\<close>, \<open>Xcm_Fees\<close>: constants, limits of a block and configurations of
    \<open>runtime/src/lib.rs\<close>, \<open>runtime/src/configs\<close> and \<open>runtime/src/weights\<close>. \<open>Runtime_Genesis\<close>:
    \<open>runtime/src/genesis_config_presets.rs\<close>, \<open>node/src/chain_spec.rs\<close> and \<open>load_spec\<close> of the node.
    \<open>Runtime_Api\<close>: the constants of consensus, sessions, fees and deposits, the version and the
    transaction extensions of \<open>runtime/src/lib.rs\<close>, and the benchmark interface of \<open>runtime/src/apis.rs\<close>.
  \<^item> \<open>Xcm_Config\<close>: \<open>runtime/src/configs/xcm_config.rs\<close>, the barrier, the conversion of locations and
    origins, and the router. \<open>Remote_Users\<close>: users of sibling chains who send messages themselves
    (\<open>integration-tests/src/lib.rs\<close>), and the XCM configuration of the test chains
    (\<open>integration-tests/src/parachain.rs\<close>) against the one of the runtime.
  \<^item> \<open>Node_Service\<close>, \<open>Node_Command\<close>: \<open>node/src/service.rs\<close> and \<open>node/src/command.rs\<close>. What the node does
    is the sequence of library calls it makes, recorded with their arguments; the predicates
    \<open>follows\<close> and \<open>calls_ok\<close> state which order of calls is kept and how it can fail.
  \<^item> This theory: the properties that connect the chains, from a request on one to the ledger of
    CCRMS, and from a purchase on CCRMS to a verification elsewhere.

  \<^bold>\<open>How the code is modelled.\<close> An operation is a function from the state to an error or a new state,
  and \<open>dispatch\<close> discards the writes of a call that fails, as the storage layer of FRAME does.
  Integers keep their width and the checked, saturating or wrapping operation of the source; block
  numbers and balances of other pallets are natural numbers where the source does not compute with
  them. No loop needs fuel: the loops run over bounded lists (ten royalty splits, ten renewals of a
  bucket) or over the window of 100 buckets in which a renewal searches its slot, and are recursive
  functions on those lists; the padding loop of the verifier's benchmarks has a measure.

  \<^bold>\<open>What is relied on.\<close> Code outside the repository is a parameter with a named law.
  \<^item> \<open>lawful_env\<close>: the collection counter of \<open>pallet_nfts\<close> is a storage cell, which the other calls of
    the pallet leave alone and other pallets never lower, and the minimum renewal period is positive. \<open>moves_funds\<close>: a successful transfer debits and
    credits its amount. Nothing is assumed of when these operations succeed.
  \<^item> \<open>client_laws\<close>: the same for the escrow currency with its existential deposit, and the query ids
    of \<open>pallet_xcm\<close>. \<open>pays_out\<close>: a payment that is covered succeeds.
  \<^item> \<open>proofs_sound\<close>, \<open>fixed_hashes\<close>, \<open>stores_rights\<close>: a checked storage proof tells the truth about the
    storage behind the root, hashes have their lengths, and the maps of CCRMS are stored under the
    keys FRAME gives them.
  \<^item> \<open>obliging\<close>: when the currency and \<open>pallet_nfts\<close> serve a call, used only where a call is shown to
    succeed; \<open>pays\<close>, \<open>delivers\<close> and \<open>proofs_complete\<close> say the same of the escrow currency, of
    \<open>pallet_xcm\<close> and of the proof checker. \<open>account_codec\<close>: accounts are encoded in 32 bytes.
  \<^item> \<open>bench_laws\<close>, \<open>commits\<close>, \<open>verifier_bench_laws\<close>, \<open>client_bench_laws\<close>: the accounts and funds of the
    benchmark harness, and the trie builder of Substrate.
  \<^item> \<open>call_decoder\<close>: the decoder of calls reads back what was encoded. \<open>executor_law\<close>, \<open>net_laws\<close>: the
    XCM executor dispatches the call of a program at most once, and reports success only of a
    dispatch that succeeded.
  \<^item> \<open>fixed_weight_bounds\<close>, \<open>block_ratio_fee\<close>: the XCM weigher and the fee conversion. \<open>keyring_laws\<close>:
    the well-known development accounts.
  \<^item> \<open>barrier_laws\<close>, \<open>converter_laws\<close>, \<open>router_laws\<close>, \<open>user_laws\<close>: what the documentation of the XCM
    builder says of its barriers, with the instructions that change the origin in front of a program
    (\<open>prefix_laws\<close>), of its converters of locations and origins and of its routers, hashes of
    different users being different.
  \<^item> \<open>runs_config\<close>, \<open>finds_extensions\<close>: the configuration that a runner carries, and the extensions of
    a chain specification. \<open>gives_collator_key\<close> is not assumed: a node panics only where it fails.

  Each of them holds for the concrete instances with which the properties are evaluated.

  \<^bold>\<open>What is shown.\<close> The storage invariant holds in every reachable state;
  receipts, the nesting index and the maps of rights agree; every call refines the ledger and the
  access query returns what the ledger grants. Conversely a call that the ledger allows succeeds
  when the other pallets can serve it. Payments conserve funds and follow the royalty plan. Renewals
  are always scheduled, the search for a slot is first-fit, a block settles its bucket and charges
  only what is due, and the renewals of an account that earns nothing end. Rights are lost only by
  acts of their holder, settings change only by the creator, content never changes. Calls and hooks
  stay within the charged weight and fit into a block, and the fee of an XCM request is enough.
  Verifications are sound for all three rights, honest proofs are accepted, and a bought ownership
  verifies until it is transferred. Endowed escrows stay solvent and every report that can be paid
  out settles its request once; across the two chains a success is reported only of a right that was
  granted, whatever happens to the messages. The call in a request is decoded as the extrinsic that
  was asked for. The benchmarks of all three pallets run to the end, so that each weight is measured
  on the path it is meant for. The barrier admits only expected answers, paid programs, and
  announced unpaid ones from above or under a claimed universal origin, and none that moves reserves
  to the relay chain; no message acts as root or as a chain it does not come from, and requests and
  reports pass from one chain to the other. Lemmas show that a remote user acts for nobody else. The
  tests decide messages like the runtime does, on the programs they send. A node starts nothing
  behind a failure, panics only as an authority without a collator key, authors blocks only as an
  authority and after the relay chain tasks, and uses the para id of its specification throughout.
  The constants of time, sessions and fees agree with each other, and a block has room for a call
  beside the hooks and the reserved messages. Error branches are characterised for the checks on
  origins, splits, views, proofs and reports. Two properties describe behaviour a user may not
  expect: the escrow account without an endowment can be reaped while requests are pending
  (\<open>escrow_stranded\<close>), and a viewer who burns the item of a pack keeps the pack and
  with it access for good (\<open>unburnable_pack_never_ends\<close>).

  \<^bold>\<open>Not modelled.\<close> The remaining runtime APIs of \<open>runtime/src/apis.rs\<close> and the argument forwarders of
  the relay chain in \<open>node/src/command.rs\<close> only hand their arguments to the polkadot-sdk, and the
  configurations of third-party pallets are lists of types and constants whose meaning lies in those
  pallets. The XCM executor is a relation with a law and not a program. Test cases, the other parts
  of the mock runtimes and scripts are not part of the running program.

  \<^bold>\<open>Further work.\<close> The decoding of the stored metadata of content.
\<close>

section \<open>From a request to the ledger of the rights chain\<close>

text \<open>
  C7: A request delivers what it asks for: after a successful request the escrow is pending under
  some query, the message handed to \<open>pallet_xcm\<close> names that query and carries one call, the runtime of
  the rights chain decodes this call as exactly the \<open>xcm_*\<close> extrinsic of the request with its arguments
  and the caller as beneficiary, and whenever that extrinsic succeeds for the sovereign account in a
  reachable state, the caller holds the requested right on the ledger.
\<close>

theorem request_delivers:
  assumes "request cl og req amount cs = Inr cs'" and "client_signed cl og = Inr a"
    and "decode_account rc (encode_account_id cl a) = Some a"
    and "rights_pallet_index cl = pallet_index ContentRights"
    and "call_decoder (pallet_index ContentRights) (decode_account rc) dec"
    and "reachable initial_state (chain_step rc env) s" and "lawful_env rc env"
  shows "\<exists>q x h kind bytes.
    pending cs' q = Some \<lparr>who = a, escrow = amount, request_of = req, sent_at = client_block cs\<rparr> \<and>
    send_xcm cl (rights_chain cl) (rights_message cl bytes q) x = Inr (h, client_ext cs') \<and>
    transacts (rights_message cl bytes q) = [(kind, bytes)] \<and> dec bytes = Some (requested_call req a) \<and>
    (\<forall>sov w s'. dispatch rc (Signed sov) (requested_call req a) s = Inr (w, s') \<longrightarrow>
       entitles req a (current_block s) (ledger_of s) (ledger_of s'))"
proof -
  have inv: "rights_inv rc s" using assms(6,7) by (rule reachable_rights_inv)
  let ?bytes = "remote_call cl req (encode_account_id cl a)"
  from assms(1) obtain x1 q x2 h where len: "length (encode_account_id cl a) = 32"
    and sent: "send_xcm cl (rights_chain cl) (rights_message cl ?bytes q) x2 = Inr (h, client_ext cs')"
    and pend: "pending cs' q = Some \<lparr>who = a, escrow = amount, request_of = req, sent_at = client_block cs\<rparr>"
    using assms(2) by (elim request_cases) auto
  have "dec ?bytes = Some (requested_call req a)"
    by (rule decode_remote_call [OF assms(5) [folded assms(4)] assms(3) len])
  moreover have "transacts (rights_message cl ?bytes q) = [(SovereignAccount, ?bytes)]"
    by (simp add: transacts_def rights_message_def Let_def)
  ultimately show ?thesis using sent pend requested_call_entitles [OF inv] by blast
qed

theorem request_delivers_witness:
  "\<exists>q bytes. pending (mock_requested 10) q =
       Some \<lparr>who = 1, escrow = 100, request_of = Req_Subscribe 0, sent_at = 3\<rparr> \<and>
     decode_call (decode_account mock) 51 bytes = Some (XcmSubscribe 0 1) \<and>
     (\<forall>sov w s'. dispatch mock (Signed sov) (XcmSubscribe 0 1) mock_s1 = Inr (w, s') \<longrightarrow>
        entitles (Req_Subscribe 0) 1 (current_block mock_s1) (ledger_of mock_s1) (ledger_of s'))"
proof -
  have run: "request mock_client (Inl 1) (Req_Subscribe 0) 100 (mock_client_state 10) =
      Inr (mock_requested 10)"
    by (simp add: client_run_simps)
  have acct: "decode_account mock (encode_account_id mock_client 1) = Some 1"
    by (simp add: mock_def mock_decode_account_def)
  have now: "client_block (mock_client_state 10) = 3" by (simp add: mock_client_state_def)
  have index: "rights_pallet_index mock_client = pallet_index ContentRights" by simp
  from request_delivers [OF run mock_client_fields(6) acct index decode_call_decoder mock_s1_reachable mock_lawful_env,
      unfolded now]
  show ?thesis by (simp only: pallet_index.simps requested_call.simps) blast
qed

section \<open>From a purchase to a verification on another chain\<close>

text \<open>Steps of the rights chain in which an account does not give an ownership away.\<close>

definition keeps_ownership ::
  "('a, 'x) config \<Rightarrow> ('x \<Rightarrow> 'x \<Rightarrow> bool) \<Rightarrow> u32 \<Rightarrow> 'a \<Rightarrow> ('a, 'x) state \<Rightarrow> ('a, 'x) state \<Rightarrow> bool" where
  "keeps_ownership rc env c a s t \<longleftrightarrow>
     chain_step rc env s t \<and>
     \<not> (\<exists>b. t = apply_call rc (Signed a) (TransferOwnership c b) s \<or>
           t = apply_call rc (Signed a) (XcmTransferOwnership c a b) s)"

lemma keeps_ownership_steps:
  assumes "(keeps_ownership rc env c a)\<^sup>*\<^sup>* s t" and "ownership s (c, a) = Some info"
  shows "ownership t (c, a) = Some info"
  using assms
proof induction
  case (step u v)
  then have "ownership u (c, a) = Some info" by simp
  with step(2) chain_step_ownership_lost show ?case
    unfolding keeps_ownership_def by (metis (no_types))
qed simp

text \<open>
  C8: Bought means provable: when a purchase of an ownership (local, or paid by a sovereign
  account over XCM) succeeds in a reachable state of the rights chain, every verification on
  another chain against a later state of the rights chain reports the buyer as the owner, as long
  as the buyer has not transferred the ownership in between.
\<close>

theorem bought_ownership_verifies:
  assumes "reachable initial_state (chain_step rc env) s" and "lawful_env rc env"
    and "dispatch rc (Signed payer) act s = Inr (w, s1)"
    and "act = XcmPurchaseOwnership c a \<or> act = PurchaseOwnership c \<and> payer = a"
    and "(keeps_ownership rc env c a)\<^sup>*\<^sup>* s1 t"
    and "proves_state vc stored vs relay_block t n"
    and "verify_ownership vc og relay_block rp cp c a vs = Inr vs'"
  shows "verifier_events vs' = verifier_events vs @ [OwnershipVerified c a True relay_block n]"
proof -
  have "decodable act" using assms(4) by auto
  from effect_refines [OF dispatch_effect [OF assms(3) this] reachable_rights_inv [OF assms(1,2)]]
  have "(c, a) \<in> owners (ledger_of s1)" using assms(4) by auto
  then obtain info where "ownership s1 (c, a) = Some info" by (auto simp: ledger_of_def)
  from keeps_ownership_steps [OF assms(5) this]
  have "Ownership \<in> rights_held n c a (ledger_of t)" by (auto simp: rights_held_def ledger_of_def)
  with verify_ownership_correct [OF assms(6,7)] show ?thesis by simp
qed

theorem bought_ownership_verifies_witness:
  "\<exists>vs'. verify_ownership mock_verifier (Signed 1) 77 [] [] 0 2 mock_vs = Inr vs' \<and>
     verifier_events vs' = [OwnershipVerified 0 2 True 77 5]"
proof -
  obtain w s1 where bought: "dispatch mock (Signed 2) (PurchaseOwnership 0) mock_unbought = Inr (w, s1)"
    and maps: "ownership s1 = ownership mock_s1" "subscriptions s1 = subscriptions mock_s1"
      "view_packs s1 = view_packs mock_s1"
    by (rule mock_bought)
  have world: "proves_state mock_verifier mock_stored mock_vs 77 s1 5"
    using mock_proves_state unfolding proves_state_cong [OF maps] .
  obtain vs' where run: "verify_ownership mock_verifier (Signed 1) 77 [] [] 0 2 mock_vs = Inr vs'"
    by (simp add: verify_ownership_def verifier_signed_def mock_entry lift_error_def mock_rights_storage_def)
  have "verifier_events vs' = verifier_events mock_vs @ [OwnershipVerified 0 2 True 77 5]"
    by (rule bought_ownership_verifies [OF mock_unbought_reachable mock_lawful_env bought _ _ world run])
       simp_all
  with run show ?thesis by (simp add: mock_vs_def)
qed

end
